(* ===== verification/SeaPrelude.thy ===== *)
theory SeaPrelude
  imports Main "HOL-Library.AList" "HOL-Library.Multiset" "HOL-Library.Word"
begin

text \<open>
  Shared vocabulary of the development: outcomes of Rust functions (a returned value, a panic,
  a computation that does not return), the \<open>?\<close> operator on \<open>Result\<close>, the standard
  library's hash map with the laws the components rely on, and decimal printing.
\<close>

named_theorems run_simps \<open>equations of the outcome and result combinators\<close>
named_theorems hm_simps \<open>lookup equations of the hash map operations\<close>

section \<open>Outcomes\<close>

text \<open>
  A Rust function that can panic or loop has an outcome: \<open>Ret v\<close> when it returns \<open>v\<close>,
  \<open>Panic m\<close> when it unwinds with the message \<open>m\<close>, \<open>Diverge\<close> when it does not return.
  \<open>Result<T, E>\<close> is the sum \<open>'e + 'a\<close> with \<open>Inl\<close> for \<open>Err\<close>.
\<close>

datatype 'a run = Ret 'a | Panic string | Diverge

type_synonym ('a, 'e) result = "'e + 'a"

fun run_bind :: "'a run \<Rightarrow> ('a \<Rightarrow> 'b run) \<Rightarrow> 'b run" where
  "run_bind (Ret v) f = f v"
| "run_bind (Panic m) f = Panic m"
| "run_bind Diverge f = Diverge"

fun run_of_option :: "'a option \<Rightarrow> 'a run" where
  "run_of_option None = Diverge"
| "run_of_option (Some v) = Ret v"

fun expect :: "'a option \<Rightarrow> string \<Rightarrow> 'a run" where
  "expect None m = Panic m"
| "expect (Some v) m = Ret v"

fun res_bind :: "('a, 'e) result \<Rightarrow> ('a \<Rightarrow> ('b, 'e) result) \<Rightarrow> ('b, 'e) result" where
  "res_bind (Inl e) f = Inl e"
| "res_bind (Inr v) f = f v"

fun map_err :: "('e \<Rightarrow> 'f) \<Rightarrow> ('a, 'e) result \<Rightarrow> ('a, 'f) result" where
  "map_err f (Inl e) = Inl (f e)"
| "map_err f (Inr v) = Inr v"

fun ok_or :: "'a option \<Rightarrow> 'e \<Rightarrow> ('a, 'e) result" where
  "ok_or None e = Inl e"
| "ok_or (Some v) e = Inr v"

text \<open>The \<open>?\<close> operator in a function that may also panic or not return.\<close>

fun run_try :: "('a, 'e) result run \<Rightarrow> ('a \<Rightarrow> ('b, 'e) result run) \<Rightarrow> ('b, 'e) result run" where
  "run_try (Ret (Inr v)) f = f v"
| "run_try (Ret (Inl e)) f = Ret (Inl e)"
| "run_try (Panic m) f = Panic m"
| "run_try Diverge f = Diverge"

text \<open>A \<open>for\<close> loop whose body may leave the function with \<open>?\<close>.\<close>

fun try_fold :: "('x \<Rightarrow> 's \<Rightarrow> ('s, 'e) result) \<Rightarrow> 'x list \<Rightarrow> 's \<Rightarrow> ('s, 'e) result" where
  "try_fold f [] s = Inr s"
| "try_fold f (x # xs) s = res_bind (f x s) (try_fold f xs)"

text \<open>A \<open>collect::<Result<Vec<_>, _>>()\<close>: the first error wins.\<close>

fun try_map :: "('x \<Rightarrow> ('y, 'e) result) \<Rightarrow> 'x list \<Rightarrow> ('y list, 'e) result" where
  "try_map f [] = Inr []"
| "try_map f (x # xs) = res_bind (f x) (\<lambda>y. res_bind (try_map f xs) (\<lambda>ys. Inr (y # ys)))"

fun run_map :: "('x \<Rightarrow> 'y run) \<Rightarrow> 'x list \<Rightarrow> 'y list run" where
  "run_map f [] = Ret []"
| "run_map f (x # xs) = run_bind (f x) (\<lambda>y. run_bind (run_map f xs) (\<lambda>ys. Ret (y # ys)))"

lemma run_bind_Ret_iff [run_simps]:
  "run_bind r f = Ret v \<longleftrightarrow> (\<exists>u. r = Ret u \<and> f u = Ret v)"
  by (cases r) auto

lemma run_try_Ret_Inr_iff [run_simps]:
  "run_try r f = Ret (Inr v) \<longleftrightarrow> (\<exists>u. r = Ret (Inr u) \<and> f u = Ret (Inr v))"
  by (cases "(r, f)" rule: run_try.cases) auto

lemma run_try_Ret_Inl_iff [run_simps]:
  "run_try r f = Ret (Inl e) \<longleftrightarrow>
    r = Ret (Inl e) \<or> (\<exists>u. r = Ret (Inr u) \<and> f u = Ret (Inl e))"
  by (cases "(r, f)" rule: run_try.cases) auto

lemma res_bind_Inr_iff [run_simps]:
  "res_bind r f = Inr v \<longleftrightarrow> (\<exists>u. r = Inr u \<and> f u = Inr v)"
  by (cases r) auto

lemma res_bind_Inl_iff [run_simps]:
  "res_bind r f = Inl e \<longleftrightarrow> r = Inl e \<or> (\<exists>u. r = Inr u \<and> f u = Inl e)"
  by (cases r) auto

lemma map_err_Inr_iff [run_simps]: "map_err f r = Inr v \<longleftrightarrow> r = Inr v"
  by (cases r) auto

lemma map_err_Inl_iff [run_simps]: "map_err f r = Inl e \<longleftrightarrow> (\<exists>d. r = Inl d \<and> e = f d)"
  by (cases r) auto

lemma ok_or_Inr_iff [run_simps]: "ok_or x e = Inr v \<longleftrightarrow> x = Some v"
  by (cases x) auto

lemma ok_or_Inl_iff [run_simps]: "ok_or x e = Inl d \<longleftrightarrow> x = None \<and> d = e"
  by (cases x) auto

lemma run_of_option_Ret_iff [run_simps]: "run_of_option x = Ret v \<longleftrightarrow> x = Some v"
  by (cases x) auto

lemma run_of_option_not_Panic [run_simps]: "run_of_option x \<noteq> Panic m"
  by (cases x) auto

lemma expect_Ret_iff [run_simps]: "expect x m = Ret v \<longleftrightarrow> x = Some v"
  by (cases x) auto

lemma run_map_cong:
  "(\<And>x. x \<in> set xs \<Longrightarrow> f x = g x) \<Longrightarrow> run_map f xs = run_map g xs"
  by (induction xs) auto

lemma run_map_Ret: "(\<And>x. x \<in> set xs \<Longrightarrow> f x = Ret (g x)) \<Longrightarrow> run_map f xs = Ret (map g xs)"
  by (induction xs) auto

lemma run_map_Ret_iff: "run_map f xs = Ret ys \<longleftrightarrow> list_all2 (\<lambda>x y. f x = Ret y) xs ys"
  by (induction xs arbitrary: ys) (auto simp: run_simps list_all2_Cons1)

lemma try_map_Inr_iff: "try_map f xs = Inr ys \<longleftrightarrow> list_all2 (\<lambda>x y. f x = Inr y) xs ys"
  by (induction xs arbitrary: ys) (auto simp: run_simps list_all2_Cons1)

lemma try_map_all_Inr:
  "(\<And>x. x \<in> set xs \<Longrightarrow> f x = Inr (g x)) \<Longrightarrow> try_map f xs = Inr (map g xs)"
  by (induction xs) auto

section \<open>Hash maps\<close>

text \<open>
  \<open>std::collections::HashMap\<close> is a list of entries with distinct keys; the list order is the
  map's iteration order, which Rust leaves open, so a property of code that iterates over a map
  is stated for every order (\<open>hm_same\<close>: the same entries, another order). \<open>hm_modify\<close> is
  \<open>entry(k).or_default()\<close> followed by a mutation of the slot.
\<close>

type_synonym ('k, 'v) hashmap = "('k \<times> 'v) list"

definition hm_get :: "('k, 'v) hashmap \<Rightarrow> 'k \<Rightarrow> 'v option" where
  "hm_get m k = map_of m k"

definition hm_insert :: "'k \<Rightarrow> 'v \<Rightarrow> ('k, 'v) hashmap \<Rightarrow> ('k, 'v) hashmap" where
  "hm_insert k v m = AList.update k v m"

definition hm_modify :: "'k \<Rightarrow> 'v \<Rightarrow> ('v \<Rightarrow> 'v) \<Rightarrow> ('k, 'v) hashmap \<Rightarrow> ('k, 'v) hashmap" where
  "hm_modify k d f m = AList.update k (f (case map_of m k of None \<Rightarrow> d | Some v \<Rightarrow> v)) m"

definition hm_remove :: "'k \<Rightarrow> ('k, 'v) hashmap \<Rightarrow> ('k, 'v) hashmap" where
  "hm_remove k m = AList.delete k m"

definition hm_contains :: "('k, 'v) hashmap \<Rightarrow> 'k \<Rightarrow> bool" where
  "hm_contains m k = (hm_get m k \<noteq> None)"

definition hm_keys :: "('k, 'v) hashmap \<Rightarrow> 'k list" where
  "hm_keys m = map fst m"

definition hm_values :: "('k, 'v) hashmap \<Rightarrow> 'v list" where
  "hm_values m = map snd m"

definition hm_wf :: "('k, 'v) hashmap \<Rightarrow> bool" where
  "hm_wf m = distinct (map fst m)"

definition hm_same :: "('k, 'v) hashmap \<Rightarrow> ('k, 'v) hashmap \<Rightarrow> bool" where
  "hm_same m m' = (mset m = mset m')"

text \<open>
  The interface the components program against: what a lookup returns after each operation, and
  the well-formedness every operation keeps. Lemmas about loops that fill a map are proved once
  from these laws.
\<close>

locale hash_map =
  fixes empty :: "'m"
    and get :: "'m \<Rightarrow> 'k \<Rightarrow> 'v option"
    and ins :: "'k \<Rightarrow> 'v \<Rightarrow> 'm \<Rightarrow> 'm"
    and modif :: "'k \<Rightarrow> 'v \<Rightarrow> ('v \<Rightarrow> 'v) \<Rightarrow> 'm \<Rightarrow> 'm"
    and rem :: "'k \<Rightarrow> 'm \<Rightarrow> 'm"
    and wf :: "'m \<Rightarrow> bool"
  assumes get_empty: "get empty k = None"
    and get_ins: "get (ins k v m) j = (if j = k then Some v else get m j)"
    and get_modif: "get (modif k d f m) j =
      (if j = k then Some (f (case get m k of None \<Rightarrow> d | Some v \<Rightarrow> v)) else get m j)"
    and get_rem: "get (rem k m) j = (if j = k then None else get m j)"
    and wf_empty: "wf empty"
    and wf_ins: "wf m \<Longrightarrow> wf (ins k v m)"
    and wf_modif: "wf m \<Longrightarrow> wf (modif k d f m)"
    and wf_rem: "wf m \<Longrightarrow> wf (rem k m)"
begin

text \<open>A loop of inserts keeps the last value stored under each key.\<close>

lemma get_fold_ins:
  "get (fold (\<lambda>x. ins (key x) (val x)) xs m) k =
    (case map_of (rev (map (\<lambda>x. (key x, val x)) xs)) k of None \<Rightarrow> get m k | Some v \<Rightarrow> Some v)"
  by (induction xs arbitrary: m) (auto simp: get_ins map_add_def split: option.splits)

lemma wf_fold_ins: "wf m \<Longrightarrow> wf (fold (\<lambda>x. ins (key x) (val x)) xs m)"
  by (induction xs arbitrary: m) (auto intro: wf_ins)

text \<open>A loop of \<open>entry().or_default()\<close> mutations folds the rows of each key, in order.\<close>

lemma get_fold_modif:
  "get (fold (\<lambda>x. modif (key x) d (add x)) xs m) k =
    (if filter (\<lambda>x. key x = k) xs = [] then get m k
     else Some (fold add (filter (\<lambda>x. key x = k) xs)
       (case get m k of None \<Rightarrow> d | Some v \<Rightarrow> v)))"
  by (induction xs arbitrary: m) (auto simp: get_modif filter_empty_conv split: option.splits)

lemma wf_fold_modif: "wf m \<Longrightarrow> wf (fold (\<lambda>x. modif (key x) d (add x)) xs m)"
  by (induction xs arbitrary: m) (auto intro: wf_modif)

lemma get_fold_modif_empty:
  "get (fold (\<lambda>x. modif (key x) d (add x)) xs empty) k =
    (if k \<in> key ` set xs then Some (fold add (filter (\<lambda>x. key x = k) xs) d) else None)"
  by (auto simp: get_fold_modif get_empty filter_empty_conv)

lemma get_fold_ins_empty:
  "get (fold (\<lambda>x. ins (key x) (val x)) xs empty) k = map_of (rev (map (\<lambda>x. (key x, val x)) xs)) k"
  by (simp add: get_fold_ins get_empty split: option.splits)

end

interpretation hm: hash_map "[]" hm_get hm_insert hm_modify hm_remove hm_wf
  by unfold_locales
    (auto simp: hm_get_def hm_insert_def hm_modify_def hm_remove_def hm_wf_def
      update_conv' delete_conv' distinct_update distinct_delete split: option.splits)

lemmas [hm_simps] = hm.get_empty hm.get_ins hm.get_modif hm.get_rem
lemmas [intro] = hm.wf_ins hm.wf_modif hm.wf_rem

lemma hm_wf_Nil [simp]: "hm_wf []"
  by (rule hm.wf_empty)

lemma hm_get_in_set: "hm_get m k = Some v \<Longrightarrow> (k, v) \<in> set m"
  by (simp add: hm_get_def map_of_SomeD)

lemma hm_get_iff: "hm_wf m \<Longrightarrow> hm_get m k = Some v \<longleftrightarrow> (k, v) \<in> set m"
  by (simp add: hm_get_def hm_wf_def)

lemma hm_same_wf: "hm_same m m' \<Longrightarrow> hm_wf m = hm_wf m'"
  unfolding hm_same_def hm_wf_def by (rule mset_eq_imp_distinct_iff) (simp only: mset_map)

lemma hm_same_set: "hm_same m m' \<Longrightarrow> set m = set m'"
  unfolding hm_same_def by (rule mset_eq_setD)

lemma hm_same_get:
  assumes "hm_same m m'" "hm_wf m"
  shows "hm_get m k = hm_get m' k"
proof -
  have wf': "hm_wf m'" using assms(2) hm_same_wf[OF assms(1)] by simp
  have iff: "hm_get m k = Some v \<longleftrightarrow> hm_get m' k = Some v" for v
    by (simp add: hm_get_iff[OF assms(2)] hm_get_iff[OF wf'] hm_same_set[OF assms(1)])
  show ?thesis
  proof (cases "hm_get m' k")
    case None
    show ?thesis
    proof (cases "hm_get m k")
      case (Some u)
      with iff[of u] None show ?thesis by simp
    qed (simp add: None)
  next
    case (Some v)
    with iff[of v] show ?thesis by simp
  qed
qed

lemma map_of_rev_key:
  "distinct (map key xs) \<Longrightarrow>
    map_of (rev (map (\<lambda>x. (key x, val x)) xs)) k = Some v \<longleftrightarrow>
      (\<exists>x\<in>set xs. key x = k \<and> val x = v)"
  by (subst map_of_eq_Some_iff) (auto simp: rev_map[symmetric] comp_def)

lemma map_of_rev_key_None:
  "map_of (rev (map (\<lambda>x. (key x, val x)) xs)) k = None \<longleftrightarrow> k \<notin> key ` set xs"
  by (simp add: map_of_eq_None_iff image_image)

lemma map_of_rev_find: "map_of (rev (map (\<lambda>x. (key x, x)) xs)) k = find (\<lambda>x. key x = k) (rev xs)"
proof -
  have "map_of (map (\<lambda>x. (key x, x)) ys) k = find (\<lambda>x. key x = k) ys" for ys
    by (induction ys) auto
  then show ?thesis by (simp add: rev_map)
qed

lemma find_append: "find P (xs @ ys) = (case find P xs of Some x \<Rightarrow> Some x | None \<Rightarrow> find P ys)"
  by (induction xs) auto

lemma find_rev_filter: "find P (rev (filter Q xs)) = find (\<lambda>x. Q x \<and> P x) (rev xs)"
proof -
  have "find P (filter Q ys) = find (\<lambda>x. Q x \<and> P x) ys" for ys by (induction ys) auto
  then show ?thesis by (simp add: rev_filter)
qed

section \<open>Printing\<close>

text \<open>\<open>Display\<close> of the unsigned and signed integers.\<close>

fun show_nat :: "nat \<Rightarrow> string" where
  "show_nat n = (if n < 10 then [char_of (48 + n)]
     else show_nat (n div 10) @ [char_of (48 + n mod 10)])"

declare show_nat.simps [simp del]

definition show_int :: "int \<Rightarrow> string" where
  "show_int i = (if i < 0 then CHR ''-'' # show_nat (nat (- i)) else show_nat (nat i))"

text \<open>The number a decimal string shows; printing is injective.\<close>

definition digits_value :: "string \<Rightarrow> nat" where
  "digits_value s = foldl (\<lambda>n c. 10 * n + (of_char c - 48)) 0 s"

lemma digits_value_show_nat [simp]: "digits_value (show_nat n) = n"
proof (induction n rule: less_induct)
  case (less n)
  have digit: "of_char (char_of (48 + k)) - 48 = k" if "k < 10" for k :: nat
    using that by simp
  show ?case
  proof (cases "n < 10")
    case True
    then show ?thesis by (subst show_nat.simps) (simp add: digits_value_def digit)
  next
    case False
    then have "digits_value (show_nat n) = 10 * digits_value (show_nat (n div 10)) + n mod 10"
      by (subst show_nat.simps) (simp add: digits_value_def digit)
    also have "\<dots> = n" using less[of "n div 10"] False by simp
    finally show ?thesis .
  qed
qed

lemma show_nat_inject [simp]: "show_nat i = show_nat j \<longleftrightarrow> i = j"
  by (metis digits_value_show_nat)

text \<open>\<open>[String]::join\<close>.\<close>

fun join :: "string \<Rightarrow> string list \<Rightarrow> string" where
  "join sep [] = []"
| "join sep [x] = x"
| "join sep (x # y # xs) = x @ sep @ join sep (y # xs)"

section \<open>Searching strings\<close>

text \<open>\<open>str::strip_prefix\<close>, \<open>str::split_once\<close> (first occurrence) and \<open>str::rsplit_once\<close>
  (last occurrence), for a pattern that is not empty.\<close>

fun strip_prefix :: "string \<Rightarrow> string \<Rightarrow> string option" where
  "strip_prefix [] s = Some s"
| "strip_prefix (p # ps) [] = None"
| "strip_prefix (p # ps) (c # cs) = (if p = c then strip_prefix ps cs else None)"

fun split_once :: "string \<Rightarrow> string \<Rightarrow> (string \<times> string) option" where
  "split_once pat [] = None"
| "split_once pat (c # cs) =
    (case strip_prefix pat (c # cs) of
       Some rest \<Rightarrow> Some ([], rest)
     | None \<Rightarrow> map_option (\<lambda>(a, b). (c # a, b)) (split_once pat cs))"

fun rsplit_once :: "string \<Rightarrow> string \<Rightarrow> (string \<times> string) option" where
  "rsplit_once pat [] = None"
| "rsplit_once pat (c # cs) =
    (case rsplit_once pat cs of
       Some (a, b) \<Rightarrow> Some (c # a, b)
     | None \<Rightarrow> map_option (\<lambda>rest. ([], rest)) (strip_prefix pat (c # cs)))"

lemma strip_prefix_append [simp]: "strip_prefix p (p @ s) = Some s"
  by (induction p) auto

lemma strip_prefix_Some: "strip_prefix p s = Some r \<Longrightarrow> s = p @ r"
  by (induction p s rule: strip_prefix.induct) (auto split: if_splits)

lemma split_once_char: "c \<notin> set xs \<Longrightarrow> split_once [c] (xs @ c # ys) = Some (xs, ys)"
  by (induction xs) auto

text \<open>The last occurrence of the pattern is found when none starts behind it.\<close>

lemma rsplit_once_last:
  assumes "p \<noteq> []" "rsplit_once p (tl (p @ ys)) = None"
  shows "rsplit_once p (xs @ p @ ys) = Some (xs, ys)"
proof (induction xs)
  case Nil
  with assms show ?case by (cases p) (auto simp del: strip_prefix.simps(3) dest: arg_cong[of _ _ hd]
    simp: strip_prefix_append[of p ys, symmetric])
next
  case (Cons x xs)
  then show ?case by simp
qed

lemma strip_prefix_None: "strip_prefix p s = None \<Longrightarrow> s \<noteq> p @ r"
  by auto

lemma rsplit_once_None:
  assumes "p \<noteq> []"
  shows "rsplit_once p s = None \<longleftrightarrow> (\<forall>a b. s \<noteq> a @ p @ b)"
proof (induction s)
  case Nil
  then show ?case using assms by simp
next
  case (Cons c cs)
  have "(\<forall>a b. c # cs \<noteq> a @ p @ b) \<longleftrightarrow> (\<forall>a b. cs \<noteq> a @ p @ b) \<and> strip_prefix p (c # cs) = None"
  proof
    assume all: "\<forall>a b. c # cs \<noteq> a @ p @ b"
    have "cs \<noteq> a @ p @ b" for a b using all[rule_format, of "c # a" b] by simp
    moreover have "strip_prefix p (c # cs) = None"
      using all[rule_format, of "[]"] strip_prefix_Some[of p "c # cs"]
      by (cases "strip_prefix p (c # cs)") auto
    ultimately show "(\<forall>a b. cs \<noteq> a @ p @ b) \<and> strip_prefix p (c # cs) = None" by simp
  next
    assume none: "(\<forall>a b. cs \<noteq> a @ p @ b) \<and> strip_prefix p (c # cs) = None"
    show "\<forall>a b. c # cs \<noteq> a @ p @ b"
    proof (intro allI)
      fix a b
      show "c # cs \<noteq> a @ p @ b"
        using none strip_prefix_None[of p "c # cs" b] by (cases a) auto
    qed
  qed
  with Cons show ?case by (auto split: option.splits simp del: strip_prefix.simps)
qed

text \<open>A text with exactly two occurrences of a character splits at it in two ways.\<close>

lemma two_occurrences:
  assumes "u @ q # v @ [q] = a @ q # b" "q \<notin> set u" "q \<notin> set v"
  shows "(a = u \<and> b = v @ [q]) \<or> (a = u @ q # v \<and> b = [])"
proof -
  have split: "x = x' \<and> y = y'" if "x @ q # y = x' @ q # y'" "q \<notin> set x" "q \<notin> set x'"
    for x x' y y' :: "'a list"
    using that
  proof (induction x arbitrary: x')
    case Nil
    then show ?case by (cases x') auto
  next
    case (Cons z x)
    then show ?case by (cases x') auto
  qed
  show ?thesis
  proof (cases "q \<in> set a")
    case False
    with split[OF assms(1,2)] show ?thesis by auto
  next
    case True
    then obtain a1 a2 where a: "a = a1 @ q # a2" "q \<notin> set a1" by (meson split_list_first)
    then have "u @ q # v @ [q] = a1 @ q # (a2 @ q # b)" using assms(1) by simp
    from split[OF this assms(2) a(2)] have v: "u = a1" "v @ [q] = a2 @ q # b" by auto
    have "q \<notin> set a2"
    proof
      assume "q \<in> set a2"
      then have "count_list (v @ [q]) q \<ge> 2" unfolding v(2)
        using count_list_0_iff[of a2 q] by (simp add: count_list_append Suc_le_eq)
      with assms(3) show False by (simp add: count_list_append count_notin)
    qed
    with split[of v "[]" a2 b] v assms(3) a(1) show ?thesis by auto
  qed
qed

end
