(* ===== verification/SeaErrors.thy ===== *)
theory SeaErrors
  imports SeaPrelude
begin

text \<open>
  \<open>src/error.rs\<close>: the error type \<open>DbErr\<close> with its \<open>Display\<close> texts (its equality compares
  them), the constructors' helpers, and \<open>DbErr::sql_err\<close>, the portable classification of
  driver errors. An error of the sqlx or rusqlite crate is what the code observes of it: the
  driver it came from, its code, its number and its messages.
\<close>

datatype conn_acquire_err = Timeout | ConnectionClosed

datatype sqlx_driver = MySqlDriver | PostgresDriver | SqliteDriver | OtherDriver

record sqlx_database_error =
  dbe_driver :: sqlx_driver
  dbe_code :: "string option"
  dbe_number :: nat
  dbe_message :: string

datatype sqlx_error = SqlxDatabase sqlx_database_error | SqlxOther

datatype rusqlite_error = SqliteFailure int string "string option" | RusqliteOther

datatype runtime_err =
    SqlxError sqlx_error string
  | Rusqlite rusqlite_error string
  | Internal string

datatype db_err =
    ConnectionAcquire conn_acquire_err
  | TryIntoErr string string string
  | Conn runtime_err
  | Exec runtime_err
  | Query runtime_err
  | ConvertFromU64 string
  | UnpackInsertId
  | UpdateGetPrimaryKey
  | RecordNotFound string
  | AttrNotSet string
  | Custom string
  | Type string
  | Json string
  | Migration string
  | RecordNotInserted
  | RecordNotUpdated
  | BackendNotSupported string string
  | KeyArityMismatch "8 word" "8 word"
  | PrimaryKeyNotSet string
  | RbacErr string
  | AccessDenied string string
  | MutexPoisonError

fun conn_acquire_err_display :: "conn_acquire_err \<Rightarrow> string" where
  "conn_acquire_err_display Timeout = ''Connection pool timed out''"
| "conn_acquire_err_display ConnectionClosed = ''Connection closed''"

fun runtime_err_display :: "runtime_err \<Rightarrow> string" where
  "runtime_err_display (SqlxError e d) = d"
| "runtime_err_display (Rusqlite e d) = d"
| "runtime_err_display (Internal s) = s"

fun db_err_display :: "db_err \<Rightarrow> string" where
  "db_err_display (ConnectionAcquire e) =
     ''Failed to acquire connection from pool: '' @ conn_acquire_err_display e"
| "db_err_display (TryIntoErr f i src) =
     ''Error converting `'' @ f @ ''` into `'' @ i @ ''`: '' @ src"
| "db_err_display (Conn e) = ''Connection Error: '' @ runtime_err_display e"
| "db_err_display (Exec e) = ''Execution Error: '' @ runtime_err_display e"
| "db_err_display (Query e) = ''Query Error: '' @ runtime_err_display e"
| "db_err_display (ConvertFromU64 t) = ''Type '' @ [CHR 0x27] @ t @ [CHR 0x27] @ '' cannot be converted from u64''"
| "db_err_display UnpackInsertId = ''Failed to unpack last_insert_id''"
| "db_err_display UpdateGetPrimaryKey = ''Failed to get primary key from model''"
| "db_err_display (RecordNotFound s) = ''RecordNotFound Error: '' @ s"
| "db_err_display (AttrNotSet s) = ''Attribute '' @ s @ '' is NotSet''"
| "db_err_display (Custom s) = ''Custom Error: '' @ s"
| "db_err_display (Type s) = ''Type Error: '' @ s"
| "db_err_display (Json s) = ''Json Error: '' @ s"
| "db_err_display (Migration s) = ''Migration Error: '' @ s"
| "db_err_display RecordNotInserted = ''None of the records are inserted''"
| "db_err_display RecordNotUpdated = ''None of the records are updated''"
| "db_err_display (BackendNotSupported db ctx) =
     ''Operation not supported by backend '' @ db @ '': '' @ ctx"
| "db_err_display (KeyArityMismatch e r) =
     ''Key arity mismatch: expected '' @ show_nat (unat e) @ '', received '' @ show_nat (unat r)"
| "db_err_display (PrimaryKeyNotSet ctx) = ''Primay key not set for '' @ ctx"
| "db_err_display (RbacErr s) = ''RBAC error: '' @ s"
| "db_err_display (AccessDenied p r) =
     ''Access denied: cannot perform `'' @ p @ ''` on `'' @ r @ ''`''"
| "db_err_display MutexPoisonError = ''Mutex poisoned''"

definition db_err_eq :: "db_err \<Rightarrow> db_err \<Rightarrow> bool" where
  "db_err_eq a b = (db_err_display a = db_err_display b)"

definition conn_err :: "string \<Rightarrow> db_err" where
  "conn_err s = Conn (Internal s)"

definition exec_err :: "string \<Rightarrow> db_err" where
  "exec_err s = Exec (Internal s)"

definition query_err :: "string \<Rightarrow> db_err" where
  "query_err s = Query (Internal s)"

definition type_err :: "string \<Rightarrow> db_err" where
  "type_err s = Type s"

definition json_err :: "string \<Rightarrow> db_err" where
  "json_err s = Json s"

section \<open>Classifying driver errors\<close>

datatype sql_error = UniqueConstraintViolation string | ForeignKeyConstraintViolation string

text \<open>
  \<open>DbErr::sql_err\<close> with every driver feature enabled. An error that comes from a driver the
  three downcasts do not recognise falls through to the last \<open>None\<close>.
\<close>

definition sqlx_classify :: "sqlx_database_error \<Rightarrow> sql_error option" where
  "sqlx_classify e =
    (let code = (case dbe_code e of None \<Rightarrow> '''' | Some c \<Rightarrow> c) in
     case dbe_driver e of
       MySqlDriver \<Rightarrow>
         if dbe_number e \<in> {1022, 1062, 1169, 1586}
         then Some (UniqueConstraintViolation (dbe_message e))
         else if dbe_number e \<in> {1216, 1217, 1451, 1452, 1557, 1761, 1762}
         then Some (ForeignKeyConstraintViolation (dbe_message e))
         else None
     | PostgresDriver \<Rightarrow>
         if code = ''23505'' then Some (UniqueConstraintViolation (dbe_message e))
         else if code = ''23503'' then Some (ForeignKeyConstraintViolation (dbe_message e))
         else None
     | SqliteDriver \<Rightarrow>
         if code \<in> {''1555'', ''2067''} then Some (UniqueConstraintViolation (dbe_message e))
         else if code = ''787'' then Some (ForeignKeyConstraintViolation (dbe_message e))
         else None
     | OtherDriver \<Rightarrow> None)"

definition rusqlite_classify :: "rusqlite_error \<Rightarrow> sql_error option" where
  "rusqlite_classify e =
    (case e of
       SqliteFailure code err_display msg \<Rightarrow>
         let text = (case msg of None \<Rightarrow> err_display | Some m \<Rightarrow> m) in
         if code \<in> {1555, 2067} then Some (UniqueConstraintViolation text)
         else if code = 787 then Some (ForeignKeyConstraintViolation text)
         else None
     | RusqliteOther \<Rightarrow> None)"

fun runtime_sql_err :: "runtime_err \<Rightarrow> sql_error option" where
  "runtime_sql_err (SqlxError (SqlxDatabase e) d) = sqlx_classify e"
| "runtime_sql_err (SqlxError SqlxOther d) = None"
| "runtime_sql_err (Rusqlite e d) = rusqlite_classify e"
| "runtime_sql_err (Internal s) = None"

fun sql_err :: "db_err \<Rightarrow> sql_error option" where
  "sql_err (Exec e) = runtime_sql_err e"
| "sql_err (Query e) = runtime_sql_err e"
| "sql_err _ = None"

lemma sql_err_origin:
  "sql_err err = Some v \<Longrightarrow>
    \<exists>r. (err = Exec r \<or> err = Query r) \<and>
      ((\<exists>e d. r = SqlxError (SqlxDatabase e) d \<and> dbe_driver e \<noteq> OtherDriver) \<or>
       (\<exists>c t m d. r = Rusqlite (SqliteFailure c t m) d))"
  by (cases err; simp; erule runtime_sql_err.elims)
    (auto simp: sqlx_classify_def rusqlite_classify_def split: sqlx_driver.splits rusqlite_error.splits)

text \<open>Both SQLite drivers classify an extended result code alike.\<close>

lemma show_sqlite_codes [simp]:
  "show_int 1555 = ''1555''" "show_int 2067 = ''2067''" "show_int 787 = ''787''"
  by code_simp+

lemma sqlite_drivers_agree:
  assumes "dbe_driver e = SqliteDriver" "dbe_code e = Some (show_int c)" "dbe_message e = t"
    and "c = 1555 \<or> c = 2067 \<or> c = 787"
  shows "sqlx_classify e = rusqlite_classify (SqliteFailure c t None)"
  using assms(4) by (elim disjE) (simp_all add: sqlx_classify_def rusqlite_classify_def assms(1-3))

end
