(* ===== verification/DbIo.thy ===== *)
theory DbIo
  imports SeaErrors
begin

text \<open>
  Calls to the database. A driver operation is an \<open>io\<close>: from the world to its result and the world
  after it. An \<open>async fn\<close> of the library that calls such operations with \<open>?\<close> and may panic is an
  \<open>act\<close>. \<open>act_each\<close> is a loop whose body ends in \<open>?\<close>; \<open>run_stmts\<close> executes a list of statements
  until the first error, and is the specification the loops over statements are compared with.
\<close>

named_theorems act_simps \<open>equations of the action combinators\<close>

datatype db_backend = MySql | Postgres | Sqlite

fun db_backend_as_str :: "db_backend \<Rightarrow> string" where
  "db_backend_as_str MySql = ''MySql''"
| "db_backend_as_str Postgres = ''Postgres''"
| "db_backend_as_str Sqlite = ''Sqlite''"

text \<open>\<open>TransactionError\<close>: the connection failed, or the transaction's closure did.\<close>

datatype 'e transaction_error = TxConnection db_err | TxTransaction 'e

type_synonym ('r, 'w) io = "'w \<Rightarrow> ('r, db_err) result \<times> 'w"

type_synonym ('r, 'w) act = "'w \<Rightarrow> (('r, db_err) result \<times> 'w) run"

definition act_ret :: "'r \<Rightarrow> ('r, 'w) act" where
  "act_ret v = (\<lambda>w. Ret (Inr v, w))"

definition act_err :: "db_err \<Rightarrow> ('r, 'w) act" where
  "act_err e = (\<lambda>w. Ret (Inl e, w))"

definition act_io :: "('r, 'w) io \<Rightarrow> ('r, 'w) act" where
  "act_io f = (\<lambda>w. Ret (f w))"

definition act_run :: "'r run \<Rightarrow> ('r, 'w) act" where
  "act_run r = (\<lambda>w. run_bind r (\<lambda>v. Ret (Inr v, w)))"

definition act_res :: "('r, db_err) result \<Rightarrow> ('r, 'w) act" where
  "act_res r = (\<lambda>w. Ret (r, w))"

definition act_bind :: "('r, 'w) act \<Rightarrow> ('r \<Rightarrow> ('t, 'w) act) \<Rightarrow> ('t, 'w) act" where
  "act_bind m f = (\<lambda>w. run_bind (m w) (\<lambda>rw.
     case fst rw of Inl e \<Rightarrow> Ret (Inl e, snd rw) | Inr v \<Rightarrow> f v (snd rw)))"

fun act_each :: "('x \<Rightarrow> (unit, 'w) act) \<Rightarrow> 'x list \<Rightarrow> (unit, 'w) act" where
  "act_each f [] = act_ret ()"
| "act_each f (x # xs) = act_bind (f x) (\<lambda>_. act_each f xs)"

text \<open>A loop that collects what its body returns.\<close>

fun act_map :: "('x \<Rightarrow> ('y, 'w) act) \<Rightarrow> 'x list \<Rightarrow> ('y list, 'w) act" where
  "act_map f [] = act_ret []"
| "act_map f (x # xs) = act_bind (f x) (\<lambda>y. act_bind (act_map f xs) (\<lambda>ys. act_ret (y # ys)))"

text \<open>A loop that also threads a local variable.\<close>

fun act_fold :: "('x \<Rightarrow> 's \<Rightarrow> ('s, 'w) act) \<Rightarrow> 'x list \<Rightarrow> 's \<Rightarrow> ('s, 'w) act" where
  "act_fold f [] s = act_ret s"
| "act_fold f (x # xs) s = act_bind (f x s) (act_fold f xs)"

text \<open>Execute the statements in order and stop at the first error.\<close>

definition run_stmts :: "('st \<Rightarrow> (unit, 'w) io) \<Rightarrow> 'st list \<Rightarrow> (unit, 'w) act" where
  "run_stmts exec stmts = act_each (\<lambda>s. act_io (exec s)) stmts"

lemma act_ret_app: "act_ret v w = Ret (Inr v, w)"
  by (simp add: act_ret_def)

lemma act_bind_ret [simp]: "act_bind (act_ret v) f = f v"
  by (rule ext) (simp add: act_bind_def act_ret_def)

lemma act_bind_err [simp]: "act_bind (act_err e) f = act_err e"
  by (rule ext) (simp add: act_bind_def act_err_def)

lemma act_bind_run_Ret [simp]: "act_bind (act_run (Ret v)) f = f v"
  by (rule ext) (simp add: act_bind_def act_run_def)

lemma act_bind_run_Panic [simp]: "act_bind (act_run (Panic m)) f = (\<lambda>w. Panic m)"
  by (rule ext) (simp add: act_bind_def act_run_def)

lemma act_bind_res [simp]:
  "act_bind (act_res (Inr v)) f = f v" "act_bind (act_res (Inl e)) f = act_err e"
  by (simp_all add: act_bind_def act_res_def act_err_def fun_eq_iff)

text \<open>Stepping through a bind once the outcome of its first part is known.\<close>

lemma act_bind_step:
  "m w = Ret (Inr v, w') \<Longrightarrow> act_bind m f w = f v w'"
  "m w = Ret (Inl e, w') \<Longrightarrow> act_bind m f w = Ret (Inl e, w')"
  by (simp_all add: act_bind_def)

lemma act_bind_io:
  "f w = (Inr v, w') \<Longrightarrow> act_bind (act_io f) g w = g v w'"
  "f w = (Inl e, w') \<Longrightarrow> act_bind (act_io f) g w = Ret (Inl e, w')"
  by (simp_all add: act_bind_def act_io_def)

lemma act_bind_ret_right [simp]: "act_bind m act_ret = m"
proof (rule ext)
  fix w show "act_bind m act_ret w = m w"
    by (cases "m w") (auto simp: act_bind_def act_ret_def split: sum.splits)
qed

lemma act_bind_ret_unit [simp]: "act_bind m (\<lambda>_ :: unit. act_ret ()) = m"
proof -
  have "(\<lambda>_ :: unit. act_ret ()) = act_ret" by (rule ext) simp
  then show ?thesis by simp
qed

lemma act_bind_assoc: "act_bind (act_bind m f) g = act_bind m (\<lambda>v. act_bind (f v) g)"
proof (rule ext)
  fix w show "act_bind (act_bind m f) g w = act_bind m (\<lambda>v. act_bind (f v) g) w"
    by (cases "m w") (auto simp: act_bind_def split: sum.splits)
qed

lemma run_stmts_Nil [simp]: "run_stmts exec [] = act_ret ()"
  by (simp add: run_stmts_def)

lemma run_stmts_Cons:
  "run_stmts exec (s # ss) = act_bind (act_io (exec s)) (\<lambda>_. run_stmts exec ss)"
  by (simp add: run_stmts_def)

lemma run_stmts_append:
  "run_stmts exec (xs @ ys) = act_bind (run_stmts exec xs) (\<lambda>_. run_stmts exec ys)"
  by (induction xs) (simp_all add: run_stmts_Cons act_bind_assoc)

lemma run_stmts_single: "run_stmts exec [s] = act_io (exec s)"
  by (simp add: run_stmts_Cons)

lemma run_stmts_if:
  "(if b then run_stmts exec xs else run_stmts exec ys) = run_stmts exec (if b then xs else ys)"
  by simp

lemma act_each_run_stmts:
  "act_each (\<lambda>x. run_stmts exec (f x)) xs = run_stmts exec (concat (map f xs))"
  by (induction xs) (simp_all add: run_stmts_append)

lemma act_each_cong:
  "(\<And>x. x \<in> set xs \<Longrightarrow> f x = g x) \<Longrightarrow> act_each f xs = act_each g xs"
  by (induction xs) auto

text \<open>A fold that executes statements and updates its variable by a pure function.\<close>

fun emitted :: "('x \<Rightarrow> 's \<Rightarrow> 'st list) \<Rightarrow> ('x \<Rightarrow> 's \<Rightarrow> 's) \<Rightarrow> 'x list \<Rightarrow> 's \<Rightarrow> 'st list" where
  "emitted f g [] s = []"
| "emitted f g (x # xs) s = f x s @ emitted f g xs (g x s)"

lemma act_fold_run_stmts:
  "act_fold (\<lambda>x s. act_bind (run_stmts exec (f x s)) (\<lambda>_. act_ret (g x s))) xs s =
    act_bind (run_stmts exec (emitted f g xs s)) (\<lambda>_. act_ret (fold g xs s))"
  by (induction xs arbitrary: s) (simp_all add: run_stmts_append act_bind_assoc)

lemmas [act_simps] = run_stmts_Cons run_stmts_append act_bind_assoc

end
