(* ===== verification/RbacModel.thy ===== *)
theory RbacModel
  imports DbIo
begin

text \<open>
  The data of the RBAC component (\<open>src/rbac/entity\<close>, \<open>src/rbac/error.rs\<close>,
  \<open>src/rbac/engine/*_request.rs\<close>): one record per table row, the \<open>i64\<close> newtypes of the
  keys with their derived order, the requests, and the component's errors.
\<close>

datatype resource_id = ResourceId int
datatype permission_id = PermissionId int
datatype role_id = RoleId int
datatype user_id = UserId int

text \<open>\<open>#[derive(PartialOrd, Ord)]\<close> on the newtypes orders them by the number inside.\<close>

instantiation resource_id :: linorder
begin

fun less_eq_resource_id :: "resource_id \<Rightarrow> resource_id \<Rightarrow> bool" where
  "less_eq_resource_id (ResourceId a) (ResourceId b) = (a \<le> b)"

fun less_resource_id :: "resource_id \<Rightarrow> resource_id \<Rightarrow> bool" where
  "less_resource_id (ResourceId a) (ResourceId b) = (a < b)"

instance
proof
  fix x y z :: resource_id
  show "x < y \<longleftrightarrow> x \<le> y \<and> \<not> y \<le> x" by (cases x; cases y) auto
  show "x \<le> x" by (cases x) simp
  show "x \<le> y \<Longrightarrow> y \<le> z \<Longrightarrow> x \<le> z" by (cases x; cases y; cases z) simp
  show "x \<le> y \<Longrightarrow> y \<le> x \<Longrightarrow> x = y" by (cases x; cases y) simp
  show "x \<le> y \<or> y \<le> x" by (cases x; cases y) auto
qed

end

instantiation permission_id :: linorder
begin

fun less_eq_permission_id :: "permission_id \<Rightarrow> permission_id \<Rightarrow> bool" where
  "less_eq_permission_id (PermissionId a) (PermissionId b) = (a \<le> b)"

fun less_permission_id :: "permission_id \<Rightarrow> permission_id \<Rightarrow> bool" where
  "less_permission_id (PermissionId a) (PermissionId b) = (a < b)"

instance
proof
  fix x y z :: permission_id
  show "x < y \<longleftrightarrow> x \<le> y \<and> \<not> y \<le> x" by (cases x; cases y) auto
  show "x \<le> x" by (cases x) simp
  show "x \<le> y \<Longrightarrow> y \<le> z \<Longrightarrow> x \<le> z" by (cases x; cases y; cases z) simp
  show "x \<le> y \<Longrightarrow> y \<le> x \<Longrightarrow> x = y" by (cases x; cases y) simp
  show "x \<le> y \<or> y \<le> x" by (cases x; cases y) auto
qed

end

instantiation role_id :: linorder
begin

fun less_eq_role_id :: "role_id \<Rightarrow> role_id \<Rightarrow> bool" where
  "less_eq_role_id (RoleId a) (RoleId b) = (a \<le> b)"

fun less_role_id :: "role_id \<Rightarrow> role_id \<Rightarrow> bool" where
  "less_role_id (RoleId a) (RoleId b) = (a < b)"

instance
proof
  fix x y z :: role_id
  show "x < y \<longleftrightarrow> x \<le> y \<and> \<not> y \<le> x" by (cases x; cases y) auto
  show "x \<le> x" by (cases x) simp
  show "x \<le> y \<Longrightarrow> y \<le> z \<Longrightarrow> x \<le> z" by (cases x; cases y; cases z) simp
  show "x \<le> y \<Longrightarrow> y \<le> x \<Longrightarrow> x = y" by (cases x; cases y) simp
  show "x \<le> y \<or> y \<le> x" by (cases x; cases y) auto
qed

end

section \<open>Table rows\<close>

record resource =
  res_id :: resource_id
  res_schema :: "string option"
  res_table :: string

record permission =
  perm_id :: permission_id
  perm_action :: string

record role =
  role_key :: role_id
  role_name :: string

record role_hierarchy =
  super_role_id :: role_id
  child_role_id :: role_id

record role_permission =
  rp_role_id :: role_id
  rp_permission_id :: permission_id
  rp_resource_id :: resource_id

record user_override =
  uo_user_id :: user_id
  uo_permission_id :: permission_id
  uo_resource_id :: resource_id
  uo_grant :: bool

record user_role =
  ur_user_id :: user_id
  ur_role_id :: role_id

definition WILDCARD :: string where
  "WILDCARD = ''*''"

section \<open>Requests and errors\<close>

record permission_request =
  pr_action :: string

record resource_request =
  rr_schema :: "string option"
  rr_table :: string

definition permission_request_of :: "permission \<Rightarrow> permission_request" where
  "permission_request_of p = \<lparr>pr_action = perm_action p\<rparr>"

definition resource_request_of :: "resource \<Rightarrow> resource_request" where
  "resource_request_of r = \<lparr>rr_schema = res_schema r, rr_table = res_table r\<rparr>"

definition Action :: "string \<Rightarrow> permission_request" where
  "Action a = \<lparr>pr_action = a\<rparr>"

definition Table :: "string \<Rightarrow> resource_request" where
  "Table t = \<lparr>rr_schema = None, rr_table = t\<rparr>"

definition SchemaTable :: "string \<Rightarrow> string \<Rightarrow> resource_request" where
  "SchemaTable s t = \<lparr>rr_schema = Some s, rr_table = t\<rparr>"

definition resource_request_display :: "resource_request \<Rightarrow> string" where
  "resource_request_display r =
    (case rr_schema r of Some s \<Rightarrow> s | None \<Rightarrow> '''') @
    (if rr_schema r \<noteq> None then ''.'' else '''') @ rr_table r"

datatype rbac_error =
    ResourceNotFound string
  | PermissionNotFound string
  | RoleNotFound string
  | UserNotFound string

fun rbac_error_display :: "rbac_error \<Rightarrow> string" where
  "rbac_error_display (ResourceNotFound s) = ''Resource Not Found: '' @ s"
| "rbac_error_display (PermissionNotFound s) = ''Permission Not Found: '' @ s"
| "rbac_error_display (RoleNotFound s) = ''Role Not Found: '' @ s"
| "rbac_error_display (UserNotFound s) = ''User Not Found: '' @ s"

text \<open>The derived \<open>Debug\<close> texts of the key newtypes, used in the error messages.\<close>

fun debug_role_id :: "role_id \<Rightarrow> string" where
  "debug_role_id (RoleId i) = ''RoleId('' @ show_int i @ '')''"

fun debug_user_id :: "user_id \<Rightarrow> string" where
  "debug_user_id (UserId i) = ''UserId('' @ show_int i @ '')''"

fun debug_permission_id :: "permission_id \<Rightarrow> string" where
  "debug_permission_id (PermissionId i) = ''PermissionId('' @ show_int i @ '')''"

fun debug_resource_id :: "resource_id \<Rightarrow> string" where
  "debug_resource_id (ResourceId i) = ''ResourceId('' @ show_int i @ '')''"

end
