(* ===== verification/RoleHierarchy.thy ===== *)
theory RoleHierarchy
  imports RbacModel
begin

text \<open>
  \<open>src/rbac/engine/role_hierarchy_impl.rs\<close>: the breadth-first walk over the role hierarchy.
  The code's \<open>seen\<close> set only ever holds the starting role (children are tested against it, but
  never added to it), so the walk returns exactly when no cycle that avoids the start can be
  reached, and it lists a role once per path. The loop is a \<open>partial_function\<close>: \<open>None\<close> is
  a walk that does not return.
\<close>

type_synonym role_hierarchy_map = "(role_id, role_id list) hashmap"

definition children_of :: "role_hierarchy_map \<Rightarrow> role_id \<Rightarrow> role_id list" where
  "children_of h r = (case hm_get h r of None \<Rightarrow> [] | Some cs \<Rightarrow> cs)"

fun push_unseen :: "role_id set \<Rightarrow> role_id list \<Rightarrow> role_id list \<Rightarrow> role_id list" where
  "push_unseen seen [] queue = queue"
| "push_unseen seen (c # cs) queue =
     push_unseen seen cs (if c \<notin> seen then queue @ [c] else queue)"

partial_function (option) enumerate_loop ::
  "role_hierarchy_map \<Rightarrow> role_id set \<Rightarrow> role_id list \<Rightarrow> role_id list \<Rightarrow> role_id list option"
where
  "enumerate_loop h seen queue roles =
    (case queue of
       [] \<Rightarrow> Some roles
     | r # rest \<Rightarrow> enumerate_loop h seen (push_unseen seen (children_of h r) rest) (roles @ [r]))"

definition enumerate_role :: "role_id \<Rightarrow> role_hierarchy_map \<Rightarrow> role_id list option" where
  "enumerate_role role h = enumerate_loop h {role} [role] []"

partial_function (option) edges_loop ::
  "role_hierarchy_map \<Rightarrow> role_id set \<Rightarrow> role_id list \<Rightarrow> role_hierarchy list \<Rightarrow> role_hierarchy list option"
where
  "edges_loop h seen queue edges =
    (case queue of
       [] \<Rightarrow> Some edges
     | r # rest \<Rightarrow> edges_loop h seen (push_unseen seen (children_of h r) rest)
         (edges @ map (\<lambda>c. \<lparr>super_role_id = r, child_role_id = c\<rparr>) (children_of h r)))"

definition list_role_hierarchy_edges ::
  "role_id \<Rightarrow> role_hierarchy_map \<Rightarrow> role_hierarchy list option" where
  "list_role_hierarchy_edges role h = edges_loop h {role} [role] []"

lemma push_unseen_eq: "push_unseen seen cs queue = queue @ filter (\<lambda>c. c \<notin> seen) cs"
  by (induction cs arbitrary: queue) auto

section \<open>The child relation\<close>

definition child_rel :: "role_hierarchy_map \<Rightarrow> (role_id \<times> role_id) set" where
  "child_rel h = {(a, b). b \<in> set (children_of h a)}"

text \<open>The edges the walk follows: those that do not lead into the \<open>seen\<close> set.\<close>

definition walk_rel :: "role_hierarchy_map \<Rightarrow> role_id set \<Rightarrow> (role_id \<times> role_id) set" where
  "walk_rel h seen = {(a, b). b \<in> set (children_of h a) \<and> b \<notin> seen}"

lemma children_of_iff: "b \<in> set (children_of h a) \<longleftrightarrow> (\<exists>cs. hm_get h a = Some cs \<and> b \<in> set cs)"
  by (cases "hm_get h a") (simp_all add: children_of_def)

lemma finite_walk_rel: "finite (walk_rel h seen)"
proof -
  have "walk_rel h seen \<subseteq> (\<Union>(a, cs)\<in>set h. {a} \<times> set cs)"
    by (force simp: walk_rel_def children_of_iff dest!: hm_get_in_set)
  moreover have "finite (\<Union>(a, cs)\<in>set h. {a} \<times> set cs)" by auto
  ultimately show ?thesis by (rule finite_subset)
qed

lemma walk_reach_eq: "(walk_rel h {root})\<^sup>* `` {root} = (child_rel h)\<^sup>* `` {root}"
proof (rule set_eqI, rule iffI)
  fix x assume "x \<in> (walk_rel h {root})\<^sup>* `` {root}"
  moreover have "walk_rel h {root} \<subseteq> child_rel h" by (auto simp: walk_rel_def child_rel_def)
  ultimately show "x \<in> (child_rel h)\<^sup>* `` {root}" using rtrancl_mono by blast
next
  fix x assume "x \<in> (child_rel h)\<^sup>* `` {root}"
  then have "(root, x) \<in> (child_rel h)\<^sup>*" by simp
  then show "x \<in> (walk_rel h {root})\<^sup>* `` {root}"
  proof (induction rule: rtrancl_induct)
    case (step y z)
    then show ?case
      by (cases "z = root") (auto simp: walk_rel_def child_rel_def intro: rtrancl_into_rtrancl)
  qed simp
qed

section \<open>When the walk returns, and what it returns\<close>

text \<open>Partial correctness: a walk that returns lists the roles reachable from its queue.\<close>

lemma enumerate_loop_set:
  assumes "enumerate_loop h seen q roles = Some out"
  shows "set out = set roles \<union> (walk_rel h seen)\<^sup>* `` set q"
proof (rule enumerate_loop.raw_induct[where P = "\<lambda>h seen q roles out.
    set out = set roles \<union> (walk_rel h seen)\<^sup>* `` set q", OF _ assms])
  fix f h seen q roles out
  assume IH: "\<And>h seen q roles out. f h seen q roles = Some out \<Longrightarrow>
      set out = set roles \<union> (walk_rel h seen)\<^sup>* `` set q"
    and eq: "(case q of [] \<Rightarrow> Some roles
      | r # rest \<Rightarrow> f h seen (push_unseen seen (children_of h r) rest) (roles @ [r])) = Some out"
  show "set out = set roles \<union> (walk_rel h seen)\<^sup>* `` set q"
  proof (cases q)
    case Nil
    with eq show ?thesis by simp
  next
    case (Cons r rest)
    with eq have "set out = set (roles @ [r]) \<union>
        (walk_rel h seen)\<^sup>* `` set (push_unseen seen (children_of h r) rest)"
      by (intro IH) simp
    also have "set (push_unseen seen (children_of h r) rest) = set rest \<union> walk_rel h seen `` {r}"
      by (auto simp: push_unseen_eq walk_rel_def)
    also have "set (roles @ [r]) \<union> (walk_rel h seen)\<^sup>* `` (set rest \<union> walk_rel h seen `` {r}) =
        set roles \<union> (walk_rel h seen)\<^sup>* `` set q"
      by (auto simp: Cons intro: converse_rtrancl_into_rtrancl elim: converse_rtranclE)
    finally show ?thesis .
  qed
qed

lemma enumerate_loop_acc:
  assumes "enumerate_loop h seen q roles = Some out"
  shows "set q \<subseteq> Wellfounded.acc ((walk_rel h seen)\<inverse>)"
proof (rule enumerate_loop.raw_induct[where P = "\<lambda>h seen q roles out.
    set q \<subseteq> Wellfounded.acc ((walk_rel h seen)\<inverse>)", OF _ assms])
  fix f h seen q roles out
  assume IH: "\<And>h seen q roles out. f h seen q roles = Some out \<Longrightarrow>
      set q \<subseteq> Wellfounded.acc ((walk_rel h seen)\<inverse>)"
    and eq: "(case q of [] \<Rightarrow> Some roles
      | r # rest \<Rightarrow> f h seen (push_unseen seen (children_of h r) rest) (roles @ [r])) = Some out"
  show "set q \<subseteq> Wellfounded.acc ((walk_rel h seen)\<inverse>)"
  proof (cases q)
    case (Cons r rest)
    with eq have acc: "set (push_unseen seen (children_of h r) rest) \<subseteq>
        Wellfounded.acc ((walk_rel h seen)\<inverse>)"
      by (intro IH) simp
    have "r \<in> Wellfounded.acc ((walk_rel h seen)\<inverse>)"
      by (rule accI) (use acc in \<open>auto simp: push_unseen_eq walk_rel_def\<close>)
    with acc Cons show ?thesis by (auto simp: push_unseen_eq)
  qed simp
qed

lemma acc_no_cycle:
  assumes "x \<in> Wellfounded.acc r"
  shows "(x, x) \<notin> r\<^sup>+"
  using assms
proof (rule acc_induct)
  fix y assume IH: "\<forall>z. (z, y) \<in> r \<longrightarrow> (z, z) \<notin> r\<^sup>+"
  show "(y, y) \<notin> r\<^sup>+"
  proof
    assume "(y, y) \<in> r\<^sup>+"
    then obtain z where "(y, z) \<in> r\<^sup>*" and z: "(z, y) \<in> r" by (meson tranclD2)
    then have "(z, z) \<in> r\<^sup>+" by (meson rtrancl_into_trancl2)
    with IH z show False by simp
  qed
qed

lemma acc_reach: "(x, y) \<in> r\<^sup>* \<Longrightarrow> x \<in> Wellfounded.acc (r\<inverse>) \<Longrightarrow> y \<in> Wellfounded.acc (r\<inverse>)"
  by (induction rule: rtrancl_induct) (auto intro: acc_downward)

text \<open>Total correctness: without a reachable cycle the queue shrinks in the multiset order.\<close>

lemma enumerate_loop_returns:
  assumes acyc: "acyclic (Restr (walk_rel h seen) V)"
    and closed: "walk_rel h seen `` V \<subseteq> V" and q: "set q \<subseteq> V"
  shows "\<exists>out. enumerate_loop h seen q roles = Some out"
proof -
  let ?R = "(Restr (walk_rel h seen) V)\<inverse>"
  have "wf ?R"
    by (rule finite_acyclic_wf_converse) (auto intro: acyc finite_subset[OF _ finite_walk_rel])
  then have "wf (mult ?R)" by (rule wf_mult)
  then show ?thesis using q
  proof (induction "mset q" arbitrary: q roles rule: wf_induct_rule)
    case less
    show ?case
    proof (cases q)
      case Nil
      then show ?thesis by (simp add: enumerate_loop.simps)
    next
      case (Cons r rest)
      let ?q = "push_unseen seen (children_of h r) rest"
      let ?K = "mset (filter (\<lambda>c. c \<notin> seen) (children_of h r))"
      have r: "r \<in> V" using less.prems Cons by simp
      then have K: "set_mset ?K \<subseteq> walk_rel h seen `` {r}" "set_mset ?K \<subseteq> V"
        using closed by (auto simp: walk_rel_def)
      have "(mset rest + ?K, mset rest + {#r#}) \<in> mult ?R"
        by (rule one_step_implies_mult) (use K r in auto)
      moreover have "mset ?q = mset rest + ?K" by (simp add: push_unseen_eq)
      moreover have "mset q = mset rest + {#r#}" by (simp add: Cons)
      moreover have "set ?q \<subseteq> V" using less.prems K Cons by (auto simp: push_unseen_eq)
      ultimately have "\<exists>out. enumerate_loop h seen ?q (roles @ [r]) = Some out"
        by (intro less.hyps) simp_all
      then show ?thesis by (simp add: enumerate_loop.simps[of h seen "r # rest"] Cons)
    qed
  qed
qed

definition no_inner_cycle :: "role_hierarchy_map \<Rightarrow> role_id \<Rightarrow> bool" where
  "no_inner_cycle h root =
    (\<forall>x. (root, x) \<in> (child_rel h)\<^sup>* \<longrightarrow> (x, x) \<notin> (walk_rel h {root})\<^sup>+)"

lemma enumerate_role_returns_iff:
  "(\<exists>out. enumerate_role root h = Some out) \<longleftrightarrow> no_inner_cycle h root"
proof
  assume "\<exists>out. enumerate_role root h = Some out"
  then obtain out where "enumerate_loop h {root} [root] [] = Some out"
    by (auto simp: enumerate_role_def)
  then have root: "root \<in> Wellfounded.acc ((walk_rel h {root})\<inverse>)"
    by (auto dest: enumerate_loop_acc)
  show "no_inner_cycle h root"
    unfolding no_inner_cycle_def
  proof (intro allI impI notI)
    fix x assume "(root, x) \<in> (child_rel h)\<^sup>*" and cyc: "(x, x) \<in> (walk_rel h {root})\<^sup>+"
    then have "(root, x) \<in> (walk_rel h {root})\<^sup>*" using walk_reach_eq by blast
    with root have "x \<in> Wellfounded.acc ((walk_rel h {root})\<inverse>)" by (blast intro: acc_reach)
    then have "(x, x) \<notin> ((walk_rel h {root})\<inverse>)\<^sup>+" by (rule acc_no_cycle)
    with cyc show False by (simp add: trancl_converse)
  qed
next
  assume no: "no_inner_cycle h root"
  let ?V = "(child_rel h)\<^sup>* `` {root}"
  have "acyclic (Restr (walk_rel h {root}) ?V)"
    unfolding acyclic_def
  proof (intro allI notI)
    fix x assume c: "(x, x) \<in> (Restr (walk_rel h {root}) ?V)\<^sup>+"
    then have "x \<in> ?V" by (meson Int_iff SigmaE2 tranclD)
    moreover have "(x, x) \<in> (walk_rel h {root})\<^sup>+" using c by (rule trancl_mono) blast
    ultimately show False using no by (auto simp: no_inner_cycle_def)
  qed
  moreover have "walk_rel h {root} `` ?V \<subseteq> ?V"
    by (auto simp: walk_rel_def child_rel_def intro: rtrancl_into_rtrancl)
  ultimately show "\<exists>out. enumerate_role root h = Some out"
    unfolding enumerate_role_def by (rule enumerate_loop_returns) auto
qed

lemma enumerate_role_set:
  "enumerate_role root h = Some out \<Longrightarrow> set out = (child_rel h)\<^sup>* `` {root}"
  unfolding enumerate_role_def by (drule enumerate_loop_set) (simp add: walk_reach_eq)

section \<open>The edges variant, and how often a role is listed\<close>

definition edges_of :: "role_hierarchy_map \<Rightarrow> role_id \<Rightarrow> role_hierarchy list" where
  "edges_of h r = map (\<lambda>c. \<lparr>super_role_id = r, child_role_id = c\<rparr>) (children_of h r)"

lemma child_of_edges [simp]: "map child_role_id (edges_of h r) = children_of h r"
  by (simp add: edges_of_def comp_def)

lemma enumerate_loop_edges:
  assumes "enumerate_loop h seen q roles = Some out"
  shows "\<exists>ys. out = roles @ ys \<and> edges_loop h seen q es = Some (es @ concat (map (edges_of h) ys)) \<and>
    mset ys = mset q + mset (filter (\<lambda>c. c \<notin> seen) (concat (map (children_of h) ys)))"
proof -
  let ?P = "\<lambda>h seen q roles out. \<forall>es. \<exists>ys. out = roles @ ys \<and>
    edges_loop h seen q es = Some (es @ concat (map (edges_of h) ys)) \<and>
    mset ys = mset q + mset (filter (\<lambda>c. c \<notin> seen) (concat (map (children_of h) ys)))"
  have "?P h seen q roles out"
  proof (rule enumerate_loop.raw_induct[where P = ?P, OF _ assms], rule allI)
    fix f h seen q roles out es
    assume IH: "\<And>h seen q roles out. f h seen q roles = Some out \<Longrightarrow> ?P h seen q roles out"
      and eq: "(case q of [] \<Rightarrow> Some roles
        | r # rest \<Rightarrow> f h seen (push_unseen seen (children_of h r) rest) (roles @ [r])) = Some out"
    show "\<exists>ys. out = roles @ ys \<and>
        edges_loop h seen q es = Some (es @ concat (map (edges_of h) ys)) \<and>
        mset ys = mset q + mset (filter (\<lambda>c. c \<notin> seen) (concat (map (children_of h) ys)))"
    proof (cases q)
      case Nil
      with eq show ?thesis by (simp add: edges_loop.simps)
    next
      case (Cons r rest)
      let ?q = "push_unseen seen (children_of h r) rest"
      from eq Cons have "f h seen ?q (roles @ [r]) = Some out" by simp
      from IH[OF this, rule_format, of "es @ edges_of h r"] obtain ys where
        "out = roles @ r # ys"
        "edges_loop h seen ?q (es @ edges_of h r) = Some ((es @ edges_of h r) @ concat (map (edges_of h) ys))"
        "mset ys = mset ?q + mset (filter (\<lambda>c. c \<notin> seen) (concat (map (children_of h) ys)))"
        by auto
      then show ?thesis
        by (intro exI[of _ "r # ys"])
          (simp add: edges_loop.simps[of h seen "r # rest"] Cons edges_of_def push_unseen_eq)
    qed
  qed
  then show ?thesis by blast
qed

lemma edges_loop_enumerates:
  assumes "edges_loop h seen q es = Some out"
  shows "\<exists>out'. enumerate_loop h seen q roles = Some out'"
proof -
  let ?P = "\<lambda>h seen q es out. \<forall>roles. \<exists>out'. enumerate_loop h seen q roles = Some out'"
  have "?P h seen q es out"
  proof (rule edges_loop.raw_induct[where P = ?P, OF _ assms], rule allI)
    fix f h seen q es out roles
    assume IH: "\<And>h seen q es out. f h seen q es = Some out \<Longrightarrow> ?P h seen q es out"
      and eq: "(case q of [] \<Rightarrow> Some es
        | r # rest \<Rightarrow> f h seen (push_unseen seen (children_of h r) rest)
           (es @ map (\<lambda>c. \<lparr>super_role_id = r, child_role_id = c\<rparr>) (children_of h r))) = Some out"
    show "\<exists>out'. enumerate_loop h seen q roles = Some out'"
    proof (cases q)
      case (Cons r rest)
      with eq IH show ?thesis by (simp add: enumerate_loop.simps[of h seen "r # rest"])
    qed (simp add: enumerate_loop.simps)
  qed
  then show ?thesis by blast
qed

lemma list_edges_eq:
  "list_role_hierarchy_edges root h =
    map_option (\<lambda>out. concat (map (edges_of h) out)) (enumerate_role root h)"
proof (cases "enumerate_role root h")
  case None
  then show ?thesis
    using edges_loop_enumerates[of h "{root}" "[root]" "[]" _ "[]"]
    by (cases "edges_loop h {root} [root] []")
      (auto simp: enumerate_role_def list_role_hierarchy_edges_def)
next
  case (Some out)
  then show ?thesis
    using enumerate_loop_edges[of h "{root}" "[root]" "[]" out "[]"]
    by (auto simp: enumerate_role_def list_role_hierarchy_edges_def)
qed

lemma enumerate_role_mset:
  assumes "enumerate_role root h = Some out"
  shows "mset out = {#root#} + mset (filter (\<lambda>c. c \<noteq> root) (concat (map (children_of h) out)))"
  using enumerate_loop_edges[of h "{root}" "[root]" "[]" out "[]"] assms
  by (auto simp: enumerate_role_def)

text \<open>A hierarchy in which every role below the root has one parent, listed once.\<close>

definition tree_below :: "role_hierarchy_map \<Rightarrow> role_id \<Rightarrow> bool" where
  "tree_below h root =
    ((\<forall>a \<in> (child_rel h)\<^sup>* `` {root}. distinct (children_of h a)) \<and>
     (\<forall>a \<in> (child_rel h)\<^sup>* `` {root}. \<forall>b \<in> (child_rel h)\<^sup>* `` {root}.
        \<forall>c. c \<noteq> root \<longrightarrow> c \<in> set (children_of h a) \<longrightarrow> c \<in> set (children_of h b) \<longrightarrow> a = b))"

lemma count_children:
  assumes "y \<in> set ys" "c \<in> set (f y)" "\<And>a. a \<in> set ys \<Longrightarrow> c \<in> set (f a) \<Longrightarrow> a = y"
    "distinct (f y)"
  shows "count (mset (concat (map f ys))) c = count (mset ys) y"
proof -
  have *: "count (mset (concat (map f zs))) c = count (mset zs) y" if "set zs \<subseteq> set ys" for zs
    using that
  proof (induction zs)
    case (Cons z zs)
    have "count (mset (f z)) c = (if z = y then 1 else 0)"
    proof (cases "z = y")
      case True
      then show ?thesis using assms(2,4) distinct_count_atmost_1[of "f y"] by simp
    next
      case False
      with Cons.prems assms(3) have "c \<notin> set (f z)" by auto
      with False show ?thesis by (simp add: count_mset_0_iff)
    qed
    with Cons show ?case by auto
  qed simp
  show ?thesis by (rule *) simp
qed

lemma enumerate_role_distinct:
  assumes out: "enumerate_role root h = Some out" and tree: "tree_below h root"
  shows "distinct out"
proof -
  have set_out: "set out = (child_rel h)\<^sup>* `` {root}" by (rule enumerate_role_set[OF out])
  have "count (mset out) x = 1" if "(root, x) \<in> (walk_rel h {root})\<^sup>*" for x
    using that
  proof (induction rule: rtrancl_induct)
    case base
    show ?case by (subst enumerate_role_mset[OF out]) (simp add: count_mset_0_iff del: filter_concat)
  next
    case (step y z)
    then have z: "z \<noteq> root" "z \<in> set (children_of h y)" by (auto simp: walk_rel_def)
    have y: "y \<in> set out" using step.hyps(1) set_out walk_reach_eq by blast
    have "count (mset out) z = count (mset (concat (map (children_of h) out))) z"
      by (subst enumerate_role_mset[OF out]) (simp add: z(1) z(1)[symmetric])
    also have "\<dots> = count (mset out) y"
    proof (rule count_children[where f = "children_of h", OF y z(2)])
      show "distinct (children_of h y)" using tree y unfolding tree_below_def set_out by blast
      fix a assume "a \<in> set out" "z \<in> set (children_of h a)"
      then show "a = y" using tree y z unfolding tree_below_def set_out by blast
    qed
    finally show ?case using step.IH by simp
  qed
  then have one: "x \<in> set out \<Longrightarrow> count (mset out) x = 1" for x
    using set_out walk_reach_eq by blast
  show ?thesis
    unfolding distinct_count_atmost_1
  proof
    fix a show "count (mset out) a = (if a \<in> set out then 1 else 0)"
      using one[of a] by (cases "a \<in> set out") (simp_all add: count_mset_0_iff)
  qed
qed

section \<open>Properties\<close>

definition example_hierarchy :: role_hierarchy_map where
  "example_hierarchy = [(RoleId 1, [RoleId 2]), (RoleId 2, [RoleId 3, RoleId 4]),
    (RoleId 4, [RoleId 5]), (RoleId 6, [])]"

definition diamond_hierarchy :: role_hierarchy_map where
  "diamond_hierarchy = [(RoleId 1, [RoleId 2, RoleId 3]), (RoleId 2, [RoleId 4]),
    (RoleId 3, [RoleId 4])]"

definition inner_cycle_hierarchy :: role_hierarchy_map where
  "inner_cycle_hierarchy = [(RoleId 1, [RoleId 2]), (RoleId 2, [RoleId 3]), (RoleId 3, [RoleId 2])]"

lemma enumerate_example:
  "enumerate_role (RoleId 1) example_hierarchy =
    Some [RoleId 1, RoleId 2, RoleId 3, RoleId 4, RoleId 5]"
  by (simp add: enumerate_role_def example_hierarchy_def enumerate_loop.simps children_of_def hm_get_def)

text \<open>C1. The role walk returns exactly when no cycle that avoids the starting role can be
  reached from it: the code's \<open>seen\<close> set protects against cycles through the start only, so any
  other cycle of the hierarchy makes \<open>enumerate_role\<close> loop forever.\<close>

theorem enumerate_role_terminates_iff:
  "enumerate_role root h \<noteq> None \<longleftrightarrow> no_inner_cycle h root"
  by (simp add: enumerate_role_returns_iff[symmetric])

text \<open>C2. When the walk returns, it lists exactly the roles reachable from the start, and it
  lists the start once and every other role once per walked edge that leads to it.\<close>

theorem enumerate_role_lists_reachable:
  assumes "enumerate_role root h = Some out"
  shows "set out = (child_rel h)\<^sup>* `` {root} \<and>
    mset out = {#root#} + mset (filter (\<lambda>c. c \<noteq> root) (concat (map (children_of h) out)))"
  using enumerate_role_set[OF assms] enumerate_role_mset[OF assms] by (rule conjI)

theorem enumerate_role_lists_reachable_witness:
  "enumerate_role (RoleId 1) example_hierarchy =
      Some [RoleId 1, RoleId 2, RoleId 3, RoleId 4, RoleId 5] \<and>
    (child_rel example_hierarchy)\<^sup>* `` {RoleId 1} =
      {RoleId 1, RoleId 2, RoleId 3, RoleId 4, RoleId 5}"
  using enumerate_example enumerate_role_lists_reachable[OF enumerate_example] by simp

text \<open>The edges report is the walk's roles with the child edges of each, in the walk's order;
  it returns exactly when the walk does.\<close>

theorem role_hierarchy_edges_follow_walk:
  "list_role_hierarchy_edges root h =
    map_option (\<lambda>out. concat (map (edges_of h) out)) (enumerate_role root h)"
  by (rule list_edges_eq)

text \<open>In a hierarchy that is a tree below a role the walk lists no role twice.\<close>

lemma enumerate_role_no_duplicates:
  assumes "enumerate_role root h = Some out" "tree_below h root"
  shows "distinct out"
  using assms by (rule enumerate_role_distinct)

lemma reachable_example:
  "(child_rel example_hierarchy)\<^sup>* `` {RoleId 1} = {RoleId 1, RoleId 2, RoleId 3, RoleId 4, RoleId 5}"
  using enumerate_role_set[OF enumerate_example] by simp

lemma enumerate_role_no_duplicates_witness:
  "tree_below example_hierarchy (RoleId 1) \<and>
    distinct [RoleId 1, RoleId 2, RoleId 3, RoleId 4, RoleId 5]"
proof -
  have tree: "tree_below example_hierarchy (RoleId 1)"
    by (simp add: tree_below_def reachable_example)
      (simp add: example_hierarchy_def children_of_def hm_get_def)
  with enumerate_role_no_duplicates[OF enumerate_example tree] show ?thesis by blast
qed

text \<open>Where two paths lead to a role the walk lists it twice: in a diamond of four roles the
  walk has five entries, so its length is not the number of roles.\<close>

lemma enumerate_role_diamond:
  "enumerate_role (RoleId 1) diamond_hierarchy =
      Some [RoleId 1, RoleId 2, RoleId 3, RoleId 4, RoleId 4] \<and>
    card ((child_rel diamond_hierarchy)\<^sup>* `` {RoleId 1}) = 4"
proof -
  have walk: "enumerate_role (RoleId 1) diamond_hierarchy =
      Some [RoleId 1, RoleId 2, RoleId 3, RoleId 4, RoleId 4]"
    by (simp add: enumerate_role_def diamond_hierarchy_def enumerate_loop.simps children_of_def
        hm_get_def)
  then show ?thesis by (simp flip: enumerate_role_set[OF walk])
qed

lemma inner_cycle_diverges: "enumerate_role (RoleId 1) inner_cycle_hierarchy = None"
proof -
  have 12: "(RoleId 1, RoleId 2) \<in> child_rel inner_cycle_hierarchy"
    by (simp add: child_rel_def inner_cycle_hierarchy_def children_of_def hm_get_def)
  have "(RoleId 2, RoleId 3) \<in> walk_rel inner_cycle_hierarchy {RoleId 1}"
    "(RoleId 3, RoleId 2) \<in> walk_rel inner_cycle_hierarchy {RoleId 1}"
    by (simp_all add: walk_rel_def inner_cycle_hierarchy_def children_of_def hm_get_def)
  then have "(RoleId 2, RoleId 2) \<in> (walk_rel inner_cycle_hierarchy {RoleId 1})\<^sup>+"
    by (meson r_into_trancl' trancl_into_trancl)
  then have "\<not> no_inner_cycle inner_cycle_hierarchy (RoleId 1)"
    using 12 by (auto simp: no_inner_cycle_def)
  then show ?thesis using enumerate_role_returns_iff by (metis option.exhaust)
qed

end
