(* ===== verification/RbacEngine.thy ===== *)
theory RbacEngine
  imports RoleHierarchy "HOL-Library.Product_Lexorder"
begin

text \<open>
  \<open>src/rbac/engine/mod.rs\<close> and \<open>snapshot.rs\<close>: the engine built from a snapshot of the
  RBAC tables, the decision \<open>user_can\<close>, and the reports (ranks, permissions grouped by
  resource). A hash set is the list of its elements in iteration order. A result that needs a
  walk of the role hierarchy is \<open>Diverge\<close> when that walk does not return.
\<close>

section \<open>Snapshots\<close>

record rbac_snapshot =
  snap_resources :: "resource list"
  snap_permissions :: "permission list"
  snap_roles :: "role list"
  snap_user_roles :: "user_role list"
  snap_role_permissions :: "role_permission list"
  snap_user_overrides :: "user_override list"
  snap_role_hierarchy :: "role_hierarchy list"

definition default_snapshot :: rbac_snapshot where
  "default_snapshot = \<lparr>snap_resources = [], snap_permissions = [], snap_roles = [],
    snap_user_roles = [], snap_role_permissions = [], snap_user_overrides = [],
    snap_role_hierarchy = []\<rparr>"

definition set_resources :: "resource list \<Rightarrow> rbac_snapshot \<Rightarrow> rbac_snapshot" where
  "set_resources rs s = s\<lparr>snap_resources :=
    map (\<lambda>(i, r). r\<lparr>res_id := ResourceId (int i + 1)\<rparr>) (List.enumerate 0 rs)\<rparr>"

definition set_permissions :: "permission list \<Rightarrow> rbac_snapshot \<Rightarrow> rbac_snapshot" where
  "set_permissions ps s = s\<lparr>snap_permissions :=
    map (\<lambda>(i, p). p\<lparr>perm_id := PermissionId (int i + 1)\<rparr>) (List.enumerate 0 ps)\<rparr>"

definition set_roles :: "role list \<Rightarrow> rbac_snapshot \<Rightarrow> rbac_snapshot" where
  "set_roles rs s = s\<lparr>snap_roles :=
    map (\<lambda>(i, r). r\<lparr>role_key := RoleId (int i + 1)\<rparr>) (List.enumerate 0 rs)\<rparr>"

definition unwrap_none :: string where
  "unwrap_none = ''called `Option::unwrap()` on a `None` value''"

definition find_role :: "rbac_snapshot \<Rightarrow> string \<Rightarrow> role_id run" where
  "find_role s name = run_bind (expect (find (\<lambda>r. role_name r = name) (snap_roles s)) unwrap_none)
    (\<lambda>r. Ret (role_key r))"

definition find_permission :: "rbac_snapshot \<Rightarrow> permission_request \<Rightarrow> permission_id run" where
  "find_permission s req =
    run_bind (expect (find (\<lambda>p. perm_action p = pr_action req) (snap_permissions s)) unwrap_none)
      (\<lambda>p. Ret (perm_id p))"

definition find_resource :: "rbac_snapshot \<Rightarrow> resource_request \<Rightarrow> resource_id run" where
  "find_resource s req =
    run_bind (expect (find (\<lambda>r. res_schema r = rr_schema req \<and> res_table r = rr_table req)
      (snap_resources s)) unwrap_none) (\<lambda>r. Ret (res_id r))"

definition set_user_role :: "user_id \<Rightarrow> string \<Rightarrow> rbac_snapshot \<Rightarrow> rbac_snapshot run" where
  "set_user_role u name s = run_bind (find_role s name) (\<lambda>rid.
    Ret (s\<lparr>snap_user_roles := snap_user_roles s @ [\<lparr>ur_user_id = u, ur_role_id = rid\<rparr>]\<rparr>))"

definition add_role_permission ::
  "string \<Rightarrow> permission_request \<Rightarrow> resource_request \<Rightarrow> rbac_snapshot \<Rightarrow> rbac_snapshot run" where
  "add_role_permission name p r s =
    run_bind (find_role s name) (\<lambda>role_id.
    run_bind (find_permission s p) (\<lambda>pid.
    run_bind (find_resource s r) (\<lambda>rid.
      Ret (s\<lparr>snap_role_permissions := snap_role_permissions s @
        [\<lparr>rp_role_id = role_id, rp_permission_id = pid, rp_resource_id = rid\<rparr>]\<rparr>))))"

definition danger_unrestricted :: "rbac_snapshot run" where
  "danger_unrestricted =
    (let s = set_resources [\<lparr>res_id = ResourceId 0, res_schema = None, res_table = WILDCARD\<rparr>]
           default_snapshot;
         s = set_permissions [\<lparr>perm_id = PermissionId 0, perm_action = WILDCARD\<rparr>] s;
         s = set_roles [\<lparr>role_key = RoleId 0, role_name = ''unrestricted''\<rparr>] s in
     run_bind (set_user_role (UserId 0) ''unrestricted'' s)
       (add_role_permission ''unrestricted'' (Action ''*'') (Table ''*'')))"

section \<open>The engine\<close>

record rbac_engine =
  e_resources :: "(resource_request, resource) hashmap"
  e_permissions :: "(permission_request, permission) hashmap"
  e_wildcard_resources :: "(resource_id, resource) hashmap"
  e_wildcard_permissions :: "(permission_id, permission) hashmap"
  e_roles :: "(role_id, role) hashmap"
  e_user_roles :: "(user_id, role_id) hashmap"
  e_role_permissions :: "(role_id, (permission_id \<times> resource_id) list) hashmap"
  e_user_overrides :: "(user_id, user_override list) hashmap"
  e_role_hierarchy :: role_hierarchy_map

definition is_wildcard_row :: "resource \<Rightarrow> bool" where
  "is_wildcard_row r = (res_schema r = Some WILDCARD \<or> res_table r = WILDCARD)"

fun split_resources ::
  "resource list \<Rightarrow> (resource_request, resource) hashmap \<times> (resource_id, resource) hashmap
    \<Rightarrow> (resource_request, resource) hashmap \<times> (resource_id, resource) hashmap"
where
  "split_resources [] (res, wild) = (res, wild)"
| "split_resources (r # rs) (res, wild) =
    (if is_wildcard_row r then split_resources rs (res, hm_insert (res_id r) r wild)
     else split_resources rs (hm_insert (resource_request_of r) r res, wild))"

fun split_permissions ::
  "permission list \<Rightarrow> (permission_request, permission) hashmap \<times> (permission_id, permission) hashmap
    \<Rightarrow> (permission_request, permission) hashmap \<times> (permission_id, permission) hashmap"
where
  "split_permissions [] (perms, wild) = (perms, wild)"
| "split_permissions (p # ps) (perms, wild) =
    (if perm_action p = WILDCARD then split_permissions ps (perms, hm_insert (perm_id p) p wild)
     else split_permissions ps (hm_insert (permission_request_of p) p perms, wild))"

definition from_snapshot :: "rbac_snapshot \<Rightarrow> rbac_engine" where
  "from_snapshot s =
    (let (resources, wildcard_resources) = split_resources (snap_resources s) ([], []);
         (permissions, wildcard_permissions) = split_permissions (snap_permissions s) ([], []);
         roles = fold (\<lambda>r. hm_insert (role_key r) r) (snap_roles s) [];
         user_roles = fold (\<lambda>ur. hm_insert (ur_user_id ur) (ur_role_id ur)) (snap_user_roles s) [];
         role_permissions = fold (\<lambda>rp. hm_modify (rp_role_id rp) []
           (List.insert (rp_permission_id rp, rp_resource_id rp))) (snap_role_permissions s) [];
         user_overrides = fold (\<lambda>uo. hm_modify (uo_user_id uo) [] (\<lambda>v. v @ [uo]))
           (snap_user_overrides s) [];
         role_hierarchy = fold (\<lambda>rh. hm_modify (super_role_id rh) [] (\<lambda>v. v @ [child_role_id rh]))
           (snap_role_hierarchy s) []
     in \<lparr>e_resources = resources, e_permissions = permissions,
         e_wildcard_resources = wildcard_resources, e_wildcard_permissions = wildcard_permissions,
         e_roles = roles, e_user_roles = user_roles, e_role_permissions = role_permissions,
         e_user_overrides = user_overrides, e_role_hierarchy = role_hierarchy\<rparr>)"

text \<open>The roles of a user, the hierarchy flattened; every one of them must exist.\<close>

fun collect_roles ::
  "(role_id, role) hashmap \<Rightarrow> role_id list \<Rightarrow> role_id list \<Rightarrow> (role_id list, rbac_error) result"
where
  "collect_roles roles [] acc = Inr acc"
| "collect_roles roles (r # rs) acc =
    (if \<not> hm_contains roles r then Inl (RoleNotFound (debug_role_id r))
     else collect_roles roles rs (List.insert r acc))"

definition get_user_role_ids ::
  "rbac_engine \<Rightarrow> user_id \<Rightarrow> (role_id list, rbac_error) result run" where
  "get_user_role_ids e u =
    (case hm_get (e_user_roles e) u of
       Some role \<Rightarrow> run_bind (run_of_option (enumerate_role role (e_role_hierarchy e)))
         (\<lambda>rs. Ret (collect_roles (e_roles e) rs []))
     | None \<Rightarrow> Ret (Inl (UserNotFound (debug_user_id u))))"

definition is_wildcard_resource :: "rbac_engine \<Rightarrow> resource_id \<Rightarrow> resource option \<Rightarrow> bool" where
  "is_wildcard_resource e rid target =
    (case hm_get (e_wildcard_resources e) rid of
       Some r \<Rightarrow>
         (case target of
            Some t \<Rightarrow>
              (res_schema r = None \<or> res_schema r = Some WILDCARD \<or> res_schema r = res_schema t) \<and>
              (res_table r = WILDCARD \<or> res_table r = res_table t)
          | None \<Rightarrow> (res_schema r = None \<or> res_schema r = Some WILDCARD) \<and> res_table r = WILDCARD)
     | None \<Rightarrow> False)"

definition is_wildcard_permission :: "rbac_engine \<Rightarrow> permission_id \<Rightarrow> bool" where
  "is_wildcard_permission e pid =
    (case hm_get (e_wildcard_permissions e) pid of
       Some p \<Rightarrow> perm_action p = WILDCARD
     | None \<Rightarrow> False)"

text \<open>The loop over a user's overrides: the first row for this permission and resource decides.\<close>

fun override_decision :: "permission \<Rightarrow> resource \<Rightarrow> user_override list \<Rightarrow> bool option" where
  "override_decision p r [] = None"
| "override_decision p r (uo # uos) =
    (if uo_permission_id uo = perm_id p \<and> uo_resource_id uo = res_id r then Some (uo_grant uo)
     else override_decision p r uos)"

text \<open>The loop over the rows of one role that looks for a wildcard match.\<close>

fun wildcard_match ::
  "rbac_engine \<Rightarrow> permission option \<Rightarrow> resource option \<Rightarrow> (permission_id \<times> resource_id) list \<Rightarrow> bool"
where
  "wildcard_match e p r [] = False"
| "wildcard_match e p r ((pid, rid) # rows) =
    (let wp = is_wildcard_permission e pid; wr = is_wildcard_resource e rid r in
     if (case r of Some res \<Rightarrow> rid = res_id res \<and> wp | None \<Rightarrow> False) then True
     else if (case p of Some perm \<Rightarrow> pid = perm_id perm \<and> wr | None \<Rightarrow> False) then True
     else if wp \<and> wr then True
     else wildcard_match e p r rows)"

fun role_grants :: "rbac_engine \<Rightarrow> permission option \<Rightarrow> resource option \<Rightarrow> role_id list \<Rightarrow> bool" where
  "role_grants e p r [] = False"
| "role_grants e p r (role # rest) =
    (case hm_get (e_role_permissions e) role of
       Some rows \<Rightarrow>
         if (case (p, r) of (Some perm, Some res) \<Rightarrow> (perm_id perm, res_id res) \<in> set rows | _ \<Rightarrow> False)
         then True
         else if wildcard_match e p r rows then True
         else role_grants e p r rest
     | None \<Rightarrow> role_grants e p r rest)"

definition user_can ::
  "rbac_engine \<Rightarrow> user_id \<Rightarrow> permission_request \<Rightarrow> resource_request \<Rightarrow> (bool, rbac_error) result run"
where
  "user_can e u preq rreq =
    (let resource = hm_get (e_resources e) rreq;
         permission = hm_get (e_permissions e) preq in
     run_try (get_user_role_ids e u) (\<lambda>user_roles. Ret (
       case (case (permission, resource) of
               (Some p, Some r) \<Rightarrow>
                 (case hm_get (e_user_overrides e) u of
                    Some uos \<Rightarrow> override_decision p r uos
                  | None \<Rightarrow> None)
             | _ \<Rightarrow> None) of
         Some grant \<Rightarrow> Inr grant
       | None \<Rightarrow>
           if role_grants e permission resource user_roles then Inr True
           else if resource = None then Inl (ResourceNotFound ''None'')
           else if permission = None then Inl (PermissionNotFound ''None'')
           else Inr False)))"

section \<open>Reports\<close>

record rbac_user_role_permissions =
  urp_role :: role
  urp_resource_permissions :: "(resource \<times> permission list) list"

definition rank_key :: "role \<times> 32 word \<Rightarrow> int \<times> role_id" where
  "rank_key r = (- uint (snd r), role_key (fst r))"

fun ranks_loop ::
  "rbac_engine \<Rightarrow> role_id list \<Rightarrow> (role \<times> 32 word) list \<Rightarrow>
    ((role \<times> 32 word) list, rbac_error) result run"
where
  "ranks_loop e [] acc = Ret (Inr acc)"
| "ranks_loop e (rid # rids) acc =
    run_try (Ret (ok_or (hm_get (e_roles e) rid) (RoleNotFound (debug_role_id rid)))) (\<lambda>r.
    run_bind (run_of_option (enumerate_role rid (e_role_hierarchy e))) (\<lambda>walk.
      ranks_loop e rids (acc @ [(r, of_nat (length walk))])))"

definition get_roles_and_ranks ::
  "rbac_engine \<Rightarrow> ((role \<times> 32 word) list, rbac_error) result run" where
  "get_roles_and_ranks e =
    run_try (ranks_loop e (hm_keys (e_roles e)) []) (\<lambda>all. Ret (Inr (sort_key rank_key all)))"

text \<open>\<open>group_permissions_by_resources\<close>: one entry per resource, both levels sorted by id.\<close>

fun group_loop ::
  "rbac_engine \<Rightarrow> (resource_id \<times> permission_id) list \<Rightarrow>
    (resource_id, resource \<times> permission list) hashmap \<Rightarrow>
    ((resource_id, resource \<times> permission list) hashmap, rbac_error) result"
where
  "group_loop e [] m = Inr m"
| "group_loop e ((rid, pid) # items) m =
    res_bind (case hm_get (e_wildcard_permissions e) pid of
        Some p \<Rightarrow> Inr p
      | None \<Rightarrow> ok_or (find (\<lambda>p. perm_id p = pid) (hm_values (e_permissions e)))
          (PermissionNotFound (debug_permission_id pid))) (\<lambda>permission.
    res_bind (case hm_get (e_wildcard_resources e) rid of
        Some r \<Rightarrow> Inr r
      | None \<Rightarrow> ok_or (find (\<lambda>r. res_id r = rid) (hm_values (e_resources e)))
          (ResourceNotFound (debug_resource_id rid))) (\<lambda>resource.
      group_loop e items (hm_modify rid (resource, []) (\<lambda>(r, ps). (r, ps @ [permission])) m)))"

definition group_permissions_by_resources ::
  "rbac_engine \<Rightarrow> (resource_id \<times> permission_id) list \<Rightarrow>
    ((resource \<times> permission list) list, rbac_error) result" where
  "group_permissions_by_resources e items =
    res_bind (group_loop e items []) (\<lambda>m.
      Inr (map (\<lambda>(r, ps). (r, sort_key perm_id ps))
        (sort_key (\<lambda>x. res_id (fst x)) (hm_values m))))"

definition apply_override ::
  "user_override \<Rightarrow> (permission_id \<times> resource_id) list \<Rightarrow> (permission_id \<times> resource_id) list" where
  "apply_override uo rps =
    (let rp = (uo_permission_id uo, uo_resource_id uo) in
     if rp \<in> set rps then (if \<not> uo_grant uo then removeAll rp rps else rps)
     else if uo_grant uo then List.insert rp rps else rps)"

definition extend_role_permissions ::
  "rbac_engine \<Rightarrow> role_id \<Rightarrow> (permission_id \<times> resource_id) list \<Rightarrow> (permission_id \<times> resource_id) list"
where
  "extend_role_permissions e role rps =
    (case hm_get (e_role_permissions e) role of
       Some items \<Rightarrow> fold List.insert items rps
     | None \<Rightarrow> rps)"

definition user_permission_set ::
  "rbac_engine \<Rightarrow> user_id \<Rightarrow> role_id list \<Rightarrow> (permission_id \<times> resource_id) list" where
  "user_permission_set e u roles =
    (let rps = fold (extend_role_permissions e) (sort roles) [] in
     case hm_get (e_user_overrides e) u of
       Some uos \<Rightarrow> fold apply_override uos rps
     | None \<Rightarrow> rps)"

definition get_user_role_permissions ::
  "rbac_engine \<Rightarrow> user_id \<Rightarrow> (rbac_user_role_permissions, rbac_error) result run" where
  "get_user_role_permissions e u =
    run_try (get_user_role_ids e u) (\<lambda>roles.
      run_bind (expect (hm_get (e_user_roles e) u) ''Checked above'') (\<lambda>rid.
      run_bind (expect (hm_get (e_roles e) rid) ''Checked above'') (\<lambda>role.
      run_try (Ret (group_permissions_by_resources e
          (map (\<lambda>(p, r). (r, p)) (user_permission_set e u roles)))) (\<lambda>grouped.
        Ret (Inr \<lparr>urp_role = role, urp_resource_permissions = grouped\<rparr>)))))"

definition list_resources_and_permissions :: "rbac_engine \<Rightarrow> resource list \<times> permission list" where
  "list_resources_and_permissions e =
    (hm_values (e_resources e) @ hm_values (e_wildcard_resources e),
     hm_values (e_permissions e) @ hm_values (e_wildcard_permissions e))"

definition engine_role_hierarchy_edges :: "rbac_engine \<Rightarrow> role_id \<Rightarrow> role_hierarchy list run" where
  "engine_role_hierarchy_edges e r =
    run_of_option (list_role_hierarchy_edges r (e_role_hierarchy e))"

definition list_role_permissions_by_resources ::
  "rbac_engine \<Rightarrow> role_id \<Rightarrow> ((resource \<times> permission list) list, rbac_error) result" where
  "list_role_permissions_by_resources e r =
    res_bind (ok_or (hm_get (e_role_permissions e) r) (RoleNotFound (debug_role_id r)))
      (\<lambda>rps. group_permissions_by_resources e (map (\<lambda>(p, r). (r, p)) rps))"

section \<open>The engine's tables are those of the snapshot\<close>

lemma split_resources_eq:
  "split_resources rs (res, wild) =
    (fold (\<lambda>r. hm_insert (resource_request_of r) r) (filter (\<lambda>r. \<not> is_wildcard_row r) rs) res,
     fold (\<lambda>r. hm_insert (res_id r) r) (filter is_wildcard_row rs) wild)"
  by (induction rs arbitrary: res wild) auto

lemma split_permissions_eq:
  "split_permissions ps (perms, wild) =
    (fold (\<lambda>p. hm_insert (permission_request_of p) p) (filter (\<lambda>p. perm_action p \<noteq> WILDCARD) ps) perms,
     fold (\<lambda>p. hm_insert (perm_id p) p) (filter (\<lambda>p. perm_action p = WILDCARD) ps) wild)"
  by (induction ps arbitrary: perms wild) auto

lemma fold_snoc: "fold (\<lambda>x v. v @ [f x]) xs ys = ys @ map f xs"
  by (induction xs arbitrary: ys) auto

lemma set_fold_insert: "set (fold (\<lambda>x. List.insert (f x)) xs ys) = set ys \<union> f ` set xs"
  by (induction xs arbitrary: ys) auto

lemmas from_snapshot_sel = from_snapshot_def split_resources_eq split_permissions_eq

lemma from_snapshot_user_roles:
  "hm_get (e_user_roles (from_snapshot s)) u =
    map_of (rev (map (\<lambda>ur. (ur_user_id ur, ur_role_id ur)) (snap_user_roles s))) u"
  by (simp add: from_snapshot_sel hm.get_fold_ins_empty)

lemma from_snapshot_roles:
  "hm_contains (e_roles (from_snapshot s)) r \<longleftrightarrow> r \<in> role_key ` set (snap_roles s)"
  by (simp add: from_snapshot_sel hm.get_fold_ins_empty hm_contains_def map_of_rev_key_None
      del: not_None_eq)

lemma from_snapshot_children:
  "children_of (e_role_hierarchy (from_snapshot s)) r =
    map child_role_id (filter (\<lambda>rh. super_role_id rh = r) (snap_role_hierarchy s))"
  by (auto simp: from_snapshot_sel hm.get_fold_modif_empty children_of_def fold_snoc filter_empty_conv)

lemma from_snapshot_role_permissions:
  "(case hm_get (e_role_permissions (from_snapshot s)) r of Some rows \<Rightarrow> set rows | None \<Rightarrow> {}) =
    {(rp_permission_id rp, rp_resource_id rp) | rp.
      rp \<in> set (snap_role_permissions s) \<and> rp_role_id rp = r}"
  by (auto simp: from_snapshot_sel hm.get_fold_modif_empty set_fold_insert)

lemma from_snapshot_overrides:
  "(case hm_get (e_user_overrides (from_snapshot s)) u of Some uos \<Rightarrow> uos | None \<Rightarrow> []) =
    filter (\<lambda>uo. uo_user_id uo = u) (snap_user_overrides s)"
  by (auto simp: from_snapshot_sel hm.get_fold_modif_empty fold_snoc[where f = "\<lambda>x. x", simplified]
      intro!: filter_False[symmetric])

end
