(* ===== verification/RbacPolicy.thy ===== *)
theory RbacPolicy
  imports RbacEngine
begin

text \<open>
  What the RBAC engine promises, stated over the rows of the tables alone: which roles a user
  holds, which rows cover a request, what an override does, and the decision they give. The
  engine's \<open>user_can\<close> computes that decision.
\<close>

section \<open>The policy\<close>

definition hierarchy_rel :: "rbac_snapshot \<Rightarrow> (role_id \<times> role_id) set" where
  "hierarchy_rel s = {(super_role_id rh, child_role_id rh) | rh. rh \<in> set (snap_role_hierarchy s)}"

definition effective_roles :: "rbac_snapshot \<Rightarrow> role_id \<Rightarrow> role_id set" where
  "effective_roles s root = (hierarchy_rel s)\<^sup>* `` {root}"

definition assigned_role :: "rbac_snapshot \<Rightarrow> user_id \<Rightarrow> role_id \<Rightarrow> bool" where
  "assigned_role s u root = (\<exists>ur \<in> set (snap_user_roles s). ur_user_id ur = u \<and> ur_role_id ur = root)"

definition registered_resource :: "rbac_snapshot \<Rightarrow> resource_request \<Rightarrow> resource option" where
  "registered_resource s req =
    find (\<lambda>r. \<not> is_wildcard_row r \<and> resource_request_of r = req) (rev (snap_resources s))"

definition registered_permission :: "rbac_snapshot \<Rightarrow> permission_request \<Rightarrow> permission option" where
  "registered_permission s req =
    find (\<lambda>p. perm_action p \<noteq> WILDCARD \<and> permission_request_of p = req) (rev (snap_permissions s))"

definition permission_covers :: "rbac_snapshot \<Rightarrow> permission_request \<Rightarrow> permission_id \<Rightarrow> bool" where
  "permission_covers s req pid =
    ((\<exists>p. registered_permission s req = Some p \<and> perm_id p = pid) \<or>
     (\<exists>p \<in> set (snap_permissions s). perm_action p = WILDCARD \<and> perm_id p = pid))"

definition wildcard_covers :: "resource \<Rightarrow> resource option \<Rightarrow> bool" where
  "wildcard_covers w target =
    (case target of
       Some t \<Rightarrow> (res_schema w \<in> {None, Some WILDCARD, res_schema t}) \<and>
         (res_table w \<in> {WILDCARD, res_table t})
     | None \<Rightarrow> res_schema w \<in> {None, Some WILDCARD} \<and> res_table w = WILDCARD)"

definition resource_covers :: "rbac_snapshot \<Rightarrow> resource_request \<Rightarrow> resource_id \<Rightarrow> bool" where
  "resource_covers s req rid =
    ((\<exists>r. registered_resource s req = Some r \<and> res_id r = rid) \<or>
     (\<exists>w \<in> set (snap_resources s). is_wildcard_row w \<and> res_id w = rid \<and>
        wildcard_covers w (registered_resource s req)))"

definition role_permits ::
  "rbac_snapshot \<Rightarrow> role_id \<Rightarrow> permission_request \<Rightarrow> resource_request \<Rightarrow> bool" where
  "role_permits s root preq rreq =
    (\<exists>rp \<in> set (snap_role_permissions s). rp_role_id rp \<in> effective_roles s root \<and>
       permission_covers s preq (rp_permission_id rp) \<and>
       resource_covers s rreq (rp_resource_id rp))"

definition override_grants ::
  "rbac_snapshot \<Rightarrow> user_id \<Rightarrow> permission_request \<Rightarrow> resource_request \<Rightarrow> bool \<Rightarrow> bool" where
  "override_grants s u preq rreq g =
    (\<exists>p r. registered_permission s preq = Some p \<and> registered_resource s rreq = Some r \<and>
       (\<exists>uo \<in> set (snap_user_overrides s). uo_user_id uo = u \<and> uo_permission_id uo = perm_id p \<and>
          uo_resource_id uo = res_id r \<and> uo_grant uo = g))"

definition access_decision ::
  "rbac_snapshot \<Rightarrow> user_id \<Rightarrow> role_id \<Rightarrow> permission_request \<Rightarrow> resource_request \<Rightarrow>
    (bool, rbac_error) result"
where
  "access_decision s u root preq rreq =
    (if override_grants s u preq rreq True then Inr True
     else if override_grants s u preq rreq False then Inr False
     else if role_permits s root preq rreq then Inr True
     else if registered_resource s rreq = None then Inl (ResourceNotFound ''None'')
     else if registered_permission s preq = None then Inl (PermissionNotFound ''None'')
     else Inr False)"

text \<open>The constraints of the tables: their primary keys, and the foreign keys into the roles.\<close>

definition override_key :: "user_override \<Rightarrow> user_id \<times> permission_id \<times> resource_id" where
  "override_key uo = (uo_user_id uo, uo_permission_id uo, uo_resource_id uo)"

definition wf_snapshot :: "rbac_snapshot \<Rightarrow> bool" where
  "wf_snapshot s =
    (distinct (map res_id (snap_resources s)) \<and>
     distinct (map perm_id (snap_permissions s)) \<and>
     distinct (map ur_user_id (snap_user_roles s)) \<and>
     distinct (map override_key (snap_user_overrides s)) \<and>
     ur_role_id ` set (snap_user_roles s) \<subseteq> role_key ` set (snap_roles s) \<and>
     child_role_id ` set (snap_role_hierarchy s) \<subseteq> role_key ` set (snap_roles s))"

text \<open>No cycle of the hierarchy that avoids the user's own role can be reached from it.\<close>

definition walkable :: "rbac_snapshot \<Rightarrow> role_id \<Rightarrow> bool" where
  "walkable s root =
    (\<forall>x \<in> effective_roles s root. (x, x) \<notin> (hierarchy_rel s \<inter> {(a, b). b \<noteq> root})\<^sup>+)"

section \<open>The engine's lookups over the rows\<close>

lemma child_rel_from_snapshot: "child_rel (e_role_hierarchy (from_snapshot s)) = hierarchy_rel s"
  by (auto simp: child_rel_def hierarchy_rel_def from_snapshot_children)

lemma walk_rel_child_rel: "walk_rel h {root} = child_rel h \<inter> {(a, b). b \<noteq> root}"
  by (auto simp: walk_rel_def child_rel_def)

lemma walkable_iff: "walkable s root \<longleftrightarrow> no_inner_cycle (e_role_hierarchy (from_snapshot s)) root"
  by (auto simp: walkable_def no_inner_cycle_def effective_roles_def walk_rel_child_rel
      child_rel_from_snapshot)

lemma lookup_resource: "hm_get (e_resources (from_snapshot s)) req = registered_resource s req"
  by (simp add: from_snapshot_sel hm.get_fold_ins_empty map_of_rev_find find_rev_filter
      registered_resource_def)

lemma lookup_permission: "hm_get (e_permissions (from_snapshot s)) req = registered_permission s req"
  by (simp add: from_snapshot_sel hm.get_fold_ins_empty map_of_rev_find find_rev_filter
      registered_permission_def)

lemma lookup_wildcard_resource:
  "wf_snapshot s \<Longrightarrow> hm_get (e_wildcard_resources (from_snapshot s)) rid = Some w \<longleftrightarrow>
    w \<in> set (snap_resources s) \<and> is_wildcard_row w \<and> res_id w = rid"
  by (auto simp: from_snapshot_sel hm.get_fold_ins_empty wf_snapshot_def map_of_rev_key
      distinct_map_filter)

lemma lookup_wildcard_permission:
  "wf_snapshot s \<Longrightarrow> hm_get (e_wildcard_permissions (from_snapshot s)) pid = Some p \<longleftrightarrow>
    p \<in> set (snap_permissions s) \<and> perm_action p = WILDCARD \<and> perm_id p = pid"
  by (auto simp: from_snapshot_sel hm.get_fold_ins_empty wf_snapshot_def map_of_rev_key
      distinct_map_filter)

lemma is_wildcard_permission_iff:
  assumes "wf_snapshot s"
  shows "is_wildcard_permission (from_snapshot s) pid \<longleftrightarrow>
    (\<exists>p \<in> set (snap_permissions s). perm_action p = WILDCARD \<and> perm_id p = pid)"
  using lookup_wildcard_permission[OF assms, of pid]
  by (cases "hm_get (e_wildcard_permissions (from_snapshot s)) pid")
    (auto simp: is_wildcard_permission_def)

lemma is_wildcard_resource_iff:
  assumes "wf_snapshot s"
  shows "is_wildcard_resource (from_snapshot s) rid t \<longleftrightarrow>
    (\<exists>w \<in> set (snap_resources s). is_wildcard_row w \<and> res_id w = rid \<and> wildcard_covers w t)"
proof (cases "hm_get (e_wildcard_resources (from_snapshot s)) rid")
  case None
  with lookup_wildcard_resource[OF assms, of rid] show ?thesis
    by (auto simp: is_wildcard_resource_def)
next
  case (Some w)
  have only: "w' \<in> set (snap_resources s) \<and> is_wildcard_row w' \<and> res_id w' = rid \<longleftrightarrow> w' = w" for w'
    using lookup_wildcard_resource[OF assms, of rid w'] Some by auto
  then have "(\<exists>w' \<in> set (snap_resources s). is_wildcard_row w' \<and> res_id w' = rid \<and> wildcard_covers w' t)
    \<longleftrightarrow> wildcard_covers w t" by metis
  with Some show ?thesis
    by (auto simp: is_wildcard_resource_def wildcard_covers_def split: option.splits)
qed

definition row_matches ::
  "rbac_engine \<Rightarrow> permission option \<Rightarrow> resource option \<Rightarrow> permission_id \<Rightarrow> resource_id \<Rightarrow> bool" where
  "row_matches e p r pid rid =
    ((is_wildcard_permission e pid \<and> (\<exists>res. r = Some res \<and> rid = res_id res)) \<or>
     (is_wildcard_resource e rid r \<and> (\<exists>perm. p = Some perm \<and> pid = perm_id perm)) \<or>
     (is_wildcard_permission e pid \<and> is_wildcard_resource e rid r))"

lemma wildcard_match_Cons:
  "wildcard_match e p r ((pid, rid) # rows) \<longleftrightarrow>
    row_matches e p r pid rid \<or> wildcard_match e p r rows"
  by (cases p; cases r) (simp_all add: row_matches_def Let_def, auto)

lemma wildcard_match_iff:
  "wildcard_match e p r rows \<longleftrightarrow> (\<exists>(pid, rid) \<in> set rows. row_matches e p r pid rid)"
proof (induction rows)
  case (Cons row rows)
  then show ?case by (cases row) (simp add: wildcard_match_Cons del: wildcard_match.simps)
qed simp

definition rows_of :: "rbac_engine \<Rightarrow> role_id \<Rightarrow> (permission_id \<times> resource_id) set" where
  "rows_of e role = (case hm_get (e_role_permissions e) role of Some rows \<Rightarrow> set rows | None \<Rightarrow> {})"

lemma role_grants_iff:
  "role_grants e p r roles \<longleftrightarrow>
    (\<exists>role \<in> set roles. \<exists>(pid, rid) \<in> rows_of e role.
      (is_wildcard_permission e pid \<or> (\<exists>perm. p = Some perm \<and> pid = perm_id perm)) \<and>
      (is_wildcard_resource e rid r \<or> (\<exists>res. r = Some res \<and> rid = res_id res)))"
proof (induction e p r roles rule: role_grants.induct)
  case (2 e p r role rest)
  show ?case
  proof (cases "hm_get (e_role_permissions e) role")
    case None
    with 2 show ?thesis by (simp add: rows_of_def)
  next
    case (Some rows)
    have here: "(case (p, r) of (Some perm, Some res) \<Rightarrow> (perm_id perm, res_id res) \<in> set rows | _ \<Rightarrow> False)
        \<or> wildcard_match e p r rows \<longleftrightarrow>
      (\<exists>(pid, rid) \<in> set rows.
        (is_wildcard_permission e pid \<or> (\<exists>perm. p = Some perm \<and> pid = perm_id perm)) \<and>
        (is_wildcard_resource e rid r \<or> (\<exists>res. r = Some res \<and> rid = res_id res)))"
      unfolding wildcard_match_iff row_matches_def
      by (cases p; cases r) (simp_all add: Bex_def split_paired_Ex, blast+)
    show ?thesis
    proof (cases "(case (p, r) of (Some perm, Some res) \<Rightarrow> (perm_id perm, res_id res) \<in> set rows | _ \<Rightarrow> False)
        \<or> wildcard_match e p r rows")
      case True
      with here Some show ?thesis by (auto simp: rows_of_def)
    next
      case False
      with 2 Some have "role_grants e p r (role # rest) = role_grants e p r rest" by simp
      with here False 2 Some show ?thesis by (simp add: rows_of_def)
    qed
  qed
qed simp

section \<open>The engine decides as the policy says\<close>

lemma user_role_lookup:
  assumes "wf_snapshot s" "assigned_role s u root"
  shows "hm_get (e_user_roles (from_snapshot s)) u = Some root"
  using assms by (auto simp: wf_snapshot_def assigned_role_def from_snapshot_user_roles map_of_rev_key)

lemma collect_roles_ok:
  "(\<And>r. r \<in> set rs \<Longrightarrow> hm_contains roles r) \<Longrightarrow>
    \<exists>out. collect_roles roles rs acc = Inr out \<and> set out = set rs \<union> set acc"
  by (induction rs arbitrary: acc) (auto, metis Un_insert_right set_insert)

lemma effective_roles_exist:
  assumes "wf_snapshot s" "assigned_role s u root" "r \<in> effective_roles s root"
  shows "r \<in> role_key ` set (snap_roles s)"
proof -
  have "(root, r) \<in> (hierarchy_rel s)\<^sup>*" using assms(3) by (simp add: effective_roles_def)
  then show ?thesis
    using assms(1,2)
    by (cases rule: rtrancl.cases)
      (auto simp: wf_snapshot_def assigned_role_def hierarchy_rel_def)
qed

lemma get_user_role_ids_ok:
  assumes "wf_snapshot s" "assigned_role s u root" "walkable s root"
  shows "\<exists>roles. get_user_role_ids (from_snapshot s) u = Ret (Inr roles) \<and>
    set roles = effective_roles s root"
proof -
  let ?h = "e_role_hierarchy (from_snapshot s)"
  obtain out where out: "enumerate_role root ?h = Some out"
    using assms(3) enumerate_role_returns_iff walkable_iff by blast
  then have set_out: "set out = effective_roles s root"
    by (simp add: enumerate_role_set effective_roles_def child_rel_from_snapshot)
  then have "\<And>r. r \<in> set out \<Longrightarrow> hm_contains (e_roles (from_snapshot s)) r"
    using effective_roles_exist[OF assms(1,2)] by (simp add: from_snapshot_roles)
  from collect_roles_ok[of out, OF this, where acc = "[]"] show ?thesis
    by (auto simp: get_user_role_ids_def user_role_lookup[OF assms(1,2)] out set_out)
qed

lemma override_decision_iff:
  assumes "distinct (map override_key uos)" "\<forall>uo \<in> set uos. uo_user_id uo = u"
  shows "override_decision p r uos = Some g \<longleftrightarrow>
    (\<exists>uo \<in> set uos. uo_permission_id uo = perm_id p \<and> uo_resource_id uo = res_id r \<and> uo_grant uo = g)"
  using assms
proof (induction uos)
  case (Cons uo uos)
  have fresh: "\<not> (uo_permission_id v = uo_permission_id uo \<and> uo_resource_id v = uo_resource_id uo)"
    if "v \<in> set uos" for v
  proof
    assume "uo_permission_id v = uo_permission_id uo \<and> uo_resource_id v = uo_resource_id uo"
    moreover have "uo_user_id v = uo_user_id uo" using Cons.prems(2) that by simp
    ultimately have "override_key v = override_key uo" by (simp add: override_key_def)
    moreover have "override_key v \<in> override_key ` set uos" using that by (rule imageI)
    ultimately show False using Cons.prems(1) by simp
  qed
  have IH: "override_decision p r uos = Some g \<longleftrightarrow> (\<exists>uo \<in> set uos.
      uo_permission_id uo = perm_id p \<and> uo_resource_id uo = res_id r \<and> uo_grant uo = g)"
    using Cons by simp
  show ?case
  proof (cases "uo_permission_id uo = perm_id p \<and> uo_resource_id uo = res_id r")
    case True
    with fresh show ?thesis by auto
  next
    case False
    with IH show ?thesis by auto
  qed
qed simp

definition engine_override ::
  "rbac_engine \<Rightarrow> user_id \<Rightarrow> permission option \<Rightarrow> resource option \<Rightarrow> bool option" where
  "engine_override e u permission resource =
    (case (permission, resource) of
       (Some p, Some r) \<Rightarrow>
         (case hm_get (e_user_overrides e) u of
            Some uos \<Rightarrow> override_decision p r uos
          | None \<Rightarrow> None)
     | _ \<Rightarrow> None)"

lemma engine_override_iff:
  assumes "wf_snapshot s"
  shows "engine_override (from_snapshot s) u (registered_permission s preq)
      (registered_resource s rreq) = Some g \<longleftrightarrow> override_grants s u preq rreq g"
proof -
  let ?uos = "filter (\<lambda>uo. uo_user_id uo = u) (snap_user_overrides s)"
  have "(case hm_get (e_user_overrides (from_snapshot s)) u of
      Some uos \<Rightarrow> override_decision p r uos | None \<Rightarrow> None) = override_decision p r ?uos" for p r
    unfolding from_snapshot_overrides[symmetric] by (simp split: option.split)
  moreover have "distinct (map override_key ?uos)"
    using assms by (simp add: wf_snapshot_def distinct_map_filter)
  ultimately show ?thesis
    by (auto simp: engine_override_def override_grants_def override_decision_iff[where u = u]
        split: option.splits)
qed

lemma role_grants_role_permits:
  assumes "wf_snapshot s" "set roles = effective_roles s root"
  shows "role_grants (from_snapshot s) (registered_permission s preq) (registered_resource s rreq) roles
    \<longleftrightarrow> role_permits s root preq rreq"
proof -
  have rows: "rows_of (from_snapshot s) role =
      {(rp_permission_id rp, rp_resource_id rp) | rp.
        rp \<in> set (snap_role_permissions s) \<and> rp_role_id rp = role}" for role
    unfolding rows_of_def by (rule from_snapshot_role_permissions)
  have p: "is_wildcard_permission (from_snapshot s) pid \<or>
      (\<exists>perm. registered_permission s preq = Some perm \<and> pid = perm_id perm)
      \<longleftrightarrow> permission_covers s preq pid" for pid
    using is_wildcard_permission_iff[OF assms(1)] by (auto simp: permission_covers_def)
  have r: "is_wildcard_resource (from_snapshot s) rid (registered_resource s rreq) \<or>
      (\<exists>res. registered_resource s rreq = Some res \<and> rid = res_id res)
      \<longleftrightarrow> resource_covers s rreq rid" for rid
    using is_wildcard_resource_iff[OF assms(1)] by (auto simp: resource_covers_def)
  show ?thesis
    unfolding role_grants_iff p r rows role_permits_def assms(2) by auto
qed

lemma override_grants_functional:
  "wf_snapshot s \<Longrightarrow> override_grants s u preq rreq g \<Longrightarrow> override_grants s u preq rreq g' \<Longrightarrow> g = g'"
  using engine_override_iff by (metis option.inject)

lemma user_can_access_decision:
  assumes "wf_snapshot s" "assigned_role s u root" "walkable s root"
  shows "user_can (from_snapshot s) u preq rreq = Ret (access_decision s u root preq rreq)"
proof -
  obtain roles where roles: "get_user_role_ids (from_snapshot s) u = Ret (Inr roles)"
    and set_roles: "set roles = effective_roles s root"
    using get_user_role_ids_ok[OF assms] by blast
  have over: "engine_override (from_snapshot s) u (registered_permission s preq)
      (registered_resource s rreq) =
      (if override_grants s u preq rreq True then Some True
       else if override_grants s u preq rreq False then Some False else None)"
    using engine_override_iff[OF assms(1), of u preq rreq]
    by (cases "engine_override (from_snapshot s) u (registered_permission s preq)
      (registered_resource s rreq)") (simp_all, metis (full_types) option.inject)
  show ?thesis
    unfolding user_can_def Let_def lookup_resource lookup_permission roles run_try.simps
      role_grants_role_permits[OF assms(1) set_roles]
      engine_override_def[symmetric] over access_decision_def
    by simp
qed

lemma user_can_unknown_user:
  assumes "\<And>root. \<not> assigned_role s u root"
  shows "user_can (from_snapshot s) u preq rreq = Ret (Inl (UserNotFound (debug_user_id u)))"
proof -
  have "hm_get (e_user_roles (from_snapshot s)) u = None"
    using assms by (auto simp: from_snapshot_user_roles map_of_rev_key_None assigned_role_def)
  then show ?thesis by (simp add: user_can_def get_user_role_ids_def)
qed

lemma user_can_diverges:
  assumes "wf_snapshot s" "assigned_role s u root" "\<not> walkable s root"
  shows "user_can (from_snapshot s) u preq rreq = Diverge"
proof -
  have "enumerate_role root (e_role_hierarchy (from_snapshot s)) = None"
    using assms(3) enumerate_role_returns_iff walkable_iff by (metis option.exhaust)
  then show ?thesis
    by (simp add: user_can_def get_user_role_ids_def user_role_lookup[OF assms(1,2)])
qed

section \<open>Properties\<close>

definition example_snapshot :: rbac_snapshot where
  "example_snapshot = \<lparr>
    snap_resources = [\<lparr>res_id = ResourceId 1, res_schema = None, res_table = ''cake''\<rparr>,
      \<lparr>res_id = ResourceId 2, res_schema = None, res_table = ''*''\<rparr>],
    snap_permissions = [\<lparr>perm_id = PermissionId 1, perm_action = ''select''\<rparr>,
      \<lparr>perm_id = PermissionId 2, perm_action = ''*''\<rparr>],
    snap_roles = [\<lparr>role_key = RoleId 1, role_name = ''admin''\<rparr>,
      \<lparr>role_key = RoleId 2, role_name = ''clerk''\<rparr>],
    snap_user_roles = [\<lparr>ur_user_id = UserId 7, ur_role_id = RoleId 1\<rparr>,
      \<lparr>ur_user_id = UserId 8, ur_role_id = RoleId 2\<rparr>],
    snap_role_permissions = [\<lparr>rp_role_id = RoleId 2, rp_permission_id = PermissionId 1,
      rp_resource_id = ResourceId 2\<rparr>],
    snap_user_overrides = [\<lparr>uo_user_id = UserId 8, uo_permission_id = PermissionId 1,
      uo_resource_id = ResourceId 1, uo_grant = False\<rparr>],
    snap_role_hierarchy = [\<lparr>super_role_id = RoleId 1, child_role_id = RoleId 2\<rparr>]\<rparr>"

lemma example_hierarchy_rel: "hierarchy_rel example_snapshot = {(RoleId 1, RoleId 2)}"
  by (auto simp: hierarchy_rel_def example_snapshot_def)

lemma example_effective:
  "effective_roles example_snapshot (RoleId 1) = {RoleId 1, RoleId 2}"
proof -
  have "(RoleId 1, x) \<in> {(RoleId 1, RoleId 2)}\<^sup>* \<longleftrightarrow> x = RoleId 1 \<or> x = RoleId 2" for x
    by (auto elim: rtranclE)
  then show ?thesis by (auto simp: effective_roles_def example_hierarchy_rel)
qed

lemma example_ok:
  "wf_snapshot example_snapshot" "assigned_role example_snapshot (UserId 7) (RoleId 1)"
  "walkable example_snapshot (RoleId 1)"
proof -
  show "wf_snapshot example_snapshot" "assigned_role example_snapshot (UserId 7) (RoleId 1)"
    by (simp_all add: wf_snapshot_def assigned_role_def example_snapshot_def override_key_def)
  show "walkable example_snapshot (RoleId 1)"
    by (auto simp: walkable_def example_hierarchy_rel example_effective dest!: tranclD elim: converse_rtranclE)
qed

text \<open>C3. Refinement: for a snapshot that meets the tables' key constraints and a user whose role
  can be walked, \<open>user_can\<close> on the engine built from the snapshot returns exactly the decision
  of the policy: an override for the registered permission and resource decides, otherwise a row
  of one of the user's (inherited) roles whose permission and resource cover the request grants
  it, otherwise an unregistered resource or permission is an error, otherwise it is denied.\<close>

theorem user_can_implements_policy:
  assumes "wf_snapshot s" "assigned_role s u root" "walkable s root"
  shows "user_can (from_snapshot s) u preq rreq = Ret (access_decision s u root preq rreq)"
  using assms by (rule user_can_access_decision)

theorem user_can_implements_policy_witness:
  "user_can (from_snapshot example_snapshot) (UserId 7) (Action ''select'') (Table ''cake'') =
    Ret (access_decision example_snapshot (UserId 7) (RoleId 1) (Action ''select'') (Table ''cake'')) \<and>
   access_decision example_snapshot (UserId 7) (RoleId 1) (Action ''select'') (Table ''cake'') = Inr True"
proof -
  have "role_permits example_snapshot (RoleId 1) (Action ''select'') (Table ''cake'')"
    by (simp add: role_permits_def example_effective)
      (simp add: example_snapshot_def permission_covers_def resource_covers_def wildcard_covers_def
        registered_permission_def registered_resource_def Action_def Table_def WILDCARD_def
        permission_request_of_def resource_request_of_def is_wildcard_row_def)
  moreover have "\<not> override_grants example_snapshot (UserId 7) (Action ''select'') (Table ''cake'') g" for g
    by (simp add: override_grants_def example_snapshot_def)
  ultimately show ?thesis
    using user_can_implements_policy[OF example_ok] by (simp add: access_decision_def)
qed

text \<open>A permission check does not return when the role hierarchy below the user's role has a
  cycle that avoids that role.\<close>

lemma user_can_loops_on_inner_cycle:
  assumes "wf_snapshot s" "assigned_role s u root"
  shows "user_can (from_snapshot s) u preq rreq = Diverge \<longleftrightarrow> \<not> walkable s root"
proof (cases "walkable s root")
  case True
  with user_can_access_decision[OF assms True] show ?thesis by simp
next
  case False
  with user_can_diverges[OF assms False] show ?thesis by simp
qed

lemma user_can_loops_on_inner_cycle_witness:
  "user_can (from_snapshot example_snapshot) (UserId 7) (Action ''select'') (Table ''cake'') \<noteq> Diverge"
  using user_can_loops_on_inner_cycle[OF example_ok(1,2)] example_ok(3) by blast

text \<open>C4. Inheritance and overrides: a request that no override of the user decides is allowed to
  the user of a role above another in the hierarchy whenever that other role's own rows cover
  it; and an override that denies it wins over every role.\<close>

theorem roles_inherit_and_overrides_win:
  assumes "wf_snapshot s" "assigned_role s u root" "walkable s root"
    and "role \<in> effective_roles s root"
  shows "(override_grants s u preq rreq False \<longrightarrow>
      user_can (from_snapshot s) u preq rreq = Ret (Inr False)) \<and>
    ((\<forall>g. \<not> override_grants s u preq rreq g) \<and> role_permits s role preq rreq \<longrightarrow>
      user_can (from_snapshot s) u preq rreq = Ret (Inr True))"
proof -
  have "user_can (from_snapshot s) u preq rreq = Ret (Inr False)"
    if "override_grants s u preq rreq False"
    using user_can_access_decision[OF assms(1-3)] that override_grants_functional[OF assms(1) that]
    by (auto simp: access_decision_def)
  moreover have "user_can (from_snapshot s) u preq rreq = Ret (Inr True)"
    if no: "\<forall>g. \<not> override_grants s u preq rreq g" and "role_permits s role preq rreq"
  proof -
    have "effective_roles s role \<subseteq> effective_roles s root"
      using assms(4) by (auto simp: effective_roles_def)
    with that(2) have "role_permits s root preq rreq" by (auto simp: role_permits_def)
    with no user_can_access_decision[OF assms(1-3)] show ?thesis by (simp add: access_decision_def)
  qed
  ultimately show ?thesis by blast
qed

theorem roles_inherit_and_overrides_win_witness:
  "RoleId 2 \<in> effective_roles example_snapshot (RoleId 1) \<and>
   user_can (from_snapshot example_snapshot) (UserId 7) (Action ''select'') (Table ''tea'') = Ret (Inr True)"
proof -
  have r: "RoleId 2 \<in> effective_roles example_snapshot (RoleId 1)" by (simp add: example_effective)
  have self: "RoleId 2 \<in> effective_roles example_snapshot (RoleId 2)"
    by (simp add: effective_roles_def)
  have "\<forall>g. \<not> override_grants example_snapshot (UserId 7) (Action ''select'') (Table ''tea'') g"
    by (simp add: override_grants_def example_snapshot_def)
  moreover have "role_permits example_snapshot (RoleId 2) (Action ''select'') (Table ''tea'')"
    using self
    by (simp add: example_snapshot_def role_permits_def permission_covers_def resource_covers_def
        wildcard_covers_def registered_permission_def registered_resource_def Action_def Table_def
        WILDCARD_def permission_request_of_def resource_request_of_def is_wildcard_row_def)
  ultimately show ?thesis
    using roles_inherit_and_overrides_win[OF example_ok r] r by blast
qed

end
