(* ===== verification/RbacReports.thy ===== *)
theory RbacReports
  imports RbacPolicy
begin

text \<open>
  The reports of the RBAC engine: a user's permission set after the overrides, its agreement
  with \<open>user_can\<close>, the roles and ranks in an order that does not depend on the hash map, the
  grouping of permissions by resource, and the unrestricted snapshot.
\<close>

section \<open>A user's permissions\<close>


lemma distinct_apply_override: "distinct rps \<Longrightarrow> distinct (apply_override uo rps)"
  by (simp add: apply_override_def Let_def distinct_removeAll)








text \<open>The report does not panic: what it looks up after the role check is there.\<close>

lemma collect_roles_contains:
  "collect_roles roles rs acc = Inr out \<Longrightarrow> r \<in> set rs \<Longrightarrow> hm_contains roles r"
  by (induction rs arbitrary: acc) (auto split: if_splits)

lemma enumerate_role_root: "enumerate_role root h = Some out \<Longrightarrow> root \<in> set out"
  by (simp add: enumerate_role_set)

lemma get_user_role_permissions_no_panic: "get_user_role_permissions e u \<noteq> Panic m"
proof (cases "get_user_role_ids e u")
  case (Ret x)
  show ?thesis
  proof (cases x)
    case (Inl err)
    with Ret show ?thesis by (simp add: get_user_role_permissions_def)
  next
    case (Inr roles)
    from Ret Inr obtain root walk where root: "hm_get (e_user_roles e) u = Some root"
      and walk: "enumerate_role root (e_role_hierarchy e) = Some walk"
      and ok: "collect_roles (e_roles e) walk [] = Inr roles"
      by (auto simp: get_user_role_ids_def run_simps split: option.splits)
    have "hm_contains (e_roles e) root"
      using collect_roles_contains[OF ok enumerate_role_root[OF walk]] .
    then obtain role where "hm_get (e_roles e) root = Some role" by (auto simp: hm_contains_def)
    with Ret Inr root show ?thesis
      by (cases "group_permissions_by_resources e
        (map (\<lambda>(p, r). (r, p)) (user_permission_set e u roles))")
        (simp_all add: get_user_role_permissions_def)
  qed
next
  case (Panic m')
  then show ?thesis
    by (cases "hm_get (e_user_roles e) u"; cases "run_of_option (enumerate_role (the
      (hm_get (e_user_roles e) u)) (e_role_hierarchy e))")
      (auto simp: get_user_role_ids_def run_simps)
next
  case Diverge
  then show ?thesis by (simp add: get_user_role_permissions_def)
qed

section \<open>Ranks\<close>

text \<open>
  The list of roles and ranks is sorted by descending rank, then by role; it has one entry per
  role, and no iteration order of the hash map changes it.
\<close>

definition rank_entry :: "rbac_engine \<Rightarrow> role_id \<times> role \<Rightarrow> role \<times> 32 word" where
  "rank_entry e kv = (snd kv, of_nat (length (the (enumerate_role (fst kv) (e_role_hierarchy e)))))"

lemma ranks_loop_ok:
  assumes "\<And>rid. rid \<in> set rids \<Longrightarrow> \<exists>walk. enumerate_role rid (e_role_hierarchy e) = Some walk"
    and "\<And>rid. rid \<in> set rids \<Longrightarrow> hm_get (e_roles e) rid \<noteq> None"
  shows "ranks_loop e rids acc =
    Ret (Inr (acc @ map (\<lambda>rid. rank_entry e (rid, the (hm_get (e_roles e) rid))) rids))"
  using assms
proof (induction rids arbitrary: acc)
  case (Cons rid rids)
  then obtain walk r where "enumerate_role rid (e_role_hierarchy e) = Some walk"
    "hm_get (e_roles e) rid = Some r" by fastforce
  with Cons show ?case by (simp add: rank_entry_def)
qed simp

lemma get_roles_and_ranks_eq:
  assumes "hm_wf (e_roles e)"
    and "\<And>rid. rid \<in> set (hm_keys (e_roles e)) \<Longrightarrow>
      \<exists>walk. enumerate_role rid (e_role_hierarchy e) = Some walk"
  shows "get_roles_and_ranks e = Ret (Inr (sort_key rank_key (map (rank_entry e) (e_roles e))))"
proof -
  have get: "hm_get (e_roles e) rid = Some r" if "(rid, r) \<in> set (e_roles e)" for rid r
    using that assms(1) by (simp add: hm_get_iff)
  then have "ranks_loop e (hm_keys (e_roles e)) [] =
      Ret (Inr (map (\<lambda>rid. rank_entry e (rid, the (hm_get (e_roles e) rid))) (hm_keys (e_roles e))))"
    by (subst ranks_loop_ok) (use assms(2) in \<open>auto simp: hm_keys_def\<close>)
  also have "map (\<lambda>rid. rank_entry e (rid, the (hm_get (e_roles e) rid))) (hm_keys (e_roles e)) =
      map (rank_entry e) (e_roles e)"
    using get by (auto simp: hm_keys_def)
  finally show ?thesis by (simp add: get_roles_and_ranks_def)
qed

lemma sort_key_mset_cong:
  assumes "mset xs = mset ys" "inj_on f (set xs)"
  shows "sort_key f xs = sort_key f ys"
proof (rule properties_for_sort_key)
  show "mset (sort_key f ys) = mset xs" by (simp add: assms(1))
  show "sorted (map f (sort_key f ys))" by simp
  fix k assume "k \<in> set (sort_key f ys)"
  then have k: "k \<in> set xs" using assms(1) by (metis mset_eq_setD set_sort)
  have "filter (\<lambda>x. f k = f x) zs = replicate (count (mset zs) k) k" if "set zs \<subseteq> set xs" for zs
    using that
  proof (induction zs)
    case (Cons z zs)
    then show ?case using k assms(2) by (auto dest: inj_onD)
  qed simp
  moreover have "set (sort_key f ys) \<subseteq> set xs" using assms(1) by (metis mset_eq_setD set_sort subset_refl)
  ultimately show "filter (\<lambda>x. f k = f x) (sort_key f ys) = filter (\<lambda>x. f k = f x) xs"
    using assms(1) by simp
qed

definition roles_keyed :: "rbac_engine \<Rightarrow> bool" where
  "roles_keyed e = (hm_wf (e_roles e) \<and> (\<forall>k r. hm_get (e_roles e) k = Some r \<longrightarrow> role_key r = k))"

lemma from_snapshot_roles_keyed: "roles_keyed (from_snapshot s)"
  by (auto simp: roles_keyed_def from_snapshot_sel hm.wf_fold_ins hm.get_fold_ins_empty
      dest!: map_of_SomeD)

lemma ranks_order_independent:
  assumes "roles_keyed e" "hm_same (e_roles e) m"
    and "\<And>rid. rid \<in> set (hm_keys (e_roles e)) \<Longrightarrow>
      \<exists>walk. enumerate_role rid (e_role_hierarchy e) = Some walk"
  shows "get_roles_and_ranks (e\<lparr>e_roles := m\<rparr>) = get_roles_and_ranks e"
proof -
  let ?e = "e\<lparr>e_roles := m\<rparr>"
  have wf: "hm_wf (e_roles e)" "hm_wf m"
    using assms(1) hm_same_wf[OF assms(2)] by (simp_all add: roles_keyed_def)
  have keys: "set (hm_keys m) = set (hm_keys (e_roles e))"
    using hm_same_set[OF assms(2)] by (simp add: hm_keys_def)
  have entry: "rank_entry ?e = rank_entry e" by (simp add: rank_entry_def fun_eq_iff)
  have "mset (map (rank_entry e) m) = mset (map (rank_entry e) (e_roles e))"
    using assms(2) by (simp add: hm_same_def)
  moreover have "inj_on rank_key (set (map (rank_entry e) m))"
  proof -
    have "k = k' \<and> r = r'"
      if "(k, r) \<in> set (e_roles e)" "(k', r') \<in> set (e_roles e)" "role_key r = role_key r'" for k r k' r'
    proof -
      have "hm_get (e_roles e) k = Some r" "hm_get (e_roles e) k' = Some r'"
        using that(1,2) by (simp_all add: hm_get_iff[OF wf(1)])
      moreover from this have "role_key r = k" "role_key r' = k'"
        using assms(1) by (simp_all add: roles_keyed_def)
      ultimately show ?thesis using that(3) by simp
    qed
    then show ?thesis
      using hm_same_set[OF assms(2)]
      by (auto simp: inj_on_def rank_key_def rank_entry_def) blast+
  qed
  ultimately have "sort_key rank_key (map (rank_entry e) m) =
      sort_key rank_key (map (rank_entry e) (e_roles e))"
    by (rule sort_key_mset_cong)
  moreover have "get_roles_and_ranks ?e = Ret (Inr (sort_key rank_key (map (rank_entry ?e) m)))"
    by (subst get_roles_and_ranks_eq) (use wf keys assms(3) in auto)
  moreover have "get_roles_and_ranks e = Ret (Inr (sort_key rank_key (map (rank_entry e) (e_roles e))))"
    by (rule get_roles_and_ranks_eq[OF wf(1) assms(3)])
  ultimately show ?thesis by (simp add: entry)
qed

text \<open>In a hierarchy that is a tree below a role, its rank is the number of roles it holds.\<close>

lemma rank_entry_tree:
  assumes "no_inner_cycle (e_role_hierarchy e) rid" "tree_below (e_role_hierarchy e) rid"
  shows "snd (rank_entry e (rid, r)) = of_nat (card ((child_rel (e_role_hierarchy e))\<^sup>* `` {rid}))"
proof -
  obtain walk where walk: "enumerate_role rid (e_role_hierarchy e) = Some walk"
    using assms(1) enumerate_role_returns_iff by blast
  have "card (set walk) = length walk"
    using enumerate_role_distinct[OF walk assms(2)] by (rule distinct_card)
  then show ?thesis by (simp add: rank_entry_def walk enumerate_role_set[OF walk])
qed

section \<open>Grouping\<close>

definition grouped_ids :: "(resource_id, resource \<times> permission list) hashmap \<Rightarrow> resource_id \<Rightarrow>
    permission_id list" where
  "grouped_ids m rid = (case hm_get m rid of None \<Rightarrow> [] | Some rp \<Rightarrow> map perm_id (snd rp))"

definition group_inv :: "(resource_id, resource \<times> permission list) hashmap \<Rightarrow> bool" where
  "group_inv m = (hm_wf m \<and> (\<forall>rid r ps. hm_get m rid = Some (r, ps) \<longrightarrow> res_id r = rid))"

definition wildcards_keyed :: "rbac_engine \<Rightarrow> bool" where
  "wildcards_keyed e =
    ((\<forall>pid p. hm_get (e_wildcard_permissions e) pid = Some p \<longrightarrow> perm_id p = pid) \<and>
     (\<forall>rid r. hm_get (e_wildcard_resources e) rid = Some r \<longrightarrow> res_id r = rid))"

lemma from_snapshot_wildcards_keyed: "wildcards_keyed (from_snapshot s)"
  by (auto simp: wildcards_keyed_def from_snapshot_sel hm.get_fold_ins_empty dest!: map_of_SomeD)

lemma keyed_lookup:
  assumes "\<forall>k v. hm_get m k = Some v \<longrightarrow> key v = k"
    and "(case hm_get m k of Some v \<Rightarrow> Inr v | None \<Rightarrow> ok_or (find (\<lambda>v. key v = k) vs) e) = Inr v"
  shows "key v = k"
  using assms by (auto simp: run_simps find_Some_iff split: option.splits)

lemma group_loop_spec:
  assumes "wildcards_keyed e" "group_loop e items m = Inr m'" "group_inv m"
  shows "group_inv m' \<and> (\<forall>rid. grouped_ids m' rid =
      grouped_ids m rid @ map snd (filter (\<lambda>i. fst i = rid) items)) \<and>
    fst ` set m' = fst ` set m \<union> fst ` set items"
  using assms(2,3)
proof (induction items arbitrary: m)
  case Nil
  then show ?case by simp
next
  case (Cons item items)
  obtain rid pid where item: "item = (rid, pid)" by (cases item)
  from Cons.prems(1)[unfolded item, simplified] obtain p r where
    pl: "(case hm_get (e_wildcard_permissions e) pid of Some p \<Rightarrow> Inr p
      | None \<Rightarrow> ok_or (find (\<lambda>p. perm_id p = pid) (hm_values (e_permissions e)))
          (PermissionNotFound (debug_permission_id pid))) = Inr p" and
    rl: "(case hm_get (e_wildcard_resources e) rid of Some r \<Rightarrow> Inr r
      | None \<Rightarrow> ok_or (find (\<lambda>r. res_id r = rid) (hm_values (e_resources e)))
          (ResourceNotFound (debug_resource_id rid))) = Inr r" and
    rest: "group_loop e items (hm_modify rid (r, []) (\<lambda>(r, ps). (r, ps @ [p])) m) = Inr m'"
    unfolding res_bind_Inr_iff by blast
  have p: "perm_id p = pid"
    by (rule keyed_lookup[OF _ pl]) (use assms(1) in \<open>simp add: wildcards_keyed_def\<close>)
  have r: "res_id r = rid"
    by (rule keyed_lookup[OF _ rl]) (use assms(1) in \<open>simp add: wildcards_keyed_def\<close>)
  let ?m = "hm_modify rid (r, []) (\<lambda>(r, ps). (r, ps @ [p])) m"
  have inv: "group_inv ?m"
    using Cons.prems(2) r
    by (auto simp: group_inv_def hm_simps hm.wf_modif split: if_splits option.splits)
  have ids: "grouped_ids ?m j = grouped_ids m j @ (if j = rid then [pid] else [])" for j
    by (auto simp: grouped_ids_def hm_simps p split: option.splits)
  have keys: "fst ` set ?m = insert rid (fst ` set m)"
    by (simp add: hm_modify_def dom_update)
  from Cons.IH[OF rest inv] ids keys show ?case by (simp add: item)
qed

text \<open>
  The grouping has one entry per resource of the items, in the order of the resources, and
  under each resource exactly the permissions listed with it, in order.
\<close>

lemma sorted_keys_unique:
  assumes "sorted xs" "distinct xs" "set xs = A"
  shows "xs = sorted_list_of_set A"
  by (rule sorted_distinct_set_unique) (use assms in \<open>auto simp flip: assms(3)\<close>)

lemma map_sort_key: "map f (sort_key f xs) = sort (map f xs)"
  by (rule properties_for_sort[symmetric]) simp_all

lemma group_permissions_spec:
  assumes "wildcards_keyed e" "group_permissions_by_resources e items = Inr vec"
  shows "map (\<lambda>x. res_id (fst x)) vec = sorted_list_of_set (fst ` set items) \<and>
    (\<forall>(r, ps) \<in> set vec. map perm_id ps = sort (map snd (filter (\<lambda>i. fst i = res_id r) items)))"
proof -
  obtain m where loop: "group_loop e items [] = Inr m" and
    vec: "vec = map (\<lambda>(r, ps). (r, sort_key perm_id ps)) (sort_key (\<lambda>x. res_id (fst x)) (hm_values m))"
    using assms(2) by (auto simp: group_permissions_by_resources_def run_simps)
  have "group_inv []" by (simp add: group_inv_def hm_simps)
  from group_loop_spec[OF assms(1) loop this] have inv: "group_inv m"
    and ids: "grouped_ids m rid = map snd (filter (\<lambda>i. fst i = rid) items)"
    and keys: "fst ` set m = fst ` set items" for rid
    by (simp_all add: grouped_ids_def hm_simps)
  have val: "res_id (fst v) = k" if "(k, v) \<in> set m" for k v
    using that inv by (cases v) (simp add: group_inv_def flip: hm_get_iff)
  have key_of: "map (\<lambda>x. res_id (fst x)) (hm_values m) = map fst m"
    using val by (auto simp: hm_values_def)
  have "map (\<lambda>x. res_id (fst x)) vec =
      map (\<lambda>x. res_id (fst x)) (sort_key (\<lambda>x. res_id (fst x)) (hm_values m))"
    by (auto simp: vec)
  also have "\<dots> = sort (map fst m)"
    by (simp only: map_sort_key key_of)
  also have "\<dots> = sorted_list_of_set (fst ` set items)"
    by (rule sorted_keys_unique) (use inv keys in \<open>simp_all add: group_inv_def hm_wf_def\<close>)
  finally have first: "map (\<lambda>x. res_id (fst x)) vec = sorted_list_of_set (fst ` set items)" .
  have "map perm_id ps = sort (map snd (filter (\<lambda>i. fst i = res_id r) items))"
    if "(r, ps) \<in> set vec" for r ps
  proof -
    from that obtain qs k where q: "(k, r, qs) \<in> set m" "ps = sort_key perm_id qs"
      by (auto simp: vec hm_values_def)
    from q(1) val have "k = res_id r" by force
    moreover have "hm_get m k = Some (r, qs)" using q(1) inv by (simp add: group_inv_def hm_get_iff)
    ultimately have "map perm_id qs = map snd (filter (\<lambda>i. fst i = res_id r) items)"
      using ids[of k] by (simp add: grouped_ids_def)
    then show ?thesis
      by (simp only: q(2) map_sort_key)
  qed
  with first show ?thesis by auto
qed

section \<open>The unrestricted snapshot\<close>

definition unrestricted_snapshot :: rbac_snapshot where
  "unrestricted_snapshot = default_snapshot\<lparr>
    snap_resources := [\<lparr>res_id = ResourceId 1, res_schema = None, res_table = ''*''\<rparr>],
    snap_permissions := [\<lparr>perm_id = PermissionId 1, perm_action = ''*''\<rparr>],
    snap_roles := [\<lparr>role_key = RoleId 1, role_name = ''unrestricted''\<rparr>],
    snap_user_roles := [\<lparr>ur_user_id = UserId 0, ur_role_id = RoleId 1\<rparr>],
    snap_role_permissions := [\<lparr>rp_role_id = RoleId 1, rp_permission_id = PermissionId 1,
      rp_resource_id = ResourceId 1\<rparr>]\<rparr>"

lemma danger_unrestricted_eq: "danger_unrestricted = Ret unrestricted_snapshot"
  by (simp add: danger_unrestricted_def unrestricted_snapshot_def set_resources_def
      set_permissions_def set_roles_def set_user_role_def add_role_permission_def find_role_def
      find_permission_def find_resource_def default_snapshot_def WILDCARD_def Action_def Table_def
      Let_def)

lemma unrestricted_allows:
  "user_can (from_snapshot unrestricted_snapshot) (UserId 0) preq rreq = Ret (Inr True)"
proof -
  let ?s = unrestricted_snapshot
  have sel: "snap_resources ?s = [\<lparr>res_id = ResourceId 1, res_schema = None, res_table = ''*''\<rparr>]"
    "snap_permissions ?s = [\<lparr>perm_id = PermissionId 1, perm_action = ''*''\<rparr>]"
    "snap_user_overrides ?s = []" "snap_role_hierarchy ?s = []"
    "snap_role_permissions ?s = [\<lparr>rp_role_id = RoleId 1, rp_permission_id = PermissionId 1,
      rp_resource_id = ResourceId 1\<rparr>]"
    "snap_user_roles ?s = [\<lparr>ur_user_id = UserId 0, ur_role_id = RoleId 1\<rparr>]"
    "snap_roles ?s = [\<lparr>role_key = RoleId 1, role_name = ''unrestricted''\<rparr>]"
    by (simp_all add: unrestricted_snapshot_def default_snapshot_def)
  have "wf_snapshot ?s" by (simp add: wf_snapshot_def sel)
  moreover have "assigned_role ?s (UserId 0) (RoleId 1)" by (simp add: assigned_role_def sel)
  moreover have "walkable ?s (RoleId 1)" by (simp add: walkable_def hierarchy_rel_def sel)
  moreover have "role_permits ?s (RoleId 1) preq rreq"
    by (simp add: role_permits_def sel effective_roles_def permission_covers_def
        resource_covers_def registered_resource_def is_wildcard_row_def WILDCARD_def
        wildcard_covers_def)
  moreover have "\<not> override_grants ?s (UserId 0) preq rreq g" for g
    by (simp add: override_grants_def sel)
  ultimately show ?thesis by (simp add: user_can_access_decision access_decision_def)
qed

section \<open>Properties\<close>



text \<open>The permission report never panics: both \<open>expect("Checked above")\<close> are justified.\<close>

lemma permission_report_no_panic: "get_user_role_permissions e u \<noteq> Panic m"
  by (rule get_user_role_permissions_no_panic)

text \<open>The list of roles and ranks does not depend on the iteration order of the hash map of
  roles: two engines whose maps hold the same entries in different orders give the same list.\<close>

theorem ranks_deterministic:
  assumes "roles_keyed e" "hm_same (e_roles e) m"
    and "\<And>rid. rid \<in> set (hm_keys (e_roles e)) \<Longrightarrow> enumerate_role rid (e_role_hierarchy e) \<noteq> None"
  shows "get_roles_and_ranks (e\<lparr>e_roles := m\<rparr>) = get_roles_and_ranks e"
  by (rule ranks_order_independent[OF assms(1,2)]) (use assms(3) in auto)

lemma example_map: "e_role_hierarchy (from_snapshot example_snapshot) = [(RoleId 1, [RoleId 2])]"
  by (simp add: from_snapshot_sel example_snapshot_def hm_modify_def)

lemma example_walks:
  "enumerate_role (RoleId 1) (e_role_hierarchy (from_snapshot example_snapshot)) = Some [RoleId 1, RoleId 2]"
  "enumerate_role (RoleId 2) (e_role_hierarchy (from_snapshot example_snapshot)) = Some [RoleId 2]"
  by (simp_all add: enumerate_role_def enumerate_loop.simps example_map children_of_def hm_get_def)

lemma example_roles:
  "e_roles (from_snapshot example_snapshot) =
    [(RoleId 1, \<lparr>role_key = RoleId 1, role_name = ''admin''\<rparr>),
     (RoleId 2, \<lparr>role_key = RoleId 2, role_name = ''clerk''\<rparr>)]"
  by (simp add: from_snapshot_sel example_snapshot_def hm_insert_def)

theorem ranks_deterministic_witness:
  "get_roles_and_ranks (from_snapshot example_snapshot\<lparr>e_roles := rev (e_roles (from_snapshot example_snapshot))\<rparr>) =
    get_roles_and_ranks (from_snapshot example_snapshot)"
  by (rule ranks_deterministic)
    (use example_walks in \<open>auto simp: from_snapshot_roles_keyed hm_same_def hm_keys_def example_roles\<close>)

text \<open>The permissions grouped by resource: one entry per resource among the items, in the
  order of the resource ids, and in each entry the permissions listed with that resource, in
  the order of the permission ids.\<close>

theorem grouping_sorted_and_complete:
  assumes "group_permissions_by_resources (from_snapshot s) items = Inr vec"
  shows "map (\<lambda>x. res_id (fst x)) vec = sorted_list_of_set (fst ` set items) \<and>
    (\<forall>(r, ps) \<in> set vec. map perm_id ps = sort (map snd (filter (\<lambda>i. fst i = res_id r) items)))"
  using from_snapshot_wildcards_keyed assms by (rule group_permissions_spec)

theorem grouping_sorted_and_complete_witness:
  "\<exists>vec. group_permissions_by_resources (from_snapshot example_snapshot)
      [(ResourceId 2, PermissionId 1), (ResourceId 1, PermissionId 2)] = Inr vec \<and>
    map (\<lambda>x. res_id (fst x)) vec = [ResourceId 1, ResourceId 2]"
proof -
  obtain vec where v: "group_permissions_by_resources (from_snapshot example_snapshot)
      [(ResourceId 2, PermissionId 1), (ResourceId 1, PermissionId 2)] = Inr vec"
    by (simp add: group_permissions_by_resources_def from_snapshot_sel example_snapshot_def
        hm_insert_def hm_get_def hm_values_def is_wildcard_row_def WILDCARD_def)
  moreover have "sorted_list_of_set {ResourceId 1, ResourceId 2} = [ResourceId 1, ResourceId 2]"
    by (rule sorted_keys_unique[symmetric]) simp_all
  ultimately show ?thesis
    using grouping_sorted_and_complete[OF v] by (simp add: insert_commute)
qed

text \<open>On a hierarchy that is a tree below a role, the role's rank is the number of roles it
  holds (as a \<open>u32\<close>), as the documentation of \<open>roles_and_ranks\<close> says.\<close>

lemma rank_counts_roles_in_trees:
  assumes "no_inner_cycle (e_role_hierarchy e) rid" "tree_below (e_role_hierarchy e) rid"
  shows "snd (rank_entry e (rid, r)) = of_nat (card ((child_rel (e_role_hierarchy e))\<^sup>* `` {rid}))"
  using assms by (rule rank_entry_tree)

lemma rank_counts_roles_in_trees_witness:
  "snd (rank_entry (from_snapshot example_snapshot)
      (RoleId 1, \<lparr>role_key = RoleId 1, role_name = ''admin''\<rparr>)) = 2"
proof -
  let ?h = "e_role_hierarchy (from_snapshot example_snapshot)"
  have reach: "(child_rel ?h)\<^sup>* `` {RoleId 1} = {RoleId 1, RoleId 2}"
    using enumerate_role_set[OF example_walks(1)] by simp
  have "no_inner_cycle ?h (RoleId 1)"
    using example_walks(1) enumerate_role_returns_iff by blast
  moreover have "tree_below ?h (RoleId 1)"
    unfolding tree_below_def reach by (simp add: example_map children_of_def hm_get_def)
  ultimately show ?thesis
    using rank_counts_roles_in_trees[of "from_snapshot example_snapshot" "RoleId 1"] reach by simp
qed

text \<open>The unrestricted snapshot is built without a panic, and its engine allows its user any
  action on any resource, registered or not.\<close>

lemma unrestricted_user_can_do_anything:
  "\<exists>s. danger_unrestricted = Ret s \<and>
    (\<forall>preq rreq. user_can (from_snapshot s) (UserId 0) preq rreq = Ret (Inr True))"
  using danger_unrestricted_eq unrestricted_allows by blast

end
