(* ===== verification/RbacMount.thy ===== *)
theory RbacMount
  imports RbacReports
begin

text \<open>
  \<open>src/database/restricted_connection.rs\<close>: the engine behind its lock, the check of a whole
  statement, and the restricted connection and transaction that run a statement only after the
  check. The audit of a statement is the sea-query crate's, the underlying connection's
  operations are the driver's: both are arguments of the definitions. The world \<open>'w\<close> is what
  the underlying connection may change.
\<close>

section \<open>The engine behind its lock\<close>

datatype rbac_mount = PoisonedLock | Lock "rbac_engine option"

definition mount_default :: rbac_mount where
  "mount_default = Lock None"

fun lock_read :: "rbac_mount \<Rightarrow> rbac_engine option run" where
  "lock_read PoisonedLock = Panic ''RBAC Engine died''"
| "lock_read (Lock e) = Ret e"

definition mount_is_some :: "rbac_mount \<Rightarrow> bool run" where
  "mount_is_some m = run_bind (lock_read m) (\<lambda>e. Ret (e \<noteq> None))"

definition mount_replace :: "rbac_engine \<Rightarrow> rbac_mount \<Rightarrow> rbac_mount run" where
  "mount_replace e m = run_bind (lock_read m) (\<lambda>_. Ret (Lock (Some e)))"

definition mount_engine :: "rbac_mount \<Rightarrow> rbac_engine run" where
  "mount_engine m = run_bind (lock_read m) (\<lambda>holder. expect holder ''RBAC Engine not set'')"

definition rbac_map_err :: "rbac_error \<Rightarrow> db_err" where
  "rbac_map_err err = RbacErr (rbac_error_display err)"

definition lift_err :: "('a, rbac_error) result run \<Rightarrow> ('a, db_err) result run" where
  "lift_err r = run_bind r (\<lambda>x. Ret (map_err rbac_map_err x))"

definition mount_user_can ::
  "rbac_mount \<Rightarrow> user_id \<Rightarrow> permission_request \<Rightarrow> resource_request \<Rightarrow> (bool, db_err) result run" where
  "mount_user_can m u p r = run_bind (mount_engine m) (\<lambda>e. lift_err (user_can e u p r))"

text \<open>One access a statement makes, as the statement's audit lists it.\<close>

record audit_request =
  ar_access :: string
  ar_schema :: "string option"
  ar_table :: string

definition request_permission :: "audit_request \<Rightarrow> permission_request" where
  "request_permission q = \<lparr>pr_action = ar_access q\<rparr>"

definition request_resource :: "audit_request \<Rightarrow> resource_request" where
  "request_resource q = \<lparr>rr_schema = ar_schema q, rr_table = ar_table q\<rparr>"

fun check_requests :: "rbac_engine \<Rightarrow> user_id \<Rightarrow> audit_request list \<Rightarrow> (unit, db_err) result run" where
  "check_requests e u [] = Ret (Inr ())"
| "check_requests e u (q # qs) =
    run_try (lift_err (user_can e u (request_permission q) (request_resource q))) (\<lambda>ok.
      if \<not> ok then Ret (Inl (AccessDenied (pr_action (request_permission q))
        (resource_request_display (request_resource q))))
      else check_requests e u qs)"

definition mount_user_can_run ::
  "('stmt \<Rightarrow> (audit_request list, string) result) \<Rightarrow> rbac_mount \<Rightarrow> user_id \<Rightarrow> 'stmt \<Rightarrow>
    (unit, db_err) result run"
where
  "mount_user_can_run audit m u stmt =
    (case audit stmt of
       Inl err \<Rightarrow> Ret (Inl (RbacErr err))
     | Inr requests \<Rightarrow> run_bind (mount_engine m) (\<lambda>e. check_requests e u requests))"

definition mount_user_role_permissions ::
  "rbac_mount \<Rightarrow> user_id \<Rightarrow> (rbac_user_role_permissions, db_err) result run" where
  "mount_user_role_permissions m u =
    run_bind (mount_engine m) (\<lambda>e. lift_err (get_user_role_permissions e u))"

definition mount_roles_and_ranks :: "rbac_mount \<Rightarrow> ((role \<times> 32 word) list, db_err) result run" where
  "mount_roles_and_ranks m = run_bind (mount_engine m) (\<lambda>e. lift_err (get_roles_and_ranks e))"

definition mount_resources_and_permissions ::
  "rbac_mount \<Rightarrow> (resource list \<times> permission list, db_err) result run" where
  "mount_resources_and_permissions m =
    run_bind (mount_engine m) (\<lambda>e. Ret (Inr (list_resources_and_permissions e)))"

definition mount_role_hierarchy_edges ::
  "rbac_mount \<Rightarrow> role_id \<Rightarrow> (role_hierarchy list, db_err) result run" where
  "mount_role_hierarchy_edges m r =
    run_bind (mount_engine m) (\<lambda>e. run_bind (engine_role_hierarchy_edges e r) (\<lambda>es. Ret (Inr es)))"

definition mount_role_permissions_by_resources ::
  "rbac_mount \<Rightarrow> role_id \<Rightarrow> ((resource \<times> permission list) list, db_err) result run" where
  "mount_role_permissions_by_resources m r =
    run_bind (mount_engine m) (\<lambda>e. lift_err (Ret (list_role_permissions_by_resources e r)))"

section \<open>Restricted connections and transactions\<close>

record 'c restricted_connection =
  rc_user_id :: user_id
  rc_conn :: 'c
  rc_rbac :: rbac_mount

record 't restricted_transaction =
  rt_user_id :: user_id
  rt_conn :: 't
  rt_rbac :: rbac_mount

definition rc_user_can_run ::
  "('stmt \<Rightarrow> (audit_request list, string) result) \<Rightarrow> 'c restricted_connection \<Rightarrow> 'stmt \<Rightarrow>
    (unit, db_err) result run" where
  "rc_user_can_run audit c stmt = mount_user_can_run audit (rc_rbac c) (rc_user_id c) stmt"

definition rt_user_can_run ::
  "('stmt \<Rightarrow> (audit_request list, string) result) \<Rightarrow> 't restricted_transaction \<Rightarrow> 'stmt \<Rightarrow>
    (unit, db_err) result run" where
  "rt_user_can_run audit t stmt = mount_user_can_run audit (rt_rbac t) (rt_user_id t) stmt"

text \<open>\<open>self.user_can_run(stmt)?; self.conn.op(stmt).await\<close>\<close>

fun after_check :: "(unit, db_err) result run \<Rightarrow> ('r, 'w) io \<Rightarrow> 'w \<Rightarrow> (('r, db_err) result \<times> 'w) run" where
  "after_check (Ret (Inr ())) op w = Ret (op w)"
| "after_check (Ret (Inl e)) op w = Ret (Inl e, w)"
| "after_check (Panic m) op w = Panic m"
| "after_check Diverge op w = Diverge"


definition rc_query_one ::
  "('stmt \<Rightarrow> (audit_request list, string) result) \<Rightarrow> ('c \<Rightarrow> 'stmt \<Rightarrow> ('row option, 'w) io) \<Rightarrow>
    'c restricted_connection \<Rightarrow> 'stmt \<Rightarrow> 'w \<Rightarrow> (('row option, db_err) result \<times> 'w) run" where
  "rc_query_one audit query_one c stmt w =
    after_check (rc_user_can_run audit c stmt) (query_one (rc_conn c) stmt) w"

definition rc_query_all ::
  "('stmt \<Rightarrow> (audit_request list, string) result) \<Rightarrow> ('c \<Rightarrow> 'stmt \<Rightarrow> ('row list, 'w) io) \<Rightarrow>
    'c restricted_connection \<Rightarrow> 'stmt \<Rightarrow> 'w \<Rightarrow> (('row list, db_err) result \<times> 'w) run" where
  "rc_query_all audit query_all c stmt w =
    after_check (rc_user_can_run audit c stmt) (query_all (rc_conn c) stmt) w"

definition raw_refused :: "string \<Rightarrow> db_err" where
  "raw_refused text = RbacErr (''Raw query is not supported: '' @ text)"

definition rc_execute_raw :: "('raw \<Rightarrow> string) \<Rightarrow> 'c restricted_connection \<Rightarrow> 'raw \<Rightarrow> ('r, 'w) io" where
  "rc_execute_raw display c stmt w = (Inl (raw_refused (display stmt)), w)"

definition rc_execute_unprepared :: "'c restricted_connection \<Rightarrow> string \<Rightarrow> ('r, 'w) io" where
  "rc_execute_unprepared c sql w = (Inl (raw_refused sql), w)"

definition rc_query_one_raw :: "('raw \<Rightarrow> string) \<Rightarrow> 'c restricted_connection \<Rightarrow> 'raw \<Rightarrow> ('r option, 'w) io" where
  "rc_query_one_raw display c stmt w = (Inl (raw_refused (display stmt)), w)"

definition rc_query_all_raw :: "('raw \<Rightarrow> string) \<Rightarrow> 'c restricted_connection \<Rightarrow> 'raw \<Rightarrow> ('r list, 'w) io" where
  "rc_query_all_raw display c stmt w = (Inl (raw_refused (display stmt)), w)"

definition rt_execute ::
  "('stmt \<Rightarrow> (audit_request list, string) result) \<Rightarrow> ('t \<Rightarrow> 'stmt \<Rightarrow> ('r, 'w) io) \<Rightarrow>
    't restricted_transaction \<Rightarrow> 'stmt \<Rightarrow> 'w \<Rightarrow> (('r, db_err) result \<times> 'w) run" where
  "rt_execute audit execute t stmt w =
    after_check (rt_user_can_run audit t stmt) (execute (rt_conn t) stmt) w"

definition rt_query_one ::
  "('stmt \<Rightarrow> (audit_request list, string) result) \<Rightarrow> ('t \<Rightarrow> 'stmt \<Rightarrow> ('row option, 'w) io) \<Rightarrow>
    't restricted_transaction \<Rightarrow> 'stmt \<Rightarrow> 'w \<Rightarrow> (('row option, db_err) result \<times> 'w) run" where
  "rt_query_one audit query_one t stmt w =
    after_check (rt_user_can_run audit t stmt) (query_one (rt_conn t) stmt) w"

definition rt_query_all ::
  "('stmt \<Rightarrow> (audit_request list, string) result) \<Rightarrow> ('t \<Rightarrow> 'stmt \<Rightarrow> ('row list, 'w) io) \<Rightarrow>
    't restricted_transaction \<Rightarrow> 'stmt \<Rightarrow> 'w \<Rightarrow> (('row list, db_err) result \<times> 'w) run" where
  "rt_query_all audit query_all t stmt w =
    after_check (rt_user_can_run audit t stmt) (query_all (rt_conn t) stmt) w"

text \<open>A transaction keeps the user and the engine of what it was begun on.\<close>

definition rc_begin ::
  "('c \<Rightarrow> ('t, 'w) io) \<Rightarrow> 'c restricted_connection \<Rightarrow> ('t restricted_transaction, 'w) io" where
  "rc_begin begin_conn c w =
    (case begin_conn (rc_conn c) w of
       (Inl e, w') \<Rightarrow> (Inl e, w')
     | (Inr t, w') \<Rightarrow>
         (Inr \<lparr>rt_user_id = rc_user_id c, rt_conn = t, rt_rbac = rc_rbac c\<rparr>, w'))"

definition rc_begin_with_config ::
  "('c \<Rightarrow> 'iso option \<Rightarrow> 'acc option \<Rightarrow> ('t, 'w) io) \<Rightarrow> 'c restricted_connection \<Rightarrow>
    'iso option \<Rightarrow> 'acc option \<Rightarrow> ('t restricted_transaction, 'w) io" where
  "rc_begin_with_config begin_conn c isolation access = rc_begin (\<lambda>conn. begin_conn conn isolation access) c"

definition rc_begin_with_options ::
  "('c \<Rightarrow> 'opt \<Rightarrow> ('t, 'w) io) \<Rightarrow> 'c restricted_connection \<Rightarrow> 'opt \<Rightarrow>
    ('t restricted_transaction, 'w) io" where
  "rc_begin_with_options begin_conn c options = rc_begin (\<lambda>conn. begin_conn conn options) c"

definition rt_begin ::
  "('t \<Rightarrow> ('t, 'w) io) \<Rightarrow> 't restricted_transaction \<Rightarrow> ('t restricted_transaction, 'w) io" where
  "rt_begin begin_txn t w =
    (case begin_txn (rt_conn t) w of
       (Inl e, w') \<Rightarrow> (Inl e, w')
     | (Inr t', w') \<Rightarrow>
         (Inr \<lparr>rt_user_id = rt_user_id t, rt_conn = t', rt_rbac = rt_rbac t\<rparr>, w'))"

definition rt_begin_with_config ::
  "('t \<Rightarrow> 'iso option \<Rightarrow> 'acc option \<Rightarrow> ('t, 'w) io) \<Rightarrow> 't restricted_transaction \<Rightarrow>
    'iso option \<Rightarrow> 'acc option \<Rightarrow> ('t restricted_transaction, 'w) io" where
  "rt_begin_with_config begin_txn t isolation access = rt_begin (\<lambda>conn. begin_txn conn isolation access) t"

definition rt_begin_with_options ::
  "('t \<Rightarrow> 'opt \<Rightarrow> ('t, 'w) io) \<Rightarrow> 't restricted_transaction \<Rightarrow> 'opt \<Rightarrow>
    ('t restricted_transaction, 'w) io" where
  "rt_begin_with_options begin_txn t options = rt_begin (\<lambda>conn. begin_txn conn options) t"

definition rt_commit :: "('t \<Rightarrow> (unit, 'w) io) \<Rightarrow> 't restricted_transaction \<Rightarrow> (unit, 'w) io" where
  "rt_commit commit t = commit (rt_conn t)"

definition rt_rollback :: "('t \<Rightarrow> (unit, 'w) io) \<Rightarrow> 't restricted_transaction \<Rightarrow> (unit, 'w) io" where
  "rt_rollback rollback t = rollback (rt_conn t)"

definition rt_run ::
  "('t \<Rightarrow> (unit, 'w) io) \<Rightarrow> ('t \<Rightarrow> (unit, 'w) io) \<Rightarrow>
    't restricted_transaction \<Rightarrow> ('t restricted_transaction \<Rightarrow> 'w \<Rightarrow> ('a, 'e) result \<times> 'w) \<Rightarrow> 'w \<Rightarrow>
    ('a, 'e transaction_error) result \<times> 'w"
where
  "rt_run commit rollback t callback w =
    (let (r, w1) = callback t w; res = map_err TxTransaction r in
     case r of
       Inr v \<Rightarrow> (case rt_commit commit t w1 of
           (Inl e, w2) \<Rightarrow> (Inl (TxConnection e), w2) | (Inr _, w2) \<Rightarrow> (res, w2))
     | Inl err \<Rightarrow> (case rt_rollback rollback t w1 of
           (Inl e, w2) \<Rightarrow> (Inl (TxConnection e), w2) | (Inr _, w2) \<Rightarrow> (res, w2)))"

definition rc_transaction ::
  "('c \<Rightarrow> ('t, 'w) io) \<Rightarrow> ('t \<Rightarrow> (unit, 'w) io) \<Rightarrow> ('t \<Rightarrow> (unit, 'w) io) \<Rightarrow>
    'c restricted_connection \<Rightarrow> ('t restricted_transaction \<Rightarrow> 'w \<Rightarrow> ('a, 'e) result \<times> 'w) \<Rightarrow> 'w \<Rightarrow>
    ('a, 'e transaction_error) result \<times> 'w"
where
  "rc_transaction begin_conn commit rollback c callback w =
    (case rc_begin begin_conn c w of
       (Inl e, w') \<Rightarrow> (Inl (TxConnection e), w')
     | (Inr t, w') \<Rightarrow> rt_run commit rollback t callback w')"

definition rc_transaction_with_config ::
  "('c \<Rightarrow> 'iso option \<Rightarrow> 'acc option \<Rightarrow> ('t, 'w) io) \<Rightarrow> ('t \<Rightarrow> (unit, 'w) io) \<Rightarrow> ('t \<Rightarrow> (unit, 'w) io) \<Rightarrow>
    'c restricted_connection \<Rightarrow> ('t restricted_transaction \<Rightarrow> 'w \<Rightarrow> ('a, 'e) result \<times> 'w) \<Rightarrow>
    'iso option \<Rightarrow> 'acc option \<Rightarrow> 'w \<Rightarrow> ('a, 'e transaction_error) result \<times> 'w"
where
  "rc_transaction_with_config begin_conn commit rollback c callback isolation access w =
    (case rc_begin_with_config begin_conn c isolation access w of
       (Inl e, w') \<Rightarrow> (Inl (TxConnection e), w')
     | (Inr t, w') \<Rightarrow> rt_run commit rollback t callback w')"

definition rt_transaction ::
  "('t \<Rightarrow> ('t, 'w) io) \<Rightarrow> ('t \<Rightarrow> (unit, 'w) io) \<Rightarrow> ('t \<Rightarrow> (unit, 'w) io) \<Rightarrow>
    't restricted_transaction \<Rightarrow> ('t restricted_transaction \<Rightarrow> 'w \<Rightarrow> ('a, 'e) result \<times> 'w) \<Rightarrow> 'w \<Rightarrow>
    ('a, 'e transaction_error) result \<times> 'w"
where
  "rt_transaction begin_txn commit rollback t callback w =
    (case rt_begin begin_txn t w of
       (Inl e, w') \<Rightarrow> (Inl (TxConnection e), w')
     | (Inr t', w') \<Rightarrow> rt_run commit rollback t' callback w')"

text \<open>A session: statements submitted one after the other until a panic or a loop.\<close>

fun submit_all :: "('stmt \<Rightarrow> 'w \<Rightarrow> ('r \<times> 'w) run) \<Rightarrow> 'stmt list \<Rightarrow> 'w \<Rightarrow> 'w" where
  "submit_all submit [] w = w"
| "submit_all submit (s # ss) w =
    (case submit s w of Ret (res, w') \<Rightarrow> submit_all submit ss w' | _ \<Rightarrow> w)"

section \<open>What a check that passes means\<close>

lemma check_requests_ok_iff:
  "check_requests e u qs = Ret (Inr ()) \<longleftrightarrow>
    (\<forall>q \<in> set qs. user_can e u (request_permission q) (request_resource q) = Ret (Inr True))"
  by (induction qs) (auto simp: run_simps lift_err_def split: if_splits)

lemma check_requests_denied:
  assumes "check_requests e u qs = Ret (Inl (AccessDenied p r))"
  shows "\<exists>q \<in> set qs. user_can e u (request_permission q) (request_resource q) = Ret (Inr False) \<and>
    p = ar_access q \<and> r = resource_request_display (request_resource q)"
  using assms
  by (induction qs)
    (auto simp: run_simps lift_err_def rbac_map_err_def request_permission_def split: if_splits)

lemma mount_user_can_run_ok_iff:
  "mount_user_can_run audit m u stmt = Ret (Inr ()) \<longleftrightarrow>
    (\<exists>qs e. audit stmt = Inr qs \<and> m = Lock (Some e) \<and>
      (\<forall>q \<in> set qs. user_can e u (request_permission q) (request_resource q) = Ret (Inr True)))"
proof (cases m)
  case (Lock h)
  then show ?thesis
    by (cases h) (auto simp: mount_user_can_run_def mount_engine_def check_requests_ok_iff split: sum.split)
qed (auto simp: mount_user_can_run_def mount_engine_def split: sum.split)

text \<open>
  The contract of an executor that checks before it performs. Its sessions perform the checked
  statements only, in order.
\<close>

locale guarded_executor =
  fixes check :: "'stmt \<Rightarrow> (unit, db_err) result run"
    and perform :: "'stmt \<Rightarrow> ('r, 'w) io"
    and submit :: "'stmt \<Rightarrow> 'w \<Rightarrow> (('r, db_err) result \<times> 'w) run"
  assumes submit_checked: "submit s w = after_check (check s) (perform s) w"
begin

lemma submit_changes:
  "submit s w = Ret (res, w') \<Longrightarrow> w' \<noteq> w \<Longrightarrow> check s = Ret (Inr ()) \<and> perform s w = (res, w')"
  by (cases "(check s, perform s, w)" rule: after_check.cases) (auto simp: submit_checked)

text \<open>An invariant that every permitted statement keeps holds after any session.\<close>

lemma session_invariant:
  assumes "I w" "\<And>s w. check s = Ret (Inr ()) \<Longrightarrow> I w \<Longrightarrow> I (snd (perform s w))"
  shows "I (submit_all submit ss w)"
  using assms(1)
proof (induction ss arbitrary: w)
  case (Cons s ss)
  show ?case
  proof (cases "submit s w")
    case (Ret rw)
    obtain res w' where rw: "rw = (res, w')" by (cases rw)
    have "I w'"
    proof (cases "w' = w")
      case False
      with submit_changes Ret rw have "check s = Ret (Inr ())" "perform s w = (res, w')" by auto
      with assms(2)[of s w] Cons.prems show ?thesis by simp
    qed (use Cons.prems in simp)
    with Cons.IH Ret rw show ?thesis by simp
  qed (use Cons.prems in simp_all)
qed simp

end


interpretation rt_exec: guarded_executor
  "rt_user_can_run audit t" "execute (rt_conn t)" "rt_execute audit execute t"
  for audit execute t
  by unfold_locales (simp add: rt_execute_def)

section \<open>Properties\<close>

text \<open>A statement passes the check of a restricted connection exactly when its audit succeeds,
  an engine is mounted, and the engine allows every access the audit lists to the connection's
  user.\<close>

theorem statement_passes_iff:
  "rc_user_can_run audit c stmt = Ret (Inr ()) \<longleftrightarrow>
    (\<exists>qs e. audit stmt = Inr qs \<and> rc_rbac c = Lock (Some e) \<and>
      list_all (\<lambda>q. user_can e (rc_user_id c) (request_permission q) (request_resource q) =
        Ret (Inr True)) qs)"
  by (simp add: rc_user_can_run_def mount_user_can_run_ok_iff list_all_iff)




text \<open>A transaction closure succeeds exactly when the transaction began, the closure (run as
  the same user, under the same engine) succeeded and the commit succeeded; the committed world
  is then the result. Every other outcome is an error.\<close>

theorem transaction_succeeds_iff:
  "rc_transaction begin_conn commit rollback c callback w = (Inr v, w3) \<longleftrightarrow>
    (\<exists>t w1 w2. begin_conn (rc_conn c) w = (Inr t, w1) \<and>
      callback \<lparr>rt_user_id = rc_user_id c, rt_conn = t, rt_rbac = rc_rbac c\<rparr> w1 = (Inr v, w2) \<and>
      commit t w2 = (Inr (), w3))"
  by (auto simp: rc_transaction_def rc_begin_def rt_run_def rt_commit_def rt_rollback_def Let_def
      split: prod.splits sum.splits)

text \<open>C7. A statement is refused with \<open>AccessDenied\<close> only for an access its audit lists and the
  engine denies; the error names that access and its resource.\<close>

theorem access_denied_is_justified:
  assumes "rc_user_can_run audit c stmt = Ret (Inl (AccessDenied p r))"
  shows "\<exists>qs e q. audit stmt = Inr qs \<and> rc_rbac c = Lock (Some e) \<and> q \<in> set qs \<and>
    user_can e (rc_user_id c) (request_permission q) (request_resource q) = Ret (Inr False) \<and>
    p = ar_access q \<and> r = resource_request_display (request_resource q)"
proof (cases "rc_rbac c")
  case (Lock h)
  with assms show ?thesis
    by (cases h) (auto simp: rc_user_can_run_def mount_user_can_run_def mount_engine_def
      dest!: check_requests_denied split: sum.splits)
qed (use assms in \<open>auto simp: rc_user_can_run_def mount_user_can_run_def mount_engine_def split: sum.splits\<close>)

definition denied_connection :: "unit restricted_connection" where
  "denied_connection = \<lparr>rc_user_id = UserId 8, rc_conn = (),
    rc_rbac = Lock (Some (from_snapshot example_snapshot))\<rparr>"

theorem access_denied_is_justified_witness:
  "\<exists>e q. user_can e (UserId 8) (request_permission q) (request_resource q) = Ret (Inr False) \<and>
    ar_access q = ''select''"
proof -
  have "walkable example_snapshot (RoleId 2)"
    by (auto simp: walkable_def example_hierarchy_rel effective_roles_def dest!: tranclD
        elim: converse_rtranclE)
  moreover have assigned: "assigned_role example_snapshot (UserId 8) (RoleId 2)"
    by (simp add: assigned_role_def example_snapshot_def)
  ultimately have "user_can (from_snapshot example_snapshot) (UserId 8) (Action ''select'') (Table ''cake'') =
      Ret (access_decision example_snapshot (UserId 8) (RoleId 2) (Action ''select'') (Table ''cake''))"
    by (intro user_can_access_decision example_ok(1))
  moreover have "access_decision example_snapshot (UserId 8) (RoleId 2) (Action ''select'') (Table ''cake'') = Inr False"
    by (simp add: access_decision_def override_grants_def example_snapshot_def registered_permission_def
        registered_resource_def Action_def Table_def WILDCARD_def permission_request_of_def
        resource_request_of_def is_wildcard_row_def)
  ultimately have no: "user_can (from_snapshot example_snapshot) (UserId 8) (Action ''select'') (Table ''cake'') =
      Ret (Inr False)" by simp
  let ?q = "\<lparr>ar_access = ''select'', ar_schema = None, ar_table = ''cake''\<rparr>"
  have "rc_user_can_run (\<lambda>_. Inr [?q]) denied_connection () =
      Ret (Inl (AccessDenied ''select'' (resource_request_display (request_resource ?q))))"
    using no by (simp add: rc_user_can_run_def mount_user_can_run_def mount_engine_def denied_connection_def
      lift_err_def request_permission_def request_resource_def Action_def Table_def)
  from access_denied_is_justified[OF this] obtain e q where
    "user_can e (rc_user_id denied_connection) (request_permission q) (request_resource q) = Ret (Inr False)"
    "''select'' = ar_access q" by blast
  then show ?thesis by (intro exI[of _ e] exI[of _ q]) (simp add: denied_connection_def)
qed

end
