(* ===== verification/Consolidate.thy ===== *)
theory Consolidate
  imports SeaPrelude
begin

text \<open>
  \<open>src/executor/consolidate.rs\<close>: the rows of a joined select are grouped into one entry per left
  model. An \<open>entity\<close> carries what the code asks of \<open>EntityTrait\<close>: the columns of its primary key
  in declaration order, the arity constant, how a model answers \<open>get\<close>, and its name.
  The grouping loops share one contract, stated as the locale \<open>row_grouping\<close> and interpreted on
  each of the four loops; the results are then stated as the abstract grouping
  \<open>first_by\<close> / \<open>rows_with\<close>, and as round trips with the join that produces the rows.
\<close>

section \<open>Entities and their keys\<close>

record ('m, 'c, 'v) entity =
  primary_key :: "'c list"
  pk_arity :: nat
  model_get :: "'m \<Rightarrow> 'c \<Rightarrow> 'v"
  entity_name :: string

datatype 'c model_key = UnitPk 'c | PairPk 'c 'c | TuplePk "'c list"

datatype 'v key_value = UnitKey 'v | PairKey 'v 'v | TupleKey "'v list"

fun iter_next :: "'a list \<Rightarrow> 'a option \<times> 'a list" where
  "iter_next [] = (None, [])"
| "iter_next (x # xs) = (Some x, xs)"

definition unwrap :: "'a option \<Rightarrow> 'a run" where
  "unwrap x = expect x ''called `Option::unwrap()` on a `None` value''"

definition unit_pk :: "('m, 'c, 'v) entity \<Rightarrow> 'c model_key run" where
  "unit_pk e = run_bind (unwrap (fst (iter_next (primary_key e)))) (\<lambda>col. Ret (UnitPk col))"

definition pair_pk :: "('m, 'c, 'v) entity \<Rightarrow> 'c model_key run" where
  "pair_pk e =
    (let (c1, rest) = iter_next (primary_key e) in
     run_bind (unwrap c1) (\<lambda>col1.
     run_bind (unwrap (fst (iter_next rest))) (\<lambda>col2. Ret (PairPk col1 col2))))"

definition tuple_pk :: "('m, 'c, 'v) entity \<Rightarrow> 'c model_key run" where
  "tuple_pk e = Ret (TuplePk (primary_key e))"

fun model_key_get :: "('m, 'c, 'v) entity \<Rightarrow> 'c model_key \<Rightarrow> 'm \<Rightarrow> 'v key_value" where
  "model_key_get e (UnitPk c) model = UnitKey (model_get e model c)"
| "model_key_get e (PairPk c d) model = PairKey (model_get e model c) (model_get e model d)"
| "model_key_get e (TuplePk cs) model =
    TupleKey (fold (\<lambda>col key. key @ [model_get e model col]) cs [])"

text \<open>The \<open>match ARITY\<close> every entry point starts with.\<close>

definition pk_of_arity :: "('m, 'c, 'v) entity \<Rightarrow> 'c model_key run" where
  "pk_of_arity e =
    (if pk_arity e = 1 then unit_pk e else if pk_arity e = 2 then pair_pk e else tuple_pk e)"

section \<open>The grouping loops\<close>

text \<open>One step of each fold over the rows.\<close>

definition group_step ::
  "('l \<Rightarrow> 'k) \<Rightarrow> 'l \<times> 'r option \<Rightarrow> ('k, 'r list) hashmap \<Rightarrow> ('k, 'r list) hashmap" where
  "group_step key row acc =
    (let k = key (fst row) in
     case snd row of
       Some value \<Rightarrow>
         (case hm_get acc k of
            Some vec \<Rightarrow> hm_insert k (vec @ [value]) acc
          | None \<Rightarrow> hm_insert k [value] acc)
     | None \<Rightarrow> hm_modify k [] (\<lambda>v. v) acc)"

record ('m, 'r) tee_slot =
  tee_m :: "'m list"
  tee_r :: "'r list"

definition tee_step ::
  "('l \<Rightarrow> 'k) \<Rightarrow> 'l \<times> 'm option \<times> 'r option \<Rightarrow>
    ('k, ('m, 'r) tee_slot) hashmap \<Rightarrow> ('k, ('m, 'r) tee_slot) hashmap" where
  "tee_step key row acc =
    (let k = key (fst row) in
     case snd row of
       (Some m, Some r) \<Rightarrow>
         (case hm_get acc k of
            Some slot \<Rightarrow> hm_insert k \<lparr>tee_m = tee_m slot @ [m], tee_r = tee_r slot @ [r]\<rparr> acc
          | None \<Rightarrow> hm_insert k \<lparr>tee_m = [m], tee_r = [r]\<rparr> acc)
     | (Some m, None) \<Rightarrow>
         (case hm_get acc k of
            Some slot \<Rightarrow> hm_insert k (slot\<lparr>tee_m := tee_m slot @ [m]\<rparr>) acc
          | None \<Rightarrow> hm_insert k \<lparr>tee_m = [m], tee_r = []\<rparr> acc)
     | (None, Some r) \<Rightarrow>
         (case hm_get acc k of
            Some slot \<Rightarrow> hm_insert k (slot\<lparr>tee_r := tee_r slot @ [r]\<rparr>) acc
          | None \<Rightarrow> hm_insert k \<lparr>tee_m = [], tee_r = [r]\<rparr> acc)
     | (None, None) \<Rightarrow> hm_modify k \<lparr>tee_m = [], tee_r = []\<rparr> (\<lambda>v. v) acc)"

record ('m, 'n, 'r) quad_slot =
  quad_m :: "'m list"
  quad_n :: "'n list"
  quad_r :: "'r list"

fun push_opt :: "'a option \<Rightarrow> 'a list \<Rightarrow> 'a list" where
  "push_opt None xs = xs"
| "push_opt (Some x) xs = xs @ [x]"

definition quad_step ::
  "('l \<Rightarrow> 'k) \<Rightarrow> 'l \<times> 'm option \<times> 'n option \<times> 'r option \<Rightarrow>
    ('k, ('m, 'n, 'r) quad_slot) hashmap \<Rightarrow> ('k, ('m, 'n, 'r) quad_slot) hashmap" where
  "quad_step key row acc =
    (case row of (l, m, n, r) \<Rightarrow>
       hm_modify (key l) \<lparr>quad_m = [], quad_n = [], quad_r = []\<rparr>
         (\<lambda>slot. \<lparr>quad_m = push_opt m (quad_m slot), quad_n = push_opt n (quad_n slot),
            quad_r = push_opt r (quad_r slot)\<rparr>) acc)"

definition chain_step ::
  "string \<Rightarrow> string \<Rightarrow> ('l \<Rightarrow> 'k) \<Rightarrow> 'l \<times> 'm option \<times> 'r option \<Rightarrow>
    ('k, ('m \<times> 'r option) list) hashmap \<Rightarrow> ('k, ('m \<times> 'r option) list) hashmap run" where
  "chain_step mname rname key row acc =
    (let k = key (fst row) in
     case snd row of
       (Some m, Some r) \<Rightarrow>
         (case hm_get acc k of
            Some slot \<Rightarrow> Ret (hm_insert k (slot @ [(m, Some r)]) acc)
          | None \<Rightarrow> Ret (hm_insert k [(m, Some r)] acc))
     | (Some m, None) \<Rightarrow>
         (case hm_get acc k of
            Some slot \<Rightarrow> Ret (hm_insert k (slot @ [(m, None)]) acc)
          | None \<Rightarrow> Ret (hm_insert k [(m, None)] acc))
     | (None, Some _) \<Rightarrow>
         Panic (''Impossible to have R when M ('' @ mname @ '') -> R ('' @ rname @ '')'')
     | (None, None) \<Rightarrow> Ret (hm_modify k [] (\<lambda>v. v) acc))"

text \<open>A fold whose step may panic, and a \<open>map\<close> whose closure may.\<close>

fun run_fold :: "('x \<Rightarrow> 's \<Rightarrow> 's run) \<Rightarrow> 'x list \<Rightarrow> 's \<Rightarrow> 's run" where
  "run_fold f [] s = Ret s"
| "run_fold f (x # xs) s = run_bind (f x s) (run_fold f xs)"

text \<open>
  The second pass: the rows are visited again, the entry of a left model is removed from the map
  the first time it is met, and later rows of the same key are skipped.
\<close>

fun take_groups ::
  "('l \<Rightarrow> 'k) \<Rightarrow> ('l \<Rightarrow> 's \<Rightarrow> 'o run) \<Rightarrow> 'l list \<Rightarrow> ('k, 's) hashmap \<Rightarrow> 'o list run" where
  "take_groups key out [] m = Ret []"
| "take_groups key out (l # ls) m =
    (case hm_get m (key l) of
       None \<Rightarrow> take_groups key out ls m
     | Some s \<Rightarrow> run_bind (out l s) (\<lambda>y.
         run_bind (take_groups key out ls (hm_remove (key l) m)) (\<lambda>ys. Ret (y # ys))))"

text \<open>\<open>rows.retain(|model| seen.insert(key(model)))\<close>.\<close>

fun retain_unseen :: "('m \<Rightarrow> 'k) \<Rightarrow> 'k set \<Rightarrow> 'm list \<Rightarrow> 'm list" where
  "retain_unseen key seen [] = []"
| "retain_unseen key seen (x # xs) =
    (if key x \<in> seen then retain_unseen key seen xs
     else x # retain_unseen key (insert (key x) seen) xs)"

definition retain_unique_models_of :: "('m \<Rightarrow> 'k) \<Rightarrow> 'm list \<Rightarrow> 'm list" where
  "retain_unique_models_of key rows = retain_unseen key {} rows"

definition retain_unique_models :: "('m, 'c, 'v) entity \<Rightarrow> 'm list \<Rightarrow> 'm list run" where
  "retain_unique_models e rows =
    run_bind (pk_of_arity e) (\<lambda>k. Ret (retain_unique_models_of (model_key_get e k) rows))"

section \<open>The consolidation functions\<close>

definition consolidate_query_result_of ::
  "('l \<Rightarrow> 'k) \<Rightarrow> ('l \<times> 'r option) list \<Rightarrow> ('l \<times> 'r list) list run" where
  "consolidate_query_result_of key rows =
    take_groups key (\<lambda>l rs. Ret (l, rs)) (map fst rows) (fold (group_step key) rows [])"

definition consolidate_query_result ::
  "('l, 'c, 'v) entity \<Rightarrow> ('l \<times> 'r option) list \<Rightarrow> ('l \<times> 'r list) list run" where
  "consolidate_query_result e rows =
    run_bind (pk_of_arity e) (\<lambda>k. consolidate_query_result_of (model_key_get e k) rows)"

definition consolidate_query_result_of_tee ::
  "('m, 'c, 'v) entity \<Rightarrow> ('r, 'd, 'w) entity \<Rightarrow> ('l \<Rightarrow> 'k) \<Rightarrow>
    ('l \<times> 'm option \<times> 'r option) list \<Rightarrow> ('l \<times> 'm list \<times> 'r list) list run" where
  "consolidate_query_result_of_tee em er key rows =
    take_groups key
      (\<lambda>l s. run_bind (retain_unique_models em (tee_m s)) (\<lambda>m.
             run_bind (retain_unique_models er (tee_r s)) (\<lambda>r. Ret (l, m, r))))
      (map fst rows) (fold (tee_step key) rows [])"

definition consolidate_query_result_tee ::
  "('l, 'b, 'u) entity \<Rightarrow> ('m, 'c, 'v) entity \<Rightarrow> ('r, 'd, 'w) entity \<Rightarrow>
    ('l \<times> 'm option \<times> 'r option) list \<Rightarrow> ('l \<times> 'm list \<times> 'r list) list run" where
  "consolidate_query_result_tee el em er rows =
    run_bind (pk_of_arity el) (\<lambda>k.
      consolidate_query_result_of_tee em er (model_key_get el k) rows)"

definition consolidate_query_result_of_quad_star ::
  "('m, 'c, 'v) entity \<Rightarrow> ('n, 'f, 'x) entity \<Rightarrow> ('r, 'd, 'w) entity \<Rightarrow> ('l \<Rightarrow> 'k) \<Rightarrow>
    ('l \<times> 'm option \<times> 'n option \<times> 'r option) list \<Rightarrow>
    ('l \<times> 'm list \<times> 'n list \<times> 'r list) list run" where
  "consolidate_query_result_of_quad_star em en er key rows =
    take_groups key
      (\<lambda>l s. run_bind (retain_unique_models em (quad_m s)) (\<lambda>m.
             run_bind (retain_unique_models en (quad_n s)) (\<lambda>n.
             run_bind (retain_unique_models er (quad_r s)) (\<lambda>r. Ret (l, m, n, r)))))
      (map fst rows) (fold (quad_step key) rows [])"

definition consolidate_query_result_quad_star ::
  "('l, 'b, 'u) entity \<Rightarrow> ('m, 'c, 'v) entity \<Rightarrow> ('n, 'f, 'x) entity \<Rightarrow> ('r, 'd, 'w) entity \<Rightarrow>
    ('l \<times> 'm option \<times> 'n option \<times> 'r option) list \<Rightarrow>
    ('l \<times> 'm list \<times> 'n list \<times> 'r list) list run" where
  "consolidate_query_result_quad_star el em en er rows =
    run_bind (pk_of_arity el) (\<lambda>k.
      consolidate_query_result_of_quad_star em en er (model_key_get el k) rows)"

definition consolidate_query_result_of_chain ::
  "('m, 'c, 'v) entity \<Rightarrow> ('r, 'd, 'w) entity \<Rightarrow> ('l \<Rightarrow> 'k) \<Rightarrow>
    ('l \<times> 'm option \<times> 'r option) list \<Rightarrow> ('l \<times> ('m \<times> 'r list) list) list run" where
  "consolidate_query_result_of_chain em er key rows =
    run_bind (run_fold (chain_step (entity_name em) (entity_name er) key) rows []) (\<lambda>hashmap.
      take_groups key
        (\<lambda>l mrs. run_bind (consolidate_query_result em mrs) (\<lambda>x. Ret (l, x)))
        (map fst rows) hashmap)"

definition consolidate_query_result_chain ::
  "('l, 'b, 'u) entity \<Rightarrow> ('m, 'c, 'v) entity \<Rightarrow> ('r, 'd, 'w) entity \<Rightarrow>
    ('l \<times> 'm option \<times> 'r option) list \<Rightarrow> ('l \<times> ('m \<times> 'r list) list) list run" where
  "consolidate_query_result_chain el em er rows =
    run_bind (pk_of_arity el) (\<lambda>k.
      consolidate_query_result_of_chain em er (model_key_get el k) rows)"

text \<open>The legacy algorithm: the accumulator's last entry is extended by rows with its key.\<close>

fun same_columns :: "('m \<Rightarrow> 'c \<Rightarrow> 'v) \<Rightarrow> 'm \<Rightarrow> 'm \<Rightarrow> 'c list \<Rightarrow> bool" where
  "same_columns g l l' [] = True"
| "same_columns g l l' (col # cols) =
    (if g l col \<noteq> g l' col then False else same_columns g l l' cols)"

definition ordered_step ::
  "('l, 'c, 'v) entity \<Rightarrow> 'l \<times> 'r option \<Rightarrow> ('l \<times> 'r list) list \<Rightarrow> ('l \<times> 'r list) list" where
  "ordered_step e row acc =
    (let fresh = acc @ [(fst row, case snd row of Some r \<Rightarrow> [r] | None \<Rightarrow> [])] in
     if acc = [] then fresh
     else case last acc of (last_l, last_r) \<Rightarrow>
       (if same_columns (model_get e) (fst row) last_l (primary_key e) then
          (case snd row of
             Some r \<Rightarrow> butlast acc @ [(last_l, last_r @ [r])]
           | None \<Rightarrow> fresh)
        else fresh))"

definition consolidate_query_result_of_ordered_rows ::
  "('l, 'c, 'v) entity \<Rightarrow> ('l \<times> 'r option) list \<Rightarrow> ('l \<times> 'r list) list" where
  "consolidate_query_result_of_ordered_rows e rows = fold (ordered_step e) rows []"

end
