(* ===== verification/ConsolidateSpec.thy ===== *)
theory ConsolidateSpec
  imports Consolidate
begin

text \<open>
  What the consolidation functions of \<open>Consolidate\<close> compute. The abstract grouping keeps one entry
  per primary key, in the order the keys first occur (\<open>first_by\<close>), with the parts of the rows of
  that key in row order. The contract of a grouping loop is the locale \<open>row_grouping\<close>; the four
  loops interpret it.
\<close>

section \<open>Abstract grouping\<close>

fun first_by :: "('a \<Rightarrow> 'k) \<Rightarrow> 'a list \<Rightarrow> 'a list" where
  "first_by key [] = []"
| "first_by key (x # xs) = x # filter (\<lambda>y. key y \<noteq> key x) (first_by key xs)"

text \<open>The primary key of a model as the code means it: the values of the key columns.\<close>

definition pk_values :: "('m, 'c, 'v) entity \<Rightarrow> 'm \<Rightarrow> 'v list" where
  "pk_values e model = map (model_get e model) (primary_key e)"

text \<open>The arity constant is the number of key columns, as \<open>DeriveEntityModel\<close> generates it.\<close>

definition arity_ok :: "('m, 'c, 'v) entity \<Rightarrow> bool" where
  "arity_ok e = (pk_arity e = length (primary_key e))"

definition rows_with :: "('l \<Rightarrow> 'k) \<Rightarrow> 'l \<Rightarrow> ('l \<times> 'x) list \<Rightarrow> 'x list" where
  "rows_with key l rows = map snd (filter (\<lambda>row. key (fst row) = key l) rows)"

abbreviation somes :: "'a option list \<Rightarrow> 'a list" where
  "somes \<equiv> List.map_filter (\<lambda>x. x)"

lemma somes_simps [simp]:
  "somes [] = []" "somes (None # xs) = somes xs" "somes (Some x # xs) = x # somes xs"
  "somes (xs @ ys) = somes xs @ somes ys"
  by (simp_all add: List.map_filter_def)

lemma set_somes: "x \<in> set (somes xs) \<longleftrightarrow> Some x \<in> set xs"
  by (induction xs) (auto simp: List.map_filter_def)

lemma first_by_filter:
  "first_by key (filter (\<lambda>x. P (key x)) xs) = filter (\<lambda>x. P (key x)) (first_by key xs)"
  by (induction xs) (auto simp: conj_commute intro: filter_cong)

lemma set_first_by_subset: "set (first_by key xs) \<subseteq> set xs"
  by (induction xs) auto

lemma first_by_keys: "key ` set (first_by key xs) = key ` set xs"
proof (induction xs)
  case (Cons x xs)
  have "key ` {y \<in> set (first_by key xs). key y \<noteq> key x} = key ` set (first_by key xs) - {key x}"
    by auto
  with Cons show ?case by auto
qed simp

lemma first_by_distinct: "distinct (map key (first_by key xs))"
proof (induction xs)
  case (Cons x xs)
  then have "distinct (map key (filter (\<lambda>y. key y \<noteq> key x) (first_by key xs)))"
    by (rule distinct_map_filter)
  then show ?case by auto
qed simp

lemma first_by_id: "distinct (map key xs) \<Longrightarrow> first_by key xs = xs"
  by (induction xs) (auto simp: filter_id_conv image_iff)

lemma first_by_append:
  "first_by key (xs @ ys) = first_by key xs @ filter (\<lambda>y. key y \<notin> key ` set xs) (first_by key ys)"
  by (induction xs) (auto simp: filter_filter intro: filter_cong)

lemma first_by_cong:
  "(\<And>x y. x \<in> set xs \<Longrightarrow> y \<in> set xs \<Longrightarrow> f x = f y \<longleftrightarrow> g x = g y) \<Longrightarrow> first_by f xs = first_by g xs"
  by (induction xs) (auto intro!: filter_cong dest: set_first_by_subset[THEN subsetD])

lemma first_by_map: "first_by key (map f xs) = map f (first_by (\<lambda>x. key (f x)) xs)"
  by (induction xs) (simp_all add: filter_map comp_def)

section \<open>Keys\<close>

lemma fold_push: "fold (\<lambda>col key. key @ [f col]) cs ks = ks @ map f cs"
  by (induction cs arbitrary: ks) auto

text \<open>Every entity has a key, and two models have the same key value iff the key columns agree.\<close>

lemma pk_of_arity_ok:
  assumes "arity_ok e"
  obtains k where "pk_of_arity e = Ret k"
    and "\<And>a b. model_key_get e k a = model_key_get e k b \<longleftrightarrow> pk_values e a = pk_values e b"
proof -
  let ?same = "\<lambda>k. \<forall>a b. model_key_get e k a = model_key_get e k b \<longleftrightarrow> pk_values e a = pk_values e b"
  have "\<exists>k. pk_of_arity e = Ret k \<and> ?same k"
  proof (cases "primary_key e")
    case Nil
    then show ?thesis using assms
      by (intro exI[of _ "TuplePk []"])
        (simp add: pk_of_arity_def arity_ok_def tuple_pk_def pk_values_def)
  next
    case (Cons c cs)
    show ?thesis
    proof (cases cs)
      case Nil
      then show ?thesis using assms Cons
        by (intro exI[of _ "UnitPk c"])
          (simp add: pk_of_arity_def arity_ok_def unit_pk_def unwrap_def pk_values_def)
    next
      case (Cons d ds)
      then show ?thesis using assms \<open>primary_key e = c # cs\<close>
        by (cases ds)
          (auto simp: pk_of_arity_def arity_ok_def pair_pk_def tuple_pk_def unwrap_def pk_values_def
            fold_push intro!: exI[of _ "PairPk c d"])
    qed
  qed
  then show ?thesis using that by blast
qed

section \<open>Retaining unique models\<close>

lemma retain_unseen_filter:
  "retain_unseen key seen xs = filter (\<lambda>x. key x \<notin> seen) (first_by key xs)"
proof (induction xs arbitrary: seen)
  case (Cons x xs)
  then show ?case by (auto simp: filter_filter intro: filter_cong)
qed simp

lemma retain_unique_models_of_first_by: "retain_unique_models_of key rows = first_by key rows"
  by (simp add: retain_unique_models_of_def retain_unseen_filter)

lemma retain_unique_models_ok:
  assumes "arity_ok e"
  shows "retain_unique_models e rows = Ret (first_by (pk_values e) rows)"
proof -
  obtain k where k: "pk_of_arity e = Ret k"
    "\<And>a b. model_key_get e k a = model_key_get e k b \<longleftrightarrow> pk_values e a = pk_values e b"
    using pk_of_arity_ok[OF assms] by blast
  then have "first_by (model_key_get e k) rows = first_by (pk_values e) rows"
    by (intro first_by_cong)
  with k(1) show ?thesis by (simp add: retain_unique_models_def retain_unique_models_of_first_by)
qed

section \<open>The contract of a grouping loop\<close>

lemma take_groups_first_by:
  "take_groups key out ls m =
    run_map (\<lambda>l. out l (the (hm_get m (key l))))
      (filter (\<lambda>l. hm_get m (key l) \<noteq> None) (first_by key ls))"
proof (induction ls arbitrary: m)
  case (Cons l ls)
  show ?case
  proof (cases "hm_get m (key l)")
    case None
    have "filter (\<lambda>x. hm_get m (key x) \<noteq> None) (first_by key ls) =
        filter (\<lambda>x. hm_get m (key x) \<noteq> None) (filter (\<lambda>y. key y \<noteq> key l) (first_by key ls))"
      using None by (auto simp: filter_filter intro!: filter_cong)
    with None Cons show ?thesis by simp
  next
    case (Some s)
    let ?m = "hm_remove (key l) m"
    have "filter (\<lambda>x. hm_get ?m (key x) \<noteq> None) (first_by key ls) =
        filter (\<lambda>x. hm_get m (key x) \<noteq> None) (filter (\<lambda>y. key y \<noteq> key l) (first_by key ls))"
      by (auto simp: hm_simps filter_filter intro!: filter_cong)
    moreover have "run_map (\<lambda>x. out x (the (hm_get ?m (key x))))
          (filter (\<lambda>x. hm_get m (key x) \<noteq> None) (filter (\<lambda>y. key y \<noteq> key l) (first_by key ls))) =
        run_map (\<lambda>x. out x (the (hm_get m (key x))))
          (filter (\<lambda>x. hm_get m (key x) \<noteq> None) (filter (\<lambda>y. key y \<noteq> key l) (first_by key ls)))"
      by (rule run_map_cong) (auto simp: hm_simps)
    ultimately show ?thesis using Some Cons[of ?m] by simp
  qed
qed simp

locale row_grouping =
  fixes key :: "'l \<Rightarrow> 'k"
    and empty :: "'s"
    and add :: "'x \<Rightarrow> 's \<Rightarrow> 's"
    and step :: "'l \<times> 'x \<Rightarrow> ('k, 's) hashmap \<Rightarrow> ('k, 's) hashmap"
  assumes get_step: "hm_get (step row m) j =
    (if j = key (fst row) then Some (add (snd row) (case hm_get m j of None \<Rightarrow> empty | Some s \<Rightarrow> s))
     else hm_get m j)"
begin

lemma get_fold:
  "hm_get (fold step rows m) j =
    (case map snd (filter (\<lambda>row. key (fst row) = j) rows) of
       [] \<Rightarrow> hm_get m j
     | xs \<Rightarrow> Some (fold add xs (case hm_get m j of None \<Rightarrow> empty | Some s \<Rightarrow> s)))"
  by (induction rows arbitrary: m) (auto simp: get_step split: list.splits option.splits)

lemma get_fold_row:
  assumes "l \<in> set (map fst rows)"
  shows "hm_get (fold step rows []) (key l) = Some (fold add (rows_with key l rows) empty)"
proof -
  have "rows_with key l rows \<noteq> []"
    using assms by (auto simp: rows_with_def filter_empty_conv)
  then show ?thesis by (simp add: get_fold rows_with_def hm_simps split: list.splits)
qed

text \<open>Both passes: one entry per key, in first-occurrence order, folding the rows of the key.\<close>

lemma grouped:
  "take_groups key out (map fst rows) (fold step rows []) =
    run_map (\<lambda>l. out l (fold add (rows_with key l rows) empty)) (first_by key (map fst rows))"
proof -
  have in_rows: "l \<in> set (map fst rows)" if "l \<in> set (first_by key (map fst rows))" for l
    using that set_first_by_subset[of key "map fst rows"] by blast
  have "filter (\<lambda>l. hm_get (fold step rows []) (key l) \<noteq> None) (first_by key (map fst rows)) =
      first_by key (map fst rows)"
    using get_fold_row[OF in_rows] by (auto simp: filter_id_conv)
  then show ?thesis
    unfolding take_groups_first_by using get_fold_row[OF in_rows]
    by (auto intro!: run_map_cong)
qed

end

definition tee_add :: "'m option \<times> 'r option \<Rightarrow> ('m, 'r) tee_slot \<Rightarrow> ('m, 'r) tee_slot" where
  "tee_add x s = \<lparr>tee_m = push_opt (fst x) (tee_m s), tee_r = push_opt (snd x) (tee_r s)\<rparr>"

definition quad_add ::
  "'m option \<times> 'n option \<times> 'r option \<Rightarrow> ('m, 'n, 'r) quad_slot \<Rightarrow> ('m, 'n, 'r) quad_slot" where
  "quad_add x s = \<lparr>quad_m = push_opt (fst x) (quad_m s),
    quad_n = push_opt (fst (snd x)) (quad_n s), quad_r = push_opt (snd (snd x)) (quad_r s)\<rparr>"

definition chain_add ::
  "'m option \<times> 'r option \<Rightarrow> ('m \<times> 'r option) list \<Rightarrow> ('m \<times> 'r option) list" where
  "chain_add x s = (case fst x of Some m \<Rightarrow> s @ [(m, snd x)] | None \<Rightarrow> s)"

interpretation pairs: row_grouping key "[]" push_opt "group_step key" for key
  by unfold_locales
    (auto simp: group_step_def Let_def hm_simps split: option.splits)

interpretation tee: row_grouping key "\<lparr>tee_m = [], tee_r = []\<rparr>" tee_add "tee_step key" for key
  by unfold_locales
    (auto simp: tee_step_def tee_add_def Let_def hm_simps split: option.splits prod.splits)

interpretation quad: row_grouping key "\<lparr>quad_m = [], quad_n = [], quad_r = []\<rparr>" quad_add
  "quad_step key" for key
  by unfold_locales
    (auto simp: quad_step_def quad_add_def hm_simps split: option.splits prod.splits)

text \<open>The chain loop panics on a row with an \<open>R\<close> and no \<open>M\<close>, and is a grouping loop otherwise.\<close>

definition chain_step_ok ::
  "('l \<Rightarrow> 'k) \<Rightarrow> 'l \<times> 'm option \<times> 'r option \<Rightarrow>
    ('k, ('m \<times> 'r option) list) hashmap \<Rightarrow> ('k, ('m \<times> 'r option) list) hashmap" where
  "chain_step_ok key row = hm_modify (key (fst row)) [] (chain_add (snd row))"

interpretation chain: row_grouping key "[]" chain_add "chain_step_ok key" for key
  by unfold_locales (auto simp: chain_step_ok_def hm_simps split: option.splits)

definition orphan_r :: "'l \<times> 'm option \<times> 'r option \<Rightarrow> bool" where
  "orphan_r row = (fst (snd row) = None \<and> snd (snd row) \<noteq> None)"

lemma chain_step_Ret:
  "\<not> orphan_r row \<Longrightarrow> chain_step mn rn key row acc = Ret (chain_step_ok key row acc)"
  by (auto simp: orphan_r_def chain_step_def chain_step_ok_def chain_add_def Let_def hm_insert_def
      hm_modify_def hm_get_def split: option.splits prod.splits)

lemma chain_step_Panic:
  "orphan_r row \<Longrightarrow> chain_step mn rn key row acc =
    Panic (''Impossible to have R when M ('' @ mn @ '') -> R ('' @ rn @ '')'')"
  by (auto simp: orphan_r_def chain_step_def Let_def split: option.splits prod.splits)

lemma run_fold_chain:
  "run_fold (chain_step mn rn key) rows m =
    (if list_ex orphan_r rows
     then Panic (''Impossible to have R when M ('' @ mn @ '') -> R ('' @ rn @ '')'')
     else Ret (fold (chain_step_ok key) rows m))"
proof (induction rows arbitrary: m)
  case (Cons row rows)
  then show ?case
    by (cases "orphan_r row") (simp_all add: chain_step_Ret chain_step_Panic)
qed simp

section \<open>What the slots hold\<close>

lemma push_opt_fold: "fold push_opt xs s = s @ somes xs"
proof (induction xs arbitrary: s)
  case (Cons x xs)
  then show ?case by (cases x) auto
qed simp

lemma tee_fold:
  "fold tee_add xs s =
    \<lparr>tee_m = tee_m s @ somes (map fst xs), tee_r = tee_r s @ somes (map snd xs)\<rparr>"
proof (induction xs arbitrary: s)
  case (Cons x xs)
  then show ?case by (cases "fst x"; cases "snd x") (simp_all add: tee_add_def)
qed simp

lemma quad_fold:
  "fold quad_add xs s =
    \<lparr>quad_m = quad_m s @ somes (map fst xs), quad_n = quad_n s @ somes (map (fst \<circ> snd) xs),
     quad_r = quad_r s @ somes (map (snd \<circ> snd) xs)\<rparr>"
proof (induction xs arbitrary: s)
  case (Cons x xs)
  then show ?case
    by (cases "fst x"; cases "fst (snd x)"; cases "snd (snd x)") (simp_all add: quad_add_def)
qed simp

definition chain_pairs :: "('m option \<times> 'r option) list \<Rightarrow> ('m \<times> 'r option) list" where
  "chain_pairs xs = somes (map (\<lambda>x. case fst x of Some m \<Rightarrow> Some (m, snd x) | None \<Rightarrow> None) xs)"

lemma chain_fold: "fold chain_add xs s = s @ chain_pairs xs"
proof (induction xs arbitrary: s)
  case (Cons x xs)
  then show ?case by (cases "fst x") (simp_all add: chain_add_def chain_pairs_def)
qed (simp add: chain_pairs_def)

section \<open>The results\<close>

lemma rows_with_cong:
  "(\<And>a b. f a = f b \<longleftrightarrow> g a = g b) \<Longrightarrow> rows_with f l rows = rows_with g l rows"
  unfolding rows_with_def by (intro arg_cong[of _ _ "map snd"] filter_cong) auto

lemma consolidate_of:
  "consolidate_query_result_of key rows =
    Ret (map (\<lambda>l. (l, somes (rows_with key l rows))) (first_by key (map fst rows)))"
  unfolding consolidate_query_result_of_def pairs.grouped
  by (rule run_map_Ret) (simp add: push_opt_fold)

lemma consolidate_grouped:
  assumes "arity_ok e"
  shows "consolidate_query_result e rows =
    Ret (map (\<lambda>l. (l, somes (rows_with (pk_values e) l rows))) (first_by (pk_values e) (map fst rows)))"
proof -
  obtain k where k: "pk_of_arity e = Ret k"
    and same: "\<And>a b. model_key_get e k a = model_key_get e k b \<longleftrightarrow> pk_values e a = pk_values e b"
    using pk_of_arity_ok[OF assms] by blast
  have rows_eq: "rows_with (model_key_get e k) l rows = rows_with (pk_values e) l rows" for l
    by (rule rows_with_cong) (rule same)
  have "first_by (model_key_get e k) ls = first_by (pk_values e) ls" for ls
    by (rule first_by_cong) (rule same)
  with k show ?thesis by (simp add: consolidate_query_result_def consolidate_of rows_eq)
qed

lemma tee_grouped:
  assumes "arity_ok el" "arity_ok em" "arity_ok er"
  shows "consolidate_query_result_tee el em er rows =
    Ret (map (\<lambda>l. let xs = rows_with (pk_values el) l rows in
        (l, first_by (pk_values em) (somes (map fst xs)), first_by (pk_values er) (somes (map snd xs))))
      (first_by (pk_values el) (map fst rows)))"
proof -
  obtain k where k: "pk_of_arity el = Ret k"
    and same: "\<And>a b. model_key_get el k a = model_key_get el k b \<longleftrightarrow> pk_values el a = pk_values el b"
    using pk_of_arity_ok[OF assms(1)] by blast
  have rows_eq: "rows_with (model_key_get el k) l rows = rows_with (pk_values el) l rows" for l
    by (rule rows_with_cong) (rule same)
  have firsts: "first_by (model_key_get el k) ls = first_by (pk_values el) ls" for ls
    by (rule first_by_cong) (rule same)
  show ?thesis
    unfolding consolidate_query_result_tee_def consolidate_query_result_of_tee_def k run_bind.simps
      tee.grouped firsts
    by (rule run_map_Ret)
      (simp add: retain_unique_models_ok[OF assms(2)] retain_unique_models_ok[OF assms(3)]
        tee_fold Let_def rows_eq)
qed

lemma quad_grouped:
  assumes "arity_ok el" "arity_ok em" "arity_ok en" "arity_ok er"
  shows "consolidate_query_result_quad_star el em en er rows =
    Ret (map (\<lambda>l. let xs = rows_with (pk_values el) l rows in
        (l, first_by (pk_values em) (somes (map fst xs)),
            first_by (pk_values en) (somes (map (fst \<circ> snd) xs)),
            first_by (pk_values er) (somes (map (snd \<circ> snd) xs))))
      (first_by (pk_values el) (map fst rows)))"
proof -
  obtain k where k: "pk_of_arity el = Ret k"
    and same: "\<And>a b. model_key_get el k a = model_key_get el k b \<longleftrightarrow> pk_values el a = pk_values el b"
    using pk_of_arity_ok[OF assms(1)] by blast
  have rows_eq: "rows_with (model_key_get el k) l rows = rows_with (pk_values el) l rows" for l
    by (rule rows_with_cong) (rule same)
  have firsts: "first_by (model_key_get el k) ls = first_by (pk_values el) ls" for ls
    by (rule first_by_cong) (rule same)
  show ?thesis
    unfolding consolidate_query_result_quad_star_def consolidate_query_result_of_quad_star_def k
      run_bind.simps quad.grouped firsts
    by (rule run_map_Ret)
      (simp add: retain_unique_models_ok[OF assms(2)] retain_unique_models_ok[OF assms(3)]
        retain_unique_models_ok[OF assms(4)] quad_fold Let_def rows_eq)
qed

lemma chain_grouped:
  assumes "arity_ok el" "arity_ok em"
  shows "consolidate_query_result_chain el em er rows =
    (if list_ex orphan_r rows
     then Panic (''Impossible to have R when M ('' @ entity_name em @ '') -> R ('' @ entity_name er @ '')'')
     else Ret (map (\<lambda>l. let ms = chain_pairs (rows_with (pk_values el) l rows) in
        (l, map (\<lambda>m. (m, somes (rows_with (pk_values em) m ms))) (first_by (pk_values em) (map fst ms))))
      (first_by (pk_values el) (map fst rows))))"
proof -
  obtain k where k: "pk_of_arity el = Ret k"
    and same: "\<And>a b. model_key_get el k a = model_key_get el k b \<longleftrightarrow> pk_values el a = pk_values el b"
    using pk_of_arity_ok[OF assms(1)] by blast
  have rows_eq: "rows_with (model_key_get el k) l rows = rows_with (pk_values el) l rows" for l
    by (rule rows_with_cong) (rule same)
  have firsts: "first_by (model_key_get el k) ls = first_by (pk_values el) ls" for ls
    by (rule first_by_cong) (rule same)
  show ?thesis
  proof (cases "list_ex orphan_r rows")
    case True
    then show ?thesis
      by (simp add: consolidate_query_result_chain_def consolidate_query_result_of_chain_def k
          run_fold_chain)
  next
    case False
    show ?thesis
      unfolding consolidate_query_result_chain_def consolidate_query_result_of_chain_def k
        run_bind.simps run_fold_chain if_not_P[OF False] chain.grouped firsts
      by (rule run_map_Ret)
        (simp add: consolidate_grouped[OF assms(2)] chain_fold Let_def rows_eq)
  qed
qed

section \<open>Joins and round trips\<close>

text \<open>
  The rows a LEFT JOIN produces for one left model and its related models; with two or three
  relations on the same left model the rows are the cartesian product.
\<close>

definition side :: "'a list \<Rightarrow> 'a option list" where
  "side xs = (if xs = [] then [None] else map Some xs)"

definition join_pairs :: "'l \<times> 'r list \<Rightarrow> ('l \<times> 'r option) list" where
  "join_pairs x = map (Pair (fst x)) (side (snd x))"

definition join_tee :: "'l \<times> 'm list \<times> 'r list \<Rightarrow> ('l \<times> 'm option \<times> 'r option) list" where
  "join_tee x = map (Pair (fst x)) (List.product (side (fst (snd x))) (side (snd (snd x))))"

definition join_quad ::
  "'l \<times> 'm list \<times> 'n list \<times> 'r list \<Rightarrow> ('l \<times> 'm option \<times> 'n option \<times> 'r option) list" where
  "join_quad x = map (Pair (fst x)) (List.product (side (fst (snd x)))
    (List.product (side (fst (snd (snd x)))) (side (snd (snd (snd x))))))"

definition join_chain :: "'l \<times> ('m \<times> 'r list) list \<Rightarrow> ('l \<times> 'm option \<times> 'r option) list" where
  "join_chain x = map (Pair (fst x))
    (if snd x = [] then [(None, None)]
     else concat (map (\<lambda>(m, rs). map (Pair (Some m)) (side rs)) (snd x)))"

lemma side_neq_Nil [simp]: "side xs \<noteq> []"
  by (simp add: side_def)

lemma somes_map_Some [simp]: "somes (map Some xs) = xs"
  by (induction xs) simp_all

lemma somes_side [simp]: "somes (side xs) = xs"
  by (simp add: side_def)

lemma product_eq_Nil: "List.product xs ys = [] \<longleftrightarrow> xs = [] \<or> ys = []"
  by (simp flip: length_0_conv)

lemma first_by_const: "xs \<noteq> [] \<Longrightarrow> (\<And>x. x \<in> set xs \<Longrightarrow> x = a) \<Longrightarrow> first_by key xs = [a]"
proof (induction xs)
  case (Cons x xs)
  then show ?case by (cases "xs = []") auto
qed simp

lemma first_by_blocks:
  assumes "\<And>x. G x \<noteq> []" "\<And>x y. y \<in> set (G x) \<Longrightarrow> y = left x"
    and "distinct (map (\<lambda>x. key (left x)) xs)"
  shows "first_by key (concat (map G xs)) = map left xs"
  using assms(3)
proof (induction xs)
  case (Cons x xs)
  have one: "first_by key (G x) = [left x]" by (rule first_by_const) (use assms in auto)
  have "key ` set (G x) = {key (left x)}"
    using first_by_keys[of key "G x"] one by simp
  with Cons one show ?case by (auto simp: first_by_append filter_id_conv image_iff)
qed simp

locale join_rows =
  fixes left :: "'o \<Rightarrow> 'l" and J :: "'o \<Rightarrow> ('l \<times> 'x) list"
  assumes nonempty: "J x \<noteq> []"
    and lefts: "row \<in> set (J x) \<Longrightarrow> fst row = left x"
begin

lemma firsts:
  assumes "distinct (map (\<lambda>x. key (left x)) xs)"
  shows "first_by key (map fst (concat (map J xs))) = map left xs"
  unfolding map_concat map_map comp_def
  by (rule first_by_blocks) (use assms nonempty lefts in auto)

lemma rows:
  assumes "distinct (map (\<lambda>x. key (left x)) xs)" "x \<in> set xs"
  shows "rows_with key (left x) (concat (map J xs)) = map snd (J x)"
  using assms
proof (induction xs)
  case (Cons y ys)
  have block: "filter (\<lambda>row. key (fst row) = key (left x)) (J z) =
      (if key (left z) = key (left x) then J z else [])" for z
    using lefts[of _ z] by (auto simp: filter_id_conv filter_empty_conv)
  have none: "filter (\<lambda>row. key (fst row) = key (left x)) (concat (map J zs)) = []"
    if "key (left x) \<notin> (\<lambda>z. key (left z)) ` set zs" for zs
    using that by (induction zs) (auto simp: block)
  show ?case
  proof (cases "x = y")
    case True
    with Cons.prems none[of ys] block[of y] show ?thesis by (simp add: rows_with_def)
  next
    case False
    with Cons.prems have "x \<in> set ys" by simp
    then have "key (left y) \<noteq> key (left x)" using Cons.prems(1) by (auto simp: image_iff)
    with Cons \<open>x \<in> set ys\<close> block[of y] show ?thesis by (simp add: rows_with_def)
  qed
qed simp

lemma grouped_back:
  assumes "distinct (map (\<lambda>x. key (left x)) xs)"
    and "\<And>x. x \<in> set xs \<Longrightarrow> out (left x) (map snd (J x)) = x"
  shows "map (\<lambda>l. out l (rows_with key l (concat (map J xs))))
    (first_by key (map fst (concat (map J xs)))) = xs"
  by (simp add: firsts[OF assms(1)] comp_def map_idI rows[OF assms(1)] assms(2))

end

interpretation jpairs: join_rows fst join_pairs
  by unfold_locales (auto simp: join_pairs_def)

interpretation jtee: join_rows fst join_tee
  by unfold_locales (auto simp: join_tee_def product_eq_Nil)

interpretation jquad: join_rows fst join_quad
  by unfold_locales (auto simp: join_quad_def product_eq_Nil)

interpretation jchain: join_rows fst join_chain
  by unfold_locales (auto simp: join_chain_def neq_Nil_conv side_def split: if_splits)

text \<open>The sides of a cartesian product, each repeated as often as the other side is long.\<close>

lemma product_fst_somes:
  "somes (map fst (List.product (side xs) ys)) = concat (map (replicate (length ys)) xs)"
proof -
  have "somes (map fst (List.product (map Some xs) ys)) = concat (map (replicate (length ys)) xs)"
    by (induction xs) (simp_all add: comp_def map_replicate_const flip: map_replicate)
  moreover have "somes (map fst (List.product [None] ys)) = []"
    by (induction ys) simp_all
  ultimately show ?thesis by (auto simp: side_def)
qed

lemma product_snd: "map snd (List.product xs ys) = concat (replicate (length xs) ys)"
  by (induction xs) (simp_all add: comp_def)

lemma somes_concat_replicate:
  "somes (map f (concat (replicate n ys))) = concat (replicate n (somes (map f ys)))"
  by (induction n) simp_all

lemma first_by_left_side:
  assumes "distinct (map key xs)" "ys \<noteq> []"
  shows "first_by key (concat (map (replicate (length ys)) xs)) = xs"
  using first_by_blocks[of "replicate (length ys)" "\<lambda>x. x" key xs] assms by auto

lemma first_by_right_side:
  assumes "n > 0"
  shows "first_by key (concat (replicate n ys)) = first_by key ys"
proof -
  have "first_by key (concat (replicate (Suc k) ys)) = first_by key ys" for k
  proof (induction k)
    case (Suc k)
    have "filter (\<lambda>y. key y \<notin> key ` set ys) (first_by key ys) = []"
      using set_first_by_subset[of key ys] by (auto simp: filter_empty_conv)
    with Suc show ?case by (simp add: first_by_append[of key ys "ys @ concat (replicate k ys)"])
  qed simp
  with assms show ?thesis by (cases n) auto
qed

lemma somes_product_fst:
  assumes "distinct (map key xs)" "ys \<noteq> []"
  shows "first_by key (somes (map fst (List.product (side xs) ys))) = xs"
  by (simp add: product_fst_somes first_by_left_side[OF assms])

lemma somes_product_snd:
  assumes "xs \<noteq> []"
  shows "first_by key (somes (map f (map snd (List.product xs ys)))) = first_by key (somes (map f ys))"
  using assms by (simp add: product_snd somes_concat_replicate first_by_right_side)

lemma chain_pairs_append: "chain_pairs (xs @ ys) = chain_pairs xs @ chain_pairs ys"
  by (simp add: chain_pairs_def)

lemma chain_pairs_Some: "chain_pairs (map (Pair (Some m)) ys) = map (Pair m) ys"
  by (induction ys) (simp_all add: chain_pairs_def)

lemma chain_pairs_join:
  fixes x :: "'l \<times> ('m \<times> 'r list) list"
  shows "chain_pairs (map snd (join_chain x)) = concat (map join_pairs (snd x))"
proof -
  have "chain_pairs (concat (map (\<lambda>(m, rs). map (Pair (Some m)) (side rs)) ms)) =
      concat (map join_pairs ms)" for ms :: "('m \<times> 'r list) list"
  proof (induction ms)
    case (Cons a ms)
    then show ?case
      by (cases a) (simp add: chain_pairs_append chain_pairs_Some join_pairs_def[where x = "(u, v)" for u v])
  qed (simp add: chain_pairs_def)
  moreover have "chain_pairs [(None, None :: 'r option)] = ([] :: ('m \<times> 'r option) list)"
    by (simp add: chain_pairs_def)
  ultimately show ?thesis by (simp add: join_chain_def comp_def)
qed

lemma no_orphan_join: "\<not> list_ex orphan_r (concat (map join_chain xs))"
  by (auto simp: list_ex_iff orphan_r_def join_chain_def split: if_splits)

text \<open>Splitting the rows by key loses nothing.\<close>

lemma mset_groups:
  fixes rows :: "('l \<times> 'c option) list"
  assumes "distinct (map key ls)" "key ` fst ` set rows \<subseteq> key ` set ls"
  shows "mset (concat (map (\<lambda>l. somes (rows_with key l rows)) ls)) = mset (somes (map snd rows))"
  using assms(2)
proof (induction rows)
  case Nil
  show ?case by (simp add: rows_with_def)
next
  case (Cons row rows)
  have dist: "distinct ls" "inj_on key (set ls)" using assms(1) by (simp_all add: distinct_map)
  have msum: "mset (concat (map f ls)) = (\<Sum>l\<in>set ls. mset (f l))" for f :: "_ \<Rightarrow> 'c list"
    using dist(1) by (induction ls) auto
  obtain l0 where l0: "l0 \<in> set ls" "key (fst row) = key l0" using Cons.prems by auto
  have "mset (somes (rows_with key l (row # rows))) =
      (if l = l0 then mset (somes [snd row]) else {#}) + mset (somes (rows_with key l rows))"
    if "l \<in> set ls" for l
    using that l0 inj_onD[OF dist(2), of l0 l] by (cases "snd row") (auto simp: rows_with_def)
  then have "mset (concat (map (\<lambda>l. somes (rows_with key l (row # rows))) ls)) =
      mset (somes [snd row]) + mset (concat (map (\<lambda>l. somes (rows_with key l rows)) ls))"
    using l0(1) by (simp add: msum sum.distrib)
  with Cons show ?case by (cases "snd row") auto
qed

section \<open>The legacy algorithm\<close>

lemma same_columns_iff: "same_columns g l l' cols \<longleftrightarrow> map (g l) cols = map (g l') cols"
  by (induction cols) auto

lemma ordered_fresh:
  assumes "acc = [] \<or> pk_values e (fst (last acc)) \<noteq> pk_values e l"
  shows "ordered_step e (l, r) acc = acc @ [(l, case r of Some r \<Rightarrow> [r] | None \<Rightarrow> [])]"
proof (cases "acc = []")
  case False
  with assms have "\<not> same_columns (model_get e) l (fst (last acc)) (primary_key e)"
    by (metis same_columns_iff pk_values_def)
  then show ?thesis by (simp add: ordered_step_def Let_def case_prod_beta)
qed (simp add: ordered_step_def)

lemma ordered_extend:
  "fold (ordered_step e) (map (\<lambda>r. (l, Some r)) rs) (acc @ [(l, rs0)]) = acc @ [(l, rs0 @ rs)]"
  by (induction rs arbitrary: rs0) (simp_all add: ordered_step_def same_columns_iff)

lemma ordered_block:
  assumes "acc = [] \<or> pk_values e (fst (last acc)) \<noteq> pk_values e (fst x)"
  shows "fold (ordered_step e) (join_pairs x) acc = acc @ [x]"
proof (cases "snd x")
  case Nil
  with assms show ?thesis
    by (cases x) (simp add: join_pairs_def side_def ordered_fresh)
next
  case (Cons r rs)
  with assms show ?thesis
    using ordered_extend[of e "fst x" rs acc "[r]"]
    by (cases x) (simp add: join_pairs_def side_def ordered_fresh comp_def)
qed

lemma ordered_blocks:
  assumes "distinct (map (\<lambda>x. pk_values e (fst x)) (acc @ xs))"
  shows "fold (ordered_step e) (concat (map join_pairs xs)) acc = acc @ xs"
  using assms
proof (induction xs arbitrary: acc)
  case (Cons x xs)
  have "acc = [] \<or> pk_values e (fst (last acc)) \<noteq> pk_values e (fst x)"
  proof (rule disjCI)
    assume "\<not> pk_values e (fst (last acc)) \<noteq> pk_values e (fst x)"
    moreover have "pk_values e (fst y) \<noteq> pk_values e (fst x)" if "y \<in> set acc" for y
      using Cons.prems that by (auto simp: image_iff)
    ultimately show "acc = []" using last_in_set[of acc] by blast
  qed
  with Cons.IH[of "acc @ [x]"] Cons.prems show ?case by (simp add: ordered_block)
qed simp

section \<open>Properties\<close>

text \<open>The entities of the witnesses: a unit key, and a key of two columns.\<close>

definition cake :: "(nat \<times> nat, nat, nat) entity" where
  "cake = \<lparr>primary_key = [0], pk_arity = 1,
    model_get = (\<lambda>m c. if c = 0 then fst m else snd m), entity_name = ''cake''\<rparr>"

definition cake_filling :: "(nat \<times> nat, nat, nat) entity" where
  "cake_filling = \<lparr>primary_key = [0, 1], pk_arity = 2,
    model_get = (\<lambda>m c. if c = 0 then fst m else snd m), entity_name = ''cake_filling''\<rparr>"

lemmas example_entities = cake_def cake_filling_def arity_ok_def pk_values_def

text \<open>C8. \<open>find_with_related\<close>'s consolidation, for every list of joined rows and every entity: one
  entry per distinct primary key of the left model, in the order the keys first occur, each with
  its right models in row order; no right model is lost or repeated.\<close>

theorem consolidate_groups_by_primary_key:
  assumes "arity_ok e"
  shows "\<exists>out. consolidate_query_result e rows = Ret out \<and>
    map fst out = first_by (pk_values e) (map fst rows) \<and>
    list_all (\<lambda>(l, rs). rs = somes (rows_with (pk_values e) l rows)) out \<and>
    distinct (map (pk_values e \<circ> fst) out) \<and>
    mset (concat (map snd out)) = mset (somes (map snd rows))"
proof (intro exI conjI)
  let ?key = "pk_values e"
  let ?ls = "first_by ?key (map fst rows)"
  let ?out = "map (\<lambda>l. (l, somes (rows_with ?key l rows))) ?ls"
  show "consolidate_query_result e rows = Ret ?out" by (rule consolidate_grouped[OF assms])
  show "map fst ?out = ?ls" by (simp add: comp_def)
  show "list_all (\<lambda>(l, rs). rs = somes (rows_with ?key l rows)) ?out"
    by (simp add: list_all_iff)
  show "distinct (map (?key \<circ> fst) ?out)"
    using first_by_distinct[of ?key "map fst rows"] by (simp add: comp_def)
  show "mset (concat (map snd ?out)) = mset (somes (map snd rows))"
    using mset_groups[OF first_by_distinct[of ?key "map fst rows"], of rows] first_by_keys[of ?key "map fst rows"]
    by (simp add: comp_def image_image)
qed

theorem consolidate_groups_by_primary_key_witness:
  "\<exists>out. consolidate_query_result cake
      [((1, 7), Some (10 :: nat)), ((2, 8), None), ((1, 7), Some 11)] = Ret out \<and>
    map fst out = [(1, 7), (2, 8)] \<and> mset (concat (map snd out)) = {#10, 11#}"
  using consolidate_groups_by_primary_key
    [of cake "[((1, 7), Some 10), ((2, 8), None), ((1, 7), Some 11)]"]
  by (auto simp: example_entities)

text \<open>Consolidation undoes the join: from the LEFT JOIN rows of entries with distinct primary
  keys it returns exactly those entries, the ones without related models included.\<close>

lemma consolidate_undoes_join:
  assumes "arity_ok e" "distinct (map (\<lambda>x. pk_values e (fst x)) xs)"
  shows "consolidate_query_result e (concat (map join_pairs xs)) = Ret xs"
  unfolding consolidate_grouped[OF assms(1)]
  using jpairs.grouped_back[where out = "\<lambda>l ys. (l, somes ys)", OF assms(2)]
  by (simp add: join_pairs_def comp_def)

lemma consolidate_undoes_join_witness:
  "consolidate_query_result cake_filling
      [((1, 7), Some True), ((1, 7), Some False), ((1, 8), None)] =
    Ret [((1, 7), [True, False]), ((1, 8), [])]"
  using consolidate_undoes_join[of cake_filling "[((1, 7), [True, False]), ((1, 8), [])]"]
  by (simp add: example_entities join_pairs_def side_def)

text \<open>With two relations on the left model the rows are a cartesian product; the consolidation
  collapses it back to the two lists of related models.\<close>

theorem consolidate_tee_undoes_join:
  assumes "arity_ok el" "arity_ok em" "arity_ok er"
    and "distinct (map (\<lambda>x. pk_values el (fst x)) xs)"
    and "list_all (\<lambda>x. distinct (map (pk_values em) (fst (snd x)))) xs"
    and "list_all (\<lambda>x. distinct (map (pk_values er) (snd (snd x)))) xs"
  shows "consolidate_query_result_tee el em er (concat (map join_tee xs)) = Ret xs"
proof -
  let ?out = "\<lambda>l ys. (l, first_by (pk_values em) (somes (map fst ys)),
    first_by (pk_values er) (somes (map snd ys)))"
  have "?out (fst x) (map snd (join_tee x)) = x" if "x \<in> set xs" for x
  proof (cases x)
    case (fields l ms rs)
    have "first_by (pk_values em) (somes (map fst (List.product (side ms) (side rs)))) = ms"
      by (rule somes_product_fst) (use assms(5)[unfolded list_all_iff, rule_format, OF that] fields in auto)
    moreover have "first_by (pk_values er) (somes (map snd (List.product (side ms) (side rs)))) = rs"
      using somes_product_snd[OF side_neq_Nil, of "pk_values er" "\<lambda>x. x" ms "side rs"]
        first_by_id[OF assms(6)[unfolded list_all_iff, rule_format, OF that]] fields by simp
    ultimately show ?thesis by (simp add: fields join_tee_def comp_def)
  qed
  from jtee.grouped_back[where out = ?out, OF assms(4) this] show ?thesis
    by (simp add: tee_grouped[OF assms(1-3)] Let_def)
qed

theorem consolidate_tee_undoes_join_witness:
  "consolidate_query_result_tee cake cake cake_filling
      [((1, 7), Some (5, 5), Some (2, 2)), ((1, 7), Some (5, 5), Some (2, 3)),
       ((1, 7), Some (6, 5), Some (2, 2)), ((1, 7), Some (6, 5), Some (2, 3)), ((2, 7), None, None)] =
    Ret [((1, 7), [(5, 5), (6, 5)], [(2, 2), (2, 3)]), ((2, 7), [], [])]"
  using consolidate_tee_undoes_join
    [of cake cake cake_filling "[((1, 7), [(5, 5), (6, 5)], [(2, 2), (2, 3)]), ((2, 7), [], [])]"]
  by (auto simp: example_entities join_tee_def side_def)

text \<open>The same with three relations on the left model.\<close>

theorem consolidate_quad_star_undoes_join:
  assumes "arity_ok el" "arity_ok em" "arity_ok en" "arity_ok er"
    and "distinct (map (\<lambda>x. pk_values el (fst x)) xs)"
    and "list_all (\<lambda>x. distinct (map (pk_values em) (fst (snd x)))) xs"
    and "list_all (\<lambda>x. distinct (map (pk_values en) (fst (snd (snd x))))) xs"
    and "list_all (\<lambda>x. distinct (map (pk_values er) (snd (snd (snd x))))) xs"
  shows "consolidate_query_result_quad_star el em en er (concat (map join_quad xs)) = Ret xs"
proof -
  let ?out = "\<lambda>l ys. (l, first_by (pk_values em) (somes (map fst ys)),
    first_by (pk_values en) (somes (map (fst \<circ> snd) ys)),
    first_by (pk_values er) (somes (map (snd \<circ> snd) ys)))"
  have "?out (fst x) (map snd (join_quad x)) = x" if "x \<in> set xs" for x
  proof (cases x)
    case (fields l ms ns rs)
    let ?in = "List.product (side ns) (side rs)"
    have "first_by (pk_values em) (somes (map fst (List.product (side ms) ?in))) = ms"
      by (rule somes_product_fst) (use assms(6)[unfolded list_all_iff, rule_format, OF that] fields in \<open>auto simp: product_eq_Nil\<close>)
    moreover have "first_by (pk_values en) (somes (map fst (map snd (List.product (side ms) ?in)))) = ns"
      unfolding somes_product_snd[OF side_neq_Nil]
      by (rule somes_product_fst) (use assms(7)[unfolded list_all_iff, rule_format, OF that] fields in auto)
    moreover have "first_by (pk_values er) (somes (map snd (map snd (List.product (side ms) ?in)))) = rs"
      unfolding somes_product_snd[OF side_neq_Nil]
      using somes_product_snd[OF side_neq_Nil, of "pk_values er" "\<lambda>x. x" ns "side rs"]
        first_by_id[OF assms(8)[unfolded list_all_iff, rule_format, OF that]] fields by simp
    ultimately show ?thesis by (simp add: fields join_quad_def comp_def)
  qed
  from jquad.grouped_back[where out = ?out, OF assms(5) this] show ?thesis
    by (simp add: quad_grouped[OF assms(1-4)] Let_def)
qed

theorem consolidate_quad_star_undoes_join_witness:
  "consolidate_query_result_quad_star cake cake cake_filling cake
      [((1, 7), Some (5, 5), Some (2, 2), None), ((1, 7), Some (5, 5), Some (2, 3), None),
       ((1, 7), Some (6, 5), Some (2, 2), None), ((1, 7), Some (6, 5), Some (2, 3), None)] =
    Ret [((1, 7), [(5, 5), (6, 5)], [(2, 2), (2, 3)], [])]"
  using consolidate_quad_star_undoes_join
    [of cake cake cake_filling cake "[((1, 7), [(5, 5), (6, 5)], [(2, 2), (2, 3)], [])]"]
  by (auto simp: example_entities join_quad_def side_def)

text \<open>C9. With a chain L, M, R the rows consolidate to the nested lists they were joined from.\<close>

theorem consolidate_chain_undoes_join:
  assumes "arity_ok el" "arity_ok em"
    and "distinct (map (\<lambda>x. pk_values el (fst x)) xs)"
    and "list_all (\<lambda>x. distinct (map (\<lambda>y. pk_values em (fst y)) (snd x))) xs"
  shows "consolidate_query_result_chain el em er (concat (map join_chain xs)) = Ret xs"
proof -
  let ?nest = "\<lambda>ms. map (\<lambda>m. (m, somes (rows_with (pk_values em) m ms)))
    (first_by (pk_values em) (map fst ms))"
  let ?out = "\<lambda>l ys. (l, ?nest (chain_pairs ys))"
  have "?out (fst x) (map snd (join_chain x)) = x" if "x \<in> set xs" for x
    using jpairs.grouped_back[where out = "\<lambda>l ys. (l, somes ys)", OF assms(4)[unfolded list_all_iff, rule_format, OF that]]
    by (simp add: chain_pairs_join join_pairs_def comp_def)
  from jchain.grouped_back[where out = ?out, OF assms(3) this]
  show ?thesis
    by (simp add: chain_grouped[OF assms(1,2)] Let_def no_orphan_join)
qed

theorem consolidate_chain_undoes_join_witness:
  "consolidate_query_result_chain cake cake_filling cake
      [((1, 7), Some (5, 5), Some (2, 2)), ((1, 7), Some (5, 5), Some (2, 3)),
       ((1, 7), Some (5, 6), None), ((2, 7), None, None)] =
    Ret [((1, 7), [((5, 5), [(2, 2), (2, 3)]), ((5, 6), [])]), ((2, 7), [])]"
  using consolidate_chain_undoes_join
    [of cake cake_filling "[((1, 7), [((5, 5), [(2, 2), (2, 3)]), ((5, 6), [])]), ((2, 7), [])]" cake]
  by (auto simp: example_entities join_chain_def side_def)

text \<open>The chain consolidation panics exactly when some row has an R and no M, and names both
  entities.\<close>

lemma consolidate_chain_panics_iff:
  assumes "arity_ok el" "arity_ok em"
  shows "consolidate_query_result_chain el em er rows =
      Panic (''Impossible to have R when M ('' @ entity_name em @ '') -> R ('' @ entity_name er @ '')'')
    \<longleftrightarrow> list_ex orphan_r rows"
  by (simp add: chain_grouped[OF assms])

lemma consolidate_chain_panics_iff_witness:
  "consolidate_query_result_chain cake cake cake
      [((1, 7), Some (5, 5), None), ((1, 7), None, Some (2, 3))] =
    Panic (''Impossible to have R when M ('' @ ''cake'' @ '') -> R ('' @ ''cake'' @ '')'')"
  using consolidate_chain_panics_iff
    [of cake cake cake "[((1, 7), Some (5, 5), None), ((1, 7), None, Some (2, 3))]"]
  by (simp add: example_entities orphan_r_def)

text \<open>C10. On the rows a join returns in order, the legacy algorithm kept for reference computes what
  the hash map algorithm computes.\<close>

theorem legacy_algorithm_agrees:
  assumes "arity_ok e" "distinct (map (\<lambda>x. pk_values e (fst x)) xs)"
  shows "consolidate_query_result e (concat (map join_pairs xs)) =
    Ret (consolidate_query_result_of_ordered_rows e (concat (map join_pairs xs)))"
  using assms(2)
    jpairs.grouped_back[where out = "\<lambda>l ys. (l, somes ys)" and key = "pk_values e", OF assms(2)]
  by (simp add: consolidate_grouped[OF assms(1)] consolidate_query_result_of_ordered_rows_def
      ordered_blocks[of e "[]"] join_pairs_def[of "_"] comp_def)

theorem legacy_algorithm_agrees_witness:
  "consolidate_query_result cake [((1, 7), Some True), ((1, 7), Some False), ((2, 8), None)] =
    Ret (consolidate_query_result_of_ordered_rows cake
      [((1, 7), Some True), ((1, 7), Some False), ((2, 8), None)])"
  using legacy_algorithm_agrees[of cake "[((1, 7), [True, False]), ((2, 8), [])]"]
  by (simp add: example_entities join_pairs_def side_def)

end
