(* ===== verification/RelationDef.thy ===== *)
theory RelationDef
  imports SeaPrelude
begin

text \<open>
  \<open>src/entity/identity.rs\<close> and \<open>src/entity/relation.rs\<close>: the key of a relation (one to many
  columns, iterated by index), relation definitions and their builder, the join condition and the
  foreign key a definition becomes, and the definitions' equality and hash. A table reference is
  the \<open>TableRef::Table\<close> form entities give; a condition is the tree the sea-query builder calls
  \<open>all\<close>, \<open>any\<close> and \<open>add\<close> build.
\<close>

section \<open>Identity\<close>

datatype identity =
    Unary string
  | Binary string string
  | Ternary string string string
  | Many "string list"

fun arity :: "identity \<Rightarrow> nat" where
  "arity (Unary _) = 1"
| "arity (Binary _ _) = 2"
| "arity (Ternary _ _ _) = 3"
| "arity (Many vec) = length vec"

fun vec_get :: "'a list \<Rightarrow> nat \<Rightarrow> 'a option" where
  "vec_get [] i = None"
| "vec_get (x # xs) 0 = Some x"
| "vec_get (x # xs) (Suc i) = vec_get xs i"

record identity_iter =
  ii_identity :: identity
  ii_index :: nat

definition identity_into_iter :: "identity \<Rightarrow> identity_iter" where
  "identity_into_iter i = \<lparr>ii_identity = i, ii_index = 0\<rparr>"

definition identity_next :: "identity_iter \<Rightarrow> string option \<times> identity_iter" where
  "identity_next it =
    (case ii_identity it of
       Unary a \<Rightarrow> if ii_index it = 0 then Some a else None
     | Binary a b \<Rightarrow> if ii_index it = 0 then Some a else if ii_index it = 1 then Some b else None
     | Ternary a b c \<Rightarrow>
         if ii_index it = 0 then Some a else if ii_index it = 1 then Some b
         else if ii_index it = 2 then Some c else None
     | Many vec \<Rightarrow> vec_get vec (ii_index it),
     it\<lparr>ii_index := ii_index it + 1\<rparr>)"

text \<open>\<open>BorrowedIdentityIter\<close>, the iterator of \<open>Identity::iter\<close>.\<close>

definition borrowed_next :: "identity_iter \<Rightarrow> string option \<times> identity_iter" where
  "borrowed_next it =
    (let result = (case ii_identity it of
         Unary a \<Rightarrow> if ii_index it = 0 then Some a else None
       | Binary a b \<Rightarrow> if ii_index it = 0 then Some a else if ii_index it = 1 then Some b else None
       | Ternary a b c \<Rightarrow>
           if ii_index it = 0 then Some a else if ii_index it = 1 then Some b
           else if ii_index it = 2 then Some c else None
       | Many vec \<Rightarrow> vec_get vec (ii_index it))
     in (result, it\<lparr>ii_index := ii_index it + 1\<rparr>))"

text \<open>A \<open>for\<close> loop over the iterator: \<open>next\<close> until \<open>None\<close>.\<close>

partial_function (option) identity_drain :: "identity_iter \<Rightarrow> string list option" where
  "identity_drain it =
    (case identity_next it of
       (None, _) \<Rightarrow> Some []
     | (Some c, it') \<Rightarrow> Option.bind (identity_drain it') (\<lambda>cs. Some (c # cs)))"

fun columns :: "identity \<Rightarrow> string list" where
  "columns (Unary a) = [a]"
| "columns (Binary a b) = [a, b]"
| "columns (Ternary a b c) = [a, b, c]"
| "columns (Many vec) = vec"

definition identity_contains :: "identity \<Rightarrow> string \<Rightarrow> bool" where
  "identity_contains i col = list_ex (\<lambda>c. c = col) (columns i)"

fun contains_each :: "identity \<Rightarrow> string list \<Rightarrow> bool" where
  "contains_each i [] = True"
| "contains_each i (col # cols) = (if \<not> identity_contains i col then False else contains_each i cols)"

definition fully_contains :: "identity \<Rightarrow> identity \<Rightarrow> bool" where
  "fully_contains i other = contains_each i (columns other)"

text \<open>\<open>IntoIdentity\<close> for a column, a pair, a triple, and tuples of four and more.\<close>

fun into_identity :: "string list \<Rightarrow> identity" where
  "into_identity [a] = Unary a"
| "into_identity [a, b] = Binary a b"
| "into_identity [a, b, c] = Ternary a b c"
| "into_identity cols = Many cols"

text \<open>The name an identity prints: its columns' names run together.\<close>

fun identity_quoted :: "identity \<Rightarrow> string" where
  "identity_quoted (Unary a) = a"
| "identity_quoted (Binary a b) = a @ b"
| "identity_quoted (Ternary a b c) = a @ b @ c"
| "identity_quoted (Many vec) = fold (\<lambda>iden s. s @ iden) vec []"

lemma vec_get_nth: "vec_get xs i = (if i < length xs then Some (xs ! i) else None)"
  by (induction xs i rule: vec_get.induct) auto

lemma identity_next_columns:
  "identity_next it = (vec_get (columns (ii_identity it)) (ii_index it), it\<lparr>ii_index := ii_index it + 1\<rparr>)"
  by (cases "ii_identity it") (auto simp: identity_next_def vec_get_nth nth_Cons split: nat.splits)

lemma identity_drain_from:
  "identity_drain \<lparr>ii_identity = i, ii_index = k\<rparr> = Some (drop k (columns i))"
proof (induction "length (columns i) - k" arbitrary: k)
  case 0
  then show ?case
    by (subst identity_drain.simps) (simp add: identity_next_columns vec_get_nth)
next
  case (Suc n)
  then have "k < length (columns i)" by simp
  moreover have "identity_drain \<lparr>ii_identity = i, ii_index = Suc k\<rparr> = Some (drop (Suc k) (columns i))"
    using Suc by simp
  ultimately show ?case
    by (subst identity_drain.simps) (simp add: identity_next_columns vec_get_nth Cons_nth_drop_Suc)
qed

lemma length_columns: "length (columns i) = arity i"
  by (cases i) auto

lemma columns_into_identity: "columns (into_identity cols) = cols"
  by (cases cols rule: into_identity.cases) auto

lemma contains_each_iff: "contains_each i cols \<longleftrightarrow> set cols \<subseteq> set (columns i)"
  by (induction cols) (auto simp: identity_contains_def list_ex_iff)

text \<open>Iterating a key yields its columns in declaration order, as many as its arity, and ends;
  the iterator, \<open>contains\<close> and \<open>fully_contains\<close> agree on them.\<close>

lemma identity_iterates_its_columns:
  "identity_drain (identity_into_iter i) = Some (columns i) \<and> borrowed_next it = identity_next it \<and> length (columns i) = arity i \<and>
   columns (into_identity cols) = cols \<and>
   (fully_contains i other \<longleftrightarrow> set (columns other) \<subseteq> set (columns i))"
  by (simp add: identity_into_iter_def identity_drain_from length_columns columns_into_identity
      fully_contains_def contains_each_iff borrowed_next_def identity_next_def)

section \<open>Relation definitions\<close>

datatype relation_type = HasOne | HasMany

datatype fk_action = Restrict | Cascade | SetNull | NoAction | SetDefault

datatype table_name = TableName "string option" string

datatype table_ref = TableRef table_name "string option"

fun sea_orm_table :: "table_ref \<Rightarrow> string" where
  "sea_orm_table (TableRef (TableName s t) a) = t"

fun sea_orm_table_alias :: "table_ref \<Rightarrow> string option" where
  "sea_orm_table_alias (TableRef n a) = a"

fun table_ref_alias :: "table_ref \<Rightarrow> string \<Rightarrow> table_ref" where
  "table_ref_alias (TableRef n _) a = TableRef n (Some a)"

datatype condition_type = AllType | AnyType

datatype 'u cond =
    CondAll "'u cond list"
  | CondAny "'u cond list"
  | ColsEqual "string \<times> string" "string \<times> string"
  | UserCond 'u

fun cond_add :: "'u cond \<Rightarrow> 'u cond \<Rightarrow> 'u cond" where
  "cond_add (CondAll cs) c = CondAll (cs @ [c])"
| "cond_add (CondAny cs) c = CondAny (cs @ [c])"
| "cond_add d c = d"

record 'u relation_def =
  rel_type :: relation_type
  from_tbl :: table_ref
  to_tbl :: table_ref
  from_col :: identity
  to_col :: identity
  is_owner :: bool
  skip_fk :: bool
  on_delete :: "fk_action option"
  on_update :: "fk_action option"
  on_condition :: "(string \<Rightarrow> string \<Rightarrow> 'u cond) option"
  fk_name :: "string option"
  condition_type :: condition_type

definition relation_rev :: "'u relation_def \<Rightarrow> 'u relation_def" where
  "relation_rev r =
    \<lparr>rel_type = rel_type r, from_tbl = to_tbl r, to_tbl = from_tbl r, from_col = to_col r,
     to_col = from_col r, is_owner = (\<not> is_owner r), skip_fk = skip_fk r,
     on_delete = on_delete r, on_update = on_update r, on_condition = on_condition r,
     fk_name = None, condition_type = condition_type r\<rparr>"

definition relation_from_alias :: "string \<Rightarrow> 'u relation_def \<Rightarrow> 'u relation_def" where
  "relation_from_alias a r = r\<lparr>from_tbl := table_ref_alias (from_tbl r) a\<rparr>"

definition relation_on_condition ::
  "(string \<Rightarrow> string \<Rightarrow> 'u cond) \<Rightarrow> 'u relation_def \<Rightarrow> 'u relation_def" where
  "relation_on_condition f r = r\<lparr>on_condition := Some f\<rparr>"

definition relation_condition_type :: "condition_type \<Rightarrow> 'u relation_def \<Rightarrow> 'u relation_def" where
  "relation_condition_type t r = r\<lparr>condition_type := t\<rparr>"

definition join_tbl_on_condition :: "string \<Rightarrow> string \<Rightarrow> identity \<Rightarrow> identity \<Rightarrow> 'u cond" where
  "join_tbl_on_condition from to owner_keys foreign_keys =
    fold (\<lambda>(o_key, f_key) c. cond_add c (ColsEqual (from, o_key) (to, f_key)))
      (zip (columns owner_keys) (columns foreign_keys)) (CondAll [])"

definition relation_condition :: "'u relation_def \<Rightarrow> 'u cond" where
  "relation_condition rel =
    (let from = (case sea_orm_table_alias (from_tbl rel) of Some a \<Rightarrow> a | None \<Rightarrow> sea_orm_table (from_tbl rel));
         to = (case sea_orm_table_alias (to_tbl rel) of Some a \<Rightarrow> a | None \<Rightarrow> sea_orm_table (to_tbl rel));
         c0 = (case condition_type rel of AllType \<Rightarrow> CondAll [] | AnyType \<Rightarrow> CondAny []);
         c1 = cond_add c0 (join_tbl_on_condition from to (from_col rel) (to_col rel))
     in case on_condition rel of
          Some f \<Rightarrow> cond_add c1 (f from to)
        | None \<Rightarrow> c1)"

subsection \<open>The builder\<close>

record 'u relation_builder =
  b_rel_type :: relation_type
  b_from_tbl :: table_ref
  b_to_tbl :: table_ref
  b_from_col :: "identity option"
  b_to_col :: "identity option"
  b_is_owner :: bool
  b_skip_fk :: bool
  b_on_delete :: "fk_action option"
  b_on_update :: "fk_action option"
  b_on_condition :: "(string \<Rightarrow> string \<Rightarrow> 'u cond) option"
  b_fk_name :: "string option"
  b_condition_type :: condition_type

definition builder_new :: "relation_type \<Rightarrow> table_ref \<Rightarrow> table_ref \<Rightarrow> bool \<Rightarrow> 'u relation_builder" where
  "builder_new rt from to owner =
    \<lparr>b_rel_type = rt, b_from_tbl = from, b_to_tbl = to, b_from_col = None, b_to_col = None,
     b_is_owner = owner, b_skip_fk = False, b_on_delete = None, b_on_update = None,
     b_on_condition = None, b_fk_name = None, b_condition_type = AllType\<rparr>"

definition builder_from_rel :: "relation_type \<Rightarrow> 'u relation_def \<Rightarrow> bool \<Rightarrow> 'u relation_builder" where
  "builder_from_rel rt rel owner =
    \<lparr>b_rel_type = rt, b_from_tbl = from_tbl rel, b_to_tbl = to_tbl rel,
     b_from_col = Some (from_col rel), b_to_col = Some (to_col rel),
     b_is_owner = owner, b_skip_fk = False, b_on_delete = None, b_on_update = None,
     b_on_condition = None, b_fk_name = None, b_condition_type = AllType\<rparr>"

definition builder_from :: "identity \<Rightarrow> 'u relation_builder \<Rightarrow> 'u relation_builder" where
  "builder_from i b = b\<lparr>b_from_col := Some i\<rparr>"

definition builder_to :: "identity \<Rightarrow> 'u relation_builder \<Rightarrow> 'u relation_builder" where
  "builder_to i b = b\<lparr>b_to_col := Some i\<rparr>"

definition builder_skip_fk :: "'u relation_builder \<Rightarrow> 'u relation_builder" where
  "builder_skip_fk b = b\<lparr>b_skip_fk := True\<rparr>"

definition builder_on_delete :: "fk_action \<Rightarrow> 'u relation_builder \<Rightarrow> 'u relation_builder" where
  "builder_on_delete action b = b\<lparr>b_on_delete := Some action\<rparr>"

definition builder_on_update :: "fk_action \<Rightarrow> 'u relation_builder \<Rightarrow> 'u relation_builder" where
  "builder_on_update action b = b\<lparr>b_on_update := Some action\<rparr>"

definition builder_on_condition ::
  "(string \<Rightarrow> string \<Rightarrow> 'u cond) \<Rightarrow> 'u relation_builder \<Rightarrow> 'u relation_builder" where
  "builder_on_condition f b = b\<lparr>b_on_condition := Some f\<rparr>"

definition builder_fk_name :: "string \<Rightarrow> 'u relation_builder \<Rightarrow> 'u relation_builder" where
  "builder_fk_name n b = b\<lparr>b_fk_name := Some n\<rparr>"

definition builder_condition_type :: "condition_type \<Rightarrow> 'u relation_builder \<Rightarrow> 'u relation_builder" where
  "builder_condition_type t b = b\<lparr>b_condition_type := t\<rparr>"

definition builder_build :: "'u relation_builder \<Rightarrow> 'u relation_def run" where
  "builder_build b =
    run_bind (expect (b_from_col b) ''Reference column is not set'') (\<lambda>from.
    run_bind (expect (b_to_col b) ''Owner column is not set'') (\<lambda>to.
      Ret \<lparr>rel_type = b_rel_type b, from_tbl = b_from_tbl b, to_tbl = b_to_tbl b, from_col = from,
        to_col = to, is_owner = b_is_owner b, skip_fk = b_skip_fk b, on_delete = b_on_delete b,
        on_update = b_on_update b, on_condition = b_on_condition b, fk_name = b_fk_name b,
        condition_type = b_condition_type b\<rparr>))"

subsection \<open>The foreign key\<close>

record foreign_key =
  fk_key_name :: "string option"
  fk_from_tbl :: "table_ref option"
  fk_ref_tbl :: "table_ref option"
  fk_columns :: "string list"
  fk_ref_columns :: "string list"
  fk_on_delete :: "fk_action option"
  fk_on_update :: "fk_action option"

definition foreign_key_of :: "'u relation_def \<Rightarrow> foreign_key" where
  "foreign_key_of rel =
    (let from_cols = columns (from_col rel);
         name = (case fk_name rel of
             Some n \<Rightarrow> n
           | None \<Rightarrow> ''fk-'' @ sea_orm_table (from_tbl rel) @ ''-'' @ join ''-'' from_cols)
     in \<lparr>fk_key_name = Some name, fk_from_tbl = Some (from_tbl rel), fk_ref_tbl = Some (to_tbl rel),
         fk_columns = from_cols, fk_ref_columns = columns (to_col rel),
         fk_on_delete = on_delete rel, fk_on_update = on_update rel\<rparr>)"

text \<open>\<open>TableForeignKey\<close> takes the bare table names.\<close>

definition table_foreign_key_of :: "'u relation_def \<Rightarrow> foreign_key" where
  "table_foreign_key_of rel =
    (foreign_key_of rel)
      \<lparr>fk_from_tbl := Some (TableRef (TableName None (sea_orm_table (from_tbl rel))) None),
       fk_ref_tbl := Some (TableRef (TableName None (sea_orm_table (to_tbl rel))) None)\<rparr>"

subsection \<open>Equality and hash\<close>

definition relation_eq :: "'u relation_def \<Rightarrow> 'u relation_def \<Rightarrow> bool" where
  "relation_eq a b \<longleftrightarrow> rel_type a = rel_type b \<and> from_tbl a = from_tbl b \<and> to_tbl a = to_tbl b \<and>
    columns (from_col a) = columns (from_col b) \<and> columns (to_col a) = columns (to_col b) \<and>
    is_owner a = is_owner b"

text \<open>What is fed to the hasher, in order; \<open>Identity\<close> derives \<open>Hash\<close>, which feeds the variant.\<close>

datatype hash_token = HashType relation_type | HashIden string | HashIdentity identity | HashBool bool

definition relation_hash :: "'u relation_def \<Rightarrow> hash_token list" where
  "relation_hash r =
    [HashType (rel_type r), HashIden (sea_orm_table (from_tbl r)), HashIden (sea_orm_table (to_tbl r)),
     HashIdentity (from_col r), HashIdentity (to_col r), HashBool (is_owner r)]"

section \<open>Properties\<close>

text \<open>What a condition says of a joined row.\<close>

fun eval_cond :: "('u \<Rightarrow> (string \<times> string \<Rightarrow> 'v) \<Rightarrow> bool) \<Rightarrow> (string \<times> string \<Rightarrow> 'v) \<Rightarrow> 'u cond \<Rightarrow> bool" where
  "eval_cond u row (CondAll cs) = list_all (eval_cond u row) cs"
| "eval_cond u row (CondAny cs) = list_ex (eval_cond u row) cs"
| "eval_cond u row (ColsEqual a b) = (row a = row b)"
| "eval_cond u row (UserCond c) = u c row"

definition ref_name :: "table_ref \<Rightarrow> string" where
  "ref_name t = (case sea_orm_table_alias t of Some a \<Rightarrow> a | None \<Rightarrow> sea_orm_table t)"

lemma fold_cond_add: "fold (\<lambda>(k, f) c. cond_add c (g k f)) xs (CondAll cs) = CondAll (cs @ map (\<lambda>(k, f). g k f) xs)"
  by (induction xs arbitrary: cs) auto

lemma join_cond_all:
  "join_tbl_on_condition from to ks fs =
    CondAll (map (\<lambda>(k, f). ColsEqual (from, k) (to, f)) (zip (columns ks) (columns fs)))"
  by (simp add: join_tbl_on_condition_def fold_cond_add)

text \<open>The join condition of a relation holds of a row exactly when the key columns agree
  pairwise, under the alias each table has, and the extra condition holds (or either, for a
  condition of type \<open>Any\<close>). Surplus columns of the longer key are ignored.\<close>

theorem join_condition_meaning:
  "eval_cond u row (relation_condition rel) =
    (let from = ref_name (from_tbl rel); to = ref_name (to_tbl rel);
         keys = list_all (\<lambda>(a, b). row (from, a) = row (to, b))
           (zip (columns (from_col rel)) (columns (to_col rel)))
     in case on_condition rel of
          None \<Rightarrow> keys
        | Some f \<Rightarrow> (if condition_type rel = AllType then keys \<and> eval_cond u row (f from to)
            else keys \<or> eval_cond u row (f from to)))"
  by (cases "condition_type rel")
    (auto simp: relation_condition_def join_cond_all ref_name_def list_all_iff Let_def
      split: option.splits)

text \<open>\<open>RelationDef\<close>'s equality compares the key columns, its hash the \<open>Identity\<close> values. They
  agree on keys made by \<open>into_identity\<close>; a one-column \<open>Many\<close> key breaks the contract of
  \<open>Hash\<close> and \<open>Eq\<close>.\<close>

theorem relation_hash_follows_eq:
  assumes "relation_eq a b"
    and "from_col a = into_identity (columns (from_col a))" "to_col a = into_identity (columns (to_col a))"
    and "from_col b = into_identity (columns (from_col b))" "to_col b = into_identity (columns (to_col b))"
  shows "relation_hash a = relation_hash b"
proof -
  have "from_col a = from_col b" "to_col a = to_col b"
    using assms unfolding relation_eq_def by metis+
  with assms(1) show ?thesis by (simp add: relation_eq_def relation_hash_def)
qed

definition fruit_cake :: "identity \<Rightarrow> unit relation_def" where
  "fruit_cake key = \<lparr>rel_type = HasMany, from_tbl = TableRef (TableName None ''fruit'') None,
     to_tbl = TableRef (TableName None ''cake'') None, from_col = key, to_col = Unary ''id'',
     is_owner = False, skip_fk = False, on_delete = None, on_update = None, on_condition = None,
     fk_name = None, condition_type = AllType\<rparr>"

theorem relation_hash_follows_eq_witness:
  "relation_hash (fruit_cake (Unary ''cake_id'')) = relation_hash ((fruit_cake (Unary ''cake_id''))\<lparr>skip_fk := True\<rparr>)"
  by (rule relation_hash_follows_eq) (simp_all add: fruit_cake_def relation_eq_def)

text \<open>Two equal relation definitions with different hashes: a key given as \<open>Many\<close> with one
  column equals the \<open>Unary\<close> key of that column.\<close>

lemma relation_hash_breaks_contract:
  "relation_eq (fruit_cake (Unary ''cake_id'')) (fruit_cake (Many [''cake_id''])) \<and>
   relation_hash (fruit_cake (Unary ''cake_id'')) \<noteq> relation_hash (fruit_cake (Many [''cake_id'']))"
  by (simp add: fruit_cake_def relation_eq_def relation_hash_def)

text \<open>Reversing a definition twice gives it back, without its foreign key name.\<close>

lemma relation_rev_rev: "relation_rev (relation_rev r) = r\<lparr>fk_name := None\<rparr>"
  by (simp add: relation_rev_def)

end
