(* ===== verification/SchemaEntity.thy ===== *)
theory SchemaEntity
  imports RelationDef DbIo "HOL-Library.List_Lexorder" "HOL-Library.Char_ord"
begin

text \<open>
  \<open>src/schema/entity.rs\<close>: the statements generated from an entity's definition (columns, primary
  key, relations): the \<open>CREATE TABLE\<close>, its indexes and its Postgres enums. A sea-query statement
  is a record of what the builder calls put into it.
\<close>

section \<open>Entities and statements\<close>

datatype col_type = EnumType string "string list" | CustomType string | ArrayType col_type | PlainType string

record orm_column =
  oc_name :: string
  oc_type :: col_type
  oc_null :: bool
  oc_unique :: bool
  oc_indexed :: bool
  oc_unique_key :: "string option"
  oc_default :: "string option"
  oc_comment :: "string option"
  oc_extra :: "string option"
  oc_renamed_from :: "string option"

record schema_entity =
  se_name :: string
  se_table :: table_ref
  se_comment :: "string option"
  se_columns :: "orm_column list"
  se_primary_key :: "string list"
  se_pk_arity :: nat
  se_auto_increment :: bool
  se_relations :: "unit relation_def list"
  se_schema_name :: "string option"

record column_def =
  cd_name :: string
  cd_type :: col_type
  cd_not_null :: bool
  cd_unique :: bool
  cd_default :: "string option"
  cd_comment :: "string option"
  cd_extra :: "string option"
  cd_auto_increment :: bool
  cd_primary_key :: bool

record index_def =
  idx_name :: "string option"
  idx_table :: "table_ref option"
  idx_cols :: "string list"
  idx_unique :: bool
  idx_primary :: bool
  idx_if_not_exists :: bool

record table_def =
  td_table :: "table_ref option"
  td_comment :: "string option"
  td_columns :: "column_def list"
  td_indexes :: "index_def list"
  td_foreign_keys :: "foreign_key list"

type_synonym enum_def = "string \<times> string list"

definition index_new :: "string option \<Rightarrow> table_ref option \<Rightarrow> index_def" where
  "index_new name tbl = \<lparr>idx_name = name, idx_table = tbl, idx_cols = [], idx_unique = False,
    idx_primary = False, idx_if_not_exists = False\<rparr>"

section \<open>Enums\<close>

fun create_enum_from_column_type :: "col_type \<Rightarrow> enum_def option" where
  "create_enum_from_column_type (EnumType name variants) = Some (name, variants)"
| "create_enum_from_column_type _ = None"

definition create_enum_from_active_enum :: "col_type \<Rightarrow> db_backend \<Rightarrow> enum_def option" where
  "create_enum_from_active_enum db_type backend =
    (if backend = MySql \<or> backend = Sqlite then None else create_enum_from_column_type db_type)"

fun is_enum_type :: "col_type \<Rightarrow> bool" where
  "is_enum_type (EnumType name variants) = True"
| "is_enum_type _ = False"

definition create_enum_from_entity :: "schema_entity \<Rightarrow> db_backend \<Rightarrow> enum_def list" where
  "create_enum_from_entity e backend =
    (if backend = MySql \<or> backend = Sqlite then []
     else fold (\<lambda>col vec.
       if \<not> is_enum_type (oc_type col) then vec
       else case create_enum_from_column_type (oc_type col) of
              Some stmt \<Rightarrow> vec @ [stmt]
            | None \<Rightarrow> vec) (se_columns e) [])"

section \<open>Indexes\<close>

fun index_table_ref :: "table_ref \<Rightarrow> db_backend \<Rightarrow> table_ref" where
  "index_table_ref t Postgres = t"
| "index_table_ref (TableRef (TableName (Some s) t) a) b = TableRef (TableName None t) a"
| "index_table_ref t b = t"

text \<open>\<open>BTreeMap::entry(k).or_default().push(v)\<close>: the entries are in key order.\<close>

fun btree_push :: "'k :: linorder \<Rightarrow> 'v \<Rightarrow> ('k \<times> 'v list) list \<Rightarrow> ('k \<times> 'v list) list" where
  "btree_push k v [] = [(k, [v])]"
| "btree_push k v ((k', vs) # m) =
    (if k < k' then (k, [v]) # (k', vs) # m
     else if k = k' then (k', vs @ [v]) # m
     else (k', vs) # btree_push k v m)"

definition plain_index :: "schema_entity \<Rightarrow> db_backend \<Rightarrow> orm_column \<Rightarrow> index_def" where
  "plain_index e backend col =
    (index_new (Some (''idx-'' @ se_name e @ ''-'' @ oc_name col))
       (Some (index_table_ref (se_table e) backend)))\<lparr>idx_cols := [oc_name col]\<rparr>"

definition unique_index :: "schema_entity \<Rightarrow> db_backend \<Rightarrow> string \<times> string list \<Rightarrow> index_def" where
  "unique_index e backend kc =
    fold (\<lambda>col stmt. stmt\<lparr>idx_cols := idx_cols stmt @ [col]\<rparr>) (snd kc)
      ((index_new (Some (''idx-'' @ se_name e @ ''-'' @ fst kc))
         (Some (index_table_ref (se_table e) backend)))\<lparr>idx_unique := True\<rparr>)"

definition index_step ::
  "schema_entity \<Rightarrow> db_backend \<Rightarrow> orm_column \<Rightarrow> index_def list \<times> (string \<times> string list) list \<Rightarrow>
    index_def list \<times> (string \<times> string list) list" where
  "index_step e backend col acc =
    (let indexes = (if oc_indexed col \<and> \<not> oc_unique col
           then fst acc @ [plain_index e backend col] else fst acc);
         unique_keys = (case oc_unique_key col of
             Some key \<Rightarrow> btree_push key (oc_name col) (snd acc)
           | None \<Rightarrow> snd acc)
     in (indexes, unique_keys))"

definition create_index_from_entity :: "schema_entity \<Rightarrow> db_backend \<Rightarrow> index_def list" where
  "create_index_from_entity e backend =
    (let (indexes, unique_keys) = fold (index_step e backend) (se_columns e) ([], [])
     in fold (\<lambda>kc acc. acc @ [unique_index e backend kc]) unique_keys indexes)"

section \<open>The table\<close>

definition enum_column_type :: "col_type \<Rightarrow> db_backend \<Rightarrow> col_type" where
  "enum_column_type t backend =
    (case t of
       EnumType name variants \<Rightarrow>
         (case backend of
            MySql \<Rightarrow> CustomType (''ENUM('' @ [CHR 0x27] @ join [CHR 0x27, CHR '','', CHR '' '', CHR 0x27] variants @ [CHR 0x27] @ '')'')
          | Postgres \<Rightarrow> CustomType name
          | Sqlite \<Rightarrow> t)
     | _ \<Rightarrow> t)"

definition quote_char :: string where
  "quote_char = [CHR 0x22]"

text \<open>The column's comment carries the old name of a renamed column.\<close>

fun column_comment :: "string option \<Rightarrow> string option \<Rightarrow> string option" where
  "column_comment (Some renamed_from) (Some comment) =
    Some (comment @ ''; renamed_from '' @ quote_char @ renamed_from @ quote_char)"
| "column_comment (Some renamed_from) None =
    Some (''renamed_from '' @ quote_char @ renamed_from @ quote_char)"
| "column_comment None comment = comment"

definition column_def_from_entity_column ::
  "schema_entity \<Rightarrow> orm_column \<Rightarrow> db_backend \<Rightarrow> column_def" where
  "column_def_from_entity_column e col backend =
    fold (\<lambda>pk c.
        if oc_name col = pk
        then (let c' = (if se_auto_increment e then c\<lparr>cd_auto_increment := True\<rparr> else c)
              in if se_pk_arity e = 1 then c'\<lparr>cd_primary_key := True\<rparr> else c')
        else c)
      (se_primary_key e)
      \<lparr>cd_name = oc_name col, cd_type = enum_column_type (oc_type col) backend,
       cd_not_null = (\<not> oc_null col), cd_unique = oc_unique col, cd_default = oc_default col,
       cd_comment = column_comment (oc_renamed_from col) (oc_comment col),
       cd_extra = oc_extra col, cd_auto_increment = False, cd_primary_key = False\<rparr>"

definition create_table_from_entity :: "schema_entity \<Rightarrow> db_backend \<Rightarrow> table_def" where
  "create_table_from_entity e backend =
    (let stmt = \<lparr>td_table = None, td_comment = se_comment e,
           td_columns = map (\<lambda>c. column_def_from_entity_column e c backend) (se_columns e),
           td_indexes = [], td_foreign_keys = []\<rparr>;
         stmt = (if se_pk_arity e > 1
           then stmt\<lparr>td_indexes := [(fold (\<lambda>pk i. i\<lparr>idx_cols := idx_cols i @ [pk]\<rparr>) (se_primary_key e)
               (index_new None None))\<lparr>idx_name := Some (''pk-'' @ se_name e), idx_primary := True\<rparr>]\<rparr>
           else stmt);
         stmt = fold (\<lambda>rel s.
             if is_owner rel \<or> skip_fk rel then s
             else s\<lparr>td_foreign_keys := td_foreign_keys s @ [foreign_key_of rel]\<rparr>)
           (se_relations e) stmt
     in stmt\<lparr>td_table := Some (se_table e)\<rparr>)"

definition create_table_with_index_from_entity :: "schema_entity \<Rightarrow> db_backend \<Rightarrow> table_def" where
  "create_table_with_index_from_entity e backend =
    fold (\<lambda>i t. t\<lparr>td_indexes := td_indexes t @ [i]\<rparr>) (create_index_from_entity e backend)
      (create_table_from_entity e backend)"

section \<open>Properties\<close>

lemma btree_push_keys: "set (map fst (btree_push k v m)) = insert k (set (map fst m))"
  by (induction k v m rule: btree_push.induct) auto

lemma btree_push_sorted:
  "sorted_wrt (<) (map fst m) \<Longrightarrow> sorted_wrt (<) (map fst (btree_push k v m))"
proof (induction k v m rule: btree_push.induct)
  case (2 k v k' vs m)
  then show ?case using btree_push_keys[of k v m] by auto
qed simp

lemma btree_push_get:
  "sorted_wrt (<) (map fst m) \<Longrightarrow> map_of (btree_push k v m) j =
    (if j = k then Some ((case map_of m k of None \<Rightarrow> [] | Some vs \<Rightarrow> vs) @ [v]) else map_of m j)"
proof (induction k v m rule: btree_push.induct)
  case (2 k v k' vs m)
  have "map_of m k = None" if "k < k'"
    using that 2(2) by (auto simp: map_of_eq_None_iff)
  with 2 show ?case by auto
qed simp

definition key_columns :: "string \<Rightarrow> orm_column list \<Rightarrow> string list" where
  "key_columns key cols = map oc_name (filter (\<lambda>c. oc_unique_key c = Some key) cols)"

lemma index_fold:
  assumes "sorted_wrt (<) (map fst uk)"
  shows "fst (fold (index_step e b) cols (is, uk)) =
      is @ map (plain_index e b) (filter (\<lambda>c. oc_indexed c \<and> \<not> oc_unique c) cols)"
    and "sorted_wrt (<) (map fst (snd (fold (index_step e b) cols (is, uk))))"
    and "map_of (snd (fold (index_step e b) cols (is, uk))) key =
      (if key_columns key cols = [] then map_of uk key
       else Some ((case map_of uk key of None \<Rightarrow> [] | Some vs \<Rightarrow> vs) @ key_columns key cols))"
  using assms
proof (induction cols arbitrary: "is" uk)
  case (Cons col cols)
  {
    case 1
    then show ?case using Cons(1) by (auto simp: index_step_def btree_push_sorted split: option.splits)
  next
    case 2
    then show ?case using Cons(2) by (auto simp: index_step_def btree_push_sorted split: option.splits)
  next
    case 3
    then show ?case using Cons(3)
      by (auto simp: index_step_def btree_push_sorted btree_push_get key_columns_def split: option.splits)
  }
qed (auto simp: key_columns_def)

lemma unique_index_eq:
  "unique_index e b (key, cols) =
    \<lparr>idx_name = Some (''idx-'' @ se_name e @ ''-'' @ key),
     idx_table = Some (index_table_ref (se_table e) b), idx_cols = cols, idx_unique = True,
     idx_primary = False, idx_if_not_exists = False\<rparr>"
proof -
  have "fold (\<lambda>col stmt. stmt\<lparr>idx_cols := idx_cols stmt @ [col]\<rparr>) cols i = i\<lparr>idx_cols := idx_cols i @ cols\<rparr>"
    for i :: index_def by (induction cols arbitrary: i) auto
  then show ?thesis by (simp add: unique_index_def index_new_def)
qed

lemma create_index_eq:
  "create_index_from_entity e b =
    map (plain_index e b) (filter (\<lambda>c. oc_indexed c \<and> \<not> oc_unique c) (se_columns e)) @
    map (unique_index e b) (snd (fold (index_step e b) (se_columns e) ([], [])))"
proof -
  have "fold (\<lambda>kc acc. acc @ [g kc]) xs ys = ys @ map g xs" for g :: "'a \<Rightarrow> 'b" and xs ys
    by (induction xs arbitrary: ys) auto
  then show ?thesis
    using index_fold(1)[of "[]" e b "se_columns e" "[]"]
    by (simp add: create_index_from_entity_def case_prod_beta)
qed

text \<open>The indexes generated from an entity: one per indexed column without a unique constraint
  of its own, then one unique index per unique key, over the key's columns in declaration order,
  the keys in alphabetical order.\<close>

lemma entity_indexes:
  "\<exists>keys. sorted_wrt (<) keys \<and> set keys = {k. \<exists>c\<in>set (se_columns e). oc_unique_key c = Some k} \<and>
    create_index_from_entity e b =
      map (plain_index e b) (filter (\<lambda>c. oc_indexed c \<and> \<not> oc_unique c) (se_columns e)) @
      map (\<lambda>k. \<lparr>idx_name = Some (''idx-'' @ se_name e @ ''-'' @ k),
        idx_table = Some (index_table_ref (se_table e) b), idx_cols = key_columns k (se_columns e),
        idx_unique = True, idx_primary = False, idx_if_not_exists = False\<rparr>) keys"
proof -
  let ?m = "snd (fold (index_step e b) (se_columns e) ([], []))"
  have get: "map_of ?m k = (if key_columns k (se_columns e) = [] then None
      else Some (key_columns k (se_columns e)))" for k
    using index_fold(3)[of "[]" e b "se_columns e" "[]" k] by simp
  have sorted: "sorted_wrt (<) (map fst ?m)"
    using index_fold(2)[of "[]" e b "se_columns e" "[]"] by simp
  then have dist: "distinct (map fst ?m)" by (simp add: strict_sorted_iff)
  have cols: "cs = key_columns k (se_columns e)" if "(k, cs) \<in> set ?m" for k cs
    using that get[of k] map_of_is_SomeI[OF dist that] by (auto split: if_splits)
  have "set (map fst ?m) = {k. map_of ?m k \<noteq> None}"
    by (auto simp: map_of_eq_None_iff)
  then have keys: "set (map fst ?m) = {k. \<exists>c\<in>set (se_columns e). oc_unique_key c = Some k}"
    by (auto simp: get key_columns_def filter_empty_conv)
  have "map (unique_index e b) ?m = map (\<lambda>k. unique_index e b (k, key_columns k (se_columns e))) (map fst ?m)"
    using cols by (auto simp: comp_def)
  then show ?thesis
    by (intro exI[of _ "map fst ?m"] conjI sorted keys) (simp add: create_index_eq unique_index_eq)
qed

end
