(* ===== verification/Topology.thy ===== *)
theory Topology
  imports SeaPrelude
begin

text \<open>
  \<open>src/schema/topology.rs\<close>, the topological sort that orders tables by their foreign keys. The
  state is the hash map from an element to its dependency record; the abstraction is a directed
  graph (\<open>nodes\<close>, \<open>edges\<close>). \<open>topo_inv\<close> says that the counters count the predecessors; every
  operation keeps it, so the subtraction in \<open>remove\<close> never underflows. The hash map may iterate in
  another order before each operation: the step relation \<open>pops\<close> reorders it freely.
\<close>

section \<open>The code\<close>

record 'a dependency =
  num_prec :: nat
  succ :: "'a list"

type_synonym 'a topological_sort = "('a, 'a dependency) hashmap"

definition dependency_new :: "'a dependency" where
  "dependency_new = \<lparr>num_prec = 0, succ = []\<rparr>"

definition topo_new :: "'a topological_sort" where
  "topo_new = []"

definition topo_len :: "'a topological_sort \<Rightarrow> nat" where
  "topo_len t = length t"

definition topo_is_empty :: "'a topological_sort \<Rightarrow> bool" where
  "topo_is_empty t = (t = [])"

definition bump_succ :: "'a \<Rightarrow> 'a topological_sort \<Rightarrow> 'a topological_sort" where
  "bump_succ s t =
    (case hm_get t s of
       None \<Rightarrow> hm_insert s (dependency_new\<lparr>num_prec := num_prec (dependency_new :: 'a dependency) + 1\<rparr>) t
     | Some e \<Rightarrow> hm_insert s (e\<lparr>num_prec := num_prec e + 1\<rparr>) t)"

definition add_dependency_impl :: "'a \<Rightarrow> 'a \<Rightarrow> 'a topological_sort \<Rightarrow> 'a topological_sort" where
  "add_dependency_impl p s t =
    (case hm_get t p of
       None \<Rightarrow> bump_succ s (hm_insert p (dependency_new\<lparr>succ := [s]\<rparr>) t)
     | Some e \<Rightarrow>
         (if s \<in> set (succ e) then t
          else bump_succ s (hm_insert p (e\<lparr>succ := succ e @ [s]\<rparr>) t)))"

record 'a dependency_link =
  link_prec :: 'a
  link_succ :: 'a

definition link_of_tuple :: "'a \<times> 'a \<Rightarrow> 'a dependency_link" where
  "link_of_tuple x = \<lparr>link_prec = snd x, link_succ = fst x\<rparr>"

definition add_link :: "'a dependency_link \<Rightarrow> 'a topological_sort \<Rightarrow> 'a topological_sort" where
  "add_link l t = add_dependency_impl (link_prec l) (link_succ l) t"

definition topo_insert :: "'a \<Rightarrow> 'a topological_sort \<Rightarrow> bool \<times> 'a topological_sort" where
  "topo_insert k t =
    (case hm_get t k of
       None \<Rightarrow> (True, hm_insert k dependency_new t)
     | Some _ \<Rightarrow> (False, t))"

text \<open>\<open>y.num_prec -= 1\<close> on \<open>usize\<close> panics below zero.\<close>

fun dec_succs :: "'a list \<Rightarrow> 'a topological_sort \<Rightarrow> 'a topological_sort run" where
  "dec_succs [] t = Ret t"
| "dec_succs (s # ss) t =
    (case hm_get t s of
       None \<Rightarrow> dec_succs ss t
     | Some y \<Rightarrow>
         (if num_prec y = 0 then Panic ''attempt to subtract with overflow''
          else dec_succs ss (hm_insert s (y\<lparr>num_prec := num_prec y - 1\<rparr>) t)))"

definition topo_remove ::
  "'a \<Rightarrow> 'a topological_sort \<Rightarrow> ('a dependency option \<times> 'a topological_sort) run" where
  "topo_remove k t =
    (case hm_get t k of
       None \<Rightarrow> Ret (None, hm_remove k t)
     | Some p \<Rightarrow>
         run_bind (dec_succs (succ p) (hm_remove k t)) (\<lambda>t'. Ret (Some p, t')))"

definition peek_all :: "'a topological_sort \<Rightarrow> 'a list" where
  "peek_all t = map fst (filter (\<lambda>kv. num_prec (snd kv) = 0) t)"

definition peek :: "'a topological_sort \<Rightarrow> 'a option" where
  "peek t = map_option fst (find (\<lambda>kv. num_prec (snd kv) = 0) t)"

definition pop :: "'a topological_sort \<Rightarrow> ('a option \<times> 'a topological_sort) run" where
  "pop t =
    (case peek t of
       None \<Rightarrow> Ret (None, t)
     | Some k \<Rightarrow> run_bind (topo_remove k t) (\<lambda>r. Ret (Some k, snd r)))"

fun remove_keys :: "'a list \<Rightarrow> 'a topological_sort \<Rightarrow> 'a topological_sort run" where
  "remove_keys [] t = Ret t"
| "remove_keys (k # ks) t = run_bind (topo_remove k t) (\<lambda>r. remove_keys ks (snd r))"

definition pop_all :: "'a topological_sort \<Rightarrow> ('a list \<times> 'a topological_sort) run" where
  "pop_all t =
    (let keys = map fst (filter (\<lambda>kv. num_prec (snd kv) = 0) t) in
     run_bind (remove_keys keys t) (\<lambda>t'. Ret (keys, t')))"

datatype rust_ordering = Less | Equal | Greater

text \<open>\<open>FromIterator\<close> compares each item with the items seen before; \<open>cmp\<close> is \<open>partial_cmp\<close>.\<close>

definition compare_seen ::
  "('a \<Rightarrow> 'a \<Rightarrow> rust_ordering option) \<Rightarrow> 'a \<Rightarrow> 'a \<Rightarrow> 'a topological_sort \<Rightarrow> 'a topological_sort" where
  "compare_seen cmp item seen_item t =
    (case cmp seen_item item of
       Some Less \<Rightarrow> add_dependency_impl seen_item item t
     | Some Greater \<Rightarrow> add_dependency_impl item seen_item t
     | _ \<Rightarrow> t)"

fun from_iter_loop ::
  "('a \<Rightarrow> 'a \<Rightarrow> rust_ordering option) \<Rightarrow> 'a list \<Rightarrow> 'a list \<Rightarrow> 'a topological_sort \<Rightarrow>
    'a topological_sort" where
  "from_iter_loop cmp [] seen t = t"
| "from_iter_loop cmp (item # items) seen t =
    from_iter_loop cmp items (seen @ [item])
      (fold (compare_seen cmp item) seen (snd (topo_insert item t)))"

definition from_iter ::
  "('a \<Rightarrow> 'a \<Rightarrow> rust_ordering option) \<Rightarrow> 'a list \<Rightarrow> 'a topological_sort" where
  "from_iter cmp items = from_iter_loop cmp items [] topo_new"

definition from_links :: "'a dependency_link list \<Rightarrow> 'a topological_sort" where
  "from_links links = fold add_link links topo_new"

section \<open>The graph and the invariant\<close>

definition nodes :: "'a topological_sort \<Rightarrow> 'a set" where
  "nodes t = {k. hm_get t k \<noteq> None}"

definition edges :: "'a topological_sort \<Rightarrow> ('a \<times> 'a) set" where
  "edges t = {(p, s). \<exists>d. hm_get t p = Some d \<and> s \<in> set (succ d)}"

definition topo_inv :: "'a topological_sort \<Rightarrow> bool" where
  "topo_inv t \<longleftrightarrow> hm_wf t \<and> edges t \<subseteq> nodes t \<times> nodes t \<and>
    (\<forall>k d. hm_get t k = Some d \<longrightarrow>
      distinct (succ d) \<and> num_prec d = card {p. (p, k) \<in> edges t})"

lemma nodes_keys: "nodes t = fst ` set t"
  by (auto simp: nodes_def hm_get_def map_of_eq_None_iff)

lemma finite_nodes: "finite (nodes t)"
  by (simp add: nodes_keys)

lemma topo_invI:
  assumes "hm_wf t" "edges t \<subseteq> nodes t \<times> nodes t"
    and "\<And>k d. hm_get t k = Some d \<Longrightarrow> distinct (succ d)"
    and "\<And>k d. hm_get t k = Some d \<Longrightarrow> num_prec d = card {p. (p, k) \<in> edges t}"
  shows "topo_inv t"
  using assms by (auto simp: topo_inv_def)

lemma topo_invD:
  assumes "topo_inv t"
  shows "hm_wf t" "edges t \<subseteq> nodes t \<times> nodes t" "finite {p. (p, k) \<in> edges t}"
    and "hm_get t k = Some d \<Longrightarrow> distinct (succ d)"
    and "hm_get t k = Some d \<Longrightarrow> num_prec d = card {p. (p, k) \<in> edges t}"
proof -
  show sub: "edges t \<subseteq> nodes t \<times> nodes t" using assms by (simp add: topo_inv_def)
  then have "{p. (p, k) \<in> edges t} \<subseteq> nodes t" by auto
  then show "finite {p. (p, k) \<in> edges t}" by (rule finite_subset) (rule finite_nodes)
qed (use assms in \<open>auto simp: topo_inv_def\<close>)

lemma topo_inv_new: "topo_inv topo_new"
  by (rule topo_invI) (auto simp: topo_new_def edges_def hm_simps)

text \<open>The order of the entries does not matter.\<close>

lemma hm_same_graph:
  assumes "hm_same t u" "hm_wf t"
  shows "nodes u = nodes t" "edges u = edges t"
  using hm_same_get[OF assms] by (simp_all add: nodes_def edges_def)

lemma hm_same_inv: "hm_same t u \<Longrightarrow> topo_inv t \<Longrightarrow> topo_inv u"
  using hm_same_get[of t u] hm_same_wf[of t u] hm_same_graph[of t u]
  by (auto simp: topo_inv_def)

subsection \<open>Adding\<close>

lemma add_get:
  "hm_get (bump_succ s t) k = (if k = s then
      Some (case hm_get t s of None \<Rightarrow> \<lparr>num_prec = 1, succ = []\<rparr>
        | Some e \<Rightarrow> e\<lparr>num_prec := num_prec e + 1\<rparr>) else hm_get t k)"
  by (auto simp: bump_succ_def dependency_new_def hm_simps split: option.splits)

lemma add_nodes: "nodes (add_dependency_impl p s t) = nodes t \<union> {p, s}" if "topo_inv t"
proof (cases "hm_get t p")
  case None
  then show ?thesis by (auto simp: add_dependency_impl_def nodes_def add_get hm_simps)
next
  case (Some e)
  moreover have "s \<in> nodes t" if "s \<in> set (succ e)"
    using that Some topo_invD(2)[OF \<open>topo_inv t\<close>] by (auto simp: edges_def)
  ultimately show ?thesis
    by (auto simp: add_dependency_impl_def nodes_def add_get hm_simps)
qed

lemma bump_edges: "edges (bump_succ s t) = edges t"
  by (auto simp: edges_def add_get split: option.splits if_splits)

lemma add_edges: "edges (add_dependency_impl p s t) = insert (p, s) (edges t)"
  by (auto simp: add_dependency_impl_def bump_edges split: option.splits if_splits)
    (auto simp: edges_def hm_simps dependency_new_def split: if_splits)

lemma card_insert_pred:
  assumes "finite {p. (p, k) \<in> E}"
  shows "card {q. (q, k) \<in> insert (p, s) E} =
    card {q. (q, k) \<in> E} + (if k = s \<and> (p, s) \<notin> E then 1 else 0)"
proof (cases "k = s")
  case True
  then have "{q. (q, k) \<in> insert (p, s) E} = insert p {q. (q, k) \<in> E}" by auto
  with True assms show ?thesis by (auto simp: insert_absorb card_insert_if)
qed auto

lemma add_inv:
  assumes "topo_inv t"
  shows "topo_inv (add_dependency_impl p s t)"
proof (cases "(p, s) \<in> edges t")
  case True
  then obtain e where "hm_get t p = Some e" "s \<in> set (succ e)" by (auto simp: edges_def)
  with assms show ?thesis by (simp add: add_dependency_impl_def)
next
  case False
  let ?e = "case hm_get t p of None \<Rightarrow> dependency_new | Some e \<Rightarrow> e"
  let ?u = "hm_insert p (?e\<lparr>succ := succ ?e @ [s]\<rparr>) t"
  have new: "add_dependency_impl p s t = bump_succ s ?u" "s \<notin> set (succ ?e)"
    using False by (auto simp: add_dependency_impl_def edges_def dependency_new_def split: option.splits)
  have prec_e: "num_prec ?e = card {q. (q, p) \<in> edges t}" "distinct (succ ?e)"
  proof -
    have "{q. (q, p) \<in> edges t} = {}" if "hm_get t p = None"
      using that topo_invD(2)[OF assms] by (auto simp: nodes_def)
    then show "num_prec ?e = card {q. (q, p) \<in> edges t}" "distinct (succ ?e)"
      using topo_invD(4,5)[OF assms, of p] by (auto simp: dependency_new_def split: option.splits)
  qed
  have none: "card {q. (q, k) \<in> edges t} = 0" if "hm_get t k = None" for k
  proof -
    have "{q. (q, k) \<in> edges t} = {}" using that topo_invD(2)[OF assms] by (auto simp: nodes_def)
    then show ?thesis by simp
  qed
  show ?thesis
  proof (rule topo_invI)
    show "hm_wf (add_dependency_impl p s t)"
      unfolding new bump_succ_def using topo_invD(1)[OF assms] by (auto split: option.splits)
    show "edges (add_dependency_impl p s t) \<subseteq>
        nodes (add_dependency_impl p s t) \<times> nodes (add_dependency_impl p s t)"
      using topo_invD(2)[OF assms] by (auto simp: add_edges add_nodes[OF assms])
    fix k d
    assume d: "hm_get (add_dependency_impl p s t) k = Some d"
    show "distinct (succ d)"
      using d new prec_e topo_invD(4)[OF assms, of k]
      by (auto simp: add_get hm_simps split: if_splits option.splits)
    show "num_prec d = card {q. (q, k) \<in> edges (add_dependency_impl p s t)}"
      unfolding add_edges card_insert_pred[OF topo_invD(3)[OF assms]]
      using d new(1) prec_e False topo_invD(5)[OF assms, of k] none[of k]
      by (auto simp: add_get hm_simps split: if_splits option.splits)
  qed
qed

lemma insert_graph:
  "nodes (snd (topo_insert k t)) = insert k (nodes t)" "edges (snd (topo_insert k t)) = edges t"
  by (auto simp: topo_insert_def nodes_def edges_def hm_simps dependency_new_def
      split: option.splits if_splits)

lemma insert_inv:
  assumes "topo_inv t"
  shows "topo_inv (snd (topo_insert k t))"
proof (cases "hm_get t k")
  case None
  then have none: "{p. (p, k) \<in> edges t} = {}" using topo_invD(2)[OF assms] by (auto simp: nodes_def)
  show ?thesis
  proof (rule topo_invI)
    show "hm_wf (snd (topo_insert k t))"
      using topo_invD(1)[OF assms] None by (auto simp: topo_insert_def)
    show "edges (snd (topo_insert k t)) \<subseteq> nodes (snd (topo_insert k t)) \<times> nodes (snd (topo_insert k t))"
      using topo_invD(2)[OF assms] by (auto simp: insert_graph)
    fix j d
    assume "hm_get (snd (topo_insert k t)) j = Some d"
    then show "distinct (succ d)" "num_prec d = card {p. (p, j) \<in> edges (snd (topo_insert k t))}"
      unfolding insert_graph using topo_invD(4,5)[OF assms, of j d] None none
      by (auto simp: topo_insert_def hm_simps dependency_new_def split: if_splits)
  qed
qed (simp add: topo_insert_def assms)

subsection \<open>Removing\<close>

lemma dec_succs_ok:
  assumes "distinct ss" "hm_wf t"
    and "\<And>s y. s \<in> set ss \<Longrightarrow> hm_get t s = Some y \<Longrightarrow> num_prec y \<noteq> 0"
  obtains t' where "dec_succs ss t = Ret t'" "hm_wf t'"
    "\<And>j. hm_get t' j = map_option
      (\<lambda>d. if j \<in> set ss then d\<lparr>num_prec := num_prec d - 1\<rparr> else d) (hm_get t j)"
proof -
  have "\<exists>t'. dec_succs ss t = Ret t' \<and> hm_wf t' \<and> (\<forall>j. hm_get t' j = map_option
      (\<lambda>d. if j \<in> set ss then d\<lparr>num_prec := num_prec d - 1\<rparr> else d) (hm_get t j))"
    using assms
  proof (induction ss arbitrary: t)
    case (Cons s ss)
    show ?case
    proof (cases "hm_get t s")
      case None
      have "num_prec z \<noteq> 0" if "r \<in> set ss" "hm_get t r = Some z" for r z
        using that Cons.prems(3)[of r z] by simp
      with Cons.IH[of t] Cons.prems(1,2) obtain t' where t': "dec_succs ss t = Ret t'" "hm_wf t'"
        "\<And>j. hm_get t' j = map_option
          (\<lambda>d. if j \<in> set ss then d\<lparr>num_prec := num_prec d - 1\<rparr> else d) (hm_get t j)"
        by auto
      have "hm_get t' j = map_option
          (\<lambda>d. if j \<in> set (s # ss) then d\<lparr>num_prec := num_prec d - 1\<rparr> else d) (hm_get t j)" for j
        using None by (cases "j = s") (simp_all add: t'(3))
      with t'(1,2) None show ?thesis by auto
    next
      case (Some y)
      let ?u = "hm_insert s (y\<lparr>num_prec := num_prec y - 1\<rparr>) t"
      have "num_prec z \<noteq> 0" if "r \<in> set ss" "hm_get ?u r = Some z" for r z
        using that Cons.prems(1) Cons.prems(3)[of r z] by (auto simp: hm_simps split: if_splits)
      with Cons.IH[of ?u] Cons.prems(1,2) obtain t' where t': "dec_succs ss ?u = Ret t'" "hm_wf t'"
        "\<And>j. hm_get t' j = map_option
          (\<lambda>d. if j \<in> set ss then d\<lparr>num_prec := num_prec d - 1\<rparr> else d) (hm_get ?u j)"
        by auto
      moreover have "num_prec y \<noteq> 0" using Cons.prems(3)[of s y] Some by simp
      moreover have "hm_get t' j = map_option
          (\<lambda>d. if j \<in> set (s # ss) then d\<lparr>num_prec := num_prec d - 1\<rparr> else d) (hm_get t j)" for j
        using Some Cons.prems(1) by (cases "j = s") (simp_all add: t'(3) hm_simps)
      ultimately show ?thesis using Some by auto
    qed
  qed (simp add: option.map_ident)
  then show ?thesis using that by blast
qed

lemma remove_ok:
  assumes "topo_inv t" "hm_get t k = Some d" "{p. (p, k) \<in> edges t} = {}"
  obtains t' where "topo_remove k t = Ret (Some d, t')" "topo_inv t'"
    "nodes t' = nodes t - {k}" "edges t' = {e \<in> edges t. fst e \<noteq> k}"
proof -
  have own: "k \<notin> set (succ d)" using assms(2,3) by (auto simp: edges_def)
  have pos: "num_prec y \<noteq> 0" if "s \<in> set (succ d)" "hm_get (hm_remove k t) s = Some y" for s y
  proof -
    have "hm_get t s = Some y" using that by (auto simp: hm_simps split: if_splits)
    moreover have "k \<in> {p. (p, s) \<in> edges t}" using that assms(2) by (auto simp: edges_def)
    ultimately show ?thesis
      using topo_invD(5)[OF assms(1)] topo_invD(3)[OF assms(1), of s] by (auto simp: card_eq_0_iff)
  qed
  obtain t' where t': "dec_succs (succ d) (hm_remove k t) = Ret t'" "hm_wf t'"
    and get: "\<And>j. hm_get t' j = map_option
      (\<lambda>e. if j \<in> set (succ d) then e\<lparr>num_prec := num_prec e - 1\<rparr> else e) (hm_get (hm_remove k t) j)"
    using dec_succs_ok[of "succ d" "hm_remove k t"] topo_invD(1,4)[OF assms(1)] assms(2) pos by blast
  have nodes: "nodes t' = nodes t - {k}" by (auto simp: nodes_def get hm_simps)
  have edges: "edges t' = {e \<in> edges t. fst e \<noteq> k}"
  proof -
    have "(a, b) \<in> edges t' \<longleftrightarrow> (a, b) \<in> edges t \<and> a \<noteq> k" for a b
      by (cases "hm_get t a") (auto simp: edges_def get hm_simps)
    then show ?thesis by auto
  qed
  have "topo_inv t'"
  proof (rule topo_invI)
    show "edges t' \<subseteq> nodes t' \<times> nodes t'"
      using topo_invD(2)[OF assms(1)] assms(3) by (auto simp: nodes edges)
    fix j e
    assume "hm_get t' j = Some e"
    then have "\<exists>e0. hm_get t j = Some e0 \<and> j \<noteq> k \<and>
        e = (if j \<in> set (succ d) then e0\<lparr>num_prec := num_prec e0 - 1\<rparr> else e0)"
      by (cases "hm_get t j"; cases "j = k") (simp_all add: get hm_simps)
    then obtain e0 where e0: "hm_get t j = Some e0" "j \<noteq> k"
      "e = (if j \<in> set (succ d) then e0\<lparr>num_prec := num_prec e0 - 1\<rparr> else e0)"
      by blast
    show "distinct (succ e)" using e0 topo_invD(4)[OF assms(1) e0(1)] by auto
    have preds: "{p. (p, j) \<in> edges t'} = {p. (p, j) \<in> edges t} - {k}"
      by (auto simp: edges)
    have "k \<in> {p. (p, j) \<in> edges t} \<longleftrightarrow> j \<in> set (succ d)" using assms(2) by (auto simp: edges_def)
    then show "num_prec e = card {p. (p, j) \<in> edges t'}"
      using e0 topo_invD(5)[OF assms(1) e0(1)] topo_invD(3)[OF assms(1), of j]
      by (auto simp: preds)
  qed (rule t')
  with t' nodes edges assms(2) show ?thesis using that by (simp add: topo_remove_def)
qed

lemma minimal_iff:
  assumes "topo_inv t" "(k, d) \<in> set t"
  shows "num_prec d = 0 \<longleftrightarrow> {p. (p, k) \<in> edges t} = {}"
proof -
  have "hm_get t k = Some d" using assms topo_invD(1) by (metis hm_get_iff)
  then show ?thesis
    using topo_invD(5)[OF assms(1)] topo_invD(3)[OF assms(1), of k] by (simp add: card_eq_0_iff)
qed

lemma peek_all_minimal:
  assumes "topo_inv t"
  shows "set (peek_all t) = {k \<in> nodes t. {p. (p, k) \<in> edges t} = {}}"
  using minimal_iff[OF assms] unfolding peek_all_def nodes_keys by force

lemma peek_peek_all: "peek t = (case peek_all t of [] \<Rightarrow> None | k # _ \<Rightarrow> Some k)"
  unfolding peek_def peek_all_def by (induction t) auto

lemma pop_cases:
  assumes "topo_inv t"
  obtains (stuck) "pop t = Ret (None, t)" "\<And>k. k \<in> nodes t \<Longrightarrow> \<exists>p. (p, k) \<in> edges t"
  | (popped) k t' where "pop t = Ret (Some k, t')" "k \<in> nodes t" "{p. (p, k) \<in> edges t} = {}"
      "topo_inv t'" "nodes t' = nodes t - {k}" "edges t' = {e \<in> edges t. fst e \<noteq> k}"
proof (cases "peek_all t")
  case Nil
  with stuck peek_all_minimal[OF assms] show ?thesis
    by (auto simp: pop_def peek_peek_all)
next
  case (Cons k ks)
  with peek_all_minimal[OF assms] have k: "k \<in> nodes t" "{p. (p, k) \<in> edges t} = {}" by auto
  then obtain d where d: "hm_get t k = Some d" by (auto simp: nodes_def)
  obtain t' where "topo_remove k t = Ret (Some d, t')" "topo_inv t'"
    "nodes t' = nodes t - {k}" "edges t' = {e \<in> edges t. fst e \<noteq> k}"
    by (rule remove_ok[OF assms d k(2)])
  with popped k Cons show ?thesis by (simp add: pop_def peek_peek_all)
qed

lemma remove_keys_ok:
  assumes "topo_inv t" "distinct ks" "\<And>k. k \<in> set ks \<Longrightarrow> k \<in> nodes t \<and> {p. (p, k) \<in> edges t} = {}"
  shows "\<exists>t'. remove_keys ks t = Ret t' \<and> topo_inv t' \<and> nodes t' = nodes t - set ks \<and>
    edges t' = {e \<in> edges t. fst e \<notin> set ks}"
  using assms
proof (induction ks arbitrary: t)
  case (Cons k ks)
  from Cons.prems(3)[of k] obtain d
    where d: "hm_get t k = Some d" "{p. (p, k) \<in> edges t} = {}"
    by (auto simp: nodes_def)
  obtain t' where t': "topo_remove k t = Ret (Some d, t')" "topo_inv t'"
    "nodes t' = nodes t - {k}" "edges t' = {e \<in> edges t. fst e \<noteq> k}"
    by (rule remove_ok[OF Cons.prems(1) d])
  have "j \<in> nodes t' \<and> {p. (p, j) \<in> edges t'} = {}" if "j \<in> set ks" for j
    using that Cons.prems(2) Cons.prems(3)[of j] by (auto simp: t')
  with Cons.IH[OF t'(2)] Cons.prems(2) show ?case by (auto simp: t')
qed auto

lemma peek_all_distinct: "topo_inv t \<Longrightarrow> distinct (peek_all t)"
  using topo_invD(1)[of t] by (simp add: peek_all_def hm_wf_def distinct_map_filter)

lemma pop_all_ok:
  assumes "topo_inv t"
  obtains t' where "pop_all t = Ret (peek_all t, t')" "topo_inv t'"
    "nodes t' = nodes t - set (peek_all t)"
    "edges t' = {e \<in> edges t. fst e \<notin> set (peek_all t)}"
  using remove_keys_ok[OF assms peek_all_distinct[OF assms]] peek_all_minimal[OF assms]
  by (auto simp: pop_all_def peek_all_def)

section \<open>Properties\<close>

text \<open>Every state the operations reach, the map's iteration order changing at will.\<close>

inductive topo_reachable :: "'a topological_sort \<Rightarrow> bool" where
  start: "topo_reachable topo_new"
| add: "topo_reachable t \<Longrightarrow> topo_reachable (add_dependency_impl p s t)"
| ins: "topo_reachable t \<Longrightarrow> topo_reachable (snd (topo_insert k t))"
| popped: "topo_reachable t \<Longrightarrow> pop t = Ret (r, t') \<Longrightarrow> topo_reachable t'"
| popped_all: "topo_reachable t \<Longrightarrow> pop_all t = Ret (ks, t') \<Longrightarrow> topo_reachable t'"
| reorder: "topo_reachable t \<Longrightarrow> hm_same t u \<Longrightarrow> topo_reachable u"

lemma topo_reachable_inv: "topo_reachable t \<Longrightarrow> topo_inv t"
proof (induction rule: topo_reachable.induct)
  case (popped t r t')
  from popped.IH show ?case
  proof (cases rule: pop_cases)
    case stuck
    with popped show ?thesis by simp
  next
    case (popped k u)
    with \<open>pop t = Ret (r, t')\<close> show ?thesis by simp
  qed
next
  case (popped_all t ks t')
  from popped_all.IH obtain u where "pop_all t = Ret (peek_all t, u)" "topo_inv u"
    by (rule pop_all_ok)
  with popped_all(2) show ?case by simp
next
  case (reorder t u)
  then show ?case by (metis hm_same_inv)
qed (simp_all add: topo_inv_new add_inv insert_inv)

text \<open>C11. In every reachable state the counters count the predecessors, and neither \<open>pop\<close> nor
  \<open>pop_all\<close> panics on \<open>num_prec -= 1\<close>.\<close>

theorem topology_pop_never_underflows:
  assumes "topo_reachable t"
  shows "topo_inv t \<and> (\<exists>r t'. pop t = Ret (r, t')) \<and> (\<exists>ks t'. pop_all t = Ret (ks, t'))"
proof -
  have inv: "topo_inv t" by (rule topo_reachable_inv[OF assms])
  moreover have "\<exists>r t'. pop t = Ret (r, t')" using inv by (cases rule: pop_cases) blast+
  moreover obtain t' where "pop_all t = Ret (peek_all t, t')" by (rule pop_all_ok[OF inv])
  ultimately show ?thesis by simp
qed

theorem topology_pop_never_underflows_witness:
  "\<exists>r t'. pop (add_dependency_impl 1 (2 :: nat) (add_dependency_impl 1 3 topo_new)) = Ret (r, t')"
  using topology_pop_never_underflows
    [OF topo_reachable.add[OF topo_reachable.add[OF topo_reachable.start,
      where p = 1 and s = 3], where p = 1 and s = "2 :: nat"]] by blast

text \<open>A finite graph in which every node has a predecessor has a cycle.\<close>

lemma no_minimal_cycle:
  assumes "E \<subseteq> N \<times> N" "finite N" "n \<in> N" "\<And>k. k \<in> N \<Longrightarrow> \<exists>p. (p, k) \<in> E"
  shows "\<not> acyclic E"
proof
  assume "acyclic E"
  moreover have "finite E" 
    using assms(1) finite_cartesian_product[OF assms(2) assms(2)] by (rule finite_subset)
  ultimately have "wf E" using finite_acyclic_wf by blast
  then obtain z where "z \<in> N" "\<And>y. (y, z) \<in> E \<Longrightarrow> y \<notin> N"
    using assms(3) by (metis wfE_min)
  with assms(1,4) show False by blast
qed

text \<open>\<open>pop\<close> returning \<open>None\<close> on a sort that is not empty means a cyclic dependency, as its
  comment says.\<close>

lemma topology_stuck_means_cycle:
  assumes "topo_reachable t" "pop t = Ret (None, t')" "topo_len t \<noteq> 0"
  shows "\<exists>x. (x, x) \<in> (edges t)\<^sup>+"
proof -
  have inv: "topo_inv t" by (rule topo_reachable_inv[OF assms(1)])
  have stuck: "\<exists>p. (p, k) \<in> edges t" if "k \<in> nodes t" for k
    using inv that assms(2) by (cases rule: pop_cases) auto
  obtain n where "n \<in> nodes t" using assms(3) by (cases t) (auto simp: topo_len_def nodes_keys)
  with stuck topo_invD(2)[OF inv] finite_nodes have "\<not> acyclic (edges t)"
    by (metis no_minimal_cycle)
  then show ?thesis by (auto simp: acyclic_def)
qed

lemma topology_stuck_means_cycle_witness:
  "\<exists>x. (x, x) \<in> (edges (add_dependency_impl 2 (1 :: nat) (add_dependency_impl 1 2 topo_new)))\<^sup>+"
proof -
  let ?t = "add_dependency_impl 2 (1 :: nat) (add_dependency_impl 1 2 topo_new)"
  have "topo_reachable ?t" by (intro topo_reachable.intros)
  moreover have "pop ?t = Ret (None, ?t)" "topo_len ?t \<noteq> 0"
    by (simp_all add: topo_new_def add_dependency_impl_def bump_succ_def pop_def peek_def
        topo_len_def hm_insert_def hm_get_def dependency_new_def)
  ultimately show ?thesis by (rule topology_stuck_means_cycle)
qed

text \<open>A run of \<open>next\<close> calls, with the items it yields.\<close>

inductive pops :: "'a topological_sort \<Rightarrow> 'a list \<Rightarrow> 'a topological_sort \<Rightarrow> bool" where
  pops_refl: "hm_same t u \<Longrightarrow> pops t [] u"
| pops_step: "hm_same t u \<Longrightarrow> pop u = Ret (Some k, v) \<Longrightarrow> pops v ks w \<Longrightarrow> pops t (k # ks) w"

lemma pops_order:
  assumes "pops t ks w" "topo_inv t"
  shows "topo_inv w \<and> distinct ks \<and> nodes t = set ks \<union> nodes w \<and> set ks \<inter> nodes w = {} \<and>
    edges w = {e \<in> edges t. fst e \<notin> set ks} \<and>
    (\<forall>i<length ks. \<forall>p. (p, ks ! i) \<in> edges t \<longrightarrow> p \<in> set (take i ks))"
  using assms
proof (induction rule: pops.induct)
  case (pops_refl t u)
  then show ?case using hm_same_inv hm_same_graph[of t u] topo_invD(1)[of t] by auto
next
  case (pops_step t u k v ks w)
  have inv: "topo_inv u" using pops_step hm_same_inv by blast
  have graph: "nodes u = nodes t" "edges u = edges t"
    using hm_same_graph[OF pops_step(1)] topo_invD(1)[OF pops_step.prems] by simp_all
  from inv have v: "k \<in> nodes t" "{p. (p, k) \<in> edges t} = {}" "topo_inv v"
      "nodes v = nodes t - {k}" "edges v = {e \<in> edges t. fst e \<noteq> k}"
    by (cases rule: pop_cases; use pops_step(2) graph in auto)+
  have IH: "topo_inv w \<and> distinct ks \<and> nodes v = set ks \<union> nodes w \<and> set ks \<inter> nodes w = {} \<and>
      edges w = {e \<in> edges v. fst e \<notin> set ks} \<and>
      (\<forall>i<length ks. \<forall>p. (p, ks ! i) \<in> edges v \<longrightarrow> p \<in> set (take i ks))"
    by (rule pops_step.IH[OF v(3)])
  have "p \<in> set (take i (k # ks))"
    if "i < length (k # ks)" "(p, (k # ks) ! i) \<in> edges t" for i p
    using that v IH by (cases i) auto
  then show ?case using IH v by auto
qed

lemma acyclic_less: "acyclic {(a, b :: 'a :: linorder). a < b}"
proof -
  have "trans {(a, b :: 'a). a < b}" by (auto simp: trans_def)
  then show ?thesis by (auto simp: acyclic_def trancl_id)
qed

lemma topology_run:
  assumes "topo_reachable t" "acyclic (edges t)" "pops t ks w" "pop w = Ret (None, w')"
  shows "distinct ks \<and> set ks = nodes t \<and>
    (\<forall>i<length ks. \<forall>p. (p, ks ! i) \<in> edges t \<longrightarrow> p \<in> set (take i ks))"
proof -
  have run: "topo_inv w" "distinct ks" "nodes t = set ks \<union> nodes w" "edges w \<subseteq> edges t"
    "\<forall>i<length ks. \<forall>p. (p, ks ! i) \<in> edges t \<longrightarrow> p \<in> set (take i ks)"
    using pops_order[OF assms(3) topo_reachable_inv[OF assms(1)]] by auto
  have "nodes w = {}"
  proof (rule ccontr)
    assume "nodes w \<noteq> {}"
    then obtain n where "n \<in> nodes w" by auto
    moreover have "\<exists>p. (p, k) \<in> edges w" if "k \<in> nodes w" for k
      using run(1) that assms(4) by (cases rule: pop_cases) auto
    ultimately have "\<not> acyclic (edges w)"
      using topo_invD(2)[OF run(1)] finite_nodes by (metis no_minimal_cycle)
    with assms(2) run(4) show False by (metis acyclic_subset)
  qed
  with run show ?thesis by simp
qed

text \<open>C12. On acyclic dependencies the iterator yields every element exactly once, each after
  everything it depends on, whatever the hash order is.\<close>

theorem topology_yields_topological_order:
  assumes "topo_reachable t" "acyclic (edges t)" "pops t ks w" "pop w = Ret (None, w')"
  shows "distinct ks \<and> set ks = nodes t \<and>
    (\<forall>i<length ks. \<forall>p. (p, ks ! i) \<in> edges t \<longrightarrow> p \<in> set (take i ks))"
  using assms by (rule topology_run)

theorem topology_yields_topological_order_witness:
  "set [1, 2 :: nat] = nodes (add_dependency_impl 1 (2 :: nat) topo_new)"
proof -
  let ?t = "add_dependency_impl 1 (2 :: nat) topo_new"
  have reach: "topo_reachable ?t" by (intro topo_reachable.intros)
  have "edges ?t = {(1, 2)}"
    by (simp add: add_edges) (simp add: edges_def topo_new_def hm_simps)
  then have acyclic: "acyclic (edges ?t)" by (simp add: acyclic_subset[OF acyclic_less])
  let ?u = "[(2 :: nat, dependency_new)]"
  have "pop ?t = Ret (Some 1, ?u)" "pop ?u = Ret (Some 2, [])"
    by (simp_all add: topo_new_def add_dependency_impl_def bump_succ_def pop_def peek_def
        topo_remove_def hm_remove_def hm_insert_def hm_get_def dependency_new_def)
  then have run: "pops ?t [1, 2] []"
    by (blast intro: pops.intros hm_same_def[THEN iffD2, OF refl])
  have stop: "pop ([] :: nat topological_sort) = Ret (None, [])" by (simp add: pop_def peek_def)
  from topology_yields_topological_order[OF reach acyclic run stop] show ?thesis by blast
qed

text \<open>The comparison of a total order, for \<open>from_iter\<close>.\<close>

definition total_cmp :: "'a :: linorder \<Rightarrow> 'a \<Rightarrow> rust_ordering option" where
  "total_cmp x y = Some (if x < y then Less else if x = y then Equal else Greater)"

lemma compare_seen_cases:
  "compare_seen total_cmp x s t =
    (if s < x then add_dependency_impl s x t else if x < s then add_dependency_impl x s t else t)"
  by (auto simp: compare_seen_def total_cmp_def)

lemma fold_compare:
  assumes "topo_inv t" "set ss \<subseteq> nodes t" "x \<in> nodes t"
  defines "u \<equiv> fold (compare_seen total_cmp x) ss t"
  shows "topo_inv u" "nodes u = nodes t"
    and "edges u = edges t \<union> {(s, x) | s. s \<in> set ss \<and> s < x} \<union> {(x, s) | s. s \<in> set ss \<and> x < s}"
proof -
  have "topo_inv (fold (compare_seen total_cmp x) ss t) \<and>
    nodes (fold (compare_seen total_cmp x) ss t) = nodes t \<and>
    edges (fold (compare_seen total_cmp x) ss t) =
      edges t \<union> {(s, x) | s. s \<in> set ss \<and> s < x} \<union> {(x, s) | s. s \<in> set ss \<and> x < s}"
    using assms(1,2,3)
  proof (induction ss arbitrary: t)
    case (Cons s ss)
    let ?v = "compare_seen total_cmp x s t"
    have "topo_inv ?v" "nodes ?v = nodes t"
      "edges ?v = edges t \<union> {(s, x) | _ :: unit. s < x} \<union> {(x, s) | _ :: unit. x < s}"
      using Cons.prems by (auto simp: compare_seen_cases add_inv add_nodes add_edges)
    with Cons.IH[of ?v] Cons.prems show ?case by auto
  qed simp
  then show "topo_inv u" "nodes u = nodes t"
    "edges u = edges t \<union> {(s, x) | s. s \<in> set ss \<and> s < x} \<union> {(x, s) | s. s \<in> set ss \<and> x < s}"
    unfolding u_def by blast+
qed

lemma from_iter_loop_graph:
  assumes "topo_inv t" "nodes t = set seen"
    and "edges t = {(a, b). a \<in> set seen \<and> b \<in> set seen \<and> a < b}"
  shows "nodes (from_iter_loop total_cmp xs seen t) = set seen \<union> set xs \<and>
    edges (from_iter_loop total_cmp xs seen t) =
      {(a, b). a \<in> set seen \<union> set xs \<and> b \<in> set seen \<union> set xs \<and> a < b}"
  using assms
proof (induction xs arbitrary: seen t)
  case (Cons x xs)
  let ?t = "snd (topo_insert x t)"
  let ?u = "fold (compare_seen total_cmp x) seen ?t"
  have u: "topo_inv ?u" "nodes ?u = set (seen @ [x])"
    "edges ?u = edges t \<union> {(s, x) | s. s \<in> set seen \<and> s < x} \<union> {(x, s) | s. s \<in> set seen \<and> x < s}"
    using fold_compare[of ?t seen x] insert_inv[OF Cons.prems(1), of x] Cons.prems(2)
    by (auto simp: insert_graph)
  moreover have "edges ?u = {(a, b). a \<in> set (seen @ [x]) \<and> b \<in> set (seen @ [x]) \<and> a < b}"
    unfolding u(3) Cons.prems(3) by auto
  ultimately show ?case using Cons.IH[of ?u "seen @ [x]"] by simp
qed simp

lemma from_iter_graph:
  "nodes (from_iter total_cmp xs) = set xs"
  "edges (from_iter total_cmp xs) = {(a, b). a \<in> set xs \<and> b \<in> set xs \<and> a < b}"
  using from_iter_loop_graph[OF topo_inv_new, of "[]" xs]
  by (auto simp: from_iter_def topo_new_def nodes_def edges_def hm_simps)

lemma fold_compare_reachable:
  "topo_reachable t \<Longrightarrow> topo_reachable (fold (compare_seen cmp x) ss t)"
  by (induction ss arbitrary: t)
    (auto simp: compare_seen_def intro: topo_reachable.intros split: option.splits rust_ordering.splits)

lemma from_iter_loop_reachable:
  "topo_reachable t \<Longrightarrow> topo_reachable (from_iter_loop cmp xs seen t)"
  by (induction xs arbitrary: seen t) (auto intro: fold_compare_reachable topo_reachable.ins)

lemma from_iter_reachable: "topo_reachable (from_iter cmp xs)"
  unfolding from_iter_def by (rule from_iter_loop_reachable) (rule topo_reachable.start)

text \<open>Collecting items of a total order and iterating to the end sorts them and drops
  duplicates.\<close>

theorem topology_sorts_total_order:
  assumes "pops (from_iter total_cmp xs) ks w" "pop w = Ret (None, w')"
  shows "ks = sorted_list_of_set (set xs)"
proof -
  have "acyclic (edges (from_iter total_cmp xs))"
    unfolding from_iter_graph
    by (rule acyclic_subset[OF acyclic_less]) auto
  from topology_run[OF from_iter_reachable this assms]
  have ks: "distinct ks" "set ks = set xs"
    "\<And>i p. i < length ks \<Longrightarrow> p \<in> set xs \<Longrightarrow> ks ! i \<in> set xs \<Longrightarrow> p < ks ! i \<Longrightarrow> p \<in> set (take i ks)"
    by (auto simp: from_iter_graph)
  have "sorted ks" unfolding sorted_iff_nth_mono_less
  proof (intro allI impI)
    fix i j
    assume ij: "i < j" "j < length ks"
    show "ks ! i \<le> ks ! j"
    proof (rule ccontr)
      assume "\<not> ks ! i \<le> ks ! j"
      then have "ks ! j \<in> set (take i ks)" using ks(2) ks(3)[of i "ks ! j"] ij nth_mem[of _ ks] by auto
      then obtain k where "k < i" "ks ! k = ks ! j" using ij by (auto simp: in_set_conv_nth)
      with ks(1) ij show False by (auto simp: nth_eq_iff_index_eq)
    qed
  qed
  with ks(1,2) show ?thesis by (metis sorted_list_of_set.idem_if_sorted_distinct)
qed

theorem topology_sorts_total_order_witness: "[1, 2 :: nat] = sorted_list_of_set (set [2, 1, 2])"
proof (rule topology_sorts_total_order[where w = "[]" and w' = "[]"])
  let ?t = "from_iter total_cmp [2 :: nat, 1, 2]"
  have "\<exists>v. hm_same ?t ?t \<and> pop ?t = Ret (Some 1, v) \<and> pop v = Ret (Some 2, [])"
    by (simp add: from_iter_def compare_seen_def total_cmp_def topo_insert_def topo_new_def
        add_dependency_impl_def bump_succ_def pop_def peek_def topo_remove_def hm_remove_def
        hm_insert_def hm_get_def dependency_new_def hm_same_def)
  then show "pops ?t [1, 2] []" by (blast intro: pops.intros hm_same_def[THEN iffD2, OF refl])
  show "pop [] = Ret (None, [])" by (simp add: pop_def peek_def)
qed

end
