(* ===== verification/SchemaSync.thy ===== *)
theory SchemaSync
  imports SchemaEntity Topology
begin

text \<open>
  \<open>src/schema/builder.rs\<close>: the schema builder. Entities are registered once per table name;
  \<open>sorted_tables\<close> orders the tables by their foreign keys; \<open>apply\<close> creates everything and \<open>sync\<close>
  adds what a discovered schema lacks. \<open>exec\<close> is \<open>db.execute\<close>; \<open>build\<close> renders an enum
  statement, whose renderings the code compares. What \<open>sync\<close> executes depends only on the entity
  and the discovered schema: \<open>sync_plan\<close> is that list, and the code is proved to run it.
\<close>

section \<open>The builder's state\<close>

record entity_schema_info =
  es_table :: table_def
  es_enums :: "enum_def list"
  es_indexes :: "index_def list"
  es_schema :: "string option"

definition entity_schema_info_new :: "schema_entity \<Rightarrow> db_backend \<Rightarrow> entity_schema_info" where
  "entity_schema_info_new e backend =
    \<lparr>es_table = create_table_from_entity e backend, es_enums = create_enum_from_entity e backend,
     es_indexes = create_index_from_entity e backend, es_schema = se_schema_name e\<rparr>"

record schema_builder =
  sb_backend :: db_backend
  sb_entities :: "entity_schema_info list"

definition schema_builder_new :: "db_backend \<Rightarrow> schema_builder" where
  "schema_builder_new backend = \<lparr>sb_backend = backend, sb_entities = []\<rparr>"

definition sb_register :: "schema_entity \<Rightarrow> schema_builder \<Rightarrow> schema_builder" where
  "sb_register e b =
    (let entity = entity_schema_info_new e (sb_backend b) in
     if \<not> list_ex (\<lambda>x. td_table (es_table x) = td_table (es_table entity)) (sb_entities b)
     then b\<lparr>sb_entities := sb_entities b @ [entity]\<rparr> else b)"

fun get_table_name :: "table_ref option \<Rightarrow> table_name run" where
  "get_table_name (Some (TableRef name _)) = Ret name"
| "get_table_name None = Panic ''Expect TableCreateStatement is properly built''"

record discovered_schema =
  ds_current :: string
  ds_tables :: "(string, table_def list) hashmap"
  ds_enums :: "(string, enum_def list) hashmap"

fun find_by_name :: "table_name \<Rightarrow> table_def list \<Rightarrow> table_def option run" where
  "find_by_name n [] = Ret None"
| "find_by_name n (t # ts) =
    run_bind (get_table_name (td_table t)) (\<lambda>m. if m = n then Ret (Some t) else find_by_name n ts)"

fun bare_name :: "table_name \<Rightarrow> table_name" where
  "bare_name (TableName s t) = TableName None t"

definition find_table :: "discovered_schema \<Rightarrow> string option \<Rightarrow> table_name \<Rightarrow> table_def option run" where
  "find_table d entity_schema name =
    (let schema = (case entity_schema of Some s \<Rightarrow> s | None \<Rightarrow> ds_current d) in
     case hm_get (ds_tables d) schema of
       None \<Rightarrow> Ret None
     | Some schema_tables \<Rightarrow> find_by_name (bare_name name) schema_tables)"

definition find_enums :: "discovered_schema \<Rightarrow> string option \<Rightarrow> enum_def list" where
  "find_enums d entity_schema =
    (let schema = (case entity_schema of Some s \<Rightarrow> s | None \<Rightarrow> ds_current d) in
     case hm_get (ds_enums d) schema of Some v \<Rightarrow> v | None \<Rightarrow> [])"

section \<open>Ordering the tables\<close>

text \<open>\<open>shuffle\<close> is the order in which the sorter's hash map is iterated by each \<open>pop\<close>.\<close>

fun add_references ::
  "table_name \<Rightarrow> foreign_key list \<Rightarrow> table_name topological_sort \<Rightarrow> table_name topological_sort run" where
  "add_references self_table [] sorter = Ret sorter"
| "add_references self_table (fk # fks) sorter =
    run_bind (get_table_name (fk_ref_tbl fk)) (\<lambda>ref_table.
      add_references self_table fks
        (if self_table \<noteq> ref_table then add_dependency_impl ref_table self_table sorter else sorter))"

fun insert_tables ::
  "entity_schema_info list \<Rightarrow> table_name topological_sort \<Rightarrow> table_name topological_sort run" where
  "insert_tables [] sorter = Ret sorter"
| "insert_tables (e # es) sorter =
    run_bind (get_table_name (td_table (es_table e))) (\<lambda>n. insert_tables es (snd (topo_insert n sorter)))"

fun add_all_references ::
  "entity_schema_info list \<Rightarrow> table_name topological_sort \<Rightarrow> table_name topological_sort run" where
  "add_all_references [] sorter = Ret sorter"
| "add_all_references (e # es) sorter =
    run_bind (get_table_name (td_table (es_table e))) (\<lambda>self_table.
    run_bind (add_references self_table (td_foreign_keys (es_table e)) sorter) (add_all_references es))"

partial_function (option) pop_loop ::
  "(table_name topological_sort \<Rightarrow> table_name topological_sort) \<Rightarrow> table_name topological_sort \<Rightarrow>
    table_name list \<Rightarrow> table_name list run option" where
  "pop_loop shuffle t out =
    (case pop (shuffle t) of
       Ret (Some i, t') \<Rightarrow> pop_loop shuffle t' (out @ [i])
     | Ret (None, t') \<Rightarrow> Some (Ret out)
     | Panic m \<Rightarrow> Some (Panic m)
     | Diverge \<Rightarrow> None)"

fun push_leftover :: "entity_schema_info list \<Rightarrow> table_name list \<Rightarrow> table_name list run" where
  "push_leftover [] out = Ret out"
| "push_leftover (e # es) out =
    run_bind (get_table_name (td_table (es_table e))) (\<lambda>n.
      push_leftover es (if n \<in> set out then out else out @ [n]))"

definition sorted_tables ::
  "(table_name topological_sort \<Rightarrow> table_name topological_sort) \<Rightarrow> entity_schema_info list \<Rightarrow>
    table_name list run" where
  "sorted_tables shuffle entities =
    run_bind (insert_tables entities topo_new) (\<lambda>sorter.
    run_bind (add_all_references entities sorter) (\<lambda>sorter.
    run_bind (run_bind (run_of_option (pop_loop shuffle sorter [])) (\<lambda>r. r)) (\<lambda>out.
      if length out \<noteq> length entities then push_leftover entities out else Ret out)))"

section \<open>Creating and synchronising\<close>

datatype ddl =
    CreateType enum_def
  | CreateTable table_def
  | AddColumn table_ref column_def
  | RenameColumn table_ref string string
  | CreateForeignKey foreign_key
  | CreateIndex index_def
  | DropConstraint table_ref string
  | DropIndex string

definition entity_apply ::
  "(ddl \<Rightarrow> (unit, 'w) io) \<Rightarrow> (enum_def \<Rightarrow> 'b) \<Rightarrow> entity_schema_info \<Rightarrow> 'b list \<Rightarrow> ('b list, 'w) act" where
  "entity_apply exec build e created =
    act_bind (act_fold (\<lambda>stmt created.
        let new_stmt = build stmt in
        if \<not> list_ex (\<lambda>s. s = new_stmt) created
        then act_bind (act_io (exec (CreateType stmt))) (\<lambda>_. act_ret (created @ [new_stmt]))
        else act_ret created) (es_enums e) created) (\<lambda>created.
    act_bind (act_io (exec (CreateTable (es_table e)))) (\<lambda>_.
    act_bind (act_each (\<lambda>stmt. act_io (exec (CreateIndex stmt))) (es_indexes e)) (\<lambda>_.
      act_ret created)))"

definition renamed_from_of :: "string option \<Rightarrow> string" where
  "renamed_from_of c =
    (case c of
       None \<Rightarrow> []
     | Some comment \<Rightarrow>
         (case rsplit_once (''renamed_from '' @ quote_char) comment of
            None \<Rightarrow> []
          | Some (_, suffix) \<Rightarrow>
              (case split_once quote_char suffix of None \<Rightarrow> [] | Some (prefix, _) \<Rightarrow> prefix)))"

definition compare_foreign_key :: "foreign_key \<Rightarrow> foreign_key \<Rightarrow> bool" where
  "compare_foreign_key a b \<longleftrightarrow> fk_key_name a = fk_key_name b \<or>
    (fk_ref_tbl a = fk_ref_tbl b \<and> fk_columns a = fk_columns b \<and> fk_ref_columns a = fk_ref_columns b)"

definition sync_enum ::
  "(ddl \<Rightarrow> (unit, 'w) io) \<Rightarrow> (enum_def \<Rightarrow> 'b) \<Rightarrow> enum_def list \<Rightarrow> enum_def \<Rightarrow> 'b list \<Rightarrow> ('b list, 'w) act" where
  "sync_enum exec build existing_enums stmt created =
    (let new_stmt = build stmt;
         has_enum = list_ex (\<lambda>existing_enum. build existing_enum = new_stmt) existing_enums
     in if \<not> has_enum \<and> \<not> list_ex (\<lambda>s. s = new_stmt) created
        then act_bind (act_io (exec (CreateType stmt))) (\<lambda>_. act_ret (created @ [new_stmt]))
        else act_ret created)"

definition sync_column ::
  "(ddl \<Rightarrow> (unit, 'w) io) \<Rightarrow> table_def \<Rightarrow> table_def \<Rightarrow> column_def \<Rightarrow> (unit, 'w) act" where
  "sync_column exec table existing column =
    (case find (\<lambda>c. cd_name c = cd_name column) (td_columns existing) of
       Some _ \<Rightarrow> act_ret ()
     | None \<Rightarrow>
         (let renamed_from = renamed_from_of (cd_comment column) in
          act_bind (act_run (expect (td_table table) ''Checked above'')) (\<lambda>tbl.
            if renamed_from = [] then act_io (exec (AddColumn tbl column))
            else act_io (exec (RenameColumn tbl renamed_from (cd_name column))))))"

definition sync_foreign_key ::
  "(ddl \<Rightarrow> (unit, 'w) io) \<Rightarrow> table_def \<Rightarrow> foreign_key \<Rightarrow> (unit, 'w) act" where
  "sync_foreign_key exec existing fk =
    (if list_ex (compare_foreign_key fk) (td_foreign_keys existing) then act_ret ()
     else act_io (exec (CreateForeignKey fk)))"

definition sync_index ::
  "(ddl \<Rightarrow> (unit, 'w) io) \<Rightarrow> table_def option \<Rightarrow> index_def \<Rightarrow> (unit, 'w) act" where
  "sync_index exec existing_table stmt =
    (let has_index = (case existing_table of
         Some existing \<Rightarrow> list_ex (\<lambda>i. idx_cols i = idx_cols stmt) (td_indexes existing)
       | None \<Rightarrow> False)
     in if \<not> has_index then act_io (exec (CreateIndex (stmt\<lparr>idx_if_not_exists := True\<rparr>)))
        else act_ret ())"

definition single_unique :: "string \<Rightarrow> index_def \<Rightarrow> bool" where
  "single_unique col_name idx =
    (if \<not> idx_unique idx then False else length (idx_cols idx) = 1 \<and> idx_cols idx ! 0 = col_name)"

definition sync_unique_column ::
  "(ddl \<Rightarrow> (unit, 'w) io) \<Rightarrow> db_backend \<Rightarrow> table_def \<Rightarrow> table_def \<Rightarrow> column_def \<Rightarrow> (unit, 'w) act" where
  "sync_unique_column exec backend table existing column =
    (if cd_unique column then
       (let col_name = cd_name column;
            col_exists = list_ex (\<lambda>c. cd_name c = col_name) (td_columns existing)
        in if \<not> col_exists then act_ret ()
           else if list_ex (single_unique col_name) (td_indexes existing) then act_ret ()
           else act_bind (act_run (expect (td_table table) ''table must have a name'')) (\<lambda>table_name.
             act_io (exec (CreateIndex
               \<lparr>idx_name = Some (''idx-'' @ sea_orm_table table_name @ ''-'' @ col_name),
                idx_table = Some (index_table_ref table_name backend), idx_cols = [col_name],
                idx_unique = True, idx_primary = False, idx_if_not_exists = True\<rparr>))))
     else act_ret ())"

definition sync_drop_index ::
  "(ddl \<Rightarrow> (unit, 'w) io) \<Rightarrow> db_backend \<Rightarrow> entity_schema_info \<Rightarrow> index_def \<Rightarrow> (unit, 'w) act" where
  "sync_drop_index exec backend e existing_index =
    (if idx_unique existing_index then
       (let has_index = list_ex (\<lambda>stmt. idx_cols existing_index = idx_cols stmt) (es_indexes e);
            has_index = (if \<not> has_index then
                (let index_cols = idx_cols existing_index in
                 if length index_cols = 1
                 then list_ex (\<lambda>column. cd_name column = index_cols ! 0 \<and> cd_unique column)
                   (td_columns (es_table e))
                 else has_index)
              else has_index)
        in case (if has_index then None else idx_name existing_index) of
             None \<Rightarrow> act_ret ()
           | Some drop_existing \<Rightarrow>
               (if backend = Postgres
                then act_bind (act_run (expect (td_table (es_table e)) ''Checked above'')) (\<lambda>tbl.
                  act_io (exec (DropConstraint tbl drop_existing)))
                else act_io (exec (DropIndex drop_existing))))
     else act_ret ())"

definition entity_sync ::
  "(ddl \<Rightarrow> (unit, 'w) io) \<Rightarrow> (enum_def \<Rightarrow> 'b) \<Rightarrow> db_backend \<Rightarrow> discovered_schema \<Rightarrow>
    entity_schema_info \<Rightarrow> 'b list \<Rightarrow> ('b list, 'w) act" where
  "entity_sync exec build backend existing e created =
    act_bind (act_fold (sync_enum exec build (find_enums existing (es_schema e))) (es_enums e) created) (\<lambda>created.
    act_bind (act_run (get_table_name (td_table (es_table e)))) (\<lambda>table_name.
    act_bind (act_run (find_table existing (es_schema e) table_name)) (\<lambda>existing_table.
    act_bind (case existing_table of
        Some t \<Rightarrow>
          act_bind (act_each (sync_column exec (es_table e) t) (td_columns (es_table e))) (\<lambda>_.
            if backend \<noteq> Sqlite
            then act_each (sync_foreign_key exec t) (td_foreign_keys (es_table e))
            else act_ret ())
      | None \<Rightarrow> act_io (exec (CreateTable (es_table e)))) (\<lambda>_.
    act_bind (act_each (sync_index exec existing_table) (es_indexes e)) (\<lambda>_.
    act_bind (case existing_table of
        Some t \<Rightarrow> act_each (sync_unique_column exec backend (es_table e) t) (td_columns (es_table e))
      | None \<Rightarrow> act_ret ()) (\<lambda>_.
    act_bind (case existing_table of
        Some t \<Rightarrow> act_each (sync_drop_index exec backend e) (td_indexes t)
      | None \<Rightarrow> act_ret ()) (\<lambda>_.
      act_ret created)))))))"

fun find_entity :: "table_name \<Rightarrow> entity_schema_info list \<Rightarrow> entity_schema_info option run" where
  "find_entity n [] = Ret None"
| "find_entity n (e # es) =
    run_bind (get_table_name (td_table (es_table e))) (\<lambda>m. if n = m then Ret (Some e) else find_entity n es)"

definition sb_apply ::
  "(ddl \<Rightarrow> (unit, 'w) io) \<Rightarrow> (enum_def \<Rightarrow> 'b) \<Rightarrow>
    (table_name topological_sort \<Rightarrow> table_name topological_sort) \<Rightarrow> schema_builder \<Rightarrow> (unit, 'w) act" where
  "sb_apply exec build shuffle b =
    act_bind (act_run (sorted_tables shuffle (sb_entities b))) (\<lambda>tables.
    act_bind (act_fold (\<lambda>n created.
        act_bind (act_run (find_entity n (sb_entities b))) (\<lambda>found.
          case found of
            Some e \<Rightarrow> entity_apply exec build e created
          | None \<Rightarrow> act_ret created)) tables []) (\<lambda>_. act_ret ()))"

subsection \<open>Discovery\<close>

text \<open>
  What \<open>sync\<close> asks of sea-schema and the connection: the row of the current-schema query (none, or
  the result of reading its first column as a string), and the discovery of one schema, whose
  errors come as \<open>DbErr::Query\<close>. \<open>dc_compiled\<close> says which backends are
  compiled in.
\<close>

record 'w discovery =
  dc_current_schema :: "((string, db_err) result option, 'w) io"
  dc_discover :: "string \<Rightarrow> (table_def list \<times> enum_def list, 'w) io"
  dc_discover_sqlite :: "(table_def list, 'w) io"
  dc_compiled :: "db_backend \<Rightarrow> bool"

fun btree_insert :: "'k :: linorder \<Rightarrow> 'k list \<Rightarrow> 'k list" where
  "btree_insert k [] = [k]"
| "btree_insert k (x # xs) =
    (if k < x then k # x # xs else if k = x then x # xs else x # btree_insert k xs)"

definition target_schemas :: "string \<Rightarrow> entity_schema_info list \<Rightarrow> string list" where
  "target_schemas current entities =
    fold (\<lambda>entity targets.
        btree_insert (case es_schema entity of Some s \<Rightarrow> s | None \<Rightarrow> current) targets) entities []"

definition current_schema :: "'w discovery \<Rightarrow> (string, 'w) act" where
  "current_schema dc =
    act_bind (act_io (dc_current_schema dc)) (\<lambda>row.
    act_bind (act_res (ok_or row (RecordNotFound (''Can'' @ [CHR 0x27] @ ''t get current schema'')))) act_res)"

fun backend_name :: "db_backend \<Rightarrow> string" where
  "backend_name MySql = ''MySql''"
| "backend_name Postgres = ''Postgres''"
| "backend_name Sqlite = ''Sqlite''"

definition discover_existing ::
  "'w discovery \<Rightarrow> db_backend \<Rightarrow> entity_schema_info list \<Rightarrow> (discovered_schema, 'w) act" where
  "discover_existing dc backend entities =
    (if \<not> dc_compiled dc backend
     then act_err (BackendNotSupported (backend_name backend) ''SchemaBuilder::sync'')
     else case backend of
       MySql \<Rightarrow>
         act_bind (current_schema dc) (\<lambda>current.
         act_bind (act_fold (\<lambda>schema_name tables.
             act_bind (act_io (dc_discover dc schema_name)) (\<lambda>found.
               act_ret (hm_insert schema_name (fst found) tables)))
             (target_schemas current entities) []) (\<lambda>tables_by_schema.
           act_ret \<lparr>ds_current = current, ds_tables = tables_by_schema, ds_enums = []\<rparr>))
     | Postgres \<Rightarrow>
         act_bind (current_schema dc) (\<lambda>current.
         act_bind (act_fold (\<lambda>schema_name maps.
             act_bind (act_io (dc_discover dc schema_name)) (\<lambda>found.
               act_ret (hm_insert schema_name (fst found) (fst maps),
                 hm_insert schema_name (snd found) (snd maps))))
             (target_schemas current entities) ([], [])) (\<lambda>maps.
           act_ret \<lparr>ds_current = current, ds_tables = fst maps, ds_enums = snd maps\<rparr>))
     | Sqlite \<Rightarrow>
         act_bind (act_io (dc_discover_sqlite dc)) (\<lambda>tables.
           act_ret \<lparr>ds_current = [], ds_tables = hm_insert [] tables [], ds_enums = []\<rparr>))"

definition sb_sync ::
  "(ddl \<Rightarrow> (unit, 'w) io) \<Rightarrow> (enum_def \<Rightarrow> 'b) \<Rightarrow> 'w discovery \<Rightarrow> db_backend \<Rightarrow>
    (table_name topological_sort \<Rightarrow> table_name topological_sort) \<Rightarrow> schema_builder \<Rightarrow> (unit, 'w) act" where
  "sb_sync exec build dc backend shuffle b =
    act_bind (discover_existing dc backend (sb_entities b)) (\<lambda>existing.
    act_bind (act_run (sorted_tables shuffle (sb_entities b))) (\<lambda>tables.
    act_bind (act_fold (\<lambda>n created.
        act_bind (act_run (find_entity n (sb_entities b))) (\<lambda>found.
          case found of
            Some e \<Rightarrow> entity_sync exec build backend existing e created
          | None \<Rightarrow> act_ret created)) tables []) (\<lambda>_. act_ret ())))"

end
