(* ===== verification/SchemaSyncSpec.thy ===== *)
theory SchemaSyncSpec
  imports SchemaSync "HOL-Library.Sublist"
begin

text \<open>
  Properties of the schema builder. First the table order: a run of \<open>sorted_tables\<close> is related to
  the topological sort's runs. Then \<open>sync\<close>: the statements it executes are a function of the entity
  and the discovered table (\<open>sync_plan\<close>), and the properties are about that plan.
\<close>

section \<open>The order of the tables\<close>

text \<open>Well-formed statements name their table, and their foreign keys name the referenced one.\<close>

definition ref_table_name :: "table_ref option \<Rightarrow> table_name" where
  "ref_table_name r = (case r of Some (TableRef n a) \<Rightarrow> n | None \<Rightarrow> TableName None [])"

definition info_name :: "entity_schema_info \<Rightarrow> table_name" where
  "info_name e = ref_table_name (td_table (es_table e))"

definition info_refs :: "entity_schema_info \<Rightarrow> table_name list" where
  "info_refs e = map (\<lambda>fk. ref_table_name (fk_ref_tbl fk)) (td_foreign_keys (es_table e))"

definition info_ok :: "entity_schema_info \<Rightarrow> bool" where
  "info_ok e \<longleftrightarrow> td_table (es_table e) \<noteq> None \<and>
    list_all (\<lambda>fk. fk_ref_tbl fk \<noteq> None) (td_foreign_keys (es_table e))"

text \<open>\<open>(r, n)\<close>: table \<open>n\<close> has a foreign key to another table \<open>r\<close>.\<close>

definition fk_graph :: "entity_schema_info list \<Rightarrow> (table_name \<times> table_name) set" where
  "fk_graph es = {(r, n). \<exists>e\<in>set es. n = info_name e \<and> r \<in> set (info_refs e) \<and> r \<noteq> n}"

lemma get_table_name_Some: "r \<noteq> None \<Longrightarrow> get_table_name r = Ret (ref_table_name r)"
  by (cases r rule: get_table_name.cases) (auto simp: ref_table_name_def)

lemma info_okD:
  assumes "info_ok e"
  shows "get_table_name (td_table (es_table e)) = Ret (info_name e)"
    and "\<And>fk. fk \<in> set (td_foreign_keys (es_table e)) \<Longrightarrow>
      get_table_name (fk_ref_tbl fk) = Ret (ref_table_name (fk_ref_tbl fk))"
  using assms by (auto simp: info_ok_def info_name_def list_all_iff intro!: get_table_name_Some)

lemma insert_tables_ok:
  assumes "list_all info_ok es" "topo_reachable t"
  obtains u where "insert_tables es t = Ret u" "topo_reachable u"
    "nodes u = nodes t \<union> info_name ` set es" "edges u = edges t"
proof -
  have "\<exists>u. insert_tables es t = Ret u \<and> topo_reachable u \<and>
      nodes u = nodes t \<union> info_name ` set es \<and> edges u = edges t"
    using assms
  proof (induction es arbitrary: t)
    case (Cons e es)
    let ?t = "snd (topo_insert (info_name e) t)"
    from Cons.IH[of ?t] Cons.prems obtain u where "insert_tables es ?t = Ret u" "topo_reachable u"
      "nodes u = nodes ?t \<union> info_name ` set es" "edges u = edges ?t"
      by (auto intro: topo_reachable.ins)
    then show ?case using Cons.prems by (auto simp: info_okD insert_graph)
  qed simp
  then show ?thesis using that by blast
qed

lemma add_references_ok:
  assumes "list_all (\<lambda>fk. fk_ref_tbl fk \<noteq> None) fks" "topo_reachable t"
  shows "\<exists>u. add_references n fks t = Ret u \<and> topo_reachable u \<and>
    nodes t \<subseteq> nodes u \<and>
    nodes u \<subseteq> nodes t \<union> {n} \<union> {r. r \<in> ref_table_name ` fk_ref_tbl ` set fks} \<and>
    edges u = edges t \<union> {(r, n) | r. r \<in> ref_table_name ` fk_ref_tbl ` set fks \<and> r \<noteq> n}"
  using assms
proof (induction fks arbitrary: t)
  case (Cons fk fks)
  let ?r = "ref_table_name (fk_ref_tbl fk)"
  let ?t = "if n \<noteq> ?r then add_dependency_impl ?r n t else t"
  have inv: "topo_inv t" using Cons.prems by (simp add: topo_reachable_inv)
  have t: "topo_reachable ?t" "nodes t \<subseteq> nodes ?t" "nodes ?t \<subseteq> nodes t \<union> {n, ?r}"
    "edges ?t = edges t \<union> {(r, n) | r. r = ?r \<and> r \<noteq> n}"
    using Cons.prems(2) by (auto intro: topo_reachable.add simp: add_nodes[OF inv] add_edges)
  from Cons.IH[of ?t] t(1) Cons.prems(1) obtain u where u: "add_references n fks ?t = Ret u"
    "topo_reachable u" "nodes ?t \<subseteq> nodes u"
    "nodes u \<subseteq> nodes ?t \<union> {n} \<union> {r. r \<in> ref_table_name ` fk_ref_tbl ` set fks}"
    "edges u = edges ?t \<union> {(r, n) | r. r \<in> ref_table_name ` fk_ref_tbl ` set fks \<and> r \<noteq> n}"
    by auto
  have "nodes t \<subseteq> nodes u" using t(2) u(3) by (rule subset_trans)
  moreover have "nodes u \<subseteq> nodes t \<union> {n} \<union> {r. r \<in> ref_table_name ` fk_ref_tbl ` set (fk # fks)}"
    using t(3) u(4) by auto
  moreover have "edges u = edges t \<union>
      {(r, n) | r. r \<in> ref_table_name ` fk_ref_tbl ` set (fk # fks) \<and> r \<noteq> n}"
    unfolding u(5) t(4) by auto
  moreover have "get_table_name (fk_ref_tbl fk) = Ret ?r"
    using Cons.prems(1) by (simp add: get_table_name_Some)
  ultimately show ?case using u(1,2) by simp
qed auto

lemma add_all_references_ok:
  assumes "list_all info_ok es" "topo_reachable t" "info_name ` set es \<subseteq> nodes t"
  shows "\<exists>u. add_all_references es t = Ret u \<and> topo_reachable u \<and> nodes t \<subseteq> nodes u \<and>
    nodes u \<subseteq> nodes t \<union> (\<Union>e\<in>set es. set (info_refs e)) \<and> edges u = edges t \<union> fk_graph es"
  using assms
proof (induction es arbitrary: t)
  case (Cons e es)
  have "list_all (\<lambda>fk. fk_ref_tbl fk \<noteq> None) (td_foreign_keys (es_table e))"
    using Cons.prems(1) by (simp add: info_ok_def)
  from add_references_ok[OF this Cons.prems(2), of "info_name e"] obtain v where
    v: "add_references (info_name e) (td_foreign_keys (es_table e)) t = Ret v" "topo_reachable v"
      "nodes t \<subseteq> nodes v" "nodes v \<subseteq> nodes t \<union> {info_name e} \<union> set (info_refs e)"
      "edges v = edges t \<union> {(r, info_name e) | r. r \<in> set (info_refs e) \<and> r \<noteq> info_name e}"
    by (auto simp: info_refs_def image_image)
  have sub: "info_name ` set es \<subseteq> nodes v" "list_all info_ok es" using Cons.prems v(3) by auto
  from Cons.IH[OF sub(2) v(2) sub(1)] obtain u where u: "add_all_references es v = Ret u"
    "topo_reachable u" "nodes v \<subseteq> nodes u"
    "nodes u \<subseteq> nodes v \<union> (\<Union>e\<in>set es. set (info_refs e))" "edges u = edges v \<union> fk_graph es"
    by blast
  have "nodes u \<subseteq> nodes t \<union> (\<Union>x\<in>set (e # es). set (info_refs x))"
    using v(4) u(4) Cons.prems(3) by auto
  moreover have "edges u = edges t \<union> fk_graph (e # es)"
    unfolding u(5) v(5) by (auto simp: fk_graph_def)
  moreover have "nodes t \<subseteq> nodes u" using v(3) u(3) by (rule subset_trans)
  ultimately show ?case using u(1,2) v(1) Cons.prems(1) by (simp add: info_okD)
qed (simp add: fk_graph_def)

text \<open>The pop loop ends, and is a run of the sorter.\<close>

lemma pop_loop_runs:
  assumes "\<And>t. hm_same t (shuffle t)" "topo_inv t"
  shows "\<exists>ks w w'. pop_loop shuffle t out = Some (Ret (out @ ks)) \<and> pops t ks w \<and> pop w = Ret (None, w')"
  using assms(2)
proof (induction "card (nodes t)" arbitrary: t out rule: less_induct)
  case less
  have inv: "topo_inv (shuffle t)" using assms(1)[of t] less.prems by (rule hm_same_inv)
  have graph: "nodes (shuffle t) = nodes t"
    using hm_same_graph[OF assms(1)[of t]] topo_invD(1)[OF less.prems] by simp
  from inv show ?case
  proof (cases rule: pop_cases)
    case stuck
    then have "pop_loop shuffle t out = Some (Ret (out @ []))"
      by (subst pop_loop.simps) simp
    with stuck pops_refl[OF assms(1)[of t]] show ?thesis by blast
  next
    case (popped k v)
    have "card (nodes v) < card (nodes t)"
      using popped(2,5) graph finite_nodes[of t] by (metis card_Diff1_less)
    from less.hyps[OF this popped(4), of "out @ [k]"] obtain ks w w' where
      "pop_loop shuffle v (out @ [k]) = Some (Ret ((out @ [k]) @ ks))" "pops v ks w" "pop w = Ret (None, w')"
      by blast
    moreover from this(2) have "pops t (k # ks) w"
      by (rule pops_step[OF assms(1)[of t] popped(1)])
    moreover have "pop_loop shuffle t out = pop_loop shuffle v (out @ [k])"
      using popped(1) by (subst pop_loop.simps) simp
    ultimately show ?thesis by (intro exI[of _ "k # ks"]) auto
  qed
qed

lemma push_leftover_ok:
  assumes "list_all info_ok es"
  shows "\<exists>rest. push_leftover es out = Ret (out @ rest) \<and>
    set (out @ rest) = set out \<union> info_name ` set es \<and> (distinct out \<longrightarrow> distinct (out @ rest))"
  using assms
proof (induction es arbitrary: out)
  case (Cons e es)
  let ?out = "if info_name e \<in> set out then out else out @ [info_name e]"
  from Cons.IH[of ?out] Cons.prems obtain rest where rest: "push_leftover es ?out = Ret (?out @ rest)"
    "set (?out @ rest) = set ?out \<union> info_name ` set es" "distinct ?out \<longrightarrow> distinct (?out @ rest)"
    by auto
  have "push_leftover (e # es) out = Ret (?out @ rest)" using rest(1) Cons.prems by (simp add: info_okD)
  moreover have "?out @ rest = out @ ((if info_name e \<in> set out then [] else [info_name e]) @ rest)"
    by simp
  ultimately show ?case using rest(2,3)
    by (intro exI[of _ "(if info_name e \<in> set out then [] else [info_name e]) @ rest"])
      (auto split: if_splits)
qed simp

lemma sorted_tables_run:
  assumes "list_all info_ok es" "\<And>t. hm_same t (shuffle t)"
  obtains t ks w w' where "topo_reachable t" "edges t = fk_graph es" "info_name ` set es \<subseteq> nodes t"
    "nodes t \<subseteq> info_name ` set es \<union> (\<Union>e\<in>set es. set (info_refs e))"
    "pops t ks w" "pop w = Ret (None, w')"
    "sorted_tables shuffle es = (if length ks \<noteq> length es then push_leftover es ks else Ret ks)"
proof -
  obtain t0 where t0: "insert_tables es topo_new = Ret t0" "topo_reachable t0"
    "nodes t0 = nodes topo_new \<union> info_name ` set es" "edges t0 = edges topo_new"
    using insert_tables_ok[OF assms(1) topo_reachable.start] by blast
  have new: "nodes topo_new = {}" "edges topo_new = {}"
    by (simp_all add: topo_new_def nodes_def edges_def hm_simps)
  from add_all_references_ok[OF assms(1) t0(2)] t0(3) obtain t where t: "add_all_references es t0 = Ret t"
    "topo_reachable t" "nodes t0 \<subseteq> nodes t"
    "nodes t \<subseteq> nodes t0 \<union> (\<Union>e\<in>set es. set (info_refs e))" "edges t = edges t0 \<union> fk_graph es"
    by auto
  from pop_loop_runs[where shuffle = shuffle, OF assms(2) topo_reachable_inv[OF t(2)], of "[]"] obtain ks w w' where
    run: "pop_loop shuffle t [] = Some (Ret ([] @ ks))" "pops t ks w" "pop w = Ret (None, w')"
    by blast
  have "sorted_tables shuffle es = (if length ks \<noteq> length es then push_leftover es ks else Ret ks)"
    unfolding sorted_tables_def t0(1) run_bind.simps t(1) run(1) by simp
  with t run(2,3) t0 new show ?thesis by (intro that[of t ks w w']) auto
qed

text \<open>C13. When the foreign keys between different tables form no cycle, the tables are ordered so that
  every referenced table comes before the tables that reference it, each table once, whatever the
  order of the hash map.\<close>

theorem tables_sorted_by_references:
  assumes "list_all info_ok es" "acyclic (fk_graph es)" "\<And>t. hm_same t (shuffle t)"
  shows "\<exists>out. sorted_tables shuffle es = Ret out \<and> distinct out \<and> info_name ` set es \<subseteq> set out \<and>
    (\<forall>i<length out. \<forall>r. (r, out ! i) \<in> fk_graph es \<longrightarrow> r \<in> set (take i out))"
proof -
  obtain t ks w w' where t: "topo_reachable t" "edges t = fk_graph es" "info_name ` set es \<subseteq> nodes t"
    "nodes t \<subseteq> info_name ` set es \<union> (\<Union>e\<in>set es. set (info_refs e))"
    "pops t ks w" "pop w = Ret (None, w')"
    "sorted_tables shuffle es = (if length ks \<noteq> length es then push_leftover es ks else Ret ks)"
    by (rule sorted_tables_run[where shuffle = shuffle, OF assms(1,3)])
  have ks: "distinct ks" "set ks = nodes t"
    "\<forall>i<length ks. \<forall>p. (p, ks ! i) \<in> edges t \<longrightarrow> p \<in> set (take i ks)"
    using topology_run[OF t(1) _ t(5,6)] assms(2) t(2) by auto
  have "push_leftover fs ks = Ret ks" if "list_all info_ok fs" "info_name ` set fs \<subseteq> set ks" for fs
    using that by (induction fs) (auto simp: info_okD)
  with t(3,7) ks assms(1) have "sorted_tables shuffle es = Ret ks" by simp
  with ks t(2,3) show ?thesis by auto
qed

text \<open>C14. When every foreign key references a registered table, every registered table is in the
  result exactly once, cycles or not.\<close>

theorem no_table_is_lost:
  assumes "list_all info_ok es" "distinct (map info_name es)"
    and "list_all (\<lambda>e. set (info_refs e) \<subseteq> info_name ` set es) es" "\<And>t. hm_same t (shuffle t)"
  shows "\<exists>out. sorted_tables shuffle es = Ret out \<and> distinct out \<and> set out = info_name ` set es"
proof -
  obtain t ks w w' where t: "topo_reachable t" "edges t = fk_graph es" "info_name ` set es \<subseteq> nodes t"
    "nodes t \<subseteq> info_name ` set es \<union> (\<Union>e\<in>set es. set (info_refs e))"
    "pops t ks w" "pop w = Ret (None, w')"
    "sorted_tables shuffle es = (if length ks \<noteq> length es then push_leftover es ks else Ret ks)"
    by (rule sorted_tables_run[where shuffle = shuffle, OF assms(1,4)])
  have nodes: "nodes t = info_name ` set es"
  proof -
    have "(\<Union>e\<in>set es. set (info_refs e)) \<subseteq> info_name ` set es"
      using assms(3) by (simp only: list_all_iff UN_subset_iff)
    with t(3,4) show ?thesis by blast
  qed
  have ks: "distinct ks" "set ks \<subseteq> info_name ` set es"
    using pops_order[OF t(5) topo_reachable_inv[OF t(1)]] nodes by auto
  show ?thesis
  proof (cases "length ks = length es")
    case True
    have "card (info_name ` set es) = length es" using assms(2) by (metis distinct_card length_map set_map)
    with True ks have "set ks = info_name ` set es"
      by (metis card_subset_eq distinct_card finite_imageI finite_set)
    with True t(7) ks(1) show ?thesis by auto
  next
    case False
    obtain rest where "push_leftover es ks = Ret (ks @ rest)"
      "set (ks @ rest) = set ks \<union> info_name ` set es" "distinct ks \<longrightarrow> distinct (ks @ rest)"
      using push_leftover_ok[OF assms(1), of ks] by blast
    with False t(7) ks show ?thesis by auto
  qed
qed

definition bare_table :: "string \<Rightarrow> table_ref" where
  "bare_table n = TableRef (TableName None n) None"

definition example_entity :: "string \<Rightarrow> string list \<Rightarrow> entity_schema_info" where
  "example_entity n refs =
    \<lparr>es_table = \<lparr>td_table = Some (bare_table n), td_comment = None, td_columns = [], td_indexes = [],
       td_foreign_keys = map (\<lambda>r. \<lparr>fk_key_name = Some (''fk-'' @ n @ ''-'' @ r),
         fk_from_tbl = Some (bare_table n), fk_ref_tbl = Some (bare_table r), fk_columns = [r],
         fk_ref_columns = [''id''], fk_on_delete = None, fk_on_update = None\<rparr>) refs\<rparr>,
     es_enums = [], es_indexes = [], es_schema = None\<rparr>"

lemma example_entity_facts:
  "info_ok (example_entity n refs)" "info_name (example_entity n refs) = TableName None n"
  "info_refs (example_entity n refs) = map (TableName None) refs"
  by (simp_all add: example_entity_def info_ok_def info_name_def info_refs_def ref_table_name_def
      bare_table_def list_all_iff)

theorem tables_sorted_by_references_witness:
  "\<exists>out. sorted_tables (\<lambda>t. t) [example_entity ''fruit'' [''cake''], example_entity ''cake'' []] = Ret out \<and>
    distinct out \<and> {TableName None ''fruit'', TableName None ''cake''} \<subseteq> set out"
proof -
  let ?es = "[example_entity ''fruit'' [''cake''], example_entity ''cake'' []]"
  have "fk_graph ?es = {(TableName None ''cake'', TableName None ''fruit'')}"
    by (auto simp: fk_graph_def example_entity_facts)
  then have "acyclic (fk_graph ?es)"
    by (auto simp: acyclic_def dest: tranclD tranclD2)
  with tables_sorted_by_references[of ?es "\<lambda>t. t"] show ?thesis
    by (auto simp: example_entity_facts hm_same_def)
qed

theorem no_table_is_lost_witness:
  "\<exists>out. sorted_tables rev [example_entity ''a'' [''b''], example_entity ''b'' [''a'']] = Ret out \<and>
    set out = {TableName None ''a'', TableName None ''b''}"
  using no_table_is_lost[of "[example_entity ''a'' [''b''], example_entity ''b'' [''a'']]" rev]
  by (auto simp: example_entity_facts hm_same_def)

text \<open>Two tables that reference each other are never popped.\<close>

lemma pops_skip_cycle:
  assumes "pops t ks w" "topo_inv t" "(a, b) \<in> edges t" "(b, a) \<in> edges t"
  shows "a \<notin> set ks"
proof
  have order: "p \<in> set (take i ks)" if "i < length ks" "(p, ks ! i) \<in> edges t" for i p
    using pops_order[OF assms(1,2)] that by blast
  have dist: "distinct ks" using pops_order[OF assms(1,2)] by blast
  assume "a \<in> set ks"
  then obtain i where i: "i < length ks" "ks ! i = a" by (auto simp: in_set_conv_nth)
  then have "b \<in> set (take i ks)" using order assms(4) by simp
  then obtain j where j: "j < i" "ks ! j = b" using i by (auto simp: in_set_conv_nth)
  then have "a \<in> set (take j ks)" using order[of j a] assms(3) i by simp
  then obtain k where "k < j" "ks ! k = a" using i j by (auto simp: in_set_conv_nth)
  with dist i j show False by (auto simp: nth_eq_iff_index_eq)
qed

lemma three_of_five:
  "c \<in> A \<Longrightarrow> A \<subseteq> {a, b, c, x, y} \<Longrightarrow> x \<in> A \<Longrightarrow> y \<in> A \<Longrightarrow> a \<notin> A \<Longrightarrow> b \<notin> A \<Longrightarrow> A = {c, x, y}"
  by blast

text \<open>Tables can be lost: two registered tables that reference each other, and a third that
  references two tables that are not registered. The sorter yields three names, as many as there
  are entities, so the leftover tables are not added, whatever the hash order is.\<close>

theorem cyclic_tables_lost:
  assumes "\<And>t. hm_same t (shuffle t)"
  shows "\<exists>out. sorted_tables shuffle [example_entity ''a'' [''b''], example_entity ''b'' [''a''],
      example_entity ''c'' [''x'', ''y'']] = Ret out \<and>
    TableName None ''a'' \<notin> set out \<and> TableName None ''b'' \<notin> set out"
proof -
  let ?N = "TableName None"
  let ?es = "[example_entity ''a'' [''b''], example_entity ''b'' [''a''], example_entity ''c'' [''x'', ''y'']]"
  have ok: "list_all info_ok ?es" by (simp add: example_entity_facts)
  have graph: "fk_graph ?es = {(?N ''b'', ?N ''a''), (?N ''a'', ?N ''b''), (?N ''x'', ?N ''c''), (?N ''y'', ?N ''c'')}"
    by (auto simp: fk_graph_def example_entity_facts)
  obtain t ks w w' where t: "topo_reachable t" "edges t = fk_graph ?es" "info_name ` set ?es \<subseteq> nodes t"
    "nodes t \<subseteq> info_name ` set ?es \<union> (\<Union>e\<in>set ?es. set (info_refs e))"
    "pops t ks w" "pop w = Ret (None, w')"
    "sorted_tables shuffle ?es = (if length ks \<noteq> length ?es then push_leftover ?es ks else Ret ks)"
    by (rule sorted_tables_run[where shuffle = shuffle, OF ok assms])
  have inv: "topo_inv t" by (rule topo_reachable_inv[OF t(1)])
  have run: "topo_inv w" "distinct ks" "nodes t = set ks \<union> nodes w" "set ks \<inter> nodes w = {}"
    "edges w = {e \<in> edges t. fst e \<notin> set ks}"
    using pops_order[OF t(5) inv] by blast+
  have stuck: "\<exists>p. (p, k) \<in> edges w" if "k \<in> nodes w" for k
    using run(1) that t(6) by (cases rule: pop_cases) auto
  have lost: "?N ''a'' \<notin> set ks" "?N ''b'' \<notin> set ks"
    using pops_skip_cycle[OF t(5) inv, of "?N ''a''" "?N ''b''"]
      pops_skip_cycle[OF t(5) inv, of "?N ''b''" "?N ''a''"] t(2) graph by auto
  have nodes: "nodes t = {?N ''a'', ?N ''b'', ?N ''c'', ?N ''x'', ?N ''y''}"
  proof -
    have "{?N ''x'', ?N ''y''} \<subseteq> nodes t" using topo_invD(2)[OF inv] t(2) graph by auto
    with t(3,4) show ?thesis by (auto simp: example_entity_facts)
  qed
  have popped: "k \<in> set ks" if "k \<in> nodes t" "\<And>p. (p, k) \<in> edges t \<Longrightarrow> p \<in> set ks" for k
    using that run(3,5) stuck[of k] by auto
  have x: "?N ''x'' \<in> set ks" "?N ''y'' \<in> set ks"
    by (rule popped; simp add: nodes t(2) graph)+
  have "?N ''c'' \<in> set ks"
    by (rule popped) (use x in \<open>auto simp: nodes t(2) graph\<close>)
  moreover have "set ks \<subseteq> {?N ''a'', ?N ''b'', ?N ''c'', ?N ''x'', ?N ''y''}"
    unfolding nodes[symmetric] run(3) by (rule Un_upper1)
  ultimately have "set ks = {?N ''c'', ?N ''x'', ?N ''y''}"
    using x lost by (intro three_of_five)
  then have "length ks = 3" using distinct_card[OF run(2)] by simp
  with t(7) lost show ?thesis by simp
qed

theorem cyclic_tables_lost_witness:
  "\<exists>out. sorted_tables rev [example_entity ''a'' [''b''], example_entity ''b'' [''a''],
      example_entity ''c'' [''x'', ''y'']] = Ret out \<and> TableName None ''a'' \<notin> set out"
  using cyclic_tables_lost[of rev] by (auto simp: hm_same_def)

section \<open>The plan of a synchronisation\<close>

definition enum_plan :: "(enum_def \<Rightarrow> 'b) \<Rightarrow> enum_def list \<Rightarrow> enum_def \<Rightarrow> 'b list \<Rightarrow> ddl list" where
  "enum_plan build existing stmt created =
    (if build stmt \<in> build ` set existing \<or> build stmt \<in> set created then [] else [CreateType stmt])"

definition enum_created :: "(enum_def \<Rightarrow> 'b) \<Rightarrow> enum_def list \<Rightarrow> enum_def \<Rightarrow> 'b list \<Rightarrow> 'b list" where
  "enum_created build existing stmt created =
    (if build stmt \<in> build ` set existing \<or> build stmt \<in> set created then created
     else created @ [build stmt])"

definition has_column :: "string \<Rightarrow> table_def \<Rightarrow> bool" where
  "has_column name t \<longleftrightarrow> (\<exists>c\<in>set (td_columns t). cd_name c = name)"

definition column_plan :: "table_ref \<Rightarrow> table_def \<Rightarrow> column_def \<Rightarrow> ddl list" where
  "column_plan tbl t col =
    (if has_column (cd_name col) t then []
     else if renamed_from_of (cd_comment col) = [] then [AddColumn tbl col]
     else [RenameColumn tbl (renamed_from_of (cd_comment col)) (cd_name col)])"

definition foreign_key_plan :: "table_def \<Rightarrow> foreign_key \<Rightarrow> ddl list" where
  "foreign_key_plan t fk =
    (if list_ex (compare_foreign_key fk) (td_foreign_keys t) then [] else [CreateForeignKey fk])"

definition index_plan :: "table_def option \<Rightarrow> index_def \<Rightarrow> ddl list" where
  "index_plan existing stmt =
    (if (\<exists>t. existing = Some t \<and> idx_cols stmt \<in> idx_cols ` set (td_indexes t)) then []
     else [CreateIndex (stmt\<lparr>idx_if_not_exists := True\<rparr>)])"

definition has_unique :: "string \<Rightarrow> table_def \<Rightarrow> bool" where
  "has_unique name t \<longleftrightarrow> (\<exists>i\<in>set (td_indexes t). idx_unique i \<and> idx_cols i = [name])"

definition unique_plan :: "table_ref \<Rightarrow> db_backend \<Rightarrow> table_def \<Rightarrow> column_def \<Rightarrow> ddl list" where
  "unique_plan tbl backend t col =
    (if cd_unique col \<and> has_column (cd_name col) t \<and> \<not> has_unique (cd_name col) t
     then [CreateIndex \<lparr>idx_name = Some (''idx-'' @ sea_orm_table tbl @ ''-'' @ cd_name col),
       idx_table = Some (index_table_ref tbl backend), idx_cols = [cd_name col],
       idx_unique = True, idx_primary = False, idx_if_not_exists = True\<rparr>]
     else [])"

text \<open>The column lists an entity declares an index or a unique constraint for.\<close>

definition declares :: "entity_schema_info \<Rightarrow> string list \<Rightarrow> bool" where
  "declares e cols \<longleftrightarrow> cols \<in> idx_cols ` set (es_indexes e) \<or>
    (\<exists>c\<in>set (td_columns (es_table e)). cols = [cd_name c] \<and> cd_unique c)"

definition drop_plan :: "table_ref \<Rightarrow> db_backend \<Rightarrow> entity_schema_info \<Rightarrow> index_def \<Rightarrow> ddl list" where
  "drop_plan tbl backend e i =
    (case idx_name i of
       Some n \<Rightarrow> (if idx_unique i \<and> \<not> declares e (idx_cols i)
           then [if backend = Postgres then DropConstraint tbl n else DropIndex n] else [])
     | None \<Rightarrow> [])"

definition sync_plan :: "table_ref \<Rightarrow> db_backend \<Rightarrow> entity_schema_info \<Rightarrow> table_def option \<Rightarrow> ddl list" where
  "sync_plan tbl backend e existing =
    (case existing of
       None \<Rightarrow> CreateTable (es_table e) # concat (map (index_plan None) (es_indexes e))
     | Some t \<Rightarrow>
         concat (map (column_plan tbl t) (td_columns (es_table e))) @
         (if backend \<noteq> Sqlite then concat (map (foreign_key_plan t) (td_foreign_keys (es_table e))) else []) @
         concat (map (index_plan (Some t)) (es_indexes e)) @
         concat (map (unique_plan tbl backend t) (td_columns (es_table e))) @
         concat (map (drop_plan tbl backend e) (td_indexes t)))"

lemma sync_enum_plan:
  "sync_enum exec build existing stmt created =
    act_bind (run_stmts exec (enum_plan build existing stmt created))
      (\<lambda>_. act_ret (enum_created build existing stmt created))"
  by (auto simp: sync_enum_def enum_plan_def enum_created_def run_stmts_single list_ex_iff image_iff Let_def)

lemma sync_column_plan:
  assumes "td_table table = Some tbl"
  shows "sync_column exec table t col = run_stmts exec (column_plan tbl t col)"
proof (cases "find (\<lambda>c. cd_name c = cd_name col) (td_columns t)")
  case None
  then have "\<not> has_column (cd_name col) t" by (auto simp: find_None_iff has_column_def)
  with None assms show ?thesis
    by (simp add: sync_column_def column_plan_def run_stmts_single Let_def)
next
  case (Some c)
  then have "has_column (cd_name col) t" by (auto simp: find_Some_iff has_column_def)
  with Some show ?thesis by (simp add: sync_column_def column_plan_def)
qed

lemma sync_foreign_key_plan:
  "sync_foreign_key exec t fk = run_stmts exec (foreign_key_plan t fk)"
  by (simp add: sync_foreign_key_def foreign_key_plan_def run_stmts_single)

lemma sync_index_plan: "sync_index exec existing stmt = run_stmts exec (index_plan existing stmt)"
  by (auto simp: sync_index_def index_plan_def run_stmts_single list_ex_iff image_iff Let_def
      split: option.splits)

lemma single_unique_iff: "single_unique n i \<longleftrightarrow> idx_unique i \<and> idx_cols i = [n]"
  by (cases "idx_cols i") (auto simp: single_unique_def)

lemma sync_unique_plan:
  assumes "td_table table = Some tbl"
  shows "sync_unique_column exec backend table t col = run_stmts exec (unique_plan tbl backend t col)"
proof -
  have "list_ex (\<lambda>c. cd_name c = cd_name col) (td_columns t) \<longleftrightarrow> has_column (cd_name col) t"
    by (auto simp: list_ex_iff has_column_def)
  moreover have "list_ex (single_unique (cd_name col)) (td_indexes t) \<longleftrightarrow> has_unique (cd_name col) t"
    by (auto simp: list_ex_iff has_unique_def single_unique_iff)
  ultimately show ?thesis
    using assms by (simp add: sync_unique_column_def unique_plan_def run_stmts_single Let_def)
qed

lemma sync_drop_plan:
  assumes "td_table (es_table e) = Some tbl"
  shows "sync_drop_index exec backend e i = run_stmts exec (drop_plan tbl backend e i)"
proof -
  let ?by_index = "list_ex (\<lambda>stmt. idx_cols i = idx_cols stmt) (es_indexes e)"
  have "(if \<not> ?by_index then if length (idx_cols i) = 1
        then list_ex (\<lambda>c. cd_name c = idx_cols i ! 0 \<and> cd_unique c) (td_columns (es_table e))
        else ?by_index else ?by_index) \<longleftrightarrow> declares e (idx_cols i)"
    by (cases "idx_cols i" rule: remdups_adj.cases) (auto simp: declares_def list_ex_iff image_iff)
  then show ?thesis
    using assms unfolding sync_drop_index_def drop_plan_def Let_def
    by (auto simp: run_stmts_single split: option.splits)
qed

lemma act_each_plan:
  "(\<And>x. x \<in> set xs \<Longrightarrow> f x = run_stmts exec (g x)) \<Longrightarrow>
    act_each f xs = run_stmts exec (concat (map g xs))"
  using act_each_cong[of xs f "\<lambda>x. run_stmts exec (g x)"] act_each_run_stmts[of exec g xs] by simp

text \<open>C15. \<open>sync\<close> of an entity executes exactly its plan, in order, and stops at the first statement
  the database refuses: first the enums that neither the database nor an earlier entity has, then
  the plan of the table.\<close>

theorem sync_executes_plan:
  assumes "td_table (es_table e) = Some tbl" "find_table existing (es_schema e) (info_name e) = Ret found"
  shows "entity_sync exec build backend existing e created =
    act_bind (run_stmts exec
        (emitted (enum_plan build (find_enums existing (es_schema e))) (enum_created build (find_enums existing (es_schema e)))
          (es_enums e) created @ sync_plan tbl backend e found))
      (\<lambda>_. act_ret (fold (enum_created build (find_enums existing (es_schema e))) (es_enums e) created))"
proof -
  have name: "get_table_name (td_table (es_table e)) = Ret (info_name e)"
    using assms(1) by (simp add: info_name_def get_table_name_Some)
  have enums: "act_fold (sync_enum exec build ex) es cs =
      act_bind (run_stmts exec (emitted (enum_plan build ex) (enum_created build ex) es cs))
        (\<lambda>_. act_ret (fold (enum_created build ex) es cs))" for ex es cs
    unfolding sync_enum_plan[abs_def] by (rule act_fold_run_stmts)
  have columns: "act_each (sync_column exec (es_table e) t) cs = run_stmts exec (concat (map (column_plan tbl t) cs))" for t cs
    by (rule act_each_plan) (rule sync_column_plan[OF assms(1)])
  have fks: "act_each (sync_foreign_key exec t) fs = run_stmts exec (concat (map (foreign_key_plan t) fs))" for t fs
    by (rule act_each_plan) (rule sync_foreign_key_plan)
  have indexes: "act_each (sync_index exec t) is = run_stmts exec (concat (map (index_plan t) is))" for t "is"
    by (rule act_each_plan) (rule sync_index_plan)
  have uniques: "act_each (sync_unique_column exec backend (es_table e) t) cs = run_stmts exec (concat (map (unique_plan tbl backend t) cs))" for t cs
    by (rule act_each_plan) (rule sync_unique_plan[OF assms(1)])
  have drops: "act_each (sync_drop_index exec backend e) is = run_stmts exec (concat (map (drop_plan tbl backend e) is))" for "is"
    by (rule act_each_plan) (rule sync_drop_plan[OF assms(1)])
  show ?thesis
    by (cases found)
      (simp_all add: entity_sync_def name assms(2) enums columns fks indexes uniques drops sync_plan_def
        run_stmts_append run_stmts_Cons act_bind_assoc)
qed



theorem sync_executes_plan_witness:
  "entity_sync (\<lambda>stmt w. (Inr (), w @ [stmt])) (\<lambda>x. x) Postgres
      \<lparr>ds_current = ''public'', ds_tables = [], ds_enums = []\<rparr> (example_entity ''fruit'' [''cake'']) [] [] =
    Ret (Inr [], [CreateTable (es_table (example_entity ''fruit'' [''cake'']))])"
  using sync_executes_plan[of "example_entity ''fruit'' [''cake'']" "bare_table ''fruit''"
      "\<lparr>ds_current = ''public'', ds_tables = [], ds_enums = []\<rparr>" None
      "\<lambda>stmt w. (Inr (), w @ [stmt])" "\<lambda>x. x" Postgres "[]"]
  by (simp add: example_entity_def find_table_def hm_simps sync_plan_def run_stmts_single act_bind_def
      act_io_def act_ret_def)

text \<open>What \<open>sync\<close> drops: exactly the named unique indexes of the existing table over columns the
  entity declares neither an index nor a unique constraint for.\<close>

lemma sync_drops_undeclared_uniques:
  "{n. DropIndex n \<in> set (sync_plan tbl backend e (Some t)) \<or>
       (\<exists>r. DropConstraint r n \<in> set (sync_plan tbl backend e (Some t)))} =
   {n. \<exists>i\<in>set (td_indexes t). idx_name i = Some n \<and> idx_unique i \<and> \<not> declares e (idx_cols i)}"
proof -
  have drops: "x \<in> set (sync_plan tbl backend e (Some t)) \<longleftrightarrow>
      (\<exists>i\<in>set (td_indexes t). x \<in> set (drop_plan tbl backend e i))"
    if "\<And>c. x \<notin> set (column_plan tbl t c)" "\<And>k. x \<notin> set (foreign_key_plan t k)"
      "\<And>i. x \<notin> set (index_plan (Some t) i)" "\<And>c. x \<notin> set (unique_plan tbl backend t c)" for x
    using that by (auto simp: sync_plan_def)
  have i: "DropIndex n \<in> set (sync_plan tbl backend e (Some t)) \<longleftrightarrow>
      (\<exists>i\<in>set (td_indexes t). DropIndex n \<in> set (drop_plan tbl backend e i))" for n
    by (rule drops) (auto simp: column_plan_def foreign_key_plan_def index_plan_def unique_plan_def)
  have c: "DropConstraint r n \<in> set (sync_plan tbl backend e (Some t)) \<longleftrightarrow>
      (\<exists>i\<in>set (td_indexes t). DropConstraint r n \<in> set (drop_plan tbl backend e i))" for r n
    by (rule drops) (auto simp: column_plan_def foreign_key_plan_def index_plan_def unique_plan_def)
  have one: "(DropIndex n \<in> set (drop_plan tbl backend e i) \<or>
      (\<exists>r. DropConstraint r n \<in> set (drop_plan tbl backend e i))) \<longleftrightarrow>
      idx_name i = Some n \<and> idx_unique i \<and> \<not> declares e (idx_cols i)" for n i
    by (cases "idx_name i") (auto simp: drop_plan_def)
  show ?thesis unfolding i c using one by blast
qed

section \<open>Renamed columns\<close>

text \<open>The comment written for a renamed column is read back by \<open>sync\<close>: the old name, whatever
  the column's own comment says, when the old name contains no quote and does not end in the
  marker's words.\<close>

theorem renamed_from_roundtrip:
  assumes "CHR 0x22 \<notin> set old" "\<not> suffix ''renamed_from '' old"
  shows "renamed_from_of (column_comment (Some old) comment) = old"
proof -
  let ?mark = "''renamed_from ''" and ?q = "CHR 0x22"
  have split: "split_once quote_char (old @ quote_char) = Some (old, [])"
    using split_once_char[OF assms(1), of "[]"] by (simp add: quote_char_def)
  have not_inside: "tl ((?mark @ quote_char) @ old @ quote_char) \<noteq> a @ (?mark @ quote_char) @ b" for a b
  proof
    assume "tl ((?mark @ quote_char) @ old @ quote_char) = a @ (?mark @ quote_char) @ b"
    then have "''enamed_from '' @ ?q # old @ [?q] = (a @ ?mark) @ ?q # b" by (simp add: quote_char_def)
    from two_occurrences[OF this _ assms(1)]
    have "a @ ?mark = ''enamed_from '' \<or> a @ ?mark = (''enamed_from '' @ [?q]) @ old" by auto
    then show False
    proof
      assume "a @ ?mark = ''enamed_from ''"
      then have "length (a @ ?mark) = length ''enamed_from ''" by simp
      then show False by simp
    next
      assume eq: "a @ ?mark = (''enamed_from '' @ [?q]) @ old"
      then consider us where "a = (''enamed_from '' @ [?q]) @ us" "us @ ?mark = old"
        | us where "?mark = us @ old" "a @ us = ''enamed_from '' @ [?q]"
        by (auto simp only: append_eq_append_conv2)
      then show False
      proof cases
        case 1
        with assms(2) show False by (auto simp: suffix_def)
      next
        case 2
        have "?q \<notin> set (us @ old)" unfolding 2(1)[symmetric] by simp
        then have "?q \<notin> set us" by (simp add: set_append)
        moreover have "last us = ?q" if "us \<noteq> []"
          using that arg_cong[OF 2(2), of last] by simp
        ultimately have "us = []" using last_in_set[of us] by metis
        with 2(1) assms(2) show False by (simp add: suffix_def)
      qed
    qed
  qed
  have "?mark @ quote_char \<noteq> []" by simp
  from rsplit_once_None[OF this] not_inside
  have none: "rsplit_once (?mark @ quote_char) (tl ((?mark @ quote_char) @ old @ quote_char)) = None"
    by metis
  have "rsplit_once (?mark @ quote_char) (c @ (?mark @ quote_char) @ old @ quote_char) = Some (c, old @ quote_char)" for c
    by (rule rsplit_once_last[OF _ none]) simp
  note found = this[of "[]"] this[of "c @ ''; ''" for c]
  show ?thesis
    using found split by (cases comment) (simp_all add: renamed_from_of_def)
qed

theorem renamed_from_roundtrip_witness:
  "renamed_from_of (column_comment (Some ''mail'') (Some ''was renamed_from once'')) = ''mail''"
  using renamed_from_roundtrip[of "''mail''" "Some ''was renamed_from once''"]
  by (simp add: suffix_def)

text \<open>The entity of the next theorem: a table with one unique column \<open>email\<close>, renamed from \<open>mail\<close>;
  in the database the column is still \<open>mail\<close>, with its unique index.\<close>

definition email_column :: orm_column where
  "email_column = \<lparr>oc_name = ''email'', oc_type = PlainType ''text'', oc_null = False, oc_unique = True,
    oc_indexed = False, oc_unique_key = None, oc_default = None, oc_comment = None, oc_extra = None,
    oc_renamed_from = Some ''mail''\<rparr>"

definition user_entity :: schema_entity where
  "user_entity = \<lparr>se_name = ''user'', se_table = bare_table ''user'', se_comment = None,
    se_columns = [email_column], se_primary_key = [], se_pk_arity = 0, se_auto_increment = False,
    se_relations = [], se_schema_name = None\<rparr>"

definition mail_table :: table_def where
  "mail_table = \<lparr>td_table = Some (bare_table ''user''), td_comment = None,
    td_columns = [\<lparr>cd_name = ''mail'', cd_type = PlainType ''text'', cd_not_null = True, cd_unique = True,
      cd_default = None, cd_comment = None, cd_extra = None, cd_auto_increment = False,
      cd_primary_key = False\<rparr>],
    td_indexes = [\<lparr>idx_name = Some ''user_mail_key'', idx_table = Some (bare_table ''user''),
      idx_cols = [''mail''], idx_unique = True, idx_primary = False, idx_if_not_exists = False\<rparr>],
    td_foreign_keys = []\<rparr>"

text \<open>Synchronising a unique column that was renamed renames it and drops its unique
  constraint: the plan adds no new one.\<close>

theorem rename_loses_uniqueness:
  "sync_plan (bare_table ''user'') Postgres (entity_schema_info_new user_entity Postgres) (Some mail_table) =
    [RenameColumn (bare_table ''user'') ''mail'' ''email'',
     DropConstraint (bare_table ''user'') ''user_mail_key'']"
proof -
  let ?col = "column_def_from_entity_column user_entity email_column Postgres"
  have col: "cd_name ?col = ''email''" "cd_unique ?col" "cd_comment ?col = column_comment (Some ''mail'') None"
    by (simp_all add: column_def_from_entity_column_def user_entity_def email_column_def)
  have info: "es_table (entity_schema_info_new user_entity Postgres) = create_table_from_entity user_entity Postgres"
    "td_columns (create_table_from_entity user_entity Postgres) = [?col]"
    "td_foreign_keys (create_table_from_entity user_entity Postgres) = []"
    "es_indexes (entity_schema_info_new user_entity Postgres) = []"
    by (simp_all add: entity_schema_info_new_def create_table_from_entity_def user_entity_def
        create_index_eq index_step_def email_column_def)
  have "renamed_from_of (cd_comment ?col) = ''mail''"
    unfolding col(3) by code_simp
  with info col show ?thesis
    by (simp add: sync_plan_def column_plan_def unique_plan_def drop_plan_def declares_def has_column_def
        mail_table_def)
qed

end
