(* ===== verification/MockDatabase.thy ===== *)
theory MockDatabase
  imports DbIo "HOL-Library.List_Lexorder" "HOL-Library.Char_ord"
begin

text \<open>
  \<open>src/database/mock.rs\<close> and \<open>src/driver/mock.rs\<close>: the scripted in-memory database. A
  \<open>MockDatabase\<close> keeps its queued results, the log of completed transactions and the open
  transaction with its savepoint depth; a \<open>MockDatabaseConnection\<close> adds the two counters and the
  lock, which a panic of an operation poisons. Values are a parameter.
\<close>

section \<open>Statements and transactions\<close>

record 'v statement =
  st_sql :: string
  st_values :: "'v list option"
  st_backend :: db_backend

definition from_string :: "db_backend \<Rightarrow> string \<Rightarrow> 'v statement" where
  "from_string backend s = \<lparr>st_sql = s, st_values = None, st_backend = backend\<rparr>"

definition from_string_values_tuple :: "db_backend \<Rightarrow> string \<times> 'v list \<Rightarrow> 'v statement" where
  "from_string_values_tuple backend sv = \<lparr>st_sql = fst sv, st_values = Some (snd sv), st_backend = backend\<rparr>"

record 'v transaction =
  tr_stmts :: "'v statement list"

definition transaction_one :: "'v statement \<Rightarrow> 'v transaction" where
  "transaction_one s = \<lparr>tr_stmts = [s]\<rparr>"

definition transaction_many :: "'v statement list \<Rightarrow> 'v transaction" where
  "transaction_many ss = \<lparr>tr_stmts = ss\<rparr>"

definition transaction_wrap :: "'v statement list \<Rightarrow> 'v transaction list" where
  "transaction_wrap ss = map transaction_one ss"

definition transaction_from_sql_and_values :: "db_backend \<Rightarrow> string \<Rightarrow> 'v list \<Rightarrow> 'v transaction" where
  "transaction_from_sql_and_values backend s vs = transaction_one (from_string_values_tuple backend (s, vs))"

record 'v open_transaction =
  ot_stmts :: "'v statement list"
  ot_depth :: nat

definition ot_init :: "'v open_transaction" where
  "ot_init = \<lparr>ot_stmts = [from_string Postgres ''BEGIN''], ot_depth = 0\<rparr>"

definition ot_push :: "'v statement \<Rightarrow> 'v open_transaction \<Rightarrow> 'v open_transaction" where
  "ot_push s t = t\<lparr>ot_stmts := ot_stmts t @ [s]\<rparr>"

definition savepoint_name :: "nat \<Rightarrow> string" where
  "savepoint_name d = ''savepoint_'' @ show_nat d"

definition ot_begin_nested :: "db_backend \<Rightarrow> 'v open_transaction \<Rightarrow> 'v open_transaction" where
  "ot_begin_nested backend t =
    (let t = t\<lparr>ot_depth := ot_depth t + 1\<rparr>
     in ot_push (from_string backend (''SAVEPOINT '' @ savepoint_name (ot_depth t))) t)"

definition ot_commit :: "db_backend \<Rightarrow> 'v open_transaction \<Rightarrow> bool \<times> 'v open_transaction" where
  "ot_commit backend t =
    (if ot_depth t = 0 then (True, ot_push (from_string backend ''COMMIT'') t)
     else (let t = ot_push (from_string backend (''RELEASE SAVEPOINT '' @ savepoint_name (ot_depth t))) t
           in (False, t\<lparr>ot_depth := ot_depth t - 1\<rparr>)))"

definition ot_rollback :: "db_backend \<Rightarrow> 'v open_transaction \<Rightarrow> bool \<times> 'v open_transaction" where
  "ot_rollback backend t =
    (if ot_depth t = 0 then (True, ot_push (from_string backend ''ROLLBACK'') t)
     else (let t = ot_push (from_string backend (''ROLLBACK TO SAVEPOINT '' @ savepoint_name (ot_depth t))) t
           in (False, t\<lparr>ot_depth := ot_depth t - 1\<rparr>)))"

definition into_transaction :: "'v open_transaction \<Rightarrow> 'v transaction run" where
  "into_transaction t =
    (if ot_depth t = 0 then Ret \<lparr>tr_stmts = ot_stmts t\<rparr>
     else Panic ''There is uncommitted nested transaction'')"

section \<open>The database\<close>

record mock_exec_result =
  last_insert_id :: "64 word"
  rows_affected :: "64 word"

text \<open>A row is a \<open>BTreeMap\<close>: the entries in column-name order.\<close>

record 'v mock_row =
  mr_values :: "(string \<times> 'v) list"

record 'v mock_database =
  md_backend :: db_backend
  md_transaction :: "'v open_transaction option"
  md_log :: "'v transaction list"
  md_exec_results :: "(mock_exec_result, db_err) result list"
  md_query_results :: "('v mock_row list, db_err) result list"

definition mock_new :: "db_backend \<Rightarrow> 'v mock_database" where
  "mock_new backend = \<lparr>md_backend = backend, md_transaction = None, md_log = [],
    md_exec_results = [], md_query_results = []\<rparr>"

definition append_exec_results :: "mock_exec_result list \<Rightarrow> 'v mock_database \<Rightarrow> 'v mock_database" where
  "append_exec_results rs m = m\<lparr>md_exec_results := md_exec_results m @ map Inr rs\<rparr>"

definition append_exec_errors :: "db_err list \<Rightarrow> 'v mock_database \<Rightarrow> 'v mock_database" where
  "append_exec_errors es m = m\<lparr>md_exec_results := md_exec_results m @ map Inl es\<rparr>"

definition append_query_results ::
  "('r \<Rightarrow> 'v mock_row) \<Rightarrow> 'r list list \<Rightarrow> 'v mock_database \<Rightarrow> 'v mock_database" where
  "append_query_results into_mock_row rows m =
    fold (\<lambda>row m. m\<lparr>md_query_results := md_query_results m @ [Inr (map into_mock_row row)]\<rparr>) rows m"

definition append_query_errors :: "db_err list \<Rightarrow> 'v mock_database \<Rightarrow> 'v mock_database" where
  "append_query_errors es m = m\<lparr>md_query_results := md_query_results m @ map Inl es\<rparr>"

definition log_statement :: "'v statement \<Rightarrow> 'v mock_database \<Rightarrow> 'v mock_database" where
  "log_statement s m =
    (case md_transaction m of
       Some t \<Rightarrow> m\<lparr>md_transaction := Some (ot_push s t)\<rparr>
     | None \<Rightarrow> m\<lparr>md_log := md_log m @ [transaction_one s]\<rparr>)"

definition consumed_text :: string where
  "consumed_text = ''this value has been consumed already''"

definition mock_execute ::
  "nat \<Rightarrow> 'v statement \<Rightarrow> 'v mock_database \<Rightarrow> (mock_exec_result, db_err) result \<times> 'v mock_database" where
  "mock_execute counter s m =
    (let m = log_statement s m in
     if counter < length (md_exec_results m)
     then (md_exec_results m ! counter,
       m\<lparr>md_exec_results := (md_exec_results m)[counter := Inl (exec_err consumed_text)]\<rparr>)
     else (Inl (exec_err ''`exec_results` buffer is empty''), m))"

definition mock_query ::
  "nat \<Rightarrow> 'v statement \<Rightarrow> 'v mock_database \<Rightarrow> ('v mock_row list, db_err) result \<times> 'v mock_database" where
  "mock_query counter s m =
    (let m = log_statement s m in
     if counter < length (md_query_results m)
     then (md_query_results m ! counter,
       m\<lparr>md_query_results := (md_query_results m)[counter := Inl (query_err consumed_text)]\<rparr>)
     else (Inl (query_err ''`query_results` buffer is empty.''), m))"

definition mock_begin :: "'v mock_database \<Rightarrow> 'v mock_database" where
  "mock_begin m =
    (case md_transaction m of
       Some t \<Rightarrow> m\<lparr>md_transaction := Some (ot_begin_nested (md_backend m) t)\<rparr>
     | None \<Rightarrow> m\<lparr>md_transaction := Some ot_init\<rparr>)"

definition mock_commit :: "'v mock_database \<Rightarrow> 'v mock_database run" where
  "mock_commit m =
    (case md_transaction m of
       Some t \<Rightarrow>
         (let (finished, t) = ot_commit (md_backend m) t in
          if finished
          then run_bind (into_transaction t) (\<lambda>tr.
            Ret (m\<lparr>md_transaction := None, md_log := md_log m @ [tr]\<rparr>))
          else Ret (m\<lparr>md_transaction := Some t\<rparr>))
     | None \<Rightarrow> Panic ''There is no open transaction to commit'')"

definition mock_rollback :: "'v mock_database \<Rightarrow> 'v mock_database run" where
  "mock_rollback m =
    (case md_transaction m of
       Some t \<Rightarrow>
         (let (finished, t) = ot_rollback (md_backend m) t in
          if finished
          then run_bind (into_transaction t) (\<lambda>tr.
            Ret (m\<lparr>md_transaction := None, md_log := md_log m @ [tr]\<rparr>))
          else Ret (m\<lparr>md_transaction := Some t\<rparr>))
     | None \<Rightarrow> Panic ''There is no open transaction to rollback'')"

definition drain_transaction_log :: "'v mock_database \<Rightarrow> 'v transaction list \<times> 'v mock_database" where
  "drain_transaction_log m = (md_log m, m\<lparr>md_log := []\<rparr>)"

section \<open>Rows\<close>

text \<open>\<open>ColIdx\<close> is a name or a position; \<open>conv\<close> is \<open>ValueType::try_from\<close>.\<close>

datatype col_idx = ByName string | ByIndex nat

definition nth_opt :: "'a list \<Rightarrow> nat \<Rightarrow> 'a option" where
  "nth_opt xs i = (if i < length xs then Some (xs ! i) else None)"

definition mock_row_try_get ::
  "('v \<Rightarrow> ('t, string) result) \<Rightarrow> (string \<Rightarrow> string) \<Rightarrow> 'v mock_row \<Rightarrow> col_idx \<Rightarrow> ('t, db_err) result" where
  "mock_row_try_get conv debug row idx =
    (case idx of
       ByName n \<Rightarrow>
         res_bind (ok_or (map_of (mr_values row) n)
             (query_err (''No column for ColIdx '' @ debug n)))
           (\<lambda>v. map_err type_err (conv v))
     | ByIndex i \<Rightarrow>
         res_bind (ok_or (nth_opt (mr_values row) i)
             (query_err (''Column at index '' @ show_nat i @ '' not found'')))
           (\<lambda>kv. map_err type_err (conv (snd kv))))"

text \<open>\<open>BTreeMap::insert\<close>.\<close>

fun row_insert :: "'k :: linorder \<Rightarrow> 'v \<Rightarrow> ('k \<times> 'v) list \<Rightarrow> ('k \<times> 'v) list" where
  "row_insert k v [] = [(k, v)]"
| "row_insert k v ((k', v') # m) =
    (if k < k' then (k, v) # (k', v') # m
     else if k = k' then (k, v) # m
     else (k', v') # row_insert k v m)"

text \<open>A model is seen through its columns: the name and the value each column has in it. The pairs
  of \<open>find_also_related\<close> prefix the columns with \<open>A_\<close> and \<open>B_\<close>.\<close>

type_synonym ('m, 'v) model_columns = "(string \<times> ('m \<Rightarrow> 'v)) list"

definition insert_columns ::
  "string \<Rightarrow> ('m, 'v) model_columns \<Rightarrow> 'm \<Rightarrow> (string \<times> 'v) list \<Rightarrow> (string \<times> 'v) list" where
  "insert_columns prefix cols model row = fold (\<lambda>(name, g). row_insert (prefix @ name) (g model)) cols row"

definition model_into_mock_row :: "('m, 'v) model_columns \<Rightarrow> 'm \<Rightarrow> 'v mock_row" where
  "model_into_mock_row cols model = \<lparr>mr_values = insert_columns [] cols model []\<rparr>"

definition pair_into_mock_row ::
  "('m, 'v) model_columns \<Rightarrow> ('n, 'v) model_columns \<Rightarrow> 'm \<times> 'n \<Rightarrow> 'v mock_row" where
  "pair_into_mock_row mcols ncols p =
    \<lparr>mr_values = insert_columns ''B_'' ncols (snd p) (insert_columns ''A_'' mcols (fst p) [])\<rparr>"

definition pair_opt_into_mock_row ::
  "('m, 'v) model_columns \<Rightarrow> ('n, 'v) model_columns \<Rightarrow> 'm \<times> 'n option \<Rightarrow> 'v mock_row" where
  "pair_opt_into_mock_row mcols ncols p =
    (let mapped_join = insert_columns ''A_'' mcols (fst p) [] in
     \<lparr>mr_values = (case snd p of
        Some b_entity \<Rightarrow> insert_columns ''B_'' ncols b_entity mapped_join
      | None \<Rightarrow> mapped_join)\<rparr>)"

section \<open>The connection\<close>

record 'v mock_connection =
  mc_execute_counter :: nat
  mc_query_counter :: nat
  mc_mocker :: "'v mock_database"
  mc_poisoned :: bool

definition mock_connection_new :: "'v mock_database \<Rightarrow> 'v mock_connection" where
  "mock_connection_new m =
    \<lparr>mc_execute_counter = 0, mc_query_counter = 0, mc_mocker = m, mc_poisoned = False\<rparr>"

text \<open>An operation on a connection: its outcome and the connection after it. A panic inside the
  locked section poisons the lock.\<close>

type_synonym ('r, 'c) conn_op = "'c \<Rightarrow> 'r run \<times> 'c"

definition poison_text :: string where
  "poison_text = ''poisoned lock: another task failed inside''"

definition mc_execute ::
  "'v statement \<Rightarrow> 'v mock_connection \<Rightarrow> (mock_exec_result, db_err) result \<times> 'v mock_connection" where
  "mc_execute s c =
    (let counter = mc_execute_counter c; c = c\<lparr>mc_execute_counter := counter + 1\<rparr> in
     if mc_poisoned c then (Inl (exec_err poison_text), c)
     else (let (r, m) = mock_execute counter s (mc_mocker c) in (r, c\<lparr>mc_mocker := m\<rparr>)))"

definition mc_query_all ::
  "'v statement \<Rightarrow> 'v mock_connection \<Rightarrow> ('v mock_row list, db_err) result \<times> 'v mock_connection" where
  "mc_query_all s c =
    (let counter = mc_query_counter c; c = c\<lparr>mc_query_counter := counter + 1\<rparr> in
     if mc_poisoned c then (Inl (query_err poison_text), c)
     else (let (r, m) = mock_query counter s (mc_mocker c) in (r, c\<lparr>mc_mocker := m\<rparr>)))"

definition mc_query_one ::
  "'v statement \<Rightarrow> 'v mock_connection \<Rightarrow> ('v mock_row option, db_err) result \<times> 'v mock_connection" where
  "mc_query_one s c =
    (let counter = mc_query_counter c; c = c\<lparr>mc_query_counter := counter + 1\<rparr> in
     if mc_poisoned c then (Inl (query_err poison_text), c)
     else (let (r, m) = mock_query counter s (mc_mocker c); c = c\<lparr>mc_mocker := m\<rparr> in
       case r of
         Inl e \<Rightarrow> (Inl e, c)
       | Inr result \<Rightarrow> (Inr (case result of [] \<Rightarrow> None | x # _ \<Rightarrow> Some x), c)))"

text \<open>The stream \<open>fetch\<close> returns, as the list of its items.\<close>

definition mc_fetch ::
  "'v statement \<Rightarrow> 'v mock_connection \<Rightarrow> ('v mock_row, db_err) result list \<times> 'v mock_connection" where
  "mc_fetch s c =
    (let (r, c) = mc_query_all s c in
     (case r of Inr v \<Rightarrow> map Inr v | Inl e \<Rightarrow> [Inl e], c))"

definition with_mocker ::
  "('v mock_database \<Rightarrow> 'v mock_database run) \<Rightarrow> (unit, 'v mock_connection) conn_op" where
  "with_mocker f c =
    (if mc_poisoned c then (Panic (''Failed to acquire mocker: PoisonError { .. }''), c)
     else case f (mc_mocker c) of
       Ret m \<Rightarrow> (Ret (), c\<lparr>mc_mocker := m\<rparr>)
     | Panic msg \<Rightarrow> (Panic msg, c\<lparr>mc_poisoned := True\<rparr>)
     | Diverge \<Rightarrow> (Diverge, c))"

definition mc_begin :: "(unit, 'v mock_connection) conn_op" where
  "mc_begin = with_mocker (\<lambda>m. Ret (mock_begin m))"

definition mc_commit :: "(unit, 'v mock_connection) conn_op" where
  "mc_commit = with_mocker mock_commit"

definition mc_rollback :: "(unit, 'v mock_connection) conn_op" where
  "mc_rollback = with_mocker mock_rollback"

definition mc_ping :: "'v mock_connection \<Rightarrow> (unit, db_err) result" where
  "mc_ping c = (if mc_poisoned c then Inl (query_err poison_text) else Inr ())"

section \<open>Properties\<close>

text \<open>An open transaction starts with \<open>BEGIN\<close>; without poisoning the operations never panic
  when they are balanced.\<close>

lemma into_transaction_after_finish:
  "fst (ot_commit b t) \<Longrightarrow> into_transaction (snd (ot_commit b t)) = Ret \<lparr>tr_stmts = ot_stmts t @ [from_string b ''COMMIT'']\<rparr>"
  "fst (ot_rollback b t) \<Longrightarrow> into_transaction (snd (ot_rollback b t)) = Ret \<lparr>tr_stmts = ot_stmts t @ [from_string b ''ROLLBACK'']\<rparr>"
  by (auto simp: ot_commit_def ot_rollback_def into_transaction_def ot_push_def Let_def split: if_splits)

lemma mock_commit_panics_iff:
  "mock_commit m = Panic msg \<longleftrightarrow>
    md_transaction m = None \<and> msg = ''There is no open transaction to commit''"
proof (cases "md_transaction m")
  case (Some t)
  then show ?thesis
    using into_transaction_after_finish(1)[of "md_backend m" t]
    by (cases "ot_commit (md_backend m) t") (auto simp: mock_commit_def)
qed (auto simp: mock_commit_def)

lemma mock_rollback_panics_iff:
  "mock_rollback m = Panic msg \<longleftrightarrow>
    md_transaction m = None \<and> msg = ''There is no open transaction to rollback''"
proof (cases "md_transaction m")
  case (Some t)
  then show ?thesis
    using into_transaction_after_finish(2)[of "md_backend m" t]
    by (cases "ot_rollback (md_backend m) t") (auto simp: mock_rollback_def)
qed (auto simp: mock_rollback_def)


section \<open>The queue of results\<close>

fun execute_each ::
  "'v statement list \<Rightarrow> 'v mock_connection \<Rightarrow> (mock_exec_result, db_err) result list \<times> 'v mock_connection" where
  "execute_each [] c = ([], c)"
| "execute_each (s # ss) c =
    (let (r, c) = mc_execute s c; (rs, c) = execute_each ss c in (r # rs, c))"

definition exec_buffer_empty :: "(mock_exec_result, db_err) result" where
  "exec_buffer_empty = Inl (exec_err ''`exec_results` buffer is empty'')"

text \<open>What is left of a queue after \<open>n\<close> consumers.\<close>

definition delivered :: "'r \<Rightarrow> 'r list \<Rightarrow> nat \<Rightarrow> 'r list" where
  "delivered e rs n = take n rs @ replicate (n - length rs) e"

lemma delivered_Suc:
  "delivered e rs (Suc n) = (case rs of [] \<Rightarrow> e # delivered e [] n | r # rs \<Rightarrow> r # delivered e rs n)"
  by (cases rs) (simp_all add: delivered_def)

lemma mc_execute_step:
  assumes "\<not> mc_poisoned c" "md_transaction (mc_mocker c) = None"
  obtains c' where
    "mc_execute s c = ((if mc_execute_counter c < length (md_exec_results (mc_mocker c))
       then md_exec_results (mc_mocker c) ! mc_execute_counter c else exec_buffer_empty), c')"
    "\<not> mc_poisoned c'" "md_transaction (mc_mocker c') = None"
    "md_log (mc_mocker c') = md_log (mc_mocker c) @ [transaction_one s]"
    "mc_execute_counter c' = Suc (mc_execute_counter c)"
    "drop (mc_execute_counter c') (md_exec_results (mc_mocker c')) =
      drop (Suc (mc_execute_counter c)) (md_exec_results (mc_mocker c))"
proof (cases "mc_execute_counter c < length (md_exec_results (mc_mocker c))")
  case True
  then show ?thesis
    using assms that by (simp add: mc_execute_def mock_execute_def log_statement_def Let_def)
next
  case False
  then show ?thesis
    using assms that
    by (simp add: mc_execute_def mock_execute_def log_statement_def exec_buffer_empty_def Let_def)
qed

lemma execute_each_delivers:
  assumes "\<not> mc_poisoned c" "md_transaction (mc_mocker c) = None"
    "drop (mc_execute_counter c) (md_exec_results (mc_mocker c)) = rs"
  shows "fst (execute_each ss c) = delivered exec_buffer_empty rs (length ss) \<and>
    md_log (mc_mocker (snd (execute_each ss c))) = md_log (mc_mocker c) @ transaction_wrap ss"
  using assms
proof (induction ss arbitrary: c rs)
  case Nil
  then show ?case by (simp add: delivered_def transaction_wrap_def)
next
  case (Cons s ss)
  obtain c' where c':
    "mc_execute s c = ((if mc_execute_counter c < length (md_exec_results (mc_mocker c))
       then md_exec_results (mc_mocker c) ! mc_execute_counter c else exec_buffer_empty), c')"
    "\<not> mc_poisoned c'" "md_transaction (mc_mocker c') = None"
    "md_log (mc_mocker c') = md_log (mc_mocker c) @ [transaction_one s]"
    "drop (mc_execute_counter c') (md_exec_results (mc_mocker c')) =
      drop (Suc (mc_execute_counter c)) (md_exec_results (mc_mocker c))"
    using mc_execute_step[OF Cons.prems(1,2), of s] by metis
  note ih = Cons.IH[OF c'(2,3) c'(5)]
  have front: "delivered exec_buffer_empty rs (length (s # ss)) =
      (if mc_execute_counter c < length (md_exec_results (mc_mocker c))
       then md_exec_results (mc_mocker c) ! mc_execute_counter c else exec_buffer_empty) #
      delivered exec_buffer_empty (drop (Suc (mc_execute_counter c)) (md_exec_results (mc_mocker c))) (length ss)"
  proof (cases "mc_execute_counter c < length (md_exec_results (mc_mocker c))")
    case True
    then show ?thesis using Cons.prems(3) by (auto simp: delivered_Suc Cons_nth_drop_Suc[symmetric])
  next
    case False
    then show ?thesis using Cons.prems(3) by (auto simp: delivered_Suc)
  qed
  show ?case
    using ih front c'(1,4) by (auto simp: transaction_wrap_def split: prod.split)
qed

text \<open>The results queued on a mock database are delivered to the statements executed on its
  connection one by one, in the order they were appended, errors included; once the queue is
  exhausted every further statement gets the error that the buffer is empty; and the transaction log
  holds every statement, in order, each as a transaction of its own.\<close>

theorem mock_results_in_order:
  "fst (execute_each ss (mock_connection_new
      (append_exec_errors es (append_exec_results rs (mock_new backend))))) =
    delivered exec_buffer_empty (map Inr rs @ map Inl es) (length ss) \<and>
   fst (drain_transaction_log (mc_mocker (snd (execute_each ss (mock_connection_new
      (append_exec_errors es (append_exec_results rs (mock_new backend)))))))) = transaction_wrap ss"
  using execute_each_delivers[of "mock_connection_new
      (append_exec_errors es (append_exec_results rs (mock_new backend)))" "map Inr rs @ map Inl es" ss]
  by (simp add: mock_connection_new_def append_exec_errors_def append_exec_results_def mock_new_def
      drain_transaction_log_def)

section \<open>Rows of models\<close>

lemma row_insert_map_of: "map_of (row_insert k v m) = (map_of m)(k \<mapsto> v)"
  by (induction k v m rule: row_insert.induct) (auto simp: fun_eq_iff)

lemma row_insert_sorted:
  "sorted_wrt (<) (map fst m) \<Longrightarrow> sorted_wrt (<) (map fst (row_insert k v m))"
proof (induction k v m rule: row_insert.induct)
  case (2 k v k' v' m)
  have sub: "fst ` set (row_insert k v m) \<subseteq> insert k (fst ` set m)"
    by (metis dom_fun_upd dom_map_of_conv_image_fst row_insert_map_of option.distinct(1) subset_refl)
  have "k' < k \<Longrightarrow> x \<in> set (row_insert k v m) \<Longrightarrow> k' < fst x" for x
    using 2(2) subsetD[OF sub, of "fst x"] by auto
  then show ?case
    using 2 by (auto intro: less_trans)
qed simp

lemma insert_columns_map_of:
  "distinct (map fst cols) \<Longrightarrow>
    map_of (insert_columns prefix cols model row) k =
    (case find (\<lambda>c. prefix @ fst c = k) cols of
       Some c \<Rightarrow> Some (snd c model) | None \<Rightarrow> map_of row k)"
proof (induction cols arbitrary: row)
  case (Cons c cols)
  have none: "prefix @ fst c = k \<Longrightarrow> find (\<lambda>c. prefix @ fst c = k) cols = None"
    using Cons.prems by (auto simp: find_None_iff image_iff)
  show ?case
    using Cons none by (cases c) (auto simp: insert_columns_def row_insert_map_of split: option.splits)
qed (simp add: insert_columns_def)

lemma insert_columns_own:
  assumes "distinct (map fst cols)" "(name, g) \<in> set cols"
  shows "map_of (insert_columns prefix cols model row) (prefix @ name) = Some (g model)"
proof -
  have "find (\<lambda>c. prefix @ fst c = prefix @ name) cols = Some (name, g)"
    using assms
  proof (induction cols)
    case (Cons c cols)
    then show ?case by (cases c) (auto simp: rev_image_eqI)
  qed simp
  then show ?thesis by (simp add: insert_columns_map_of assms(1))
qed

lemma insert_columns_other:
  assumes "distinct (map fst cols)" "\<And>name. k \<noteq> prefix @ name"
  shows "map_of (insert_columns prefix cols model row) k = map_of row k"
proof -
  have "find (\<lambda>c. prefix @ fst c = k) cols = None"
    using assms(2) by (auto simp: find_None_iff)
  then show ?thesis by (simp add: insert_columns_map_of assms(1))
qed

lemma insert_columns_sorted:
  "sorted_wrt (<) (map fst row) \<Longrightarrow> sorted_wrt (<) (map fst (insert_columns prefix cols model row))"
  by (induction cols arbitrary: row) (auto simp: insert_columns_def row_insert_sorted)

text \<open>The mock row of a pair of models of \<open>find_also_related\<close> gives back, under the prefix
  \<open>A_\<close>, every column of the first model and, under \<open>B_\<close>, every column of the second, also when
  both models have a column of the same name; without a second model no \<open>B_\<close> column is found; and
  the columns stay in the order of the names.\<close>

theorem mock_pair_row_roundtrip:
  assumes "distinct (map fst mcols)" "distinct (map fst ncols)"
    "(a, f) \<in> set mcols" "(b, g) \<in> set ncols"
  shows "mock_row_try_get conv debug (pair_into_mock_row mcols ncols (x, y)) (ByName (''A_'' @ a))
      = map_err type_err (conv (f x)) \<and>
    mock_row_try_get conv debug (pair_into_mock_row mcols ncols (x, y)) (ByName (''B_'' @ b))
      = map_err type_err (conv (g y)) \<and>
    pair_opt_into_mock_row mcols ncols (x, Some y) = pair_into_mock_row mcols ncols (x, y) \<and>
    mock_row_try_get conv debug (pair_opt_into_mock_row mcols ncols (x, None)) (ByName (''A_'' @ a))
      = map_err type_err (conv (f x)) \<and>
    mock_row_try_get conv debug (pair_opt_into_mock_row mcols ncols (x, None)) (ByName (''B_'' @ b))
      = Inl (query_err (''No column for ColIdx '' @ debug (''B_'' @ b))) \<and>
    sorted_wrt (<) (map fst (mr_values (pair_into_mock_row mcols ncols (x, y))))"
proof -
  note A = insert_columns_own[OF assms(1,3), of "''A_''"]
  note B = insert_columns_own[OF assms(2,4), of "''B_''"]
  have AB: "map_of (insert_columns ''B_'' ncols y row) (''A_'' @ a) = map_of row (''A_'' @ a)" for row
    by (rule insert_columns_other[OF assms(2)]) simp
  have BA: "map_of (insert_columns ''A_'' mcols x row) (''B_'' @ b) = map_of row (''B_'' @ b)" for row
    by (rule insert_columns_other[OF assms(1)]) simp
  show ?thesis
    using A B AB BA
    by (simp add: insert_columns_sorted mock_row_try_get_def pair_into_mock_row_def pair_opt_into_mock_row_def)
qed

theorem mock_pair_row_roundtrip_witness:
  "mock_row_try_get Inr id (pair_into_mock_row [(''name'', snd), (''id'', fst)] [(''id'', id)] ((7, 8), 9 :: nat))
     (ByName ''A_id'') = Inr (7 :: nat) \<and>
   mock_row_try_get Inr id (pair_into_mock_row [(''name'', snd), (''id'', fst)] [(''id'', id)] ((7, 8), 9 :: nat))
     (ByName ''B_id'') = Inr (9 :: nat)"
  using mock_pair_row_roundtrip[of "[(''name'', snd), (''id'', fst)]" "[(''id'', id)]" "''id''" fst "''id''" id
      Inr id "(7, 8)" "9 :: nat"]
  by simp

end
