(* ===== verification/DbTransaction.thy ===== *)
theory DbTransaction
  imports MockDatabase
begin

text \<open>
  \<open>src/database/transaction.rs\<close>: a \<open>DatabaseTransaction\<close> is a handle on a connection shared with
  the transactions nested in it; beginning on it starts a nested one. Dropping an open handle rolls
  back. The connections are those of the drivers: sqlx's transaction managers and a proxy are
  arguments (\<open>drivers\<close>), the rusqlite connection (\<open>src/driver/rusqlite.rs\<close>) and the mock connection
  are modelled.
\<close>

section \<open>Operations that may panic\<close>

text \<open>An operation keeps the state it leaves when it panics, since destructors run in it.\<close>

definition op_ret :: "'r \<Rightarrow> ('r, 'c) conn_op" where
  "op_ret v = (\<lambda>c. (Ret v, c))"

definition op_panic :: "string \<Rightarrow> ('r, 'c) conn_op" where
  "op_panic msg = (\<lambda>c. (Panic msg, c))"

definition op_try ::
  "(('a, 'e) result, 'c) conn_op \<Rightarrow> ('a \<Rightarrow> (('b, 'e) result, 'c) conn_op) \<Rightarrow> (('b, 'e) result, 'c) conn_op" where
  "op_try m f = (\<lambda>c. case m c of
     (Ret (Inr v), c) \<Rightarrow> f v c
   | (Ret (Inl e), c) \<Rightarrow> (Ret (Inl e), c)
   | (Panic msg, c) \<Rightarrow> (Panic msg, c)
   | (Diverge, c) \<Rightarrow> (Diverge, c))"

text \<open>Run \<open>drop\<close> on the way out of an operation that returned \<open>r\<close>, and while unwinding. A panic of
  the destructor while unwinding aborts the process.\<close>

definition abort_text :: string where
  "abort_text = ''panic in a destructor during cleanup''"

definition op_finally :: "(unit, 'c) conn_op \<Rightarrow> 'r run \<Rightarrow> ('r, 'c) conn_op" where
  "op_finally drop_it r = (\<lambda>c. case r of
     Ret v \<Rightarrow> (case drop_it c of (Ret _, c) \<Rightarrow> (Ret v, c) | (Panic msg, c) \<Rightarrow> (Panic msg, c) | (Diverge, c) \<Rightarrow> (Diverge, c))
   | Panic msg \<Rightarrow> (case drop_it c of (Ret _, c) \<Rightarrow> (Panic msg, c) | (Panic _, c) \<Rightarrow> (Panic abort_text, c) | (Diverge, c) \<Rightarrow> (Diverge, c))
   | Diverge \<Rightarrow> (Diverge, c))"

lemmas op_defs = op_ret_def op_panic_def op_try_def op_finally_def

section \<open>Transaction options\<close>

datatype isolation_level = RepeatableRead | ReadCommitted | ReadUncommitted | Serializable

datatype access_mode = ReadOnly | ReadWrite

datatype sqlite_transaction_mode = Deferred | Immediate | Exclusive

fun isolation_level_display :: "isolation_level \<Rightarrow> string" where
  "isolation_level_display RepeatableRead = ''REPEATABLE READ''"
| "isolation_level_display ReadCommitted = ''READ COMMITTED''"
| "isolation_level_display ReadUncommitted = ''READ UNCOMMITTED''"
| "isolation_level_display Serializable = ''SERIALIZABLE''"

fun access_mode_display :: "access_mode \<Rightarrow> string" where
  "access_mode_display ReadOnly = ''READ ONLY''"
| "access_mode_display ReadWrite = ''READ WRITE''"

fun sqlite_keyword :: "sqlite_transaction_mode \<Rightarrow> string" where
  "sqlite_keyword Deferred = ''DEFERRED''"
| "sqlite_keyword Immediate = ''IMMEDIATE''"
| "sqlite_keyword Exclusive = ''EXCLUSIVE''"

record transaction_options =
  to_isolation_level :: "isolation_level option"
  to_access_mode :: "access_mode option"
  to_sqlite_mode :: "sqlite_transaction_mode option"

section \<open>The drivers\<close>

type_synonym sqlx_failure = "sqlx_error \<times> string"

definition sqlx_error_to_exec_err :: "sqlx_failure \<Rightarrow> db_err" where
  "sqlx_error_to_exec_err e = Exec (SqlxError (fst e) (snd e))"

definition sqlx_error_to_query_err :: "sqlx_failure \<Rightarrow> db_err" where
  "sqlx_error_to_query_err e = Query (SqlxError (fst e) (snd e))"

definition rusqlite_exec_err :: "rusqlite_error \<times> string \<Rightarrow> db_err" where
  "rusqlite_exec_err e = Exec (Rusqlite (fst e) (snd e))"

text \<open>What sqlx offers for a connection: its \<open>TransactionManager\<close> and the execution of a query.\<close>

record 'w sqlx_manager =
  tm_begin :: "string option \<Rightarrow> 'w \<Rightarrow> (unit, sqlx_failure) result \<times> 'w"
  tm_commit :: "'w \<Rightarrow> (unit, sqlx_failure) result \<times> 'w"
  tm_rollback :: "'w \<Rightarrow> (unit, sqlx_failure) result \<times> 'w"
  tm_start_rollback :: "'w \<Rightarrow> 'w"
  tm_depth :: "'w \<Rightarrow> nat"
  tm_execute :: "string \<Rightarrow> 'w \<Rightarrow> (unit, sqlx_failure) result \<times> 'w"

record 'w drivers =
  drv_mysql :: "'w sqlx_manager"
  drv_postgres :: "'w sqlx_manager"
  drv_sqlite :: "'w sqlx_manager"
  drv_rusqlite_batch :: "string \<Rightarrow> 'w \<Rightarrow> (unit, rusqlite_error \<times> string) result \<times> 'w"
  drv_proxy_begin :: "'w \<Rightarrow> 'w"
  drv_proxy_commit :: "'w \<Rightarrow> 'w"
  drv_proxy_rollback :: "'w \<Rightarrow> 'w"
  drv_proxy_start_rollback :: "'w \<Rightarrow> 'w"

definition transaction_settings :: "isolation_level option \<Rightarrow> access_mode option \<Rightarrow> string list" where
  "transaction_settings isolation access =
    (case isolation of Some l \<Rightarrow> [''ISOLATION LEVEL '' @ isolation_level_display l] | None \<Rightarrow> []) @
    (case access of Some a \<Rightarrow> [access_mode_display a] | None \<Rightarrow> [])"

definition set_transaction_config ::
  "string \<Rightarrow> 'w sqlx_manager \<Rightarrow> isolation_level option \<Rightarrow> access_mode option \<Rightarrow> (unit, 'w) io" where
  "set_transaction_config separator drv isolation access w =
    (let settings = transaction_settings isolation access in
     if settings \<noteq> []
     then (case tm_execute drv (''SET TRANSACTION '' @ join separator settings) w of
             (r, w) \<Rightarrow> (map_err sqlx_error_to_exec_err r, w))
     else (Inr (), w))"

definition mysql_set_transaction_config ::
  "'w sqlx_manager \<Rightarrow> isolation_level option \<Rightarrow> access_mode option \<Rightarrow> (unit, 'w) io" where
  "mysql_set_transaction_config = set_transaction_config '', ''"

definition postgres_set_transaction_config ::
  "'w sqlx_manager \<Rightarrow> isolation_level option \<Rightarrow> access_mode option \<Rightarrow> (unit, 'w) io" where
  "postgres_set_transaction_config = set_transaction_config '' ''"

text \<open>The SQLite driver only logs that the settings are not supported.\<close>

definition sqlite_set_transaction_config ::
  "'w sqlx_manager \<Rightarrow> isolation_level option \<Rightarrow> access_mode option \<Rightarrow> (unit, 'w) io" where
  "sqlite_set_transaction_config drv isolation access w = (Inr (), w)"

subsection \<open>The rusqlite connection\<close>

record 'w rusqlite_inner =
  rq_conn :: 'w
  rq_depth :: nat

definition rq_execute ::
  "'w drivers \<Rightarrow> string \<Rightarrow> ((unit, db_err) result, 'w rusqlite_inner) conn_op" where
  "rq_execute drv stmt c =
    (case drv_rusqlite_batch drv stmt (rq_conn c) of
       (r, w) \<Rightarrow> (Ret (map_err rusqlite_exec_err r), c\<lparr>rq_conn := w\<rparr>))"

definition sp_name :: "nat \<Rightarrow> string" where
  "sp_name n = ''sp'' @ show_nat n"

text \<open>\<open>transaction_depth\<close> is a \<open>u32\<close>, with overflow checks.\<close>

definition rq_add_depth :: "((unit, db_err) result, 'w rusqlite_inner) conn_op" where
  "rq_add_depth c =
    (if rq_depth c + 1 < 2 ^ 32 then (Ret (Inr ()), c\<lparr>rq_depth := rq_depth c + 1\<rparr>)
     else (Panic ''attempt to add with overflow'', c))"

definition rq_sub_depth :: "((unit, db_err) result, 'w rusqlite_inner) conn_op" where
  "rq_sub_depth c =
    (if rq_depth c = 0 then (Panic ''attempt to subtract with overflow'', c)
     else (Ret (Inr ()), c\<lparr>rq_depth := rq_depth c - 1\<rparr>))"

definition rq_begin ::
  "'w drivers \<Rightarrow> sqlite_transaction_mode option \<Rightarrow> ((unit, db_err) result, 'w rusqlite_inner) conn_op" where
  "rq_begin drv mode c =
    op_try (rq_execute drv
      (if rq_depth c = 0
       then (case mode of Some m \<Rightarrow> ''BEGIN '' @ sqlite_keyword m | None \<Rightarrow> ''BEGIN'')
       else ''SAVEPOINT '' @ sp_name (rq_depth c)))
     (\<lambda>_. rq_add_depth) c"

definition rq_commit :: "'w drivers \<Rightarrow> ((unit, db_err) result, 'w rusqlite_inner) conn_op" where
  "rq_commit drv c =
    op_try
      (if rq_depth c = 1 then rq_execute drv ''COMMIT''
       else if rq_depth c = 0 then op_panic ''attempt to subtract with overflow''
       else rq_execute drv (''RELEASE SAVEPOINT '' @ sp_name (rq_depth c - 1)))
     (\<lambda>_. rq_sub_depth) c"

definition rq_rollback :: "'w drivers \<Rightarrow> ((unit, db_err) result, 'w rusqlite_inner) conn_op" where
  "rq_rollback drv c =
    op_try
      (if rq_depth c = 1 then rq_execute drv ''ROLLBACK''
       else if rq_depth c = 0 then op_panic ''attempt to subtract with overflow''
       else rq_execute drv (''ROLLBACK TO '' @ sp_name (rq_depth c - 1)))
     (\<lambda>_. rq_sub_depth) c"

definition rq_start_rollback :: "'w drivers \<Rightarrow> ((unit, db_err) result, 'w rusqlite_inner) conn_op" where
  "rq_start_rollback drv c = (if rq_depth c > 0 then rq_rollback drv c else (Ret (Inr ()), c))"

subsection \<open>The inner connection\<close>

datatype ('w, 'v) inner_connection =
    ICMySql 'w | ICPostgres 'w | ICSqlite 'w
  | ICRusqlite "'w rusqlite_inner"
  | ICMock "'v mock_connection"
  | ICProxy 'w

definition lift_conn :: "('a \<Rightarrow> 'b) \<Rightarrow> ('r, 'a) conn_op \<Rightarrow> 'a \<Rightarrow> 'r run \<times> 'b" where
  "lift_conn wrap f c = (case f c of (r, c) \<Rightarrow> (r, wrap c))"

definition sqlx_op ::
  "('w \<Rightarrow> (unit, sqlx_failure) result \<times> 'w) \<Rightarrow> ((unit, db_err) result, 'w) conn_op" where
  "sqlx_op f w = (case f w of (r, w) \<Rightarrow> (Ret (map_err sqlx_error_to_query_err r), w))"

definition io_op :: "('r, 'w) io \<Rightarrow> (('r, db_err) result, 'w) conn_op" where
  "io_op f w = (case f w of (r, w) \<Rightarrow> (Ret r, w))"

definition ok_op :: "(unit, 'w) conn_op \<Rightarrow> ((unit, db_err) result, 'w) conn_op" where
  "ok_op f w = (case f w of (r, w) \<Rightarrow> (run_bind r (\<lambda>_. Ret (Inr ())), w))"

definition proxy_op :: "('w \<Rightarrow> 'w) \<Rightarrow> (unit, 'w) conn_op" where
  "proxy_op f w = (Ret (), f w)"

text \<open>The body of \<open>DatabaseTransaction::begin\<close>: the settings come before the transaction on MySQL,
  inside it on Postgres.\<close>

fun ic_begin ::
  "'w drivers \<Rightarrow> transaction_options \<Rightarrow> ((unit, db_err) result, ('w, 'v) inner_connection) conn_op" where
  "ic_begin drv opts (ICMySql w) = lift_conn ICMySql
     (op_try (io_op (mysql_set_transaction_config (drv_mysql drv) (to_isolation_level opts) (to_access_mode opts)))
       (\<lambda>_. sqlx_op (tm_begin (drv_mysql drv) None))) w"
| "ic_begin drv opts (ICPostgres w) = lift_conn ICPostgres
     (op_try (sqlx_op (tm_begin (drv_postgres drv) None))
       (\<lambda>_. io_op (postgres_set_transaction_config (drv_postgres drv) (to_isolation_level opts) (to_access_mode opts)))) w"
| "ic_begin drv opts (ICSqlite w) = lift_conn ICSqlite
     (op_try (io_op (sqlite_set_transaction_config (drv_sqlite drv) (to_isolation_level opts) (to_access_mode opts)))
       (\<lambda>_ w. let depth = tm_depth (drv_sqlite drv) w;
                 statement = (if depth = 0
                   then map_option (\<lambda>mode. ''BEGIN '' @ sqlite_keyword mode) (to_sqlite_mode opts)
                   else None)
             in sqlx_op (tm_begin (drv_sqlite drv) statement) w)) w"
| "ic_begin drv opts (ICRusqlite c) = lift_conn ICRusqlite (rq_begin drv (to_sqlite_mode opts)) c"
| "ic_begin drv opts (ICMock c) = lift_conn ICMock (ok_op mc_begin) c"
| "ic_begin drv opts (ICProxy w) = lift_conn ICProxy (ok_op (proxy_op (drv_proxy_begin drv))) w"

fun ic_commit :: "'w drivers \<Rightarrow> ((unit, db_err) result, ('w, 'v) inner_connection) conn_op" where
  "ic_commit drv (ICMySql w) = lift_conn ICMySql (sqlx_op (tm_commit (drv_mysql drv))) w"
| "ic_commit drv (ICPostgres w) = lift_conn ICPostgres (sqlx_op (tm_commit (drv_postgres drv))) w"
| "ic_commit drv (ICSqlite w) = lift_conn ICSqlite (sqlx_op (tm_commit (drv_sqlite drv))) w"
| "ic_commit drv (ICRusqlite c) = lift_conn ICRusqlite (rq_commit drv) c"
| "ic_commit drv (ICMock c) = lift_conn ICMock (ok_op mc_commit) c"
| "ic_commit drv (ICProxy w) = lift_conn ICProxy (ok_op (proxy_op (drv_proxy_commit drv))) w"

fun ic_rollback :: "'w drivers \<Rightarrow> ((unit, db_err) result, ('w, 'v) inner_connection) conn_op" where
  "ic_rollback drv (ICMySql w) = lift_conn ICMySql (sqlx_op (tm_rollback (drv_mysql drv))) w"
| "ic_rollback drv (ICPostgres w) = lift_conn ICPostgres (sqlx_op (tm_rollback (drv_postgres drv))) w"
| "ic_rollback drv (ICSqlite w) = lift_conn ICSqlite (sqlx_op (tm_rollback (drv_sqlite drv))) w"
| "ic_rollback drv (ICRusqlite c) = lift_conn ICRusqlite (rq_rollback drv) c"
| "ic_rollback drv (ICMock c) = lift_conn ICMock (ok_op mc_rollback) c"
| "ic_rollback drv (ICProxy w) = lift_conn ICProxy (ok_op (proxy_op (drv_proxy_rollback drv))) w"

fun ic_start_rollback :: "'w drivers \<Rightarrow> ((unit, db_err) result, ('w, 'v) inner_connection) conn_op" where
  "ic_start_rollback drv (ICMySql w) =
     lift_conn ICMySql (ok_op (proxy_op (tm_start_rollback (drv_mysql drv)))) w"
| "ic_start_rollback drv (ICPostgres w) =
     lift_conn ICPostgres (ok_op (proxy_op (tm_start_rollback (drv_postgres drv)))) w"
| "ic_start_rollback drv (ICSqlite w) =
     lift_conn ICSqlite (ok_op (proxy_op (tm_start_rollback (drv_sqlite drv)))) w"
| "ic_start_rollback drv (ICRusqlite c) = lift_conn ICRusqlite (rq_start_rollback drv) c"
| "ic_start_rollback drv (ICMock c) = lift_conn ICMock (ok_op mc_rollback) c"
| "ic_start_rollback drv (ICProxy w) =
     lift_conn ICProxy (ok_op (proxy_op (drv_proxy_start_rollback drv))) w"

section \<open>Transactions\<close>

text \<open>The connection behind its mutex. The lock is held by a row stream of a transaction while the
  stream lives; waiting for it does not return.\<close>

record ('w, 'v) shared_connection =
  sc_inner :: "('w, 'v) inner_connection"
  sc_locked :: bool

definition with_lock ::
  "('r, ('w, 'v) inner_connection) conn_op \<Rightarrow> ('r, ('w, 'v) shared_connection) conn_op" where
  "with_lock f c =
    (if sc_locked c then (Diverge, c)
     else case f (sc_inner c) of (r, i) \<Rightarrow> (r, c\<lparr>sc_inner := i\<rparr>))"

record database_transaction =
  dt_backend :: db_backend
  dt_open :: bool

definition dt_start_rollback ::
  "'w drivers \<Rightarrow> database_transaction \<Rightarrow> ((unit, db_err) result, ('w, 'v) shared_connection) conn_op" where
  "dt_start_rollback drv t c =
    (if dt_open t
     then (if \<not> sc_locked c then with_lock (ic_start_rollback drv) c
           else (Ret (Inl (conn_err ''Dropping a locked Transaction'')), c))
     else (Ret (Inr ()), c))"

definition dt_drop :: "'w drivers \<Rightarrow> database_transaction \<Rightarrow> (unit, ('w, 'v) shared_connection) conn_op" where
  "dt_drop drv t c =
    (case dt_start_rollback drv t c of
       (r, c) \<Rightarrow> (run_bind r (\<lambda>r. case r of Inr _ \<Rightarrow> Ret () | Inl e \<Rightarrow> Panic ''Fail to rollback transaction''), c))"

definition dt_begin ::
  "'w drivers \<Rightarrow> db_backend \<Rightarrow> transaction_options \<Rightarrow>
    ((database_transaction, db_err) result, ('w, 'v) shared_connection) conn_op" where
  "dt_begin drv backend opts c =
    (let res = \<lparr>dt_backend = backend, dt_open = True\<rparr> in
     case with_lock (ic_begin drv opts) c of
       (Ret (Inr _), c) \<Rightarrow> (Ret (Inr res), c)
     | (Ret (Inl e), c) \<Rightarrow> op_finally (dt_drop drv res) (Ret (Inl e)) c
     | (Panic msg, c) \<Rightarrow> op_finally (dt_drop drv res) (Panic msg) c
     | (Diverge, c) \<Rightarrow> (Diverge, c))"

text \<open>\<open>commit\<close> and \<open>rollback\<close> consume the handle: it is dropped closed when they succeed, open when
  they fail.\<close>

definition finish_with ::
  "((unit, db_err) result, ('w, 'v) inner_connection) conn_op \<Rightarrow> 'w drivers \<Rightarrow> database_transaction \<Rightarrow>
    ((unit, db_err) result, ('w, 'v) shared_connection) conn_op" where
  "finish_with f drv t c =
    (case with_lock f c of
       (Ret (Inr _), c) \<Rightarrow> op_finally (dt_drop drv (t\<lparr>dt_open := False\<rparr>)) (Ret (Inr ())) c
     | (r, c) \<Rightarrow> op_finally (dt_drop drv t) r c)"

definition dt_commit ::
  "'w drivers \<Rightarrow> database_transaction \<Rightarrow> ((unit, db_err) result, ('w, 'v) shared_connection) conn_op" where
  "dt_commit drv t = finish_with (ic_commit drv) drv t"

definition dt_rollback ::
  "'w drivers \<Rightarrow> database_transaction \<Rightarrow> ((unit, db_err) result, ('w, 'v) shared_connection) conn_op" where
  "dt_rollback drv t = finish_with (ic_rollback drv) drv t"

definition op_map_err ::
  "('e \<Rightarrow> 'f) \<Rightarrow> (('a, 'e) result, 'c) conn_op \<Rightarrow> (('a, 'f) result, 'c) conn_op" where
  "op_map_err f m c = (case m c of (r, c) \<Rightarrow> (run_bind r (\<lambda>r. Ret (map_err f r)), c))"

type_synonym ('a, 'e, 'c) closure = "database_transaction \<Rightarrow> (('a, 'e) result, 'c) conn_op"

definition dt_run ::
  "'w drivers \<Rightarrow> database_transaction \<Rightarrow> ('a, 'e, ('w, 'v) shared_connection) closure \<Rightarrow>
    (('a, 'e transaction_error) result, ('w, 'v) shared_connection) conn_op" where
  "dt_run drv t callback c =
    (case op_map_err TxTransaction (callback t) c of
       (Ret res, c) \<Rightarrow>
         op_try
           (case res of
              Inr _ \<Rightarrow> op_map_err TxConnection (dt_commit drv t)
            | Inl _ \<Rightarrow> op_map_err TxConnection (dt_rollback drv t))
           (\<lambda>_. \<lambda>c. (Ret res, c)) c
     | (Panic msg, c) \<Rightarrow> op_finally (dt_drop drv t) (Panic msg) c
     | (Diverge, c) \<Rightarrow> (Diverge, c))"

definition default_options :: transaction_options where
  "default_options = \<lparr>to_isolation_level = None, to_access_mode = None, to_sqlite_mode = None\<rparr>"

definition dt_begin_nested ::
  "'w drivers \<Rightarrow> database_transaction \<Rightarrow> transaction_options \<Rightarrow>
    ((database_transaction, db_err) result, ('w, 'v) shared_connection) conn_op" where
  "dt_begin_nested drv t opts = dt_begin drv (dt_backend t) opts"

definition begin_with_config ::
  "'w drivers \<Rightarrow> database_transaction \<Rightarrow> isolation_level option \<Rightarrow> access_mode option \<Rightarrow>
    ((database_transaction, db_err) result, ('w, 'v) shared_connection) conn_op" where
  "begin_with_config drv t isolation access =
    dt_begin_nested drv t \<lparr>to_isolation_level = isolation, to_access_mode = access, to_sqlite_mode = None\<rparr>"

definition transaction_with ::
  "((database_transaction, db_err) result, ('w, 'v) shared_connection) conn_op \<Rightarrow> 'w drivers \<Rightarrow>
    ('a, 'e, ('w, 'v) shared_connection) closure \<Rightarrow>
    (('a, 'e transaction_error) result, ('w, 'v) shared_connection) conn_op" where
  "transaction_with beg drv callback =
    op_try (op_map_err TxConnection beg) (\<lambda>t. dt_run drv t callback)"

definition dt_transaction ::
  "'w drivers \<Rightarrow> database_transaction \<Rightarrow> ('a, 'e, ('w, 'v) shared_connection) closure \<Rightarrow>
    (('a, 'e transaction_error) result, ('w, 'v) shared_connection) conn_op" where
  "dt_transaction drv t callback = transaction_with (dt_begin_nested drv t default_options) drv callback"

definition dt_transaction_with_config ::
  "'w drivers \<Rightarrow> database_transaction \<Rightarrow> ('a, 'e, ('w, 'v) shared_connection) closure \<Rightarrow>
    isolation_level option \<Rightarrow> access_mode option \<Rightarrow>
    (('a, 'e transaction_error) result, ('w, 'v) shared_connection) conn_op" where
  "dt_transaction_with_config drv t callback isolation access =
    transaction_with (begin_with_config drv t isolation access) drv callback"

text \<open>A transaction on a connection that is not in one: the mock and the rusqlite connection.\<close>

definition conn_transaction ::
  "'w drivers \<Rightarrow> db_backend \<Rightarrow> ('a, 'e, ('w, 'v) shared_connection) closure \<Rightarrow>
    (('a, 'e transaction_error) result, ('w, 'v) shared_connection) conn_op" where
  "conn_transaction drv backend callback = transaction_with (dt_begin drv backend default_options) drv callback"

fun transaction_error_display :: "('e \<Rightarrow> string) \<Rightarrow> 'e transaction_error \<Rightarrow> string" where
  "transaction_error_display show_e (TxConnection e) = db_err_display e"
| "transaction_error_display show_e (TxTransaction e) = show_e e"


section \<open>Statements in a transaction\<close>

text \<open>A statement goes to the connection under the lock. On the mock connection it is modelled; on
  the others it is the argument \<open>other\<close>.\<close>

fun ic_execute ::
  "('v statement \<Rightarrow> ((mock_exec_result, db_err) result, ('w, 'v) inner_connection) conn_op) \<Rightarrow>
    'v statement \<Rightarrow> ((mock_exec_result, db_err) result, ('w, 'v) inner_connection) conn_op" where
  "ic_execute other stmt (ICMock c) = lift_conn ICMock (io_op (mc_execute stmt)) c"
| "ic_execute other stmt i = other stmt i"

definition dt_execute_raw ::
  "('v statement \<Rightarrow> ((mock_exec_result, db_err) result, ('w, 'v) inner_connection) conn_op) \<Rightarrow>
    database_transaction \<Rightarrow> 'v statement \<Rightarrow>
    ((mock_exec_result, db_err) result, ('w, 'v) shared_connection) conn_op" where
  "dt_execute_raw other t stmt = with_lock (ic_execute other stmt)"

fun ic_execute_unprepared ::
  "(string \<Rightarrow> ((mock_exec_result, db_err) result, ('w, 'v) inner_connection) conn_op) \<Rightarrow>
    string \<Rightarrow> ((mock_exec_result, db_err) result, ('w, 'v) inner_connection) conn_op" where
  "ic_execute_unprepared other sql (ICMock c) =
     lift_conn ICMock (io_op (mc_execute (from_string (md_backend (mc_mocker c)) sql))) c"
| "ic_execute_unprepared other sql i = other sql i"

definition dt_execute_unprepared ::
  "(string \<Rightarrow> ((mock_exec_result, db_err) result, ('w, 'v) inner_connection) conn_op) \<Rightarrow>
    database_transaction \<Rightarrow> string \<Rightarrow>
    ((mock_exec_result, db_err) result, ('w, 'v) shared_connection) conn_op" where
  "dt_execute_unprepared other t sql = with_lock (ic_execute_unprepared other sql)"

end
