(* ===== verification/DbTransactionSpec.thy ===== *)
theory DbTransactionSpec
  imports DbTransaction
begin

text \<open>
  What transactions promise. A transaction on rusqlite refines an atomic block on the data: its
  statements are \<open>BEGIN\<close>, savepoints and their release, whose documented meaning in SQLite is the
  predicate \<open>sqlite_engine\<close>. The drivers that count their nesting satisfy the contract
  \<open>transaction_driver\<close>, under which a transaction that returns leaves the depth as it found it.
  On the mock connection the log is exactly the statements of the closure in their brackets.
\<close>

section \<open>Atomic blocks\<close>

text \<open>The specification: the effect of an atomic block on the data.\<close>

definition atomically ::
  "('d \<Rightarrow> ('a, 'e) result run \<times> 'd) \<Rightarrow> 'd \<Rightarrow> ('a, 'e transaction_error) result run \<times> 'd" where
  "atomically g db = (case g db of
     (Ret (Inr v), db') \<Rightarrow> (Ret (Inr v), db')
   | (Ret (Inl e), _) \<Rightarrow> (Ret (Inl (TxTransaction e)), db)
   | (Panic msg, _) \<Rightarrow> (Panic msg, db)
   | (Diverge, db') \<Rightarrow> (Diverge, db'))"

text \<open>
  An SQLite connection, seen through the data it shows (\<open>cur\<close>), the data at \<open>BEGIN\<close> when a
  transaction is open (\<open>base\<close>), and its savepoints with the data they saved, newest first
  (\<open>saved\<close>). \<open>RELEASE\<close> and \<open>ROLLBACK TO\<close> address the newest savepoint of the name and cancel the
  newer ones; \<open>ROLLBACK TO\<close> keeps the savepoint. The statements succeed where they are legal.
\<close>

record ('w, 'd) sqlite_view =
  sv_cur :: "'w \<Rightarrow> 'd"
  sv_base :: "'w \<Rightarrow> 'd option"
  sv_saved :: "'w \<Rightarrow> (string \<times> 'd) list"

definition shows_data ::
  "('w, 'd) sqlite_view \<Rightarrow> 'w \<Rightarrow> 'd \<Rightarrow> 'd option \<Rightarrow> (string \<times> 'd) list \<Rightarrow> bool" where
  "shows_data sv w d b ss = (sv_cur sv w = d \<and> sv_base sv w = b \<and> sv_saved sv w = ss)"

definition drop_newer :: "string \<Rightarrow> (string \<times> 'd) list \<Rightarrow> (string \<times> 'd) list" where
  "drop_newer n ss = dropWhile (\<lambda>s. fst s \<noteq> n) ss"

definition succeeds_with ::
  "(unit, rusqlite_error \<times> string) result \<times> 'w \<Rightarrow> ('w \<Rightarrow> bool) \<Rightarrow> bool" where
  "succeeds_with rw P = (fst rw = Inr () \<and> P (snd rw))"

definition sqlite_engine ::
  "(string \<Rightarrow> 'w \<Rightarrow> (unit, rusqlite_error \<times> string) result \<times> 'w) \<Rightarrow> ('w, 'd) sqlite_view \<Rightarrow> bool" where
  "sqlite_engine batch sv = (\<forall>w n.
     (sv_base sv w = None \<longrightarrow> sv_saved sv w = [] \<and>
       succeeds_with (batch ''BEGIN'' w) (\<lambda>w'. shows_data sv w' (sv_cur sv w) (Some (sv_cur sv w)) [])) \<and>
     (sv_base sv w \<noteq> None \<longrightarrow>
       succeeds_with (batch ''COMMIT'' w) (\<lambda>w'. shows_data sv w' (sv_cur sv w) None []) \<and>
       succeeds_with (batch ''ROLLBACK'' w) (\<lambda>w'. shows_data sv w' (the (sv_base sv w)) None []) \<and>
       succeeds_with (batch (''SAVEPOINT '' @ n) w)
         (\<lambda>w'. shows_data sv w' (sv_cur sv w) (sv_base sv w) ((n, sv_cur sv w) # sv_saved sv w)) \<and>
       (n \<in> fst ` set (sv_saved sv w) \<longrightarrow>
         succeeds_with (batch (''RELEASE SAVEPOINT '' @ n) w)
           (\<lambda>w'. shows_data sv w' (sv_cur sv w) (sv_base sv w) (tl (drop_newer n (sv_saved sv w)))) \<and>
         succeeds_with (batch (''ROLLBACK TO '' @ n) w)
           (\<lambda>w'. shows_data sv w' (snd (hd (drop_newer n (sv_saved sv w)))) (sv_base sv w)
             (drop_newer n (sv_saved sv w))))))"

text \<open>What a block running at depth \<open>d\<close> may leave on the savepoint stack: savepoints of its own
  depth and deeper, which \<open>ROLLBACK TO\<close> keeps.\<close>

definition leftover :: "nat \<Rightarrow> (string \<times> 'd) list \<Rightarrow> (string \<times> 'd) list \<Rightarrow> bool" where
  "leftover d before after =
    (\<exists>js. after = js @ before \<and> list_all (\<lambda>s. \<exists>j \<ge> d. fst s = sp_name j) js)"

text \<open>A closure run in a transaction at depth \<open>d\<close> finishes, has the outcome and the effect \<open>g\<close> on the
  data, and leaves the transaction it runs in open.\<close>

definition on_rusqlite :: "'w \<Rightarrow> nat \<Rightarrow> ('w, 'v) shared_connection" where
  "on_rusqlite w d = \<lparr>sc_inner = ICRusqlite \<lparr>rq_conn = w, rq_depth = d\<rparr>, sc_locked = False\<rparr>"

definition refines_block ::
  "('w, 'd) sqlite_view \<Rightarrow> nat \<Rightarrow> (('a, 'e) result, ('w, 'v) shared_connection) conn_op \<Rightarrow>
    ('d \<Rightarrow> ('a, 'e) result run \<times> 'd) \<Rightarrow> bool" where
  "refines_block sv d f g = (\<forall>w. sv_base sv w \<noteq> None \<longrightarrow>
     (\<exists>w'. f (on_rusqlite w d) = (fst (g (sv_cur sv w)), on_rusqlite w' d) \<and>
       fst (g (sv_cur sv w)) \<noteq> Diverge \<and>
       sv_cur sv w' = snd (g (sv_cur sv w)) \<and> sv_base sv w' = sv_base sv w \<and>
       leftover d (sv_saved sv w) (sv_saved sv w')))"

lemma on_rusqlite_inject [simp]: "on_rusqlite w d = on_rusqlite w' d' \<longleftrightarrow> w = w' \<and> d = d'"
  by (simp add: on_rusqlite_def)

lemma sp_name_inject [simp]: "sp_name i = sp_name j \<longleftrightarrow> i = j"
  by (simp add: sp_name_def)

lemma succeeds_with_ex: "succeeds_with rw P \<longleftrightarrow> (\<exists>w'. rw = (Inr (), w') \<and> P w')"
  by (cases rw) (auto simp: succeeds_with_def)

lemma engine_begin:
  assumes "sqlite_engine batch sv" "sv_base sv w = None"
  shows "\<exists>w'. batch ''BEGIN'' w = (Inr (), w') \<and> shows_data sv w' (sv_cur sv w) (Some (sv_cur sv w)) []"
  using assms unfolding sqlite_engine_def succeeds_with_ex by blast

lemma engine_outside:
  "sqlite_engine batch sv \<Longrightarrow> sv_base sv w = None \<Longrightarrow> sv_saved sv w = []"
  unfolding sqlite_engine_def by blast

lemma engine_inside:
  assumes "sqlite_engine batch sv" "sv_base sv w \<noteq> None"
  shows "\<exists>w'. batch ''COMMIT'' w = (Inr (), w') \<and> shows_data sv w' (sv_cur sv w) None []"
    and "\<exists>w'. batch ''ROLLBACK'' w = (Inr (), w') \<and> shows_data sv w' (the (sv_base sv w)) None []"
    and "\<exists>w'. batch (''SAVEPOINT '' @ n) w = (Inr (), w') \<and>
      shows_data sv w' (sv_cur sv w) (sv_base sv w) ((n, sv_cur sv w) # sv_saved sv w)"
proof -
  have "succeeds_with (batch ''COMMIT'' w) (\<lambda>w'. shows_data sv w' (sv_cur sv w) None []) \<and>
    succeeds_with (batch ''ROLLBACK'' w) (\<lambda>w'. shows_data sv w' (the (sv_base sv w)) None []) \<and>
    succeeds_with (batch (''SAVEPOINT '' @ n) w)
      (\<lambda>w'. shows_data sv w' (sv_cur sv w) (sv_base sv w) ((n, sv_cur sv w) # sv_saved sv w))"
    using assms unfolding sqlite_engine_def by blast
  then show "\<exists>w'. batch ''COMMIT'' w = (Inr (), w') \<and> shows_data sv w' (sv_cur sv w) None []"
    and "\<exists>w'. batch ''ROLLBACK'' w = (Inr (), w') \<and> shows_data sv w' (the (sv_base sv w)) None []"
    and "\<exists>w'. batch (''SAVEPOINT '' @ n) w = (Inr (), w') \<and>
      shows_data sv w' (sv_cur sv w) (sv_base sv w) ((n, sv_cur sv w) # sv_saved sv w)"
    by (simp_all add: succeeds_with_ex)
qed

lemma engine_savepoint:
  assumes "sqlite_engine batch sv" "sv_base sv w \<noteq> None" "n \<in> fst ` set (sv_saved sv w)"
  shows "\<exists>w'. batch (''RELEASE SAVEPOINT '' @ n) w = (Inr (), w') \<and>
      shows_data sv w' (sv_cur sv w) (sv_base sv w) (tl (drop_newer n (sv_saved sv w)))"
    and "\<exists>w'. batch (''ROLLBACK TO '' @ n) w = (Inr (), w') \<and>
      shows_data sv w' (snd (hd (drop_newer n (sv_saved sv w)))) (sv_base sv w) (drop_newer n (sv_saved sv w))"
proof -
  have "succeeds_with (batch (''RELEASE SAVEPOINT '' @ n) w)
      (\<lambda>w'. shows_data sv w' (sv_cur sv w) (sv_base sv w) (tl (drop_newer n (sv_saved sv w)))) \<and>
    succeeds_with (batch (''ROLLBACK TO '' @ n) w)
      (\<lambda>w'. shows_data sv w' (snd (hd (drop_newer n (sv_saved sv w)))) (sv_base sv w) (drop_newer n (sv_saved sv w)))"
    using assms unfolding sqlite_engine_def by blast
  then show "\<exists>w'. batch (''RELEASE SAVEPOINT '' @ n) w = (Inr (), w') \<and>
      shows_data sv w' (sv_cur sv w) (sv_base sv w) (tl (drop_newer n (sv_saved sv w)))"
    and "\<exists>w'. batch (''ROLLBACK TO '' @ n) w = (Inr (), w') \<and>
      shows_data sv w' (snd (hd (drop_newer n (sv_saved sv w)))) (sv_base sv w) (drop_newer n (sv_saved sv w))"
    by (simp_all add: succeeds_with_ex)
qed

lemma leftover_refl [simp]: "leftover d ss ss"
  by (simp add: leftover_def)

lemma leftover_trans:
  assumes "leftover d a b" "leftover e b c" "d \<le> e"
  shows "leftover d a c"
proof -
  obtain js ks where "b = js @ a" "c = ks @ b"
    and names: "list_all (\<lambda>s. \<exists>j \<ge> d. fst s = sp_name j) js" "list_all (\<lambda>s. \<exists>j \<ge> e. fst s = sp_name j) ks"
    using assms(1,2) by (auto simp: leftover_def)
  moreover have "list_all (\<lambda>s. \<exists>j \<ge> d. fst s = sp_name j) ks"
    using names(2) assms(3) by (auto simp: list_all_iff)
  ultimately show ?thesis unfolding leftover_def by (intro exI[of _ "ks @ js"]) simp
qed

lemma drop_newer_leftover:
  assumes "leftover (Suc d) ((sp_name d, x) # ss) after"
  shows "drop_newer (sp_name d) after = (sp_name d, x) # ss" "sp_name d \<in> fst ` set after"
proof -
  obtain js where after: "after = js @ (sp_name d, x) # ss"
    and js: "list_all (\<lambda>s. \<exists>j \<ge> Suc d. fst s = sp_name j) js"
    using assms by (auto simp: leftover_def)
  from js have "list_all (\<lambda>s. fst s \<noteq> sp_name d) js"
    by (auto simp: list_all_iff)
  then show "drop_newer (sp_name d) after = (sp_name d, x) # ss"
    by (simp add: after drop_newer_def list_all_iff dropWhile_append2)
  show "sp_name d \<in> fst ` set after" by (simp add: after)
qed

section \<open>Transactions on rusqlite\<close>

text \<open>The world in a block that began at depth \<open>d\<close> in the world \<open>w\<close>, and the world after it.\<close>

definition in_block :: "('w, 'd) sqlite_view \<Rightarrow> nat \<Rightarrow> 'w \<Rightarrow> 'w \<Rightarrow> bool" where
  "in_block sv d w w' =
    (if d = 0
     then sv_base sv w = None \<and> sv_base sv w' = Some (sv_cur sv w)
     else sv_base sv w \<noteq> None \<and> sv_base sv w' = sv_base sv w \<and>
       leftover (Suc d) ((sp_name d, sv_cur sv w) # sv_saved sv w) (sv_saved sv w'))"

definition after_block :: "('w, 'd) sqlite_view \<Rightarrow> nat \<Rightarrow> 'w \<Rightarrow> 'd \<Rightarrow> 'w \<Rightarrow> bool" where
  "after_block sv d w db w' = (sv_cur sv w' = db \<and> sv_base sv w' = sv_base sv w \<and>
     leftover d (sv_saved sv w) (sv_saved sv w'))"

lemmas rq_defs = rq_execute_def rq_add_depth_def rq_sub_depth_def rq_begin_def rq_commit_def
  rq_rollback_def rq_start_rollback_def
lemmas dt_defs = with_lock_def lift_conn_def dt_start_rollback_def dt_drop_def finish_with_def

lemma rusqlite_begin:
  assumes "sqlite_engine (drv_rusqlite_batch drv) sv" "d + 1 < 2 ^ 32" "d = 0 \<longleftrightarrow> sv_base sv w = None"
  shows "\<exists>w'. dt_begin drv b default_options (on_rusqlite w d :: ('w, 'v) shared_connection) =
      (Ret (Inr \<lparr>dt_backend = b, dt_open = True\<rparr>), on_rusqlite w' (Suc d)) \<and>
    in_block sv d w w' \<and> sv_cur sv w' = sv_cur sv w"
proof (cases "d = 0")
  case True
  then obtain w' where w': "drv_rusqlite_batch drv ''BEGIN'' w = (Inr (), w')"
    "shows_data sv w' (sv_cur sv w) (Some (sv_cur sv w)) []"
    using engine_begin[OF assms(1)] assms(3) by blast
  have "dt_begin drv b default_options (on_rusqlite w d :: ('w, 'v) shared_connection) =
      (Ret (Inr \<lparr>dt_backend = b, dt_open = True\<rparr>), on_rusqlite w' (Suc d))"
    using True w'(1)
    by (simp add: dt_begin_def on_rusqlite_def default_options_def dt_defs rq_defs op_defs)
  moreover have "in_block sv d w w'" "sv_cur sv w' = sv_cur sv w"
    using True w'(2) assms(3) by (simp_all add: in_block_def shows_data_def)
  ultimately show ?thesis by blast
next
  case False
  then obtain w' where w': "drv_rusqlite_batch drv (''SAVEPOINT '' @ sp_name d) w = (Inr (), w')"
    "shows_data sv w' (sv_cur sv w) (sv_base sv w) ((sp_name d, sv_cur sv w) # sv_saved sv w)"
    using engine_inside(3)[OF assms(1)] assms(3) by blast
  have "dt_begin drv b default_options (on_rusqlite w d :: ('w, 'v) shared_connection) =
      (Ret (Inr \<lparr>dt_backend = b, dt_open = True\<rparr>), on_rusqlite w' (Suc d))"
    using False w'(1) assms(2)
    by (simp add: dt_begin_def on_rusqlite_def default_options_def dt_defs rq_defs op_defs)
  moreover have "in_block sv d w w'" "sv_cur sv w' = sv_cur sv w"
    using False w'(2) assms(3) by (simp_all add: in_block_def shows_data_def)
  ultimately show ?thesis by blast
qed

text \<open>The worlds \<open>COMMIT\<close> and \<open>RELEASE\<close>, \<open>ROLLBACK\<close> and \<open>ROLLBACK TO\<close> lead to.\<close>

lemma block_base:
  assumes "sqlite_engine batch sv" "in_block sv d w w'"
  shows "sv_base sv w' \<noteq> None" "d = 0 \<Longrightarrow> sv_base sv w = None \<and> sv_saved sv w = [] \<and> the (sv_base sv w') = sv_cur sv w"
    "d \<noteq> 0 \<Longrightarrow> sv_base sv w' = sv_base sv w"
    "d \<noteq> 0 \<Longrightarrow> drop_newer (sp_name d) (sv_saved sv w') = (sp_name d, sv_cur sv w) # sv_saved sv w"
    "d \<noteq> 0 \<Longrightarrow> sp_name d \<in> fst ` set (sv_saved sv w')"
  using assms drop_newer_leftover[of d "sv_cur sv w" "sv_saved sv w" "sv_saved sv w'"] engine_outside[OF assms(1), of w]
  by (simp_all add: in_block_def split: if_splits)

lemma rusqlite_commit_inner:
  assumes "sqlite_engine (drv_rusqlite_batch drv) sv" "in_block sv d w w'"
  shows "\<exists>w2. rq_commit drv \<lparr>rq_conn = w', rq_depth = Suc d\<rparr> =
      (Ret (Inr ()), \<lparr>rq_conn = w2, rq_depth = d\<rparr>) \<and> after_block sv d w (sv_cur sv w') w2"
proof (cases "d = 0")
  case True
  note base = block_base[OF assms]
  obtain w2 where w2: "drv_rusqlite_batch drv ''COMMIT'' w' = (Inr (), w2)"
    "shows_data sv w2 (sv_cur sv w') None []"
    using engine_inside(1)[OF assms(1) base(1)] by blast
  have "rq_commit drv \<lparr>rq_conn = w', rq_depth = Suc d\<rparr> = (Ret (Inr ()), \<lparr>rq_conn = w2, rq_depth = d\<rparr>)"
    using True w2(1) by (simp add: rq_defs op_defs)
  moreover have "after_block sv d w (sv_cur sv w') w2"
    using base(2)[OF True] w2(2) by (simp add: after_block_def shows_data_def)
  ultimately show ?thesis by blast
next
  case False
  note base = block_base[OF assms]
  obtain w2 where w2: "drv_rusqlite_batch drv (''RELEASE SAVEPOINT '' @ sp_name d) w' = (Inr (), w2)"
    "shows_data sv w2 (sv_cur sv w') (sv_base sv w') (sv_saved sv w)"
    using engine_savepoint(1)[OF assms(1) base(1) base(5)[OF False]] base(4)[OF False] by auto
  have "rq_commit drv \<lparr>rq_conn = w', rq_depth = Suc d\<rparr> = (Ret (Inr ()), \<lparr>rq_conn = w2, rq_depth = d\<rparr>)"
    using False w2(1) by (simp add: rq_defs op_defs)
  moreover have "after_block sv d w (sv_cur sv w') w2"
    using base(3)[OF False] w2(2) by (simp add: after_block_def shows_data_def)
  ultimately show ?thesis by blast
qed

lemma rusqlite_rollback_inner:
  assumes "sqlite_engine (drv_rusqlite_batch drv) sv" "in_block sv d w w'"
  shows "\<exists>w2. rq_rollback drv \<lparr>rq_conn = w', rq_depth = Suc d\<rparr> =
      (Ret (Inr ()), \<lparr>rq_conn = w2, rq_depth = d\<rparr>) \<and> after_block sv d w (sv_cur sv w) w2"
proof (cases "d = 0")
  case True
  note base = block_base[OF assms]
  obtain w2 where w2: "drv_rusqlite_batch drv ''ROLLBACK'' w' = (Inr (), w2)"
    "shows_data sv w2 (sv_cur sv w) None []"
    using engine_inside(2)[OF assms(1) base(1)] base(2)[OF True] by auto
  have "rq_rollback drv \<lparr>rq_conn = w', rq_depth = Suc d\<rparr> = (Ret (Inr ()), \<lparr>rq_conn = w2, rq_depth = d\<rparr>)"
    using True w2(1) by (simp add: rq_defs op_defs)
  moreover have "after_block sv d w (sv_cur sv w) w2"
    using base(2)[OF True] w2(2) by (simp add: after_block_def shows_data_def)
  ultimately show ?thesis by blast
next
  case False
  note base = block_base[OF assms]
  obtain w2 where w2: "drv_rusqlite_batch drv (''ROLLBACK TO '' @ sp_name d) w' = (Inr (), w2)"
    "shows_data sv w2 (sv_cur sv w) (sv_base sv w') ((sp_name d, sv_cur sv w) # sv_saved sv w)"
    using engine_savepoint(2)[OF assms(1) base(1) base(5)[OF False]] base(4)[OF False] by auto
  have "rq_rollback drv \<lparr>rq_conn = w', rq_depth = Suc d\<rparr> = (Ret (Inr ()), \<lparr>rq_conn = w2, rq_depth = d\<rparr>)"
    using False w2(1) by (simp add: rq_defs op_defs)
  moreover have "leftover d (sv_saved sv w) ((sp_name d, sv_cur sv w) # sv_saved sv w)"
    unfolding leftover_def by (intro exI[of _ "[(sp_name d, sv_cur sv w)]"]) auto
  then have "after_block sv d w (sv_cur sv w) w2"
    using base(3)[OF False] w2(2) by (simp add: after_block_def shows_data_def)
  ultimately show ?thesis by blast
qed

text \<open>\<open>rollback\<close> and the destructor of an open handle have the same effect.\<close>

lemma rusqlite_finish:
  assumes "sqlite_engine (drv_rusqlite_batch drv) sv" "in_block sv d w w'"
  shows "\<exists>w2. dt_commit drv t (on_rusqlite w' (Suc d) :: ('w, 'v) shared_connection) =
      (Ret (Inr ()), on_rusqlite w2 d) \<and> after_block sv d w (sv_cur sv w') w2"
    and "\<exists>w2. dt_rollback drv t (on_rusqlite w' (Suc d) :: ('w, 'v) shared_connection) =
      (Ret (Inr ()), on_rusqlite w2 d) \<and> after_block sv d w (sv_cur sv w) w2"
    and "dt_open t \<Longrightarrow> \<exists>w2. dt_drop drv t (on_rusqlite w' (Suc d) :: ('w, 'v) shared_connection) =
      (Ret (), on_rusqlite w2 d) \<and> after_block sv d w (sv_cur sv w) w2"
proof -
  obtain w2 where c: "rq_commit drv \<lparr>rq_conn = w', rq_depth = Suc d\<rparr> = (Ret (Inr ()), \<lparr>rq_conn = w2, rq_depth = d\<rparr>)"
    "after_block sv d w (sv_cur sv w') w2"
    using rusqlite_commit_inner[OF assms] by blast
  have "dt_commit drv t (on_rusqlite w' (Suc d) :: ('w, 'v) shared_connection) = (Ret (Inr ()), on_rusqlite w2 d)"
    using c(1) by (simp add: dt_commit_def on_rusqlite_def dt_defs op_defs)
  with c(2) show "\<exists>w2. dt_commit drv t (on_rusqlite w' (Suc d) :: ('w, 'v) shared_connection) =
      (Ret (Inr ()), on_rusqlite w2 d) \<and> after_block sv d w (sv_cur sv w') w2" by blast
next
  obtain w2 where c: "rq_rollback drv \<lparr>rq_conn = w', rq_depth = Suc d\<rparr> = (Ret (Inr ()), \<lparr>rq_conn = w2, rq_depth = d\<rparr>)"
    "after_block sv d w (sv_cur sv w) w2"
    using rusqlite_rollback_inner[OF assms] by blast
  have "dt_rollback drv t (on_rusqlite w' (Suc d) :: ('w, 'v) shared_connection) = (Ret (Inr ()), on_rusqlite w2 d)"
    using c(1) by (simp add: dt_rollback_def on_rusqlite_def dt_defs op_defs)
  with c(2) show "\<exists>w2. dt_rollback drv t (on_rusqlite w' (Suc d) :: ('w, 'v) shared_connection) =
      (Ret (Inr ()), on_rusqlite w2 d) \<and> after_block sv d w (sv_cur sv w) w2" by blast
  show "\<exists>w2. dt_drop drv t (on_rusqlite w' (Suc d) :: ('w, 'v) shared_connection) =
      (Ret (), on_rusqlite w2 d) \<and> after_block sv d w (sv_cur sv w) w2" if "dt_open t"
    using c that by (simp add: on_rusqlite_def dt_defs rq_start_rollback_def)
qed

lemma in_block_closure:
  assumes "refines_block sv (Suc d) (f :: (('a, 'e) result, ('w, 'v) shared_connection) conn_op) g"
    "in_block sv d w w'"
  shows "\<exists>w2. f (on_rusqlite w' (Suc d)) = (fst (g (sv_cur sv w')), on_rusqlite w2 (Suc d)) \<and>
    fst (g (sv_cur sv w')) \<noteq> Diverge \<and> sv_cur sv w2 = snd (g (sv_cur sv w')) \<and> in_block sv d w w2"
proof -
  have "sv_base sv w' \<noteq> None" using assms(2) by (auto simp: in_block_def split: if_splits)
  then obtain w2 where w2: "f (on_rusqlite w' (Suc d)) = (fst (g (sv_cur sv w')), on_rusqlite w2 (Suc d))"
    "fst (g (sv_cur sv w')) \<noteq> Diverge" "sv_cur sv w2 = snd (g (sv_cur sv w'))" "sv_base sv w2 = sv_base sv w'"
    "leftover (Suc d) (sv_saved sv w') (sv_saved sv w2)"
    using assms(1) unfolding refines_block_def by blast
  then have "in_block sv d w w2"
    using assms(2) leftover_trans[of "Suc d" _ "sv_saved sv w'" "Suc d" "sv_saved sv w2"]
    by (auto simp: in_block_def split: if_splits)
  with w2 show ?thesis by blast
qed

lemma rusqlite_block:
  assumes engine: "sqlite_engine (drv_rusqlite_batch drv) sv"
    and depth: "d + 1 < 2 ^ 32" "d = 0 \<longleftrightarrow> sv_base sv w = None"
    and closure: "refines_block sv (Suc d) (f \<lparr>dt_backend = b, dt_open = True\<rparr>) g"
  shows "\<exists>w'. conn_transaction drv b (f :: ('a, 'e, ('w, 'v) shared_connection) closure) (on_rusqlite w d) =
      (fst (atomically g (sv_cur sv w)), on_rusqlite w' d) \<and>
    fst (atomically g (sv_cur sv w)) \<noteq> Diverge \<and>
    after_block sv d w (snd (atomically g (sv_cur sv w))) w'"
proof -
  define t where "t = \<lparr>dt_backend = b, dt_open = True\<rparr>"
  obtain w1 where w1: "dt_begin drv b default_options (on_rusqlite w d :: ('w, 'v) shared_connection) =
      (Ret (Inr t), on_rusqlite w1 (Suc d))" "in_block sv d w w1" "sv_cur sv w1 = sv_cur sv w"
    using rusqlite_begin[OF engine depth] unfolding t_def by auto
  obtain r db where g: "g (sv_cur sv w) = (r, db)" by (cases "g (sv_cur sv w)")
  obtain w2 where w2: "f t (on_rusqlite w1 (Suc d)) = (r, on_rusqlite w2 (Suc d))" "r \<noteq> Diverge"
    "sv_cur sv w2 = db" "in_block sv d w w2"
    using in_block_closure[OF closure w1(2)] g w1(3) unfolding t_def by auto
  note finish = rusqlite_finish[OF engine w2(4), of t, where ?'v = 'v]
  show ?thesis
  proof (cases r)
    case (Ret res)
    show ?thesis
    proof (cases res)
      case (Inr v)
      obtain w3 where "dt_commit drv t (on_rusqlite w2 (Suc d) :: ('w, 'v) shared_connection) =
          (Ret (Inr ()), on_rusqlite w3 d)" "after_block sv d w db w3"
        using finish(1) w2(3) by blast
      then show ?thesis
        using w1(1) w2(1) g Ret Inr
        by (simp add: conn_transaction_def transaction_with_def op_map_err_def op_try_def dt_run_def atomically_def)
    next
      case (Inl e)
      obtain w3 where "dt_rollback drv t (on_rusqlite w2 (Suc d) :: ('w, 'v) shared_connection) =
          (Ret (Inr ()), on_rusqlite w3 d)" "after_block sv d w (sv_cur sv w) w3"
        using finish(2) by blast
      then show ?thesis
        using w1(1) w2(1) g Ret Inl
        by (simp add: conn_transaction_def transaction_with_def op_map_err_def op_try_def dt_run_def atomically_def)
    qed
  next
    case (Panic msg)
    obtain w3 where "dt_drop drv t (on_rusqlite w2 (Suc d) :: ('w, 'v) shared_connection) =
        (Ret (), on_rusqlite w3 d)" "after_block sv d w (sv_cur sv w) w3"
      using finish(3) unfolding t_def by auto
    then show ?thesis
      using w1(1) w2(1) g Panic
      by (simp add: conn_transaction_def transaction_with_def op_map_err_def op_try_def dt_run_def
          atomically_def op_finally_def)
  qed (use w2(2) in simp)
qed

lemma nested_transaction_refines:
  assumes "sqlite_engine (drv_rusqlite_batch drv) sv" "0 < d" "d + 1 < 2 ^ 32"
    and "refines_block sv (Suc d) (f \<lparr>dt_backend = dt_backend t, dt_open = True\<rparr>) g"
  shows "refines_block sv d (dt_transaction drv t (f :: ('a, 'e, ('w, 'v) shared_connection) closure)) (atomically g)"
proof -
  have "dt_transaction drv t f = conn_transaction drv (dt_backend t) f"
    by (simp add: dt_transaction_def conn_transaction_def dt_begin_nested_def)
  then show ?thesis
    using rusqlite_block[of drv sv d _ f "dt_backend t" g, OF assms(1,3) _ assms(4)] assms(2)
    unfolding refines_block_def after_block_def by auto
qed

text \<open>Closures compose: \<open>?\<close> after a step stops the block with its error.\<close>

definition block_bind ::
  "('d \<Rightarrow> ('a, 'e) result run \<times> 'd) \<Rightarrow> ('a \<Rightarrow> 'd \<Rightarrow> ('b, 'e) result run \<times> 'd) \<Rightarrow> 'd \<Rightarrow> ('b, 'e) result run \<times> 'd" where
  "block_bind g h = op_try g h"

lemma refines_block_bind:
  assumes "refines_block sv d m g" "\<And>v. refines_block sv d (f v) (h v)"
  shows "refines_block sv d (op_try m f) (block_bind g h)"
  unfolding refines_block_def
proof (intro allI impI)
  fix w assume base: "sv_base sv w \<noteq> None"
  obtain w1 where w1: "m (on_rusqlite w d) = (fst (g (sv_cur sv w)), on_rusqlite w1 d)"
    "fst (g (sv_cur sv w)) \<noteq> Diverge" "sv_cur sv w1 = snd (g (sv_cur sv w))"
    "sv_base sv w1 = sv_base sv w" "leftover d (sv_saved sv w) (sv_saved sv w1)"
    using assms(1) base unfolding refines_block_def by blast
  obtain r db where g: "g (sv_cur sv w) = (r, db)" by (cases "g (sv_cur sv w)")
  show "\<exists>w'. op_try m f (on_rusqlite w d) = (fst (block_bind g h (sv_cur sv w)), on_rusqlite w' d) \<and>
    fst (block_bind g h (sv_cur sv w)) \<noteq> Diverge \<and>
    sv_cur sv w' = snd (block_bind g h (sv_cur sv w)) \<and> sv_base sv w' = sv_base sv w \<and>
    leftover d (sv_saved sv w) (sv_saved sv w')"
  proof (cases "\<exists>v. r = Ret (Inr v)")
    case True
    then obtain v where v: "r = Ret (Inr v)" ..
    have "sv_base sv w1 \<noteq> None" using w1(4) base by simp
    then obtain w2 where "f v (on_rusqlite w1 d) = (fst (h v (sv_cur sv w1)), on_rusqlite w2 d)"
      "fst (h v (sv_cur sv w1)) \<noteq> Diverge" "sv_cur sv w2 = snd (h v (sv_cur sv w1))"
      "sv_base sv w2 = sv_base sv w1" "leftover d (sv_saved sv w1) (sv_saved sv w2)"
      using assms(2)[of v] unfolding refines_block_def by blast
    then show ?thesis
      using w1 g v leftover_trans[OF w1(5), of d "sv_saved sv w2"]
      by (simp add: op_try_def block_bind_def)
  next
    case False
    then show ?thesis
      using w1 g by (cases r) (auto simp: op_try_def block_bind_def split: sum.splits)
  qed
qed

text \<open>A closure that goes on whatever a step of it returned.\<close>

definition op_ignore :: "('r, 'c) conn_op \<Rightarrow> ((unit, 'e) result, 'c) conn_op" where
  "op_ignore m = (\<lambda>c. case m c of (r, c) \<Rightarrow> (run_bind r (\<lambda>_. Ret (Inr ())), c))"

lemma refines_block_ignore:
  assumes "refines_block sv d m g"
  shows "refines_block sv d (op_ignore m) (op_ignore g)"
  unfolding refines_block_def
proof (intro allI impI)
  fix w assume "sv_base sv w \<noteq> None"
  then obtain w1 where "m (on_rusqlite w d) = (fst (g (sv_cur sv w)), on_rusqlite w1 d)"
    "fst (g (sv_cur sv w)) \<noteq> Diverge" "sv_cur sv w1 = snd (g (sv_cur sv w))"
    "sv_base sv w1 = sv_base sv w" "leftover d (sv_saved sv w) (sv_saved sv w1)"
    using assms unfolding refines_block_def by blast
  then show "\<exists>w'. op_ignore m (on_rusqlite w d) = (fst (op_ignore g (sv_cur sv w)), on_rusqlite w' d) \<and>
    fst (op_ignore g (sv_cur sv w)) \<noteq> Diverge \<and>
    sv_cur sv w' = snd (op_ignore g (sv_cur sv w)) \<and> sv_base sv w' = sv_base sv w \<and>
    leftover d (sv_saved sv w) (sv_saved sv w')"
    by (cases "g (sv_cur sv w)", cases "fst (g (sv_cur sv w))") (auto simp: op_ignore_def)
qed

text \<open>C17. On a rusqlite connection whose SQLite behaves as documented, a transaction is an atomic
  block of the data: when the closure returns \<open>Ok\<close> its effect is committed, when it returns an error
  or panics the data is what it was before, the outcome is the closure's, and the connection is out of
  every transaction and savepoint again. The closure may itself run transactions, which are atomic
  within it.\<close>

theorem transaction_is_atomic_block:
  assumes "sqlite_engine (drv_rusqlite_batch drv) sv"
    and "sv_base sv w = None"
    and "refines_block sv 1 (f \<lparr>dt_backend = backend, dt_open = True\<rparr>) g"
  shows "\<exists>w'. conn_transaction drv backend (f :: ('a, 'e, ('w, 'v) shared_connection) closure) (on_rusqlite w 0) =
      (fst (atomically g (sv_cur sv w)), on_rusqlite w' 0) \<and>
    sv_cur sv w' = snd (atomically g (sv_cur sv w)) \<and> sv_base sv w' = None \<and> sv_saved sv w' = []"
proof -
  obtain w' where w': "conn_transaction drv backend f (on_rusqlite w 0) =
      (fst (atomically g (sv_cur sv w)), on_rusqlite w' 0)"
    "after_block sv 0 w (snd (atomically g (sv_cur sv w))) w'"
    using rusqlite_block[of drv sv 0 w f backend g] assms by auto
  then have "sv_base sv w' = None" using assms(2) by (simp add: after_block_def)
  then show ?thesis
    using w' engine_outside[OF assms(1)] by (auto simp: after_block_def)
qed

subsection \<open>A concrete engine\<close>

text \<open>An SQLite connection whose data is a list of numbers.\<close>

type_synonym sample_db = "nat list \<times> nat list option \<times> (string \<times> nat list) list"

definition sample_batch ::
  "string \<Rightarrow> sample_db \<Rightarrow> (unit, rusqlite_error \<times> string) result \<times> sample_db" where
  "sample_batch stmt w = (let (cur, base, saved) = w in
     if stmt = ''BEGIN'' then (Inr (), (cur, Some cur, []))
     else if stmt = ''COMMIT'' then (Inr (), (cur, None, []))
     else if stmt = ''ROLLBACK'' then (Inr (), (the base, None, []))
     else case strip_prefix ''SAVEPOINT '' stmt of
       Some n \<Rightarrow> (Inr (), (cur, base, (n, cur) # saved))
     | None \<Rightarrow> (case strip_prefix ''RELEASE SAVEPOINT '' stmt of
         Some n \<Rightarrow> (Inr (), (cur, base, tl (drop_newer n saved)))
       | None \<Rightarrow> (case strip_prefix ''ROLLBACK TO '' stmt of
           Some n \<Rightarrow> (Inr (), (snd (hd (drop_newer n saved)), base, drop_newer n saved))
         | None \<Rightarrow> (Inl (RusqliteOther, ''syntax error''), w))))"

text \<open>Savepoints outside a transaction are not part of the example: there the view is empty.\<close>

definition sample_view :: "(sample_db, nat list) sqlite_view" where
  "sample_view = \<lparr>sv_cur = fst, sv_base = fst \<circ> snd,
     sv_saved = (\<lambda>w. if fst (snd w) = None then [] else snd (snd w))\<rparr>"

lemma sample_engine: "sqlite_engine sample_batch sample_view"
  unfolding sqlite_engine_def
  by (auto simp: succeeds_with_def shows_data_def sample_view_def sample_batch_def)

definition sample_manager :: "sample_db sqlx_manager" where
  "sample_manager = \<lparr>tm_begin = (\<lambda>_ w. (Inr (), w)), tm_commit = Pair (Inr ()), tm_rollback = Pair (Inr ()),
     tm_start_rollback = id, tm_depth = (\<lambda>_. 0), tm_execute = (\<lambda>_. Pair (Inr ()))\<rparr>"

definition sample_drivers :: "sample_db drivers" where
  "sample_drivers = \<lparr>drv_mysql = sample_manager, drv_postgres = sample_manager, drv_sqlite = sample_manager,
     drv_rusqlite_batch = sample_batch, drv_proxy_begin = id, drv_proxy_commit = id, drv_proxy_rollback = id,
     drv_proxy_start_rollback = id\<rparr>"

text \<open>The closure writes 1, runs a transaction that writes 2 and fails, ignores that, writes 3.\<close>

definition sample_write :: "nat \<Rightarrow> ((unit, string) result, (sample_db, unit) shared_connection) conn_op" where
  "sample_write k c = (case sc_inner c of
     ICRusqlite i \<Rightarrow> (Ret (Inr ()), c\<lparr>sc_inner := ICRusqlite (i\<lparr>rq_conn := (fst (rq_conn i) @ [k], snd (rq_conn i))\<rparr>)\<rparr>)
   | _ \<Rightarrow> (Ret (Inl ''not rusqlite''), c))"

definition write_block :: "nat \<Rightarrow> nat list \<Rightarrow> (unit, string) result run \<times> nat list" where
  "write_block k db = (Ret (Inr ()), db @ [k])"

definition fail_with :: "string \<Rightarrow> ((unit, string) result, 'c) conn_op" where
  "fail_with e c = (Ret (Inl e), c)"

definition sample_closure :: "(unit, string, (sample_db, unit) shared_connection) closure" where
  "sample_closure t = op_try (sample_write 1) (\<lambda>_. op_try
     (op_ignore (dt_transaction sample_drivers t (\<lambda>_. op_try (sample_write 2) (\<lambda>_. fail_with ''no''))))
     (\<lambda>_. sample_write 3))"

lemma sample_write_refines: "refines_block sample_view d (sample_write k) (write_block k)"
  by (auto simp: refines_block_def sample_write_def write_block_def on_rusqlite_def sample_view_def)

lemma sample_fail_refines: "refines_block sample_view d (fail_with e) (fail_with e)"
  by (auto simp: refines_block_def fail_with_def)

lemma sample_closure_refines:
  "refines_block sample_view 1 (sample_closure t)
    (block_bind (write_block 1) (\<lambda>_. block_bind
      (op_ignore (atomically (block_bind (write_block 2) (\<lambda>_. fail_with ''no'')))) (\<lambda>_. write_block 3)))"
  unfolding sample_closure_def
  by (intro refines_block_bind refines_block_ignore nested_transaction_refines sample_write_refines
      sample_fail_refines) (simp_all add: sample_drivers_def sample_engine)

theorem transaction_is_atomic_block_witness:
  "\<exists>w'. conn_transaction sample_drivers Sqlite sample_closure (on_rusqlite ([], None, []) 0) =
      (Ret (Inr ()), on_rusqlite w' 0) \<and> sv_cur sample_view w' = [1, 3]"
proof -
  have engine: "sqlite_engine (drv_rusqlite_batch sample_drivers) sample_view"
    by (simp add: sample_drivers_def sample_engine)
  have view: "sv_base sample_view ([], None, []) = None" "sv_cur sample_view ([], None, []) = []"
    by (simp_all add: sample_view_def)
  show ?thesis
    using transaction_is_atomic_block[of sample_drivers sample_view "([], None, [])" sample_closure Sqlite,
        OF engine view(1) sample_closure_refines]
    unfolding view(2)
    by (auto simp: atomically_def block_bind_def op_try_def write_block_def op_ignore_def fail_with_def)
qed

section \<open>The depth of transactions\<close>

text \<open>
  The contract of a driver that counts its nesting: beginning goes one deeper, commit and rollback
  one up, and an error leaves the depth. \<open>lift\<close> makes the driver's connection an inner connection.
\<close>

locale transaction_driver =
  fixes drv :: "'w drivers"
    and lift :: "'c \<Rightarrow> ('w, 'v) inner_connection"
    and depth :: "'c \<Rightarrow> nat"
  assumes begin_law: "ic_begin drv opts (lift c) = (r, i) \<Longrightarrow>
      \<exists>c'. i = lift c' \<and> (\<forall>res. r = Ret res \<longrightarrow> depth c' = (if res = Inr () then Suc (depth c) else depth c))"
    and commit_law: "ic_commit drv (lift c) = (r, i) \<Longrightarrow>
      \<exists>c'. i = lift c' \<and> (\<forall>res. r = Ret res \<longrightarrow> depth c = (if res = Inr () then Suc (depth c') else depth c'))"
    and rollback_law: "ic_rollback drv (lift c) = (r, i) \<Longrightarrow>
      \<exists>c'. i = lift c' \<and> (\<forall>res. r = Ret res \<longrightarrow> depth c = (if res = Inr () then Suc (depth c') else depth c'))"
    and start_rollback_law: "ic_start_rollback drv (lift c) = (r, i) \<Longrightarrow>
      \<exists>c'. i = lift c' \<and> (r = Ret (Inr ()) \<longrightarrow> depth c' = depth c - 1)"
begin

text \<open>What an operation that returns may do: keep the connection and move the depth.\<close>

definition moves :: "(nat \<Rightarrow> 'r \<Rightarrow> nat \<Rightarrow> bool) \<Rightarrow> ('r, ('w, 'v) shared_connection) conn_op \<Rightarrow> bool" where
  "moves P f = (\<forall>c r c2. f \<lparr>sc_inner = lift c, sc_locked = False\<rparr> = (Ret r, c2) \<longrightarrow>
     (\<exists>c'. c2 = \<lparr>sc_inner = lift c', sc_locked = False\<rparr> \<and> P (depth c) r (depth c')))"

lemma drop_moves:
  assumes "dt_drop drv t \<lparr>sc_inner = lift c, sc_locked = False\<rparr> = (Ret u, c2)"
  shows "\<exists>c'. c2 = \<lparr>sc_inner = lift c', sc_locked = False\<rparr> \<and>
    depth c' = (if dt_open t then depth c - 1 else depth c)"
proof (cases "dt_open t")
  case True
  obtain r i where ri: "ic_start_rollback drv (lift c) = (r, i)" by (cases "ic_start_rollback drv (lift c)")
  obtain c' where "i = lift c'" "r = Ret (Inr ()) \<longrightarrow> depth c' = depth c - 1"
    using start_rollback_law[OF ri] by blast
  then show ?thesis
    using assms True ri by (cases r) (auto simp: dt_defs split: sum.splits)
qed (use assms in \<open>auto simp: dt_defs\<close>)

lemma finish_moves:
  assumes law: "\<And>c r i. f (lift c) = (r, i) \<Longrightarrow>
      \<exists>c'. i = lift c' \<and> (\<forall>res. r = Ret res \<longrightarrow> depth c = (if res = Inr () then Suc (depth c') else depth c'))"
    and run: "finish_with f drv t \<lparr>sc_inner = lift c, sc_locked = False\<rparr> = (Ret r, c2)"
    and "dt_open t"
  shows "\<exists>c'. c2 = \<lparr>sc_inner = lift c', sc_locked = False\<rparr> \<and> depth c' = depth c - 1"
proof -
  obtain q i where q: "f (lift c) = (q, i)" by (cases "f (lift c)")
  obtain c' where c': "i = lift c'"
    "\<forall>res. q = Ret res \<longrightarrow> depth c = (if res = Inr () then Suc (depth c') else depth c')"
    using law[OF q] by blast
  define s where "s = \<lparr>sc_inner = lift c', sc_locked = False\<rparr>"
  show ?thesis
  proof (cases "q = Ret (Inr ())")
    case True
    then show ?thesis
      using run q c' drop_moves[of "t\<lparr>dt_open := False\<rparr>" c']
      by (auto simp: finish_with_def with_lock_def op_finally_def split: prod.splits run.splits)
  next
    case False
    then show ?thesis
      using run q c' assms(3) drop_moves[of t c']
      by (cases q) (auto simp: finish_with_def with_lock_def op_finally_def split: prod.splits run.splits sum.splits)
  qed
qed

lemma transaction_moves:
  assumes closure: "\<And>t. moves (\<lambda>n r m. m = n) (f t)"
  shows "moves (\<lambda>n r m. m = n \<or> m = n - 1 \<and> (\<exists>e. r = Inl (TxConnection e)))
    (transaction_with (dt_begin drv b opts) drv f)"
  unfolding moves_def
proof (intro allI impI)
  fix c r c2
  let ?c = "\<lparr>sc_inner = lift c, sc_locked = False\<rparr>"
  assume run: "transaction_with (dt_begin drv b opts) drv f ?c = (Ret r, c2)"
  let ?t = "\<lparr>dt_backend = b, dt_open = True\<rparr>"
  obtain q i where q: "ic_begin drv opts (lift c) = (q, i)" by (cases "ic_begin drv opts (lift c)")
  obtain c1 where c1: "i = lift c1"
    "\<forall>res. q = Ret res \<longrightarrow> depth c1 = (if res = Inr () then Suc (depth c) else depth c)"
    using begin_law[OF q] by blast
  let ?c1 = "\<lparr>sc_inner = lift c1, sc_locked = False\<rparr>"
  show "\<exists>c'. c2 = \<lparr>sc_inner = lift c', sc_locked = False\<rparr> \<and>
    (depth c' = depth c \<or> depth c' = depth c - 1 \<and> (\<exists>e. r = Inl (TxConnection e)))"
  proof (cases "q = Ret (Inr ())")
    case False
    then show ?thesis
      using run q c1 drop_moves[of ?t c1]
      by (cases q; auto simp: transaction_with_def op_map_err_def op_try_def dt_begin_def with_lock_def
          op_finally_def Let_def split: prod.splits run.splits sum.splits; blast)
  next
    case True
    then have started: "dt_run drv ?t f ?c1 = (Ret r, c2)" and deeper: "depth c1 = Suc (depth c)"
      using run q c1 by (auto simp: transaction_with_def op_map_err_def op_try_def dt_begin_def with_lock_def Let_def)
    obtain p s where p: "f ?t ?c1 = (p, s)" by (cases "f ?t ?c1")
    obtain res where res: "p = Ret res"
      using started p by (cases p) (auto simp: dt_run_def op_map_err_def op_finally_def split: prod.splits run.splits)
    then obtain c3 where c3: "s = \<lparr>sc_inner = lift c3, sc_locked = False\<rparr>" "depth c3 = depth c1"
      using closure[of ?t] p unfolding moves_def by blast
    have "\<exists>c'. c2 = \<lparr>sc_inner = lift c', sc_locked = False\<rparr> \<and> depth c' = depth c3 - 1"
    proof (cases res)
      case (Inr v)
      have "\<exists>u. dt_commit drv ?t s = (Ret u, c2)"
        using started p res Inr
        by (auto simp: dt_run_def op_map_err_def op_try_def run_simps split: prod.splits run.splits sum.splits)
      then obtain u where "finish_with (ic_commit drv) drv ?t \<lparr>sc_inner = lift c3, sc_locked = False\<rparr> = (Ret u, c2)"
        unfolding dt_commit_def c3(1) by blast
      from finish_moves[OF commit_law this] show ?thesis by simp
    next
      case (Inl e)
      have "\<exists>u. dt_rollback drv ?t s = (Ret u, c2)"
        using started p res Inl
        by (auto simp: dt_run_def op_map_err_def op_try_def run_simps split: prod.splits run.splits sum.splits)
      then obtain u where "finish_with (ic_rollback drv) drv ?t \<lparr>sc_inner = lift c3, sc_locked = False\<rparr> = (Ret u, c2)"
        unfolding dt_rollback_def c3(1) by blast
      from finish_moves[OF rollback_law this] show ?thesis by simp
    qed
    then show ?thesis using c3(2) deeper by auto
  qed
qed

end

definition mock_depth :: "'v mock_connection \<Rightarrow> nat" where
  "mock_depth c = (case md_transaction (mc_mocker c) of None \<Rightarrow> 0 | Some t \<Rightarrow> Suc (ot_depth t))"



lemma mock_op_ret:
  assumes "ok_op (with_mocker f) c = (Ret res, c')"
  shows "res = Inr () \<and> f (mc_mocker c) = Ret (mc_mocker c')"
  using assms by (auto simp: ok_op_def with_mocker_def split: if_splits run.splits)

lemma mock_commit_depth:
  "mock_commit m = Ret m' \<Longrightarrow> \<exists>t. md_transaction m = Some t \<and>
    (md_transaction m' = (if ot_depth t = 0 then None else md_transaction m') \<and>
     (ot_depth t \<noteq> 0 \<longrightarrow> (\<exists>t'. md_transaction m' = Some t' \<and> ot_depth t = Suc (ot_depth t'))))"
  "mock_rollback m = Ret m' \<Longrightarrow> \<exists>t. md_transaction m = Some t \<and>
    (md_transaction m' = (if ot_depth t = 0 then None else md_transaction m') \<and>
     (ot_depth t \<noteq> 0 \<longrightarrow> (\<exists>t'. md_transaction m' = Some t' \<and> ot_depth t = Suc (ot_depth t'))))"
  by (auto simp: mock_commit_def mock_rollback_def ot_commit_def ot_rollback_def ot_push_def into_transaction_def
      Let_def split: option.splits if_splits)

lemma mock_ops_depth:
  "ok_op mc_begin c = (Ret res, c') \<Longrightarrow> res = Inr () \<and> mock_depth c' = Suc (mock_depth c)"
  "ok_op mc_commit c = (Ret res, c') \<Longrightarrow> res = Inr () \<and> mock_depth c = Suc (mock_depth c')"
  "ok_op mc_rollback c = (Ret res, c') \<Longrightarrow> res = Inr () \<and> mock_depth c = Suc (mock_depth c')"
proof -
  show "res = Inr () \<and> mock_depth c' = Suc (mock_depth c)" if "ok_op mc_begin c = (Ret res, c')"
  proof -
    have "res = Inr ()" and after: "mc_mocker c' = mock_begin (mc_mocker c)"
      using mock_op_ret[OF that[unfolded mc_begin_def]] by simp_all
    then show ?thesis
      unfolding mock_depth_def after
      by (auto simp: mock_begin_def ot_begin_nested_def ot_push_def ot_init_def Let_def split: option.splits)
  qed
  show "res = Inr () \<and> mock_depth c = Suc (mock_depth c')" if "ok_op mc_commit c = (Ret res, c')"
    using mock_op_ret[OF that[unfolded mc_commit_def]] mock_commit_depth(1)[of "mc_mocker c" "mc_mocker c'"]
    by (auto simp: mock_depth_def split: if_splits)
  show "res = Inr () \<and> mock_depth c = Suc (mock_depth c')" if "ok_op mc_rollback c = (Ret res, c')"
    using mock_op_ret[OF that[unfolded mc_rollback_def]] mock_commit_depth(2)[of "mc_mocker c" "mc_mocker c'"]
    by (auto simp: mock_depth_def split: if_splits)
qed

interpretation mock: transaction_driver drv ICMock mock_depth for drv
  by unfold_locales (auto simp: lift_conn_def dest!: mock_ops_depth split: prod.splits)






text \<open>When a nested \<open>begin\<close> fails, its half-made handle is dropped open and rolls back the
  enclosing transaction: on rusqlite a refused \<open>SAVEPOINT\<close> is followed by the \<open>ROLLBACK\<close> of the
  transaction around it, whose own \<open>commit\<close> then panics on the depth counter; on MySQL, where the
  settings are sent first, a refused \<open>SET TRANSACTION\<close> is followed by \<open>start_rollback\<close> although nothing
  was begun.\<close>

theorem failed_nested_begin_rolls_back_enclosing:
  fixes w :: 'w
  assumes "drv_rusqlite_batch drv ''SAVEPOINT sp1'' w = (Inl e, w1)"
    and "drv_rusqlite_batch drv ''ROLLBACK'' w1 = (Inr (), w2)"
    and "tm_execute (drv_mysql drv) ''SET TRANSACTION READ ONLY'' x = (Inl err, x1)"
  shows "dt_begin_nested drv t default_options (on_rusqlite w 1 :: ('w, 'v) shared_connection) =
      (Ret (Inl (rusqlite_exec_err e)), on_rusqlite w2 0) \<and>
    dt_commit drv t (on_rusqlite w2 0 :: ('w, 'v) shared_connection) =
      (Panic ''attempt to subtract with overflow'', on_rusqlite w2 0) \<and>
    begin_with_config drv t None (Some ReadOnly) \<lparr>sc_inner = ICMySql x :: ('w, 'v) inner_connection, sc_locked = False\<rparr> =
      (Ret (Inl (sqlx_error_to_exec_err err)), \<lparr>sc_inner = ICMySql (tm_start_rollback (drv_mysql drv) x1), sc_locked = False\<rparr>)"
proof -
  have sp1: "''SAVEPOINT '' @ sp_name 1 = ''SAVEPOINT sp1''" by code_simp
  have "dt_begin_nested drv t default_options (on_rusqlite w 1 :: ('w, 'v) shared_connection) =
      (Ret (Inl (rusqlite_exec_err e)), on_rusqlite w2 0)"
    using assms(1)[folded sp1] assms(2)
    by (simp add: dt_begin_nested_def dt_begin_def dt_defs rq_defs op_defs on_rusqlite_def default_options_def Let_def)
  moreover have "dt_commit drv t (on_rusqlite w2 0 :: ('w, 'v) shared_connection) =
      (Panic ''attempt to subtract with overflow'', on_rusqlite w2 0)"
    by (simp add: dt_commit_def dt_defs rq_defs op_defs on_rusqlite_def)
  moreover have "begin_with_config drv t None (Some ReadOnly)
        \<lparr>sc_inner = ICMySql x :: ('w, 'v) inner_connection, sc_locked = False\<rparr> =
      (Ret (Inl (sqlx_error_to_exec_err err)), \<lparr>sc_inner = ICMySql (tm_start_rollback (drv_mysql drv) x1), sc_locked = False\<rparr>)"
    using assms(3)
    by (simp add: begin_with_config_def dt_begin_nested_def dt_begin_def dt_defs op_defs io_op_def ok_op_def proxy_op_def
        mysql_set_transaction_config_def set_transaction_config_def transaction_settings_def Let_def)
  ultimately show ?thesis by blast
qed

text \<open>The example engine, refusing savepoints and settings.\<close>

definition refusing_drivers :: "sample_db drivers" where
  "refusing_drivers = sample_drivers\<lparr>
     drv_mysql := sample_manager\<lparr>tm_execute := \<lambda>_ w. (Inl (SqlxOther, ''in progress''), w),
       tm_start_rollback := \<lambda>_. ([], None, [])\<rparr>,
     drv_rusqlite_batch := \<lambda>s w. if s = ''SAVEPOINT sp1'' then (Inl (RusqliteOther, ''busy''), w) else sample_batch s w\<rparr>"

theorem failed_nested_begin_rolls_back_enclosing_witness:
  "dt_begin_nested refusing_drivers \<lparr>dt_backend = Sqlite, dt_open = True\<rparr> default_options
      (on_rusqlite ([1, 2], Some [], []) 1 :: (sample_db, unit) shared_connection) =
    (Ret (Inl (Exec (Rusqlite RusqliteOther ''busy''))), on_rusqlite ([], None, []) 0)"
proof -
  have "drv_rusqlite_batch refusing_drivers ''SAVEPOINT sp1'' ([1, 2], Some [], []) =
      (Inl (RusqliteOther, ''busy''), ([1, 2], Some [], []))"
    and "drv_rusqlite_batch refusing_drivers ''ROLLBACK'' ([1, 2], Some [], []) = (Inr (), ([], None, []))"
    and "tm_execute (drv_mysql refusing_drivers) ''SET TRANSACTION READ ONLY'' ([], None, []) =
      (Inl (SqlxOther, ''in progress''), ([], None, []))"
    by (simp_all add: refusing_drivers_def sample_batch_def)
  from failed_nested_begin_rolls_back_enclosing[where 'v = unit, OF this] show ?thesis
    by (simp add: rusqlite_exec_err_def)
qed

end
