(* ===== verification/MockTransactions.thy ===== *)
theory MockTransactions
  imports DbTransactionSpec
begin

text \<open>
  Transactions on the mock connection: what the log of a mock database holds after a transaction, with
  its nested transactions as savepoints, whatever the closure does.
\<close>

definition on_mock :: "'v mock_connection \<Rightarrow> ('w, 'v) shared_connection" where
  "on_mock c = \<lparr>sc_inner = ICMock c, sc_locked = False\<rparr>"

lemma on_mock_inject [simp]: "on_mock c = on_mock c' \<longleftrightarrow> c = c'"
  by (simp add: on_mock_def)

text \<open>The connection has the transaction \<open>ot\<close> open, over the log \<open>log\<close>, on \<open>backend\<close>.\<close>

definition mock_in ::
  "db_backend \<Rightarrow> 'v transaction list \<Rightarrow> 'v open_transaction option \<Rightarrow> 'v mock_connection \<Rightarrow> bool" where
  "mock_in backend log ot c =
    (\<not> mc_poisoned c \<and> md_backend (mc_mocker c) = backend \<and> md_log (mc_mocker c) = log \<and>
     md_transaction (mc_mocker c) = ot)"

text \<open>At nesting depth \<open>d\<close> the closure finishes; when its outcome is \<open>r\<close> it has logged \<open>ss\<close>, for some
  \<open>r\<close> and \<open>ss\<close> related by \<open>P\<close>.\<close>

definition logs_in_transaction ::
  "db_backend \<Rightarrow> nat \<Rightarrow> (('a, 'e) result, ('w, 'v) shared_connection) conn_op \<Rightarrow>
    (('a, 'e) result run \<Rightarrow> 'v statement list \<Rightarrow> bool) \<Rightarrow> bool" where
  "logs_in_transaction backend d f P = (\<forall>c log ot. mock_in backend log (Some ot) c \<and> ot_depth ot = d \<longrightarrow>
     (\<exists>c' r ss. f (on_mock c) = (r, on_mock c') \<and> r \<noteq> Diverge \<and> P r ss \<and>
       mock_in backend log (Some (ot\<lparr>ot_stmts := ot_stmts ot @ ss\<rparr>)) c'))"

definition committed :: "('a, 'e) result run \<Rightarrow> bool" where
  "committed r = (case r of Ret (Inr _) \<Rightarrow> True | _ \<Rightarrow> False)"

definition transaction_outcome :: "('a, 'e) result run \<Rightarrow> ('a, 'e transaction_error) result run" where
  "transaction_outcome r = run_bind r (\<lambda>res. Ret (map_err TxTransaction res))"

text \<open>The brackets of the outermost transaction and of one nested at depth \<open>d\<close>.\<close>

definition closing_statement :: "db_backend \<Rightarrow> nat \<Rightarrow> bool \<Rightarrow> 'v statement" where
  "closing_statement backend d ok = from_string backend
    (if d = 0 then (if ok then ''COMMIT'' else ''ROLLBACK'')
     else (if ok then ''RELEASE SAVEPOINT '' else ''ROLLBACK TO SAVEPOINT '') @ savepoint_name d)"

definition savepoint_statement :: "db_backend \<Rightarrow> nat \<Rightarrow> 'v statement" where
  "savepoint_statement backend d = from_string backend (''SAVEPOINT '' @ savepoint_name d)"

text \<open>The state after closing \<open>ot\<close>.\<close>

definition closed_in ::
  "db_backend \<Rightarrow> 'v transaction list \<Rightarrow> bool \<Rightarrow> 'v open_transaction \<Rightarrow> 'v mock_connection \<Rightarrow> bool" where
  "closed_in backend log ok ot c =
    (let stmts = ot_stmts ot @ [closing_statement backend (ot_depth ot) ok] in
     if ot_depth ot = 0 then mock_in backend (log @ [\<lparr>tr_stmts = stmts\<rparr>]) None c
     else mock_in backend log (Some (ot\<lparr>ot_stmts := stmts, ot_depth := ot_depth ot - 1\<rparr>)) c)"

lemma mock_begin_in:
  assumes "mock_in backend log ot c"
  shows "\<exists>c'. dt_begin drv b opts (on_mock c :: ('w, 'v) shared_connection) =
      (Ret (Inr \<lparr>dt_backend = b, dt_open = True\<rparr>), on_mock c') \<and>
    mock_in backend log (Some (case ot of None \<Rightarrow> ot_init
      | Some t \<Rightarrow> t\<lparr>ot_stmts := ot_stmts t @ [savepoint_statement backend (Suc (ot_depth t))],
                   ot_depth := Suc (ot_depth t)\<rparr>)) c'"
proof -
  let ?c = "c\<lparr>mc_mocker := mock_begin (mc_mocker c)\<rparr>"
  have "dt_begin drv b opts (on_mock c :: ('w, 'v) shared_connection) =
      (Ret (Inr \<lparr>dt_backend = b, dt_open = True\<rparr>), on_mock ?c)"
    using assms by (simp add: dt_begin_def with_lock_def lift_conn_def ok_op_def mc_begin_def with_mocker_def
        on_mock_def mock_in_def)
  moreover have "mock_in backend log (Some (case ot of None \<Rightarrow> ot_init
      | Some t \<Rightarrow> t\<lparr>ot_stmts := ot_stmts t @ [savepoint_statement backend (Suc (ot_depth t))],
                   ot_depth := Suc (ot_depth t)\<rparr>)) ?c"
    using assms
    by (cases ot) (auto simp: mock_in_def mock_begin_def ot_begin_nested_def ot_push_def savepoint_statement_def Let_def)
  ultimately show ?thesis by blast
qed

lemma mock_close_in:
  assumes "mock_in backend log (Some ot) c"
  shows "\<exists>c'. ok_op mc_commit c = (Ret (Inr ()), c') \<and> closed_in backend log True ot c'"
    and "\<exists>c'. ok_op mc_rollback c = (Ret (Inr ()), c') \<and> closed_in backend log False ot c'"
  using assms
  by (cases "ot_depth ot = 0";
      auto simp: mock_in_def ok_op_def mc_commit_def mc_rollback_def with_mocker_def mock_commit_def mock_rollback_def
        ot_commit_def ot_rollback_def ot_push_def into_transaction_def closed_in_def closing_statement_def Let_def)+

lemma mock_finish_in:
  assumes "mock_in backend log (Some ot) c"
  shows "\<exists>c'. dt_commit drv t (on_mock c :: ('w, 'v) shared_connection) = (Ret (Inr ()), on_mock c') \<and>
      closed_in backend log True ot c'"
    and "\<exists>c'. dt_rollback drv t (on_mock c :: ('w, 'v) shared_connection) = (Ret (Inr ()), on_mock c') \<and>
      closed_in backend log False ot c'"
    and "dt_open t \<Longrightarrow> \<exists>c'. dt_drop drv t (on_mock c :: ('w, 'v) shared_connection) = (Ret (), on_mock c') \<and>
      closed_in backend log False ot c'"
proof -
  obtain c1 c2 where ops: "ok_op mc_commit c = (Ret (Inr ()), c1)" "ok_op mc_rollback c = (Ret (Inr ()), c2)"
    and closed: "closed_in backend log True ot c1" "closed_in backend log False ot c2"
    using mock_close_in[OF assms] by blast
  have "dt_commit drv t (on_mock c :: ('w, 'v) shared_connection) = (Ret (Inr ()), on_mock c1)"
    using ops(1) by (simp add: dt_commit_def finish_with_def with_lock_def lift_conn_def on_mock_def op_finally_def
        dt_drop_def dt_start_rollback_def)
  with closed(1) show "\<exists>c'. dt_commit drv t (on_mock c :: ('w, 'v) shared_connection) = (Ret (Inr ()), on_mock c') \<and>
      closed_in backend log True ot c'" by blast
  have "dt_rollback drv t (on_mock c :: ('w, 'v) shared_connection) = (Ret (Inr ()), on_mock c2)"
    using ops(2) by (simp add: dt_rollback_def finish_with_def with_lock_def lift_conn_def on_mock_def op_finally_def
        dt_drop_def dt_start_rollback_def)
  with closed(2) show "\<exists>c'. dt_rollback drv t (on_mock c :: ('w, 'v) shared_connection) = (Ret (Inr ()), on_mock c') \<and>
      closed_in backend log False ot c'" by blast
  show "\<exists>c'. dt_drop drv t (on_mock c :: ('w, 'v) shared_connection) = (Ret (), on_mock c') \<and>
      closed_in backend log False ot c'" if "dt_open t"
    using ops(2) closed(2) that
    by (simp add: with_lock_def lift_conn_def on_mock_def dt_drop_def dt_start_rollback_def)
qed

text \<open>A transaction that begins with \<open>ot\<close> open (or none) and whose closure logs by \<open>P\<close>.\<close>

lemma mock_transaction_in:
  assumes inside: "mock_in backend log outer c"
    and opened: "ot = (case outer of None \<Rightarrow> ot_init
      | Some t \<Rightarrow> t\<lparr>ot_stmts := ot_stmts t @ [savepoint_statement backend (Suc (ot_depth t))],
                   ot_depth := Suc (ot_depth t)\<rparr>)"
    and closure: "logs_in_transaction backend (ot_depth ot) (f \<lparr>dt_backend = b, dt_open = True\<rparr>) P"
  shows "\<exists>c' r ss. conn_transaction drv b (f :: ('a, 'e, ('w, 'v) shared_connection) closure) (on_mock c) =
      (transaction_outcome r, on_mock c') \<and> r \<noteq> Diverge \<and> P r ss \<and>
    closed_in backend log (committed r) (ot\<lparr>ot_stmts := ot_stmts ot @ ss\<rparr>) c'"
proof -
  define t where "t = \<lparr>dt_backend = b, dt_open = True\<rparr>"
  obtain c1 where c1: "dt_begin drv b default_options (on_mock c :: ('w, 'v) shared_connection) = (Ret (Inr t), on_mock c1)"
    "mock_in backend log (Some ot) c1"
    using mock_begin_in[OF inside, of drv b default_options] unfolding opened t_def by blast
  obtain c2 r ss where c2: "f t (on_mock c1) = (r, on_mock c2)" "r \<noteq> Diverge" "P r ss"
    "mock_in backend log (Some (ot\<lparr>ot_stmts := ot_stmts ot @ ss\<rparr>)) c2"
    using closure c1(2) unfolding logs_in_transaction_def t_def by blast
  note finish = mock_finish_in[OF c2(4), where ?'w = 'w]
  have "\<exists>c'. conn_transaction drv b f (on_mock c) = (transaction_outcome r, on_mock c') \<and>
    closed_in backend log (committed r) (ot\<lparr>ot_stmts := ot_stmts ot @ ss\<rparr>) c'"
  proof (cases r)
    case (Ret res)
    show ?thesis
    proof (cases res)
      case (Inr v)
      obtain c3 where "dt_commit drv t (on_mock c2 :: ('w, 'v) shared_connection) = (Ret (Inr ()), on_mock c3)"
        "closed_in backend log True (ot\<lparr>ot_stmts := ot_stmts ot @ ss\<rparr>) c3"
        using finish(1) by blast
      then show ?thesis
        using c1(1) c2(1) Ret Inr
        by (simp add: conn_transaction_def transaction_with_def op_map_err_def op_try_def dt_run_def
            transaction_outcome_def committed_def)
    next
      case (Inl e)
      obtain c3 where "dt_rollback drv t (on_mock c2 :: ('w, 'v) shared_connection) = (Ret (Inr ()), on_mock c3)"
        "closed_in backend log False (ot\<lparr>ot_stmts := ot_stmts ot @ ss\<rparr>) c3"
        using finish(2) by blast
      then show ?thesis
        using c1(1) c2(1) Ret Inl
        by (simp add: conn_transaction_def transaction_with_def op_map_err_def op_try_def dt_run_def
            transaction_outcome_def committed_def)
    qed
  next
    case (Panic msg)
    obtain c3 where "dt_drop drv t (on_mock c2 :: ('w, 'v) shared_connection) = (Ret (), on_mock c3)"
      "closed_in backend log False (ot\<lparr>ot_stmts := ot_stmts ot @ ss\<rparr>) c3"
      using finish(3)[of t] unfolding t_def by auto
    then show ?thesis
      using c1(1) c2(1) Panic
      by (simp add: conn_transaction_def transaction_with_def op_map_err_def op_try_def dt_run_def
          op_finally_def transaction_outcome_def committed_def)
  qed (use c2(2) in simp)
  with c2(2,3) show ?thesis by blast
qed

text \<open>A nested transaction logs its savepoint, the statements of its closure, and the release of the
  savepoint or the rollback to it.\<close>

definition nested_log ::
  "db_backend \<Rightarrow> nat \<Rightarrow> (('a, 'e) result run \<Rightarrow> 'v statement list \<Rightarrow> bool) \<Rightarrow>
    ('a, 'e transaction_error) result run \<Rightarrow> 'v statement list \<Rightarrow> bool" where
  "nested_log backend d P r ss = (\<exists>r' ss'. P r' ss' \<and> r = transaction_outcome r' \<and>
     ss = [savepoint_statement backend (Suc d)] @ ss' @ [closing_statement backend (Suc d) (committed r')])"

lemma nested_transaction_logs:
  assumes "logs_in_transaction backend (Suc d) (f \<lparr>dt_backend = dt_backend t, dt_open = True\<rparr>) P"
  shows "logs_in_transaction backend d
    (dt_transaction drv t (f :: ('a, 'e, ('w, 'v) shared_connection) closure)) (nested_log backend d P)"
  unfolding logs_in_transaction_def
proof (intro allI impI, elim conjE)
  fix c :: "'v mock_connection" and log ot
  assume inside: "mock_in backend log (Some ot) c" and "ot_depth ot = d"
  have same: "dt_transaction drv t f = conn_transaction drv (dt_backend t) f"
    by (simp add: dt_transaction_def conn_transaction_def dt_begin_nested_def)
  let ?ot = "ot\<lparr>ot_stmts := ot_stmts ot @ [savepoint_statement backend (Suc (ot_depth ot))], ot_depth := Suc (ot_depth ot)\<rparr>"
  have "logs_in_transaction backend (ot_depth ?ot) (f \<lparr>dt_backend = dt_backend t, dt_open = True\<rparr>) P"
    using assms \<open>ot_depth ot = d\<close> by simp
  from mock_transaction_in[of backend log "Some ot" c ?ot f "dt_backend t" P drv, OF inside _ this]
  obtain c' r ss where r: "dt_transaction drv t f (on_mock c) = (transaction_outcome r, on_mock c')"
    "r \<noteq> Diverge" "P r ss" "closed_in backend log (committed r) (?ot\<lparr>ot_stmts := ot_stmts ?ot @ ss\<rparr>) c'"
    unfolding same by auto
  have "mock_in backend log (Some (ot\<lparr>ot_stmts := ot_stmts ot @
      [savepoint_statement backend (Suc d)] @ ss @ [closing_statement backend (Suc d) (committed r)]\<rparr>)) c'"
    using r(4) \<open>ot_depth ot = d\<close> by (cases ot) (simp add: closed_in_def Let_def)
  moreover have "transaction_outcome r \<noteq> Diverge"
    using r(2) by (cases r) (auto simp: transaction_outcome_def)
  ultimately show "\<exists>c' r ss. dt_transaction drv t f (on_mock c) = (r, on_mock c') \<and> r \<noteq> Diverge \<and>
      nested_log backend d P r ss \<and> mock_in backend log (Some (ot\<lparr>ot_stmts := ot_stmts ot @ ss\<rparr>)) c'"
    using r(1,3) unfolding nested_log_def by blast
qed

text \<open>A transaction on a mock connection adds exactly one transaction to the log: \<open>BEGIN\<close>, the
  statements of its closure (nested transactions as savepoints) and \<open>COMMIT\<close> when the closure
  returned \<open>Ok\<close>, \<open>ROLLBACK\<close> when it returned an error or panicked; it never panics by itself and
  leaves no transaction open.\<close>

theorem mock_transaction_log:
  assumes "mock_in backend log None c"
    and "logs_in_transaction backend 0 (f \<lparr>dt_backend = b, dt_open = True\<rparr>) P"
  shows "\<exists>c' r ss. conn_transaction drv b (f :: ('a, 'e, ('w, 'v) shared_connection) closure) (on_mock c) =
      (transaction_outcome r, on_mock c') \<and> P r ss \<and>
    mock_in backend (log @ [\<lparr>tr_stmts = [from_string Postgres ''BEGIN''] @ ss @
      [from_string backend (if committed r then ''COMMIT'' else ''ROLLBACK'')]\<rparr>]) None c'"
proof -
  have "logs_in_transaction backend (ot_depth ot_init) (f \<lparr>dt_backend = b, dt_open = True\<rparr>) P"
    using assms(2) by (simp add: ot_init_def)
  from mock_transaction_in[of backend log None c ot_init f b P drv, OF assms(1) _ this]
  obtain c' r ss where r: "conn_transaction drv b f (on_mock c) = (transaction_outcome r, on_mock c')"
    "P r ss" "closed_in backend log (committed r) (ot_init\<lparr>ot_stmts := ot_stmts ot_init @ ss\<rparr>) c'"
    by auto
  have "mock_in backend (log @ [\<lparr>tr_stmts = [from_string Postgres ''BEGIN''] @ ss @
      [from_string backend (if committed r then ''COMMIT'' else ''ROLLBACK'')]\<rparr>]) None c'"
    using r(3) by (simp add: closed_in_def closing_statement_def ot_init_def Let_def)
  with r(1,2) show ?thesis by blast
qed

lemma execute_logs:
  "logs_in_transaction backend d
    (dt_execute_raw other t stmt :: (_, ('w, 'v) shared_connection) conn_op)
    (\<lambda>r ss. (\<exists>res. r = Ret res) \<and> ss = [stmt])"
  unfolding logs_in_transaction_def
proof (intro allI impI, elim conjE)
  fix c :: "'v mock_connection" and log ot
  assume "mock_in backend log (Some ot) c" "ot_depth ot = d"
  then show "\<exists>c' r ss. dt_execute_raw other t stmt (on_mock c) = (r, on_mock c') \<and> r \<noteq> Diverge \<and>
      ((\<exists>res. r = Ret res) \<and> ss = [stmt]) \<and>
      mock_in backend log (Some (ot\<lparr>ot_stmts := ot_stmts ot @ ss\<rparr>)) c'"
    by (cases "mc_execute_counter c < length (md_exec_results (mc_mocker c))")
      (auto simp: dt_execute_raw_def with_lock_def lift_conn_def io_op_def mc_execute_def mock_execute_def
        log_statement_def ot_push_def mock_in_def on_mock_def Let_def)
qed

lemma ignore_logs:
  assumes "logs_in_transaction backend d f P"
  shows "logs_in_transaction backend d (op_ignore f :: ((unit, 'e) result, ('w, 'v) shared_connection) conn_op)
    (\<lambda>r ss. \<exists>r'. P r' ss \<and> r = run_bind r' (\<lambda>_. Ret (Inr ())))"
  unfolding logs_in_transaction_def
proof (intro allI impI)
  fix c :: "'v mock_connection" and log ot
  assume "mock_in backend log (Some ot) c \<and> ot_depth ot = d"
  then obtain c' r ss where "f (on_mock c) = (r, on_mock c')" "r \<noteq> Diverge" "P r ss"
    "mock_in backend log (Some (ot\<lparr>ot_stmts := ot_stmts ot @ ss\<rparr>)) c'"
    using assms unfolding logs_in_transaction_def by blast
  then show "\<exists>c' r ss. op_ignore f (on_mock c) = (r, on_mock c' :: ('w, 'v) shared_connection) \<and> r \<noteq> Diverge \<and>
      (\<exists>r'. P r' ss \<and> r = (run_bind r' (\<lambda>_. Ret (Inr ())) :: (unit, 'e) result run)) \<and>
      mock_in backend log (Some (ot\<lparr>ot_stmts := ot_stmts ot @ ss\<rparr>)) c'"
    by (intro exI[of _ c'] exI[of _ "run_bind r (\<lambda>_. Ret (Inr ()))"] exI[of _ ss])
      (cases r; auto simp: op_ignore_def)
qed

lemma logs_mono:
  assumes "logs_in_transaction backend d (f :: (('a, 'e) result, ('w, 'v) shared_connection) conn_op) P" "\<And>r ss. P r ss \<Longrightarrow> Q r ss"
  shows "logs_in_transaction backend d f Q"
  unfolding logs_in_transaction_def
proof (intro allI impI)
  fix c :: "'v mock_connection" and log ot
  assume "mock_in backend log (Some ot) c \<and> ot_depth ot = d"
  with assms(1) obtain c' r ss where "f (on_mock c) = (r, on_mock c')" "r \<noteq> Diverge" "P r ss"
    "mock_in backend log (Some (ot\<lparr>ot_stmts := ot_stmts ot @ ss\<rparr>)) c'"
    unfolding logs_in_transaction_def by blast
  with assms(2)[of r ss] show "\<exists>c' r ss. f (on_mock c) = (r, on_mock c') \<and> r \<noteq> Diverge \<and> Q r ss \<and>
      mock_in backend log (Some (ot\<lparr>ot_stmts := ot_stmts ot @ ss\<rparr>)) c'" by blast
qed

text \<open>A closure with a nested transaction that executes a statement and goes on whatever the result.\<close>

definition quiet_closure :: "(unit, string, (sample_db, nat) shared_connection) closure" where
  "quiet_closure t = op_ignore (dt_execute_raw (\<lambda>_ i. (Diverge, i)) t (from_string MySql ''UPDATE t''))"

lemma quiet_closure_logs:
  "logs_in_transaction MySql d (quiet_closure t) (\<lambda>r ss. r = Ret (Inr ()) \<and> ss = [from_string MySql ''UPDATE t''])"
  unfolding quiet_closure_def by (rule logs_mono[OF ignore_logs[OF execute_logs]]) auto

definition nesting_closure ::
  "(unit, string transaction_error, (sample_db, nat) shared_connection) closure" where
  "nesting_closure t = dt_transaction sample_drivers t quiet_closure"

theorem mock_transaction_log_witness:
  "\<exists>c'. conn_transaction sample_drivers MySql nesting_closure (on_mock (mock_connection_new (mock_new MySql))) =
      (Ret (Inr ()), on_mock c') \<and>
    map st_sql (tr_stmts (md_log (mc_mocker c') ! 0)) =
      [''BEGIN'', ''SAVEPOINT savepoint_1'', ''UPDATE t'', ''RELEASE SAVEPOINT savepoint_1'', ''COMMIT'']"
proof -
  have "mock_in MySql [] None (mock_connection_new (mock_new MySql) :: nat mock_connection)"
    by (simp add: mock_in_def mock_connection_new_def mock_new_def)
  moreover have "logs_in_transaction MySql 0 (nesting_closure \<lparr>dt_backend = MySql, dt_open = True\<rparr>)
      (nested_log MySql 0 (\<lambda>r ss. r = Ret (Inr ()) \<and> ss = [from_string MySql ''UPDATE t'']))"
    unfolding nesting_closure_def by (rule nested_transaction_logs[OF quiet_closure_logs])
  moreover have "savepoint_name 1 = ''savepoint_1''" by code_simp
  ultimately show ?thesis
    using mock_transaction_log[of MySql "[]" "mock_connection_new (mock_new MySql)" nesting_closure MySql
        "nested_log MySql 0 (\<lambda>r ss. r = Ret (Inr ()) \<and> ss = [from_string MySql ''UPDATE t''])" sample_drivers]
    by (fastforce simp: mock_in_def nested_log_def transaction_outcome_def committed_def savepoint_statement_def
        closing_statement_def from_string_def)
qed

end
