(* ===== verification/Paginator.thy ===== *)
theory Paginator
  imports DbIo
begin

text \<open>
  \<open>src/executor/paginator.rs\<close>: fetching a query page by page. Counters are \<open>u64\<close>; an overflow panics
  with overflow checks and wraps without them (\<open>checks\<close>). The database is an argument: \<open>query_all\<close>
  and \<open>query_one\<close> on the statements the paginator builds.
\<close>

section \<open>Statements\<close>

text \<open>The part of a \<open>SelectStatement\<close> the paginator touches. A raw statement becomes an expression.\<close>

datatype ('q, 'v) select_base = SelectQuery 'q | CustomExpr string "'v list option"

record ('q, 'v, 'o) select_statement =
  sel_base :: "('q, 'v) select_base"
  sel_order :: "'o list"
  sel_limit :: "64 word option"
  sel_offset :: "64 word option"

definition sel_set_limit :: "64 word \<Rightarrow> ('q, 'v, 'o) select_statement \<Rightarrow> ('q, 'v, 'o) select_statement" where
  "sel_set_limit n q = q\<lparr>sel_limit := Some n\<rparr>"

definition sel_set_offset :: "64 word \<Rightarrow> ('q, 'v, 'o) select_statement \<Rightarrow> ('q, 'v, 'o) select_statement" where
  "sel_set_offset n q = q\<lparr>sel_offset := Some n\<rparr>"

text \<open>\<open>SELECT COUNT(*) AS num_items FROM (..) AS sub_query\<close>.\<close>

datatype 's count_query = CountOf 's

section \<open>The paginator\<close>

record ('q, 'v, 'o) paginator =
  pg_query :: "('q, 'v, 'o) select_statement"
  pg_page :: "64 word"
  pg_page_size :: "64 word"

record items_and_pages_number =
  number_of_items :: "64 word"
  number_of_pages :: "64 word"

text \<open>Unsigned multiplication and addition with and without overflow checks.\<close>

definition mul_u64 :: "bool \<Rightarrow> 64 word \<Rightarrow> 64 word \<Rightarrow> 64 word run" where
  "mul_u64 checks a b =
    (if checks \<and> unat a * unat b \<ge> 2 ^ 64 then Panic ''attempt to multiply with overflow'' else Ret (a * b))"

definition add_u64 :: "bool \<Rightarrow> 64 word \<Rightarrow> 64 word \<Rightarrow> 64 word run" where
  "add_u64 checks a b =
    (if checks \<and> unat a + unat b \<ge> 2 ^ 64 then Panic ''attempt to add with overflow'' else Ret (a + b))"

text \<open>The database: rows of a select, the row of a count.\<close>

record ('q, 'v, 'o, 'row, 'w) page_source =
  ps_query_all :: "('q, 'v, 'o) select_statement \<Rightarrow> ('row list, 'w) io"
  ps_query_one :: "('q, 'v, 'o) select_statement count_query \<Rightarrow> ('row option, 'w) io"

text \<open>\<open>conv\<close> is \<open>S::from_raw_query_result\<close>.\<close>

definition fetch_page ::
  "bool \<Rightarrow> ('q, 'v, 'o, 'row, 'w) page_source \<Rightarrow> ('row \<Rightarrow> ('m, db_err) result) \<Rightarrow>
    ('q, 'v, 'o) paginator \<Rightarrow> 64 word \<Rightarrow> ('m list, 'w) act" where
  "fetch_page checks db conv p page =
    act_bind (act_run (mul_u64 checks (pg_page_size p) page)) (\<lambda>offset.
    act_bind (act_io (ps_query_all db (sel_set_offset offset (sel_set_limit (pg_page_size p) (pg_query p))))) (\<lambda>rows.
    act_res (try_map conv rows)))"

definition fetch ::
  "bool \<Rightarrow> ('q, 'v, 'o, 'row, 'w) page_source \<Rightarrow> ('row \<Rightarrow> ('m, db_err) result) \<Rightarrow>
    ('q, 'v, 'o) paginator \<Rightarrow> ('m list, 'w) act" where
  "fetch checks db conv p = fetch_page checks db conv p (pg_page p)"

text \<open>\<open>try_get::<i64>("", "num_items")\<close> is an argument; \<open>as u64\<close> keeps the bits.\<close>

definition num_items ::
  "('q, 'v, 'o, 'row, 'w) page_source \<Rightarrow> ('row \<Rightarrow> (64 word, db_err) result) \<Rightarrow>
    ('q, 'v, 'o) paginator \<Rightarrow> (64 word, 'w) act" where
  "num_items db get_num p =
    act_bind (act_io (ps_query_one db
      (CountOf ((pg_query p)\<lparr>sel_limit := None, sel_offset := None, sel_order := []\<rparr>)))) (\<lambda>row.
    case row of
      Some res \<Rightarrow> act_res (get_num res)
    | None \<Rightarrow> act_ret 0)"

definition compute_pages_number :: "('q, 'v, 'o) paginator \<Rightarrow> 64 word \<Rightarrow> 64 word" where
  "compute_pages_number p n =
    n div pg_page_size p + (if n mod pg_page_size p > 0 then 1 else 0)"

definition num_pages ::
  "('q, 'v, 'o, 'row, 'w) page_source \<Rightarrow> ('row \<Rightarrow> (64 word, db_err) result) \<Rightarrow>
    ('q, 'v, 'o) paginator \<Rightarrow> (64 word, 'w) act" where
  "num_pages db get_num p =
    act_bind (num_items db get_num p) (\<lambda>n. act_ret (compute_pages_number p n))"

definition num_items_and_pages ::
  "('q, 'v, 'o, 'row, 'w) page_source \<Rightarrow> ('row \<Rightarrow> (64 word, db_err) result) \<Rightarrow>
    ('q, 'v, 'o) paginator \<Rightarrow> (items_and_pages_number, 'w) act" where
  "num_items_and_pages db get_num p =
    act_bind (num_items db get_num p) (\<lambda>n.
      act_ret \<lparr>number_of_items = n, number_of_pages = compute_pages_number p n\<rparr>)"

definition pg_next :: "bool \<Rightarrow> ('q, 'v, 'o) paginator \<Rightarrow> ('q, 'v, 'o) paginator run" where
  "pg_next checks p = run_bind (add_u64 checks (pg_page p) 1) (\<lambda>page. Ret (p\<lparr>pg_page := page\<rparr>))"

definition cur_page :: "('q, 'v, 'o) paginator \<Rightarrow> 64 word" where
  "cur_page p = pg_page p"

definition set_page :: "64 word \<Rightarrow> ('q, 'v, 'o) paginator \<Rightarrow> ('q, 'v, 'o) paginator" where
  "set_page page p = p\<lparr>pg_page := page\<rparr>"

text \<open>An error of \<open>fetch\<close> leaves the page.\<close>

definition fetch_and_next ::
  "bool \<Rightarrow> ('q, 'v, 'o, 'row, 'w) page_source \<Rightarrow> ('row \<Rightarrow> ('m, db_err) result) \<Rightarrow>
    ('q, 'v, 'o) paginator \<Rightarrow> 'w \<Rightarrow> (('m list option, db_err) result \<times> ('q, 'v, 'o) paginator \<times> 'w) run" where
  "fetch_and_next checks db conv p w =
    run_bind (fetch checks db conv p w) (\<lambda>(r, w).
      case r of
        Inl e \<Rightarrow> Ret (Inl e, p, w)
      | Inr vec \<Rightarrow> run_bind (pg_next checks p) (\<lambda>p.
          Ret (Inr (if vec \<noteq> [] then Some vec else None), p, w)))"

section \<open>Streams\<close>

text \<open>One \<open>next\<close> on the stream \<open>into_stream\<close> returns: the async stream ends after an empty page and
  after an error.\<close>

datatype 'p stream_state = Streaming 'p | Ended

fun stream_next ::
  "bool \<Rightarrow> ('q, 'v, 'o, 'row, 'w) page_source \<Rightarrow> ('row \<Rightarrow> ('m, db_err) result) \<Rightarrow>
    ('q, 'v, 'o) paginator stream_state \<Rightarrow> 'w \<Rightarrow>
    (('m list, db_err) result option \<times> ('q, 'v, 'o) paginator stream_state \<times> 'w) run" where
  "stream_next checks db conv Ended w = Ret (None, Ended, w)"
| "stream_next checks db conv (Streaming p) w =
    run_bind (fetch_and_next checks db conv p w) (\<lambda>(r, p, w).
      case r of
        Inl e \<Rightarrow> Ret (Some (Inl e), Ended, w)
      | Inr (Some vec) \<Rightarrow> Ret (Some (Inr vec), Streaming p, w)
      | Inr None \<Rightarrow> Ret (None, Ended, w))"

text \<open>\<open>PaginatorStream\<close>, the iterator of the \<open>sync\<close> feature.\<close>

definition iterator_next ::
  "bool \<Rightarrow> ('q, 'v, 'o, 'row, 'w) page_source \<Rightarrow> ('row \<Rightarrow> ('m, db_err) result) \<Rightarrow>
    ('q, 'v, 'o) paginator \<Rightarrow> 'w \<Rightarrow>
    (('m list, db_err) result option \<times> ('q, 'v, 'o) paginator \<times> 'w) run" where
  "iterator_next checks db conv p w =
    run_bind (fetch_and_next checks db conv p w) (\<lambda>(r, p, w).
      case r of
        Inr (Some vec) \<Rightarrow> Ret (Some (Inr vec), p, w)
      | Inr None \<Rightarrow> Ret (None, p, w)
      | Inl e \<Rightarrow> Ret (Some (Inl e), p, w))"

text \<open>Consume a stream to its end. \<open>None\<close> is a consumer that does not finish.\<close>

partial_function (option) collect ::
  "('s \<Rightarrow> 'w \<Rightarrow> ('x option \<times> 's \<times> 'w) run) \<Rightarrow> 's \<Rightarrow> 'w \<Rightarrow> ('x list \<times> 'w) run option" where
  "collect next s w =
    (case next s w of
       Ret (None, s, w) \<Rightarrow> Some (Ret ([], w))
     | Ret (Some x, s, w) \<Rightarrow> Option.bind (collect next s w) (\<lambda>r.
         Some (run_bind r (\<lambda>(xs, w). Ret (x # xs, w))))
     | Panic msg \<Rightarrow> Some (Panic msg)
     | Diverge \<Rightarrow> None)"

section \<open>Making a paginator\<close>

definition paginate ::
  "('q, 'v, 'o) select_statement \<Rightarrow> 64 word \<Rightarrow> ('q, 'v, 'o) paginator run" where
  "paginate query page_size =
    (if page_size = 0 then Panic ''page_size should not be zero''
     else Ret \<lparr>pg_query = query, pg_page = 0, pg_page_size = page_size\<rparr>)"

text \<open>\<open>str::trim\<close> on ASCII white space, and the slice that panics when it is out of the string.\<close>

definition is_space :: "char \<Rightarrow> bool" where
  "is_space c = (of_char c \<in> {9 :: nat, 10, 11, 12, 13, 32})"

definition trim :: "string \<Rightarrow> string" where
  "trim s = rev (dropWhile is_space (rev (dropWhile is_space s)))"

definition slice_from :: "nat \<Rightarrow> string \<Rightarrow> string run" where
  "slice_from n s = (if n \<le> length s then Ret (drop n s) else Panic ''byte index is out of bounds'')"

text \<open>A raw statement: everything after the first six characters becomes the expression.\<close>

definition paginate_raw ::
  "string \<Rightarrow> 'v list option \<Rightarrow> 64 word \<Rightarrow> ('q, 'v, 'o) paginator run" where
  "paginate_raw sql values page_size =
    (if page_size = 0 then Panic ''page_size should not be zero''
     else run_bind (slice_from 6 (trim sql)) (\<lambda>rest.
       Ret \<lparr>pg_query = \<lparr>sel_base = CustomExpr (trim rest) values, sel_order = [], sel_limit = None,
              sel_offset = None\<rparr>, pg_page = 0, pg_page_size = page_size\<rparr>))"

text \<open>\<open>PaginatorTrait::count\<close> keeps the limit and the offset of the query.\<close>

definition pg_count ::
  "('q, 'v, 'o, 'row, 'w) page_source \<Rightarrow> ('row \<Rightarrow> (64 word, db_err) result) \<Rightarrow>
    ('q, 'v, 'o) select_statement \<Rightarrow> (64 word, 'w) act" where
  "pg_count db get_num query =
    act_bind (act_run (paginate query 1)) (\<lambda>p.
    act_bind (act_io (ps_query_one db (CountOf ((pg_query p)\<lparr>sel_order := []\<rparr>)))) (\<lambda>row.
    case row of
      Some res \<Rightarrow> act_res (get_num res)
    | None \<Rightarrow> act_ret 0))"

section \<open>Page arithmetic\<close>

lemma compute_pages_unat:
  assumes "pg_page_size p \<noteq> 0"
  shows "unat (compute_pages_number p n) =
    unat n div unat (pg_page_size p) + (if unat n mod unat (pg_page_size p) > 0 then 1 else 0)"
proof -
  have size: "unat (pg_page_size p) > 0" using assms by (simp add: unat_gt_0)
  have "unat n div unat (pg_page_size p) + (if unat n mod unat (pg_page_size p) > 0 then 1 else 0) < 2 ^ 64"
  proof (cases "unat (pg_page_size p) = 1")
    case True
    then show ?thesis using unsigned_less[of n, where 'a = nat] by simp
  next
    case False
    with size have "2 \<le> unat (pg_page_size p)" by simp
    then have "unat n div unat (pg_page_size p) \<le> unat n div 2" by (rule div_le_mono2[rotated]) simp
    moreover have "unat n < 2 ^ 64" using unsigned_less[of n, where 'a = nat] by simp
    then have "unat n div 2 < 2 ^ 63" by (simp add: less_mult_imp_div_less)
    ultimately show ?thesis by simp
  qed
  moreover have "(n mod pg_page_size p > 0) = (unat n mod unat (pg_page_size p) > 0)"
    by (simp add: word_less_nat_alt unat_mod)
  moreover have "unat (n div pg_page_size p + (if b then 1 else 0)) = unat n div unat (pg_page_size p) + (if b then 1 else 0)"
    if "unat n div unat (pg_page_size p) + (if b then 1 else 0) < 2 ^ 64" for b
    using that by (cases b) (simp_all add: unat_word_ariths(1) unat_div)
  ultimately show ?thesis unfolding compute_pages_number_def by presburger
qed

lemma page_below_iff:
  fixes n s k :: nat
  assumes "s > 0"
  shows "k < n div s + (if n mod s > 0 then 1 else 0) \<longleftrightarrow> k * s < n"
proof -
  have n: "n = n div s * s + n mod s" by simp
  show ?thesis
  proof (cases "n mod s = 0")
    case True
    then have "n = n div s * s" using n by linarith
    then show ?thesis using assms True by (metis add.right_neutral less_irrefl mult_less_cancel2)
  next
    case False
    have "k * s < n \<longleftrightarrow> k \<le> n div s"
    proof
      assume "k * s < n"
      then show "k \<le> n div s" using assms by (metis div_le_mono less_imp_le_nat nonzero_mult_div_cancel_right not_less0)
    next
      assume "k \<le> n div s"
      then have "k * s \<le> n div s * s" by (rule mult_le_mono1)
      then show "k * s < n" using n False by linarith
    qed
    then show ?thesis using False by auto
  qed
qed

lemma ceiling_div:
  fixes n s :: nat
  assumes "s > 0"
  shows "n div s + (if n mod s > 0 then 1 else 0) = (n + s - 1) div s"
proof (cases "n mod s = 0")
  case True
  then obtain q where "n = q * s" by (metis mod_0_imp_dvd dvd_mult_div_cancel mult.commute)
  moreover have "(q * s + (s - 1)) div s = q + (s - 1) div s" using assms by (intro div_mult_self3) simp
  moreover have "q * s + s - 1 = q * s + (s - 1)" "(s - 1) div s = 0" using assms by simp_all
  ultimately have "(n + s - 1) div s = q" by presburger
  then show ?thesis using assms \<open>n = q * s\<close> by simp
next
  case False
  have "n + s - 1 = (n div s + 1) * s + (n mod s - 1)" using False by simp
  then have "(n + s - 1) div s = ((n div s + 1) * s + (n mod s - 1)) div s" by presburger
  also have "\<dots> = n div s + 1 + (n mod s - 1) div s" using assms by (intro div_mult_self3) simp
  also have "(n mod s - 1) div s = 0" using assms by (simp add: less_imp_diff_less)
  finally show ?thesis using False by simp
qed

text \<open>C19. With a page size \<open>s\<close> that is not zero, the number of pages of \<open>n\<close> items is the exact
  ceiling of \<open>n / s\<close> over the whole \<open>u64\<close> range: a page index is below it iff its first item is below
  \<open>n\<close>; for those pages neither the offset nor the next page index overflows; without remainder or
  items no page is added.\<close>

theorem page_numbers_exact:
  assumes "pg_page_size p \<noteq> 0"
  shows "(page < compute_pages_number p n \<longleftrightarrow> unat page * unat (pg_page_size p) < unat n) \<and>
    (page < compute_pages_number p n \<longrightarrow>
      mul_u64 True (pg_page_size p) page = Ret (pg_page_size p * page) \<and>
      unat (pg_page_size p * page) = unat (pg_page_size p) * unat page \<and>
      add_u64 True page 1 = Ret (page + 1)) \<and>
    unat (compute_pages_number p n) = (unat n + unat (pg_page_size p) - 1) div unat (pg_page_size p)"
proof -
  let ?s = "unat (pg_page_size p)" and ?n = "unat n"
  have s: "?s > 0" using assms by (simp add: unat_gt_0)
  have n: "?n < 2 ^ 64" using unsigned_less[of n, where 'a = nat] by simp
  note pages = compute_pages_unat[OF assms, of n]
  have below: "page < compute_pages_number p n \<longleftrightarrow> unat page * ?s < ?n"
    unfolding word_less_nat_alt pages by (rule page_below_iff[OF s])
  have fits: "?s * unat page < 2 ^ 64" if "page < compute_pages_number p n"
    using that below n by (metis mult.commute order_less_trans)
  have "unat page + 1 < 2 ^ 64" if "page < compute_pages_number p n"
    using that unsigned_less[of "compute_pages_number p n", where 'a = nat] by (simp add: word_less_nat_alt)
  then have "mul_u64 True (pg_page_size p) page = Ret (pg_page_size p * page) \<and>
      unat (pg_page_size p * page) = ?s * unat page \<and> add_u64 True page 1 = Ret (page + 1)"
    if "page < compute_pages_number p n"
    using that fits by (simp add: mul_u64_def add_u64_def unat_word_ariths)
  moreover have "unat (compute_pages_number p n) = (?n + ?s - 1) div ?s"
    unfolding pages by (rule ceiling_div[OF s])
  ultimately show ?thesis using below by blast
qed

theorem page_numbers_exact_witness:
  "compute_pages_number (\<lparr>pg_query = \<lparr>sel_base = SelectQuery (), sel_order = [], sel_limit = None, sel_offset = None\<rparr>,
      pg_page = 0, pg_page_size = 3\<rparr> :: (unit, unit, unit) paginator) 10 = 4 \<and>
    (3 :: 64 word) < compute_pages_number (\<lparr>pg_query = \<lparr>sel_base = SelectQuery (), sel_order = [], sel_limit = None,
      sel_offset = None\<rparr>, pg_page = 0, pg_page_size = 3\<rparr> :: (unit, unit, unit) paginator) 10"
  using page_numbers_exact[of "\<lparr>pg_query = \<lparr>sel_base = SelectQuery (), sel_order = [], sel_limit = None,
      sel_offset = None\<rparr>, pg_page = 0, pg_page_size = 3\<rparr> :: (unit, unit, unit) paginator" 3 10]
  by (simp add: compute_pages_number_def)

section \<open>Consuming the stream\<close>

text \<open>A database that serves the query from a fixed sequence of rows and counts it right.\<close>

definition serves ::
  "('q, 'v, 'o, 'row, 'w) page_source \<Rightarrow> ('row \<Rightarrow> (64 word, db_err) result) \<Rightarrow>
    ('q, 'v, 'o) select_statement \<Rightarrow> 'row list \<Rightarrow> bool" where
  "serves db get_num q rows =
    ((\<forall>limit offset w. ps_query_all db (sel_set_offset offset (sel_set_limit limit q)) w =
        (Inr (take (unat limit) (drop (unat offset) rows)), w)) \<and>
     (\<forall>w. \<exists>row. ps_query_one db (CountOf (q\<lparr>sel_limit := None, sel_offset := None, sel_order := []\<rparr>)) w =
        (Inr (Some row), w) \<and> get_num row = Inr (of_nat (length rows))))"

definition page_of :: "nat \<Rightarrow> 'm list \<Rightarrow> nat \<Rightarrow> 'm list" where
  "page_of s models k = take s (drop (k * s) models)"

lemma concat_pages:
  assumes "s > 0" "length models \<le> k * s"
  shows "concat (map (page_of s models) [0..<k]) = models"
proof -
  have "concat (map (page_of s models) [0..<j]) = take (j * s) models" for j
  proof (induction j)
    case (Suc j)
    have "take (Suc j * s) models = take (j * s) models @ take s (drop (j * s) models)"
      by (metis take_add add.commute mult_Suc)
    then show ?case using Suc by (simp add: page_of_def)
  qed simp
  then show ?thesis using assms(2) by simp
qed

lemma fetch_and_next_serves:
  assumes served: "serves db get_num (pg_query p) rows" and conv: "try_map conv rows = Inr models"
    and k: "pg_page p = of_nat k" "k + 1 < 2 ^ 64" "k * unat (pg_page_size p) < 2 ^ 64"
  shows "fetch_and_next checks db conv p w =
    Ret (Inr (let vec = page_of (unat (pg_page_size p)) models k in if vec \<noteq> [] then Some vec else None),
      p\<lparr>pg_page := of_nat (Suc k)\<rparr>, w)"
proof -
  let ?s = "unat (pg_page_size p)"
  have page: "unat (of_nat k :: 64 word) = k" using k(2) by (simp add: unat_of_nat)
  have offset: "mul_u64 checks (pg_page_size p) (pg_page p) = Ret (pg_page_size p * pg_page p)"
    "unat (pg_page_size p * pg_page p) = k * ?s"
    using k(1,3) page by (simp_all add: mul_u64_def unat_word_ariths mult.commute)
  have "try_map conv (take ?s (drop (k * ?s) rows)) = Inr (page_of ?s models k)"
    using conv unfolding try_map_Inr_iff page_of_def by (simp add: list_all2_takeI list_all2_dropI)
  then have "fetch checks db conv p w = Ret (Inr (page_of ?s models k), w)"
    using served offset
    by (simp add: fetch_def fetch_page_def serves_def act_bind_def act_io_def act_res_def act_run_def)
  moreover have "pg_next checks p = Ret (p\<lparr>pg_page := of_nat (Suc k)\<rparr>)"
    using k page by (simp add: pg_next_def add_u64_def add.commute)
  ultimately show ?thesis by (simp add: fetch_and_next_def Let_def)
qed

lemma collect_from:
  assumes served: "serves db get_num (pg_query p) rows" and conv: "try_map conv rows = Inr models"
    and size: "pg_page_size p \<noteq> 0" "length rows + unat (pg_page_size p) < 2 ^ 64"
    and m: "m = unat (compute_pages_number p (of_nat (length rows)))"
    and "k \<le> m"
  shows "collect (stream_next checks db conv) (Streaming (p\<lparr>pg_page := of_nat k\<rparr>)) w =
    Some (Ret (map (\<lambda>k. Inr (page_of (unat (pg_page_size p)) models k)) [k..<m], w))"
  using \<open>k \<le> m\<close>
proof (induction "m - k" arbitrary: k)
  let ?s = "unat (pg_page_size p)" and ?n = "length rows"
  have len: "length models = ?n"
    using conv by (simp add: try_map_Inr_iff list_all2_lengthD)
  have n: "unat (of_nat ?n :: 64 word) = ?n" using size(2) by (simp add: unat_of_nat)
  have s: "?s > 0" using size(1) by (simp add: unat_gt_0)
  have below: "j < m \<longleftrightarrow> j * ?s < ?n" for j
    unfolding m compute_pages_unat[OF size(1)] n by (rule page_below_iff[OF s])
  have fits: "j * ?s < 2 ^ 64 \<and> j + 1 < 2 ^ 64" if "j \<le> m" for j
  proof (cases j)
    case 0
    then show ?thesis by simp
  next
    case (Suc i)
    then have "i * ?s < ?n" using that below[of i] by simp
    moreover have "i * 1 \<le> i * ?s" using s by (intro mult_le_mono2) simp
    ultimately have "j * ?s < ?n + ?s" "i < ?n" using Suc by (simp, linarith)
    then show ?thesis using size(2) s Suc by linarith
  qed
  {
    case 0
    then have "k = m" by simp
    then have "page_of ?s models k = []" using below[of k] len by (simp add: page_of_def)
    then show ?case
      using fetch_and_next_serves[of db get_num "p\<lparr>pg_page := of_nat k\<rparr>" rows conv models k checks w]
        served conv fits[of k] \<open>k = m\<close>
      by (subst collect.simps) simp
  next
    case (Suc x)
    then have "k < m" by simp
    then have "page_of ?s models k \<noteq> []" using below[of k] len s by (simp add: page_of_def)
    moreover have "collect (stream_next checks db conv) (Streaming (p\<lparr>pg_page := of_nat (Suc k)\<rparr>)) w =
        Some (Ret (map (\<lambda>k. Inr (page_of ?s models k)) [Suc k..<m], w))"
      using Suc.hyps(1)[of "Suc k"] Suc.hyps(2) \<open>k < m\<close> by simp
    ultimately show ?case
      using fetch_and_next_serves[of db get_num "p\<lparr>pg_page := of_nat k\<rparr>" rows conv models k checks w]
        served conv fits[of k] \<open>k < m\<close>
      by (subst collect.simps) (simp add: upt_conv_Cons)
  }
qed

text \<open>C20. Consuming the stream of a paginated query ends, and yields the rows page by page: full pages
  in order, the last one with the remainder, no page empty, together exactly the rows of the query; and
  their number is what \<open>num_pages\<close> reports. No counter overflows while the rows and one page fit
  in a \<open>u64\<close>.\<close>

theorem stream_yields_every_page:
  fixes query :: "('q, 'v, 'o) select_statement"
  assumes "serves db get_num query rows" "try_map conv rows = Inr models"
    and "paginate query psize = Ret p" "length rows + unat psize < 2 ^ 64"
  shows "\<exists>pages. collect (stream_next checks db conv) (Streaming p) w = Some (Ret (map Inr pages, w)) \<and>
    concat pages = models \<and>
    list_all (\<lambda>page. page \<noteq> []) pages \<and>
    list_all (\<lambda>page. length page = unat psize) (butlast pages) \<and>
    num_pages db get_num p w = Ret (Inr (of_nat (length pages)), w)"
proof -
  let ?s = "unat psize" and ?n = "length rows"
  have p: "p = \<lparr>pg_query = query, pg_page = 0, pg_page_size = psize\<rparr>" and nz: "psize \<noteq> 0"
    using assms(3) by (auto simp: paginate_def split: if_splits)
  have s: "?s > 0" using nz by (simp add: unat_gt_0)
  have n: "unat (of_nat ?n :: 64 word) = ?n" using assms(4) by (simp add: unat_of_nat)
  have len: "length models = ?n"
    using assms(2) by (simp add: try_map_Inr_iff list_all2_lengthD)
  define m where "m = unat (compute_pages_number p (of_nat ?n))"
  define pages where "pages = map (page_of ?s models) [0..<m]"
  have below: "j < m \<longleftrightarrow> j * ?s < ?n" for j
    unfolding m_def p using compute_pages_unat[of p "of_nat ?n"] page_below_iff[OF s, of j ?n] nz n p by simp
  have "collect (stream_next checks db conv) (Streaming p) w = Some (Ret (map Inr pages, w))"
    using collect_from[of db get_num p rows conv models m 0 checks w] assms(1,2,4) nz
    by (simp add: p m_def pages_def comp_def)
  moreover have "concat pages = models"
    unfolding pages_def using below[of m] len s by (intro concat_pages) auto
  moreover have "list_all (\<lambda>page. page \<noteq> []) pages"
    unfolding pages_def list_all_iff using below len s by (auto simp: page_of_def)
  moreover have "list_all (\<lambda>page. length page = ?s) (butlast pages)"
  proof -
    have "length (page_of ?s models j) = ?s" if "j < m - 1" for j
    proof -
      have "j + 1 < m" using that by linarith
      then have "(j + 1) * ?s < ?n" using below[of "j + 1"] by blast
      then show ?thesis using len by (simp add: page_of_def)
    qed
    then show ?thesis unfolding pages_def map_butlast[symmetric] list_all_iff
      by (cases m) auto
  qed
  moreover have "num_pages db get_num p w = Ret (Inr (of_nat (length pages)), w)"
  proof -
    obtain row where "ps_query_one db (CountOf (query\<lparr>sel_limit := None, sel_offset := None, sel_order := []\<rparr>)) w =
        (Inr (Some row), w)" "get_num row = Inr (of_nat ?n)"
      using assms(1) unfolding serves_def by blast
    then show ?thesis
      by (simp add: num_pages_def num_items_def act_bind_def act_io_def act_res_def act_ret_def p pages_def m_def)
  qed
  ultimately show ?thesis by blast
qed

text \<open>Five rows in pages of two.\<close>

definition sample_source :: "(unit, unit, unit, nat, unit) page_source" where
  "sample_source = \<lparr>ps_query_all = (\<lambda>q w. (Inr (take (unat (the (sel_limit q))) (drop (unat (the (sel_offset q))) [1, 2, 3, 4, 5])), w)),
     ps_query_one = (\<lambda>q w. (Inr (Some 5), w))\<rparr>"

definition sample_select :: "(unit, unit, unit) select_statement" where
  "sample_select = \<lparr>sel_base = SelectQuery (), sel_order = [()], sel_limit = None, sel_offset = None\<rparr>"

theorem stream_yields_every_page_witness:
  "\<exists>pages. collect (stream_next True sample_source Inr)
      (Streaming \<lparr>pg_query = sample_select, pg_page = 0, pg_page_size = 2\<rparr>) () = Some (Ret (map Inr pages, ())) \<and>
    concat pages = [1, 2, 3, 4, 5]"
proof -
  have "serves sample_source (\<lambda>r. Inr (of_nat r)) sample_select [1, 2, 3, 4, 5]"
    by (simp add: serves_def sample_source_def sel_set_limit_def sel_set_offset_def)
  moreover have "try_map Inr [1, 2, 3, 4, 5 :: nat] = Inr [1, 2, 3, 4, 5]" by simp
  moreover have "paginate sample_select 2 = Ret \<lparr>pg_query = sample_select, pg_page = 0, pg_page_size = 2\<rparr>"
    by (simp add: paginate_def)
  ultimately show ?thesis
    using stream_yields_every_page[of sample_source "\<lambda>r. Inr (of_nat r)" sample_select "[1, 2, 3, 4, 5]" Inr
        "[1, 2, 3, 4, 5]" 2 _ True "()"]
    by fastforce
qed

section \<open>After an error\<close>

lemma fetch_and_next_refused:
  assumes "mul_u64 checks (pg_page_size p) (pg_page p) = Ret offset"
    and "ps_query_all db (sel_set_offset offset (sel_set_limit (pg_page_size p) (pg_query p))) w = (Inl e, w)"
  shows "fetch_and_next checks db conv p w = Ret (Inl e, p, w)"
  using assms by (simp add: fetch_and_next_def fetch_def fetch_page_def act_bind_def act_run_def act_io_def)

lemma collect_endless:
  assumes "\<And>w. next s w = Ret (Some x, s, w)"
  shows "collect next s w = None"
proof (rule ccontr)
  assume "collect next s w \<noteq> None"
  then obtain r where "collect next s w = Some r" by blast
  moreover have "n = next \<longrightarrow> s' \<noteq> s" if "collect n s' w' = Some r" for n s' w' r
  proof (rule collect.raw_induct[where P = "\<lambda>n s' w' r. n = next \<longrightarrow> s' \<noteq> s", OF _ that], goal_cases)
    case (1 rec n s' w' r)
    show ?case
    proof (intro impI notI)
      assume same: "n = next" "s' = s"
      then obtain r' where "rec next s w' = Some r'"
        using 1(2) assms[of w'] by (auto simp: bind_eq_Some_conv)
      then show False using 1(1) same(1) by blast
    qed
  qed
  ultimately show False by blast
qed

text \<open>On a page the database keeps refusing, the async stream yields the error once and ends,
  while the iterator of the \<open>sync\<close> feature yields it for ever: consuming it does not finish.\<close>

theorem sync_iterator_repeats_errors:
  assumes "mul_u64 checks (pg_page_size p) (pg_page p) = Ret offset"
    and "\<And>w. ps_query_all db (sel_set_offset offset (sel_set_limit (pg_page_size p) (pg_query p))) w = (Inl e, w)"
  shows "collect (stream_next checks db conv) (Streaming p) w = Some (Ret ([Inl e], w)) \<and>
    collect (iterator_next checks db conv) p w = None"
proof -
  note refused = fetch_and_next_refused[OF assms(1) assms(2)]
  have "collect (stream_next checks db conv) Ended w = Some (Ret ([], w))"
    by (subst collect.simps) simp
  then have "collect (stream_next checks db conv) (Streaming p) w = Some (Ret ([Inl e], w))"
    by (subst collect.simps) (simp add: refused)
  moreover have "collect (iterator_next checks db conv) p w = None"
    by (rule collect_endless[of _ _ "Inl e"]) (simp add: iterator_next_def refused)
  ultimately show ?thesis by blast
qed

definition refusing_source :: "(unit, unit, unit, nat, unit) page_source" where
  "refusing_source = sample_source\<lparr>ps_query_all := \<lambda>q w. (Inl (query_err ''closed''), w)\<rparr>"

theorem sync_iterator_repeats_errors_witness:
  "collect (iterator_next True refusing_source (\<lambda>r. Inr r))
    \<lparr>pg_query = sample_select, pg_page = 1, pg_page_size = 2\<rparr> () = None"
  using sync_iterator_repeats_errors[of True "\<lparr>pg_query = sample_select, pg_page = 1, pg_page_size = 2\<rparr>" 2
      refusing_source "query_err ''closed''" "\<lambda>r. Inr r" "()"]
  by (simp add: mul_u64_def refusing_source_def)

end
