(* ===== verification/ValueTuples.thy ===== *)
theory ValueTuples
  imports RelationDef SeaErrors
begin

text \<open>
  Tuples of key values: \<open>sea_query::ValueTuple\<close> as the code matches on it, and from
  \<open>src/query/util.rs\<close> their builder and the key of a model under an identity.
\<close>

datatype 'v value_tuple = VOne 'v | VTwo 'v 'v | VThree 'v 'v 'v | VMany "'v list"

fun vt_values :: "'v value_tuple \<Rightarrow> 'v list" where
  "vt_values (VOne a) = [a]"
| "vt_values (VTwo a b) = [a, b]"
| "vt_values (VThree a b c) = [a, b, c]"
| "vt_values (VMany vs) = vs"

definition vt_arity :: "'v value_tuple \<Rightarrow> nat" where
  "vt_arity v = length (vt_values v)"

fun vt_push :: "'v value_tuple option \<Rightarrow> 'v \<Rightarrow> 'v value_tuple option" where
  "vt_push None v = Some (VOne v)"
| "vt_push (Some (VOne a)) v = Some (VTwo a v)"
| "vt_push (Some (VTwo a b)) v = Some (VThree a b v)"
| "vt_push (Some (VThree a b c)) v = Some (VMany [a, b, c, v])"
| "vt_push (Some (VMany items)) v = Some (VMany (items @ [v]))"

text \<open>
  What the code uses of an entity: its columns by name (\<open>FromStr\<close>), the value of a column in a model,
  and the column's value type.
\<close>

record ('m, 'c, 'v, 'ty) entity_columns =
  ec_from_str :: "string \<Rightarrow> 'c option"
  ec_get :: "'m \<Rightarrow> 'c \<Rightarrow> 'v"
  ec_value_type :: "'c \<Rightarrow> 'ty"

definition mapping_failed :: "string \<Rightarrow> string \<Rightarrow> db_err" where
  "mapping_failed name rest = Type (''Failed at mapping '' @ [CHR 0x27] @ name @ [CHR 0x27] @ rest)"

definition key_loop ::
  "('m, 'c, 'v, 'ty) entity_columns \<Rightarrow> 'm \<Rightarrow> string list \<Rightarrow> 'v value_tuple option \<Rightarrow>
    ('v value_tuple option, db_err) result" where
  "key_loop ec model = try_fold (\<lambda>col values.
     res_bind (ok_or (ec_from_str ec col) (mapping_failed col '' to column''))
       (\<lambda>c. Inr (vt_push values (ec_get ec model c))))"

definition get_key_from_model ::
  "('m, 'c, 'v, 'ty) entity_columns \<Rightarrow> identity \<Rightarrow> 'm \<Rightarrow> ('v value_tuple, db_err) result" where
  "get_key_from_model ec cols model =
    res_bind (key_loop ec model (columns cols) None) (\<lambda>values.
      case values of Some v \<Rightarrow> Inr v | None \<Rightarrow> Inl (Type ''Identity zero?''))"

section \<open>Keys as lists of values\<close>

text \<open>The tuple the builder makes of a list of values.\<close>

fun vt_of_list :: "'v list \<Rightarrow> 'v value_tuple option" where
  "vt_of_list [] = None"
| "vt_of_list [a] = Some (VOne a)"
| "vt_of_list [a, b] = Some (VTwo a b)"
| "vt_of_list [a, b, c] = Some (VThree a b c)"
| "vt_of_list vs = Some (VMany vs)"

lemma vt_push_of_list: "vt_push (vt_of_list vs) v = vt_of_list (vs @ [v])"
  by (cases vs rule: vt_of_list.cases) auto

lemma vt_values_of_list: "vt_of_list vs = Some t \<Longrightarrow> vt_values t = vs"
  by (cases vs rule: vt_of_list.cases) auto

lemma vt_of_list_None: "vt_of_list vs = None \<longleftrightarrow> vs = []"
  by (cases vs rule: vt_of_list.cases) auto

lemma vt_of_list_inject: "vt_of_list vs = Some t \<Longrightarrow> vt_of_list vs' = Some t \<Longrightarrow> vs = vs'"
  using vt_values_of_list by metis

lemma key_loop_simps [simp]:
  "key_loop ec m [] vs = Inr vs"
  "key_loop ec m (c # cols) vs =
    (case ec_from_str ec c of None \<Rightarrow> Inl (mapping_failed c '' to column'')
     | Some x \<Rightarrow> key_loop ec m cols (vt_push vs (ec_get ec m x)))"
  by (simp_all add: key_loop_def split: option.splits)

lemma key_loop_Inr:
  "key_loop ec m cols (vt_of_list vs) = Inr out \<longleftrightarrow>
    (\<exists>cs. those (map (ec_from_str ec) cols) = Some cs \<and> out = vt_of_list (vs @ map (ec_get ec m) cs))"
proof (induction cols arbitrary: vs)
  case (Cons c cols)
  show ?case
  proof (cases "ec_from_str ec c")
    case (Some x)
    have "key_loop ec m (c # cols) (vt_of_list vs) = key_loop ec m cols (vt_of_list (vs @ [ec_get ec m x]))"
      using Some by (simp add: vt_push_of_list)
    with Cons.IH[of "vs @ [ec_get ec m x]"] Some show ?thesis
      by (cases "those (map (ec_from_str ec) cols)") simp_all
  qed simp
qed auto

text \<open>The key of a model is the tuple of the values of the identity's columns.\<close>

lemma get_key_Inr:
  "get_key_from_model ec i m = Inr k \<longleftrightarrow>
    (\<exists>cs. those (map (ec_from_str ec) (columns i)) = Some cs \<and> vt_of_list (map (ec_get ec m) cs) = Some k)"
proof -
  have "key_loop ec m (columns i) None = Inr out \<longleftrightarrow>
      (\<exists>cs. those (map (ec_from_str ec) (columns i)) = Some cs \<and> out = vt_of_list (map (ec_get ec m) cs))" for out
    using key_loop_Inr[of ec m "columns i" "[]" out] by simp
  then show ?thesis
    by (auto simp: get_key_from_model_def run_simps split: option.splits)
qed

end
