(* ===== verification/Cursor.thy ===== *)
theory Cursor
  imports ValueTuples DbIo "HOL-Library.List_Lexorder"
begin

text \<open>
  \<open>src/executor/cursor.rs\<close>: keyset pagination. A cursor filters on the order columns by the
  lexicographic order of their values, sorts by them and limits; \<open>last\<close> reads backwards and turns the
  rows round. The database is an argument that runs a select.
\<close>

section \<open>Expressions and statements\<close>

datatype sort_order = Asc | Desc

text \<open>A column of a table compared with a value.\<close>

datatype 'v comparison =
    ExprEq "string \<times> string" 'v
  | ExprGt "string \<times> string" 'v
  | ExprLt "string \<times> string" 'v

text \<open>The select statement under the cursor: conditions are joined by AND.\<close>

record ('b, 'v) cursor_select =
  cq_base :: 'b
  cq_where :: "'v comparison cond list"
  cq_order :: "((string \<times> string) \<times> sort_order) list"
  cq_limit :: "64 word option"

definition cond_where :: "'v comparison cond \<Rightarrow> ('b, 'v) cursor_select \<Rightarrow> ('b, 'v) cursor_select" where
  "cond_where c q = q\<lparr>cq_where := cq_where q @ [c]\<rparr>"

definition order_by :: "string \<times> string \<Rightarrow> sort_order \<Rightarrow> ('b, 'v) cursor_select \<Rightarrow> ('b, 'v) cursor_select" where
  "order_by col ord q = q\<lparr>cq_order := cq_order q @ [(col, ord)]\<rparr>"

section \<open>The cursor\<close>

record ('b, 'v) cursor =
  cu_query :: "('b, 'v) cursor_select"
  cu_table :: string
  cu_order_columns :: identity
  cu_secondary :: "(string \<times> identity) list"
  cu_first :: "64 word option"
  cu_last :: "64 word option"
  cu_before :: "'v value_tuple option"
  cu_after :: "'v value_tuple option"
  cu_sort_asc :: bool
  cu_reversed :: bool

definition cursor_new :: "('b, 'v) cursor_select \<Rightarrow> string \<Rightarrow> identity \<Rightarrow> ('b, 'v) cursor" where
  "cursor_new query table order_columns =
    \<lparr>cu_query = query, cu_table = table, cu_order_columns = order_columns, cu_secondary = [],
     cu_first = None, cu_last = None, cu_before = None, cu_after = None, cu_sort_asc = True, cu_reversed = False\<rparr>"

definition cursor_before :: "'v value_tuple \<Rightarrow> ('b, 'v) cursor \<Rightarrow> ('b, 'v) cursor" where
  "cursor_before values c = c\<lparr>cu_before := Some values\<rparr>"

definition cursor_after :: "'v value_tuple \<Rightarrow> ('b, 'v) cursor \<Rightarrow> ('b, 'v) cursor" where
  "cursor_after values c = c\<lparr>cu_after := Some values\<rparr>"

definition cursor_asc :: "('b, 'v) cursor \<Rightarrow> ('b, 'v) cursor" where
  "cursor_asc c = c\<lparr>cu_sort_asc := True\<rparr>"

definition cursor_desc :: "('b, 'v) cursor \<Rightarrow> ('b, 'v) cursor" where
  "cursor_desc c = c\<lparr>cu_sort_asc := False\<rparr>"

definition cursor_first :: "64 word \<Rightarrow> ('b, 'v) cursor \<Rightarrow> ('b, 'v) cursor" where
  "cursor_first n c = c\<lparr>cu_last := None, cu_first := Some n\<rparr>"

definition cursor_last :: "64 word \<Rightarrow> ('b, 'v) cursor \<Rightarrow> ('b, 'v) cursor" where
  "cursor_last n c = c\<lparr>cu_first := None, cu_last := Some n\<rparr>"

definition set_secondary_order_by :: "(string \<times> identity) list \<Rightarrow> ('b, 'v) cursor \<Rightarrow> ('b, 'v) cursor" where
  "set_secondary_order_by tbl_col c = c\<lparr>cu_secondary := tbl_col\<rparr>"

text \<open>The conditions of \<open>apply_filter\<close>, for the comparison \<open>f\<close>.\<close>

definition all_of :: "'v comparison list \<Rightarrow> 'v comparison cond" where
  "all_of es = fold (\<lambda>e c. cond_add c (UserCond e)) es (CondAll [])"

definition inner_cond_all ::
  "string \<Rightarrow> (string \<Rightarrow> 'v \<Rightarrow> 'v comparison) \<Rightarrow> (string \<times> 'v) list \<Rightarrow> nat \<Rightarrow> 'v comparison cond" where
  "inner_cond_all table f col_vals n =
    fold (\<lambda>(i, (col, val)) c. cond_add c (UserCond
        (if i \<noteq> n - 1 then ExprEq (table, col) val else f col val)))
      (take n (enumerate 0 col_vals)) (CondAll [])"

fun apply_filter ::
  "string \<Rightarrow> identity \<Rightarrow> 'v value_tuple \<Rightarrow> (string \<Rightarrow> 'v \<Rightarrow> 'v comparison) \<Rightarrow> 'v comparison cond run" where
  "apply_filter table (Unary c1) (VOne v1) f = Ret (cond_add (CondAll []) (UserCond (f c1 v1)))"
| "apply_filter table (Binary c1 c2) (VTwo v1 v2) f =
     Ret (cond_add (cond_add (CondAny []) (all_of [ExprEq (table, c1) v1, f c2 v2])) (UserCond (f c1 v1)))"
| "apply_filter table (Ternary c1 c2 c3) (VThree v1 v2 v3) f =
     Ret (cond_add (cond_add (cond_add (CondAny [])
       (all_of [ExprEq (table, c1) v1, ExprEq (table, c2) v2, f c3 v3]))
       (all_of [ExprEq (table, c1) v1, f c2 v2]))
       (UserCond (f c1 v1)))"
| "apply_filter table (Many cols) (VMany vals) f =
     (if length cols = length vals
      then Ret (fold (\<lambda>n cond_any. cond_add cond_any (inner_cond_all table f (zip cols vals) n))
             (rev [1..<length cols + 1]) (CondAny []))
      else Panic ''internal error: entered unreachable code: checked by caller'')"
| "apply_filter table _ _ f = Panic ''internal error: entered unreachable code: checked by caller''"

definition key_arity_mismatch :: "nat \<Rightarrow> nat \<Rightarrow> db_err" where
  "key_arity_mismatch expected received = KeyArityMismatch (of_nat expected) (of_nat received)"

definition filter_by ::
  "(string \<times> string \<Rightarrow> 'v \<Rightarrow> 'v comparison) \<Rightarrow> 'v value_tuple \<Rightarrow> ('b, 'v) cursor \<Rightarrow>
    ((unit, db_err) result \<times> ('b, 'v) cursor) run" where
  "filter_by cmp values c =
    (if arity (cu_order_columns c) \<noteq> vt_arity values
     then Ret (Inl (key_arity_mismatch (arity (cu_order_columns c)) (vt_arity values)), c)
     else run_bind (apply_filter (cu_table c) (cu_order_columns c) values (\<lambda>col v. cmp (cu_table c, col) v))
       (\<lambda>condition. Ret (Inr (), c\<lparr>cu_query := cond_where condition (cu_query c)\<rparr>)))"

definition apply_filters :: "('b, 'v) cursor \<Rightarrow> ((unit, db_err) result \<times> ('b, 'v) cursor) run" where
  "apply_filters c =
    run_bind
      (case cu_after c of
         Some values \<Rightarrow> filter_by (if cu_sort_asc c then ExprGt else ExprLt) values c
       | None \<Rightarrow> Ret (Inr (), c))
      (\<lambda>(r, c). case r of
         Inl e \<Rightarrow> Ret (Inl e, c)
       | Inr _ \<Rightarrow>
           (case cu_before c of
              Some values \<Rightarrow> filter_by (if cu_sort_asc c then ExprLt else ExprGt) values c
            | None \<Rightarrow> Ret (Inr (), c)))"

definition resolve_sort_order :: "('b, 'v) cursor \<Rightarrow> sort_order \<times> ('b, 'v) cursor" where
  "resolve_sort_order c =
    (let should_reverse_order = (cu_last c \<noteq> None) in
     (if (cu_sort_asc c \<and> \<not> should_reverse_order) \<or> (\<not> cu_sort_asc c \<and> should_reverse_order)
      then Asc else Desc,
      c\<lparr>cu_reversed := should_reverse_order\<rparr>))"

definition apply_limit :: "('b, 'v) cursor \<Rightarrow> ('b, 'v) cursor" where
  "apply_limit c =
    (case cu_first c of
       Some n \<Rightarrow> c\<lparr>cu_query := (cu_query c)\<lparr>cq_limit := Some n\<rparr>\<rparr>
     | None \<Rightarrow>
        (case cu_last c of
           Some n \<Rightarrow> c\<lparr>cu_query := (cu_query c)\<lparr>cq_limit := Some n\<rparr>\<rparr>
         | None \<Rightarrow> c))"

fun order_columns_by ::
  "string \<Rightarrow> sort_order \<Rightarrow> identity \<Rightarrow> ('b, 'v) cursor_select \<Rightarrow> ('b, 'v) cursor_select" where
  "order_columns_by table ord (Unary c1) q = order_by (table, c1) ord q"
| "order_columns_by table ord (Binary c1 c2) q = order_by (table, c2) ord (order_by (table, c1) ord q)"
| "order_columns_by table ord (Ternary c1 c2 c3) q =
     order_by (table, c3) ord (order_by (table, c2) ord (order_by (table, c1) ord q))"
| "order_columns_by table ord (Many cols) q = fold (\<lambda>col. order_by (table, col) ord) cols q"

text \<open>A secondary order of more than one column is skipped.\<close>

definition apply_secondary ::
  "sort_order \<Rightarrow> (string \<times> identity) list \<Rightarrow> ('b, 'v) cursor_select \<Rightarrow> ('b, 'v) cursor_select" where
  "apply_secondary ord =
    fold (\<lambda>(tbl, col) q. case col of Unary c1 \<Rightarrow> order_by (tbl, c1) ord q | _ \<Rightarrow> q)"

definition apply_order_by :: "('b, 'v) cursor \<Rightarrow> ('b, 'v) cursor" where
  "apply_order_by c =
    (let c = c\<lparr>cu_query := (cu_query c)\<lparr>cq_order := []\<rparr>\<rparr>;
         (ord, c) = resolve_sort_order c
     in c\<lparr>cu_query := apply_secondary ord (cu_secondary c)
          (order_columns_by (cu_table c) ord (cu_order_columns c) (cu_query c))\<rparr>)"

text \<open>\<open>all\<close>: the cursor keeps what was applied to its query.\<close>

definition cursor_all ::
  "(('b, 'v) cursor_select \<Rightarrow> ('row list, 'w) io) \<Rightarrow> ('row \<Rightarrow> ('m, db_err) result) \<Rightarrow>
    ('b, 'v) cursor \<Rightarrow> 'w \<Rightarrow> (('m list, db_err) result \<times> ('b, 'v) cursor \<times> 'w) run" where
  "cursor_all query_all conv c w =
    run_bind (apply_filters (apply_order_by (apply_limit c))) (\<lambda>(r, c).
      case r of
        Inl e \<Rightarrow> Ret (Inl e, c, w)
      | Inr _ \<Rightarrow>
         (case query_all (cu_query c) w of
            (Inl e, w) \<Rightarrow> Ret (Inl e, c, w)
          | (Inr rows, w) \<Rightarrow>
              Ret (res_bind (try_map conv rows) (\<lambda>buffer.
                Inr (if cu_reversed c then rev buffer else buffer)), c, w)))"

text \<open>\<open>into_model\<close> and \<open>into_json\<close> change the item only.\<close>

definition cursor_into_model :: "('b, 'v) cursor \<Rightarrow> ('b, 'v) cursor" where
  "cursor_into_model c =
    \<lparr>cu_query = cu_query c, cu_table = cu_table c, cu_order_columns = cu_order_columns c,
     cu_secondary = cu_secondary c, cu_first = cu_first c, cu_last = cu_last c, cu_before = cu_before c,
     cu_after = cu_after c, cu_sort_asc = cu_sort_asc c, cu_reversed = cu_reversed c\<rparr>"

text \<open>The cursors of joined selects order by the primary keys of the other entity as well.\<close>

definition primary_key_order :: "string \<Rightarrow> string list \<Rightarrow> (string \<times> identity) list" where
  "primary_key_order table pks = map (\<lambda>pk. (table, Unary pk)) pks"

definition cursor_by :: "('b, 'v) cursor_select \<Rightarrow> string \<Rightarrow> identity \<Rightarrow> ('b, 'v) cursor" where
  "cursor_by q table order_columns = cursor_new q table order_columns"

definition two_cursor_by ::
  "('b, 'v) cursor_select \<Rightarrow> string \<Rightarrow> string \<Rightarrow> string list \<Rightarrow> identity \<Rightarrow> ('b, 'v) cursor" where
  "two_cursor_by q e f f_keys order_columns =
    set_secondary_order_by (primary_key_order f f_keys) (cursor_new q e order_columns)"

definition two_cursor_by_other ::
  "('b, 'v) cursor_select \<Rightarrow> string \<Rightarrow> string list \<Rightarrow> string \<Rightarrow> identity \<Rightarrow> ('b, 'v) cursor" where
  "two_cursor_by_other q e e_keys f order_columns =
    set_secondary_order_by (primary_key_order e e_keys) (cursor_new q f order_columns)"

definition three_cursor_by ::
  "('b, 'v) cursor_select \<Rightarrow> string \<Rightarrow> string \<Rightarrow> string list \<Rightarrow> string \<Rightarrow> string list \<Rightarrow> identity \<Rightarrow> ('b, 'v) cursor" where
  "three_cursor_by q e f f_keys g g_keys order_columns =
    set_secondary_order_by (primary_key_order g g_keys)
      (set_secondary_order_by (primary_key_order f f_keys) (cursor_new q e order_columns))"

end
