(* ===== verification/CursorSpec.thy ===== *)
theory CursorSpec
  imports Cursor
begin

text \<open>
  What a cursor promises: its filter is the lexicographic order on the order columns, and \<open>all\<close> is a
  window of the sorted rows. The database is any function that runs a select as SQL says: the rows
  that meet the conditions, in some order that respects the \<open>ORDER BY\<close>, cut at the limit.
\<close>

section \<open>The filter\<close>

fun holds :: "'v :: linorder comparison \<Rightarrow> (string \<times> string \<Rightarrow> 'v) \<Rightarrow> bool" where
  "holds (ExprEq c v) row = (row c = v)"
| "holds (ExprGt c v) row = (row c > v)"
| "holds (ExprLt c v) row = (row c < v)"

abbreviation meets :: "(string \<times> string \<Rightarrow> 'v :: linorder) \<Rightarrow> 'v comparison cond \<Rightarrow> bool" where
  "meets row \<equiv> eval_cond holds row"

definition row_key :: "(string \<times> string \<Rightarrow> 'v) \<Rightarrow> string \<Rightarrow> identity \<Rightarrow> 'v list" where
  "row_key row table cols = map (\<lambda>c. row (table, c)) (columns cols)"

text \<open>The shapes that go together; \<open>cursor_by\<close> and the value tuples of the same arity give them,
  except that a one-column key with a vector of one value is not one of them.\<close>

fun same_shape :: "identity \<Rightarrow> 'v value_tuple \<Rightarrow> bool" where
  "same_shape (Unary _) (VOne _) = True"
| "same_shape (Binary _ _) (VTwo _ _) = True"
| "same_shape (Ternary _ _ _) (VThree _ _ _) = True"
| "same_shape (Many cs) (VMany vs) = (length cs = length vs)"
| "same_shape _ _ = False"

lemma fold_cond_add_user:
  "fold (\<lambda>x c. cond_add c (g x)) xs (CondAll cs) = CondAll (cs @ map g xs)"
  "fold (\<lambda>x c. cond_add c (g x)) xs (CondAny cs) = CondAny (cs @ map g xs)"
  by (induction xs arbitrary: cs) auto

lemma meets_all_of: "meets row (all_of es) \<longleftrightarrow> list_all (\<lambda>e. holds e row) es"
  by (simp add: all_of_def fold_cond_add_user list_all_iff)

lemma meets_inner:
  assumes "n < length cvs" and "\<And>c v. holds (f c v) row \<longleftrightarrow> R (row (table, c)) v"
  shows "meets row (inner_cond_all table f cvs (Suc n)) \<longleftrightarrow>
    (\<forall>i < n. row (table, fst (cvs ! i)) = snd (cvs ! i)) \<and> R (row (table, fst (cvs ! n))) (snd (cvs ! n))"
proof -
  have split: "(\<lambda>(i, col, val) c. cond_add c (UserCond (if i \<noteq> Suc n - 1 then ExprEq (table, col) val else f col val))) =
      (\<lambda>x c. cond_add c ((\<lambda>(i, col, val). UserCond (if i \<noteq> n then ExprEq (table, col) val else f col val)) x))"
    by (auto simp: fun_eq_iff)
  have "meets row (inner_cond_all table f cvs (Suc n)) \<longleftrightarrow>
    (\<forall>x \<in> set (take (Suc n) (enumerate 0 cvs)).
      case x of (i, col, val) \<Rightarrow> if i \<noteq> n then row (table, col) = val else R (row (table, col)) val)"
    unfolding inner_cond_all_def split fold_cond_add_user
    by (auto simp: list_all_iff assms(2) split: if_splits)
  also have "take (Suc n) (enumerate 0 cvs) = map (\<lambda>i. (i, cvs ! i)) [0..<Suc n]"
    using assms(1) by (intro nth_equalityI) (simp_all add: nth_enumerate_eq del: upt_Suc)
  also have "(\<forall>x \<in> set (map (\<lambda>i. (i, cvs ! i)) [0..<Suc n]).
      case x of (i, col, val) \<Rightarrow> if i \<noteq> n then row (table, col) = val else R (row (table, col)) val) \<longleftrightarrow>
    (\<forall>i < Suc n. if i \<noteq> n then row (table, fst (cvs ! i)) = snd (cvs ! i)
      else R (row (table, fst (cvs ! i))) (snd (cvs ! i)))"
    by (auto simp: case_prod_unfold atLeast0LessThan simp del: upt_Suc)
  also have "\<dots> \<longleftrightarrow> (\<forall>i < n. row (table, fst (cvs ! i)) = snd (cvs ! i)) \<and>
      R (row (table, fst (cvs ! n))) (snd (cvs ! n))"
    by (auto simp: less_Suc_eq)
  finally show ?thesis .
qed

text \<open>The condition for a comparison \<open>R\<close> says that the keys are in the lexicographic order of \<open>R\<close>.\<close>

lemma apply_filter_meets:
  assumes "same_shape cols values" and f: "\<And>c v. holds (f c v) row \<longleftrightarrow> R (row (table, c)) v"
  shows "\<exists>cond. apply_filter table cols values f = Ret cond \<and>
    (meets row cond \<longleftrightarrow> (row_key row table cols, vt_values values) \<in> lexord {(a, b). R a b})"
proof (cases "(cols, values)" rule: same_shape.cases)
  case (4 cs vs)
  then have len: "length cs = length vs" using assms(1) by simp
  let ?cond = "CondAny (map (inner_cond_all table f (zip cs vs)) (rev [1..<length cs + 1]))"
  have eq: "apply_filter table cols values f = Ret ?cond"
    using 4 len by (simp add: fold_cond_add_user del: upt_Suc)
  have "meets row ?cond \<longleftrightarrow> (\<exists>n < length cs. meets row (inner_cond_all table f (zip cs vs) (Suc n)))"
    by (auto simp: list_ex_iff simp del: upt_Suc) (metis Suc_le_eq Suc_pred' less_Suc_eq_le zero_less_Suc le_imp_less_Suc)+
  also have "\<dots> \<longleftrightarrow> (\<exists>n < length cs. (\<forall>i < n. row (table, cs ! i) = vs ! i) \<and> R (row (table, cs ! n)) (vs ! n))"
    using meets_inner[of _ "zip cs vs" f row R table, OF _ f] len by auto
  also have "\<dots> \<longleftrightarrow> (map (\<lambda>c. row (table, c)) cs, vs) \<in> lexord {(a, b). R a b}"
    unfolding lexord_take_index_conv using len
    by (auto simp: list_eq_iff_nth_eq)
  finally show ?thesis using eq 4 by (auto simp: row_key_def)
qed (use assms in \<open>auto simp: row_key_def meets_all_of\<close>)

section \<open>The database\<close>

fun order_le ::
  "('row \<Rightarrow> string \<times> string \<Rightarrow> 'v :: linorder) \<Rightarrow> ((string \<times> string) \<times> sort_order) list \<Rightarrow> 'row \<Rightarrow> 'row \<Rightarrow> bool" where
  "order_le val [] r r' = True"
| "order_le val ((c, ord) # os) r r' =
    ((case ord of Asc \<Rightarrow> val r c < val r' c | Desc \<Rightarrow> val r c > val r' c) \<or>
     val r c = val r' c \<and> order_le val os r r')"

definition limited :: "64 word option \<Rightarrow> 'a list \<Rightarrow> 'a list" where
  "limited l xs = (case l of None \<Rightarrow> xs | Some n \<Rightarrow> take (unat n) xs)"

definition runs_selects ::
  "(('b, 'v :: linorder) cursor_select \<Rightarrow> ('row list, 'w) io) \<Rightarrow> ('row \<Rightarrow> string \<times> string \<Rightarrow> 'v) \<Rightarrow>
    ('b \<Rightarrow> 'row list) \<Rightarrow> bool" where
  "runs_selects query_all val rows = (\<forall>q w. \<exists>xs.
     query_all q w = (Inr (limited (cq_limit q) xs), w) \<and>
     mset xs = mset (filter (\<lambda>r. list_all (meets (val r)) (cq_where q)) (rows (cq_base q))) \<and>
     sorted_wrt (order_le val (cq_order q)) xs)"

section \<open>The specification of a cursor\<close>

definition cursor_key :: "('row \<Rightarrow> string \<times> string \<Rightarrow> 'v) \<Rightarrow> ('b, 'v) cursor \<Rightarrow> 'row \<Rightarrow> 'v list" where
  "cursor_key val c r = row_key (val r) (cu_table c) (cu_order_columns c)"

text \<open>The bounds, in the direction of the cursor.\<close>

definition within_bounds :: "('b, 'v :: linorder) cursor \<Rightarrow> 'v list \<Rightarrow> bool" where
  "within_bounds c k =
    ((case cu_after c of None \<Rightarrow> True
      | Some v \<Rightarrow> if cu_sort_asc c then vt_values v < k else k < vt_values v) \<and>
     (case cu_before c of None \<Rightarrow> True
      | Some v \<Rightarrow> if cu_sort_asc c then k < vt_values v else vt_values v < k))"

definition cursor_sequence ::
  "('row \<Rightarrow> string \<times> string \<Rightarrow> 'v :: linorder) \<Rightarrow> ('b \<Rightarrow> 'row list) \<Rightarrow> ('b, 'v) cursor \<Rightarrow> 'row list" where
  "cursor_sequence val rows c =
    (let sorted_rows = sort_key (cursor_key val c)
       (filter (\<lambda>r. list_all (meets (val r)) (cq_where (cu_query c)) \<and> within_bounds c (cursor_key val c r))
         (rows (cq_base (cu_query c))))
     in if cu_sort_asc c then sorted_rows else rev sorted_rows)"

definition cursor_window :: "('b, 'v) cursor \<Rightarrow> 'a list \<Rightarrow> 'a list" where
  "cursor_window c xs =
    (case (cu_first c, cu_last c) of
       (Some n, _) \<Rightarrow> take (unat n) xs
     | (None, Some n) \<Rightarrow> drop (length xs - unat n) xs
     | (None, None) \<Rightarrow> limited (cq_limit (cu_query c)) xs)"

section \<open>Applying the cursor\<close>

lemma same_shape_arity: "same_shape cols values \<Longrightarrow> arity cols = vt_arity values"
  by (cases "(cols, values)" rule: same_shape.cases) (auto simp: vt_arity_def)

lemma order_columns_by_eq:
  "order_columns_by t ord cols q = q\<lparr>cq_order := cq_order q @ map (\<lambda>c. ((t, c), ord)) (columns cols)\<rparr>"
proof -
  have "fold (\<lambda>col. order_by (t, col) ord) cs q = q\<lparr>cq_order := cq_order q @ map (\<lambda>c. ((t, c), ord)) cs\<rparr>" for cs
    by (induction cs arbitrary: q) (simp_all add: order_by_def)
  then show ?thesis by (cases cols) (simp_all add: order_by_def)
qed

lemma apply_secondary_eq: "\<exists>rest. apply_secondary ord sec q = q\<lparr>cq_order := cq_order q @ rest\<rparr>"
proof (induction sec arbitrary: q)
  case Nil
  show ?case by (rule exI[of _ "[]"]) (simp add: apply_secondary_def)
next
  case (Cons s sec)
  obtain tbl col where s: "s = (tbl, col)" by (cases s)
  let ?q = "case col of Unary c1 \<Rightarrow> order_by (tbl, c1) ord q | _ \<Rightarrow> q"
  obtain rest where "apply_secondary ord sec ?q = ?q\<lparr>cq_order := cq_order ?q @ rest\<rparr>"
    using Cons by blast
  moreover obtain step where "?q = q\<lparr>cq_order := cq_order q @ step\<rparr>"
    by (cases col) (auto simp: order_by_def intro: that[of "[]"])
  ultimately show ?case
    by (intro exI[of _ "step @ rest"]) (simp add: s apply_secondary_def)
qed

text \<open>The cursor once its limit and order are applied.\<close>

lemma apply_order_limit:
  "\<exists>rest q. apply_order_by (apply_limit c) = c\<lparr>cu_reversed := (cu_last c \<noteq> None), cu_query := q\<rparr> \<and>
    cq_base q = cq_base (cu_query c) \<and> cq_where q = cq_where (cu_query c) \<and>
    cq_order q = map (\<lambda>col. ((cu_table c, col), if cu_sort_asc c = (cu_last c = None) then Asc else Desc))
      (columns (cu_order_columns c)) @ rest \<and>
    cq_limit q = (case cu_first c of Some n \<Rightarrow> Some n
      | None \<Rightarrow> (case cu_last c of Some n \<Rightarrow> Some n | None \<Rightarrow> cq_limit (cu_query c)))"
proof -
  let ?ord = "if cu_sort_asc c = (cu_last c = None) then Asc else Desc"
  define l where "l = (case cu_first c of Some n \<Rightarrow> Some n
      | None \<Rightarrow> (case cu_last c of Some n \<Rightarrow> Some n | None \<Rightarrow> cq_limit (cu_query c)))"
  have limit: "apply_limit c = c\<lparr>cu_query := (cu_query c)\<lparr>cq_limit := l\<rparr>\<rparr>"
    by (auto simp: apply_limit_def l_def split: option.splits)
  let ?q = "order_columns_by (cu_table c) ?ord (cu_order_columns c) ((cu_query c)\<lparr>cq_limit := l, cq_order := []\<rparr>)"
  obtain rest where rest: "apply_secondary ?ord (cu_secondary c) ?q = ?q\<lparr>cq_order := cq_order ?q @ rest\<rparr>"
    using apply_secondary_eq by blast
  have "apply_order_by (apply_limit c) =
      c\<lparr>cu_reversed := (cu_last c \<noteq> None), cu_query := apply_secondary ?ord (cu_secondary c) ?q\<rparr>"
    unfolding limit by (auto simp: apply_order_by_def resolve_sort_order_def Let_def)
  then show ?thesis
    unfolding rest l_def[symmetric]
    by (intro exI[of _ rest] exI[of _ "?q\<lparr>cq_order := cq_order ?q @ rest\<rparr>"] conjI) (simp_all add: order_columns_by_eq)
qed

lemma lexord_less:
  fixes ks vs :: "'v :: linorder list"
  assumes "length ks = length vs"
  shows "(ks, vs) \<in> lexord {(a, b). a > b} \<longleftrightarrow> vs < ks" "(ks, vs) \<in> lexord {(a, b). a < b} \<longleftrightarrow> ks < vs"
  using assms unfolding list_less_def lexord_take_index_conv by (auto simp: min_def)

lemma vt_values_length: "same_shape cols values \<Longrightarrow> length (row_key row table cols) = length (vt_values values)"
  using same_shape_arity by (auto simp: row_key_def length_columns vt_arity_def)

lemma filter_by_meets:
  fixes c :: "('b, 'v :: linorder) cursor"
  assumes "same_shape (cu_order_columns c) values"
    and "cmp = (if gt then ExprGt else ExprLt)"
  shows "\<exists>cond. filter_by cmp values c = Ret (Inr (), c\<lparr>cu_query := cond_where cond (cu_query c)\<rparr>) \<and>
    (\<forall>row. meets row cond \<longleftrightarrow>
      (let k = row_key row (cu_table c) (cu_order_columns c)
       in if gt then vt_values values < k else k < vt_values values))"
proof -
  let ?t = "cu_table c" and ?cols = "cu_order_columns c"
  let ?f = "\<lambda>col v. cmp (?t, col) v"
  let ?R = "\<lambda>a b :: 'v. if gt then a > b else a < b"
  have f: "holds (?f col v) row \<longleftrightarrow> ?R (row (?t, col)) v" for col v row
    by (simp add: assms(2))
  obtain cond where cond: "apply_filter ?t ?cols values ?f = Ret cond"
    using apply_filter_meets[OF assms(1), of ?f _ ?R ?t, OF f] by blast
  have "meets row cond \<longleftrightarrow> (row_key row ?t ?cols, vt_values values) \<in> lexord {(a, b). ?R a b}" for row
    using apply_filter_meets[OF assms(1), of ?f row ?R ?t, OF f] cond by simp
  then have "meets row cond \<longleftrightarrow> (let k = row_key row ?t ?cols in if gt then vt_values values < k else k < vt_values values)"
    for row
    using lexord_less[OF vt_values_length[OF assms(1)], of row ?t] by (simp add: Let_def)
  moreover have "filter_by cmp values c = Ret (Inr (), c\<lparr>cu_query := cond_where cond (cu_query c)\<rparr>)"
    using cond same_shape_arity[OF assms(1)] by (simp add: filter_by_def)
  ultimately show ?thesis by blast
qed

lemma apply_filters_meets:
  fixes c :: "('b, 'v :: linorder) cursor"
  assumes "pred_option (same_shape (cu_order_columns c)) (cu_after c)"
    and "pred_option (same_shape (cu_order_columns c)) (cu_before c)"
  shows "\<exists>conds. apply_filters c = Ret (Inr (), c\<lparr>cu_query := (cu_query c)\<lparr>cq_where := cq_where (cu_query c) @ conds\<rparr>\<rparr>) \<and>
    (\<forall>row. list_all (meets row) conds \<longleftrightarrow> within_bounds c (row_key row (cu_table c) (cu_order_columns c)))"
proof -
  obtain as where after: "(case cu_after c of Some values \<Rightarrow> filter_by (if cu_sort_asc c then ExprGt else ExprLt) values c
       | None \<Rightarrow> Ret (Inr (), c)) = Ret (Inr (), c\<lparr>cu_query := (cu_query c)\<lparr>cq_where := cq_where (cu_query c) @ as\<rparr>\<rparr>)"
    (is "_ = Ret (Inr (), ?c)")
    "\<forall>row. list_all (meets row) as \<longleftrightarrow> (case cu_after c of None \<Rightarrow> True
      | Some v \<Rightarrow> let k = row_key row (cu_table c) (cu_order_columns c)
          in if cu_sort_asc c then vt_values v < k else k < vt_values v)"
  proof (cases "cu_after c")
    case (Some v)
    with assms(1) obtain cond where "filter_by (if cu_sort_asc c then ExprGt else ExprLt) v c =
        Ret (Inr (), c\<lparr>cu_query := cond_where cond (cu_query c)\<rparr>)"
      "\<forall>row. meets row cond \<longleftrightarrow> (let k = row_key row (cu_table c) (cu_order_columns c)
        in if cu_sort_asc c then vt_values v < k else k < vt_values v)"
      using filter_by_meets[of c v _ "cu_sort_asc c"] by auto
    then show ?thesis using Some by (intro that[of "[cond]"]) (simp_all add: cond_where_def)
  qed (rule that[of "[]"]; simp)
  have before_shape: "pred_option (same_shape (cu_order_columns ?c)) (cu_before ?c)" using assms(2) by simp
  obtain bs where before: "(case cu_before ?c of Some values \<Rightarrow> filter_by (if cu_sort_asc ?c then ExprLt else ExprGt) values ?c
       | None \<Rightarrow> Ret (Inr (), ?c)) =
      Ret (Inr (), ?c\<lparr>cu_query := (cu_query ?c)\<lparr>cq_where := cq_where (cu_query ?c) @ bs\<rparr>\<rparr>)"
    "\<forall>row. list_all (meets row) bs \<longleftrightarrow> (case cu_before c of None \<Rightarrow> True
      | Some v \<Rightarrow> let k = row_key row (cu_table c) (cu_order_columns c)
          in if cu_sort_asc c then k < vt_values v else vt_values v < k)"
  proof (cases "cu_before c")
    case (Some v)
    have flip: "(if cu_sort_asc c then ExprLt else ExprGt) = (if \<not> cu_sort_asc c then ExprGt else ExprLt)" by simp
    from Some before_shape obtain cond where "filter_by (if cu_sort_asc c then ExprLt else ExprGt) v ?c =
        Ret (Inr (), ?c\<lparr>cu_query := cond_where cond (cu_query ?c)\<rparr>)"
      "\<forall>row. meets row cond \<longleftrightarrow> (let k = row_key row (cu_table c) (cu_order_columns c)
        in if \<not> cu_sort_asc c then vt_values v < k else k < vt_values v)"
      using filter_by_meets[OF _ flip, of ?c v] by auto
    then show ?thesis using Some by (intro that[of "[cond]"]) (simp_all add: cond_where_def Let_def)
  qed (rule that[of "[]"]; simp)
  show ?thesis
    using after before
    by (intro exI[of _ "as @ bs"]) (auto simp: apply_filters_def within_bounds_def Let_def split: option.splits)
qed

section \<open>The window\<close>

lemma order_le_keys:
  assumes "order_le val (map (\<lambda>col. ((t, col), ord)) cols @ rest) r r'"
  shows "(case ord of Asc \<Rightarrow> map (\<lambda>c. val r (t, c)) cols \<le> map (\<lambda>c. val r' (t, c)) cols
    | Desc \<Rightarrow> map (\<lambda>c. val r' (t, c)) cols \<le> map (\<lambda>c. val r (t, c)) cols)"
  using assms by (induction cols) (cases ord; auto)+

lemma sorted_unique:
  fixes key :: "'row \<Rightarrow> 'k :: linorder"
  assumes "mset xs = mset ys" "distinct ys" "inj_on key (set ys)" "sorted (map key xs)"
  shows "xs = sort_key key ys"
proof (rule map_sorted_distinct_set_unique[of key])
  have set: "set xs = set ys" and "distinct xs"
    using assms(1,2) by (metis mset_eq_setD, metis mset_eq_imp_distinct_iff)
  then show "distinct (map key xs)" using assms(3) by (simp add: distinct_map)
  show "distinct (map key (sort_key key ys))" using assms(2,3) by (simp add: distinct_map)
  show "inj_on key (set xs \<union> set (sort_key key ys))" using assms(3) set by simp
qed (use assms in \<open>auto dest: mset_eq_setD\<close>)

lemma rev_take_rev: "rev (take n (rev xs)) = drop (length xs - n) xs"
  by (simp add: rev_drop[symmetric] drop_rev rev_take)

lemma try_map_list_all:
  "list_all (\<lambda>r. conv r = Inr (f r)) xs \<Longrightarrow> try_map conv xs = Inr (map f xs)"
  by (rule try_map_all_Inr) (auto simp: list_all_iff)

lemma reads_window:
  fixes c :: "('b, 'v :: linorder) cursor"
  assumes "runs_selects query_all val rows"
    and "distinct (rows (cq_base (cu_query c)))"
    and "inj_on (cursor_key val c) (set (rows (cq_base (cu_query c))))"
    and "list_all (\<lambda>r. conv r = Inr (f r)) (rows (cq_base (cu_query c)))"
    and "pred_option (same_shape (cu_order_columns c)) (cu_after c)"
    and "pred_option (same_shape (cu_order_columns c)) (cu_before c)"
    and "cu_first c = None \<or> cu_last c = None" "cu_last c = None \<or> cq_limit (cu_query c) = None"
  shows "\<exists>c'. cursor_all query_all conv c w =
    Ret (Inr (map f (cursor_window c (cursor_sequence val rows c))), c', w)"
proof -
  let ?rows = "rows (cq_base (cu_query c))" and ?key = "cursor_key val c"
  let ?kept = "filter (\<lambda>r. list_all (meets (val r)) (cq_where (cu_query c)) \<and> within_bounds c (?key r)) ?rows"
  define backwards where "backwards = (cu_last c \<noteq> None)"
  obtain rest q where q: "apply_order_by (apply_limit c) = c\<lparr>cu_reversed := backwards, cu_query := q\<rparr>" (is "_ = ?c")
    "cq_base q = cq_base (cu_query c)" "cq_where q = cq_where (cu_query c)"
    "cq_order q = map (\<lambda>col. ((cu_table c, col), if cu_sort_asc c = (\<not> backwards) then Asc else Desc))
      (columns (cu_order_columns c)) @ rest"
    "cq_limit q = (case cu_first c of Some n \<Rightarrow> Some n
      | None \<Rightarrow> (case cu_last c of Some n \<Rightarrow> Some n | None \<Rightarrow> cq_limit (cu_query c)))"
    using apply_order_limit[of c] unfolding backwards_def by auto
  have "pred_option (same_shape (cu_order_columns ?c)) (cu_after ?c)"
    "pred_option (same_shape (cu_order_columns ?c)) (cu_before ?c)"
    using assms(5,6) by simp_all
  then obtain conds where conds:
    "apply_filters ?c = Ret (Inr (), ?c\<lparr>cu_query := (cu_query ?c)\<lparr>cq_where := cq_where (cu_query ?c) @ conds\<rparr>\<rparr>)"
    "\<forall>row. list_all (meets row) conds \<longleftrightarrow> within_bounds ?c (row_key row (cu_table ?c) (cu_order_columns ?c))"
    using apply_filters_meets[of ?c] by blast
  let ?q = "q\<lparr>cq_where := cq_where q @ conds\<rparr>"
  obtain xs where xs: "query_all ?q w = (Inr (limited (cq_limit ?q) xs), w)"
    "mset xs = mset (filter (\<lambda>r. list_all (meets (val r)) (cq_where ?q)) (rows (cq_base ?q)))"
    "sorted_wrt (order_le val (cq_order ?q)) xs"
    using assms(1) unfolding runs_selects_def by meson
  have kept: "filter (\<lambda>r. list_all (meets (val r)) (cq_where ?q)) (rows (cq_base ?q)) = ?kept"
    using conds(2) q(2,3) by (auto simp: cursor_key_def within_bounds_def intro!: filter_cong split: option.splits)
  have "set xs \<subseteq> set ?rows" using xs(2) unfolding kept by (metis filter_is_subset set_mset_mset)
  then have conv: "try_map conv (limited l xs) = Inr (map f (limited l xs))" for l
    using assms(4) by (intro try_map_list_all) (auto simp: list_all_iff limited_def dest: in_set_takeD split: option.splits)
  have run: "cursor_all query_all conv c w =
      Ret (Inr (map f (if backwards then rev (limited (cq_limit q) xs) else limited (cq_limit q) xs)),
        ?c\<lparr>cu_query := ?q\<rparr>, w)"
    using conds(1) xs(1) conv by (simp add: cursor_all_def q(1) rev_map)
  have distinct: "distinct ?kept" "inj_on ?key (set ?kept)"
    using assms(2,3) by (auto intro: inj_on_subset)
  have "sorted_wrt (\<lambda>r r'. if cu_sort_asc c = (\<not> backwards) then ?key r \<le> ?key r' else ?key r' \<le> ?key r) xs"
    using xs(3) q(4)
    by (elim sorted_wrt_mono_rel[rotated]) (auto dest!: order_le_keys simp: cursor_key_def row_key_def split: if_splits)
  then have sorted: "if cu_sort_asc c = (\<not> backwards) then sorted (map ?key xs) else sorted (map ?key (rev xs))"
    by (auto simp: sorted_map sorted_wrt_rev rev_map split: if_splits)
  have "xs = (if backwards then rev (cursor_sequence val rows c) else cursor_sequence val rows c)"
  proof (cases "cu_sort_asc c = (\<not> backwards)")
    case True
    then have "xs = sort_key ?key ?kept"
      using sorted_unique[OF _ distinct, of xs] xs(2) sorted unfolding kept by simp
    then show ?thesis using True by (auto simp: cursor_sequence_def Let_def)
  next
    case False
    then have "rev xs = sort_key ?key ?kept"
      using sorted_unique[OF _ distinct, of "rev xs"] xs(2) sorted unfolding kept by simp
    then show ?thesis using False by (auto simp: cursor_sequence_def Let_def rev_swap)
  qed
  then have "(if backwards then rev (limited (cq_limit q) xs) else limited (cq_limit q) xs) =
      cursor_window c (cursor_sequence val rows c)"
    using assms(7,8) q(5) unfolding backwards_def cursor_window_def
    by (auto simp: limited_def rev_take_rev split: option.splits)
  then show ?thesis using run by auto
qed


section \<open>Following a cursor\<close>

lemma strict_filter:
  assumes "sorted_wrt R xs" "i < length xs" "\<And>x y. R x y \<Longrightarrow> \<not> R y x"
  shows "filter (R (xs ! i)) xs = drop (Suc i) xs" "filter (\<lambda>x. R x (xs ! i)) xs = take i xs"
proof -
  have split: "xs = take i xs @ xs ! i # drop (Suc i) xs" using assms(2) by (simp add: id_take_nth_drop)
  have sorted: "sorted_wrt R (take i xs @ xs ! i # drop (Suc i) xs)" using assms(1) split by simp
  then have before: "x \<in> set (take i xs) \<Longrightarrow> R x (xs ! i)" and behind: "x \<in> set (drop (Suc i) xs) \<Longrightarrow> R (xs ! i) x" for x
    by (simp_all add: sorted_wrt_append)
  have "\<not> R (xs ! i) (xs ! i)" using assms(3) by blast
  then have "filter (R (xs ! i)) (take i xs @ xs ! i # drop (Suc i) xs) = drop (Suc i) xs"
    and "filter (\<lambda>x. R x (xs ! i)) (take i xs @ xs ! i # drop (Suc i) xs) = take i xs"
    using before behind assms(3) by (auto simp: filter_empty_conv filter_id_conv)
  then show "filter (R (xs ! i)) xs = drop (Suc i) xs" "filter (\<lambda>x. R x (xs ! i)) xs = take i xs"
    using split by metis+
qed

text \<open>The order of the rows in the cursor's direction.\<close>

definition precedes :: "('row \<Rightarrow> string \<times> string \<Rightarrow> 'v :: linorder) \<Rightarrow> ('b, 'v) cursor \<Rightarrow> 'row \<Rightarrow> 'row \<Rightarrow> bool" where
  "precedes val c r r' =
    (if cu_sort_asc c then cursor_key val c r < cursor_key val c r' else cursor_key val c r' < cursor_key val c r)"

lemma cursor_sequence_sorted:
  assumes "distinct (rows (cq_base (cu_query c)))" "inj_on (cursor_key val c) (set (rows (cq_base (cu_query c))))"
  shows "sorted_wrt (precedes val c) (cursor_sequence val rows c)"
proof -
  let ?kept = "filter (\<lambda>r. list_all (meets (val r)) (cq_where (cu_query c)) \<and> within_bounds c (cursor_key val c r))
    (rows (cq_base (cu_query c)))"
  have "distinct (map (cursor_key val c) (sort_key (cursor_key val c) ?kept))"
    using assms by (auto simp: distinct_map intro: inj_on_subset)
  then have "sorted_wrt (<) (map (cursor_key val c) (sort_key (cursor_key val c) ?kept))"
    by (simp add: strict_sorted_iff)
  then show ?thesis
    by (auto simp: cursor_sequence_def precedes_def[abs_def] sorted_wrt_map sorted_wrt_rev Let_def)
qed

lemma cursor_sequence_filter:
  assumes "cu_query c' = cu_query c" "cu_table c' = cu_table c" "cu_order_columns c' = cu_order_columns c"
    "cu_sort_asc c' = cu_sort_asc c" "\<And>r. within_bounds c' (cursor_key val c r) \<longleftrightarrow> within_bounds c (cursor_key val c r) \<and> P r"
  shows "cursor_sequence val rows c' = filter P (cursor_sequence val rows c)"
proof -
  have key: "cursor_key val c' = cursor_key val c"
    by (rule ext) (simp add: cursor_key_def assms(2,3))
  have "filter (\<lambda>r. list_all (meets (val r)) (cq_where (cu_query c)) \<and> within_bounds c' (cursor_key val c r)) xs =
      filter P (filter (\<lambda>r. list_all (meets (val r)) (cq_where (cu_query c)) \<and> within_bounds c (cursor_key val c r)) xs)" for xs
    using assms(5) by (auto simp: filter_filter intro!: filter_cong)
  then show ?thesis
    unfolding cursor_sequence_def Let_def key assms(1,4) by (simp add: filter_sort rev_filter[symmetric])
qed

text \<open>Following a cursor visits the rows one after the other: from the key of the row at position
  \<open>i\<close> of the cursor's sequence, \<open>after\<close> with \<open>first(n)\<close> gives the next \<open>n\<close> rows and \<open>before\<close> with
  \<open>last(n)\<close> the \<open>n\<close> rows just before it, in both directions, none skipped or repeated.\<close>

theorem cursor_pages_follow_on:
  fixes c :: "('b, 'v :: linorder) cursor"
  assumes "runs_selects query_all val rows"
    and "distinct (rows (cq_base (cu_query c)))"
    and "inj_on (cursor_key val c) (set (rows (cq_base (cu_query c))))"
    and "list_all (\<lambda>r. conv r = Inr (f r)) (rows (cq_base (cu_query c)))"
    and "cu_after c = None" "cu_before c = None" "cq_limit (cu_query c) = None"
    and "i < length (cursor_sequence val rows c)"
    and "same_shape (cu_order_columns c) key" "vt_values key = cursor_key val c (cursor_sequence val rows c ! i)"
  shows "(\<exists>c'. cursor_all query_all conv (cursor_first n (cursor_after key c)) w =
      Ret (Inr (map f (take (unat n) (drop (Suc i) (cursor_sequence val rows c)))), c', w)) \<and>
    (\<exists>c'. cursor_all query_all conv (cursor_last n (cursor_before key c)) w =
      Ret (Inr (map f (drop (i - unat n) (take i (cursor_sequence val rows c)))), c', w))"
proof -
  let ?D = "cursor_sequence val rows c"
  let ?a = "cursor_first n (cursor_after key c)" and ?b = "cursor_last n (cursor_before key c)"
  have asym: "precedes val c x y \<Longrightarrow> \<not> precedes val c y x" for x y
    by (auto simp: precedes_def split: if_splits)
  note filters = strict_filter[OF cursor_sequence_sorted[of rows c val, OF assms(2,3)] assms(8) asym]
  have "cursor_sequence val rows ?a = filter (precedes val c (?D ! i)) ?D"
    using assms(5,6,10)
    by (intro cursor_sequence_filter) (auto simp: cursor_first_def cursor_after_def within_bounds_def precedes_def)
  then have after: "cursor_sequence val rows ?a = drop (Suc i) ?D" using filters(1) by simp
  have "cursor_sequence val rows ?b = filter (\<lambda>r. precedes val c r (?D ! i)) ?D"
    using assms(5,6,10)
    by (intro cursor_sequence_filter) (auto simp: cursor_last_def cursor_before_def within_bounds_def precedes_def)
  then have before: "cursor_sequence val rows ?b = take i ?D" using filters(2) by simp
  have keys: "cursor_key val ?a = cursor_key val c" "cursor_key val ?b = cursor_key val c"
    by (auto simp: fun_eq_iff cursor_key_def cursor_first_def cursor_after_def cursor_last_def cursor_before_def)
  have "\<exists>c'. cursor_all query_all conv ?a w = Ret (Inr (map f (cursor_window ?a (drop (Suc i) ?D))), c', w)"
    unfolding after[symmetric]
    by (rule reads_window) (use assms keys in \<open>simp_all add: cursor_first_def cursor_after_def\<close>)
  moreover have "\<exists>c'. cursor_all query_all conv ?b w = Ret (Inr (map f (cursor_window ?b (take i ?D))), c', w)"
    unfolding before[symmetric]
    by (rule reads_window) (use assms keys in \<open>simp_all add: cursor_last_def cursor_before_def\<close>)
  ultimately show ?thesis
    using assms(8) by (simp add: cursor_window_def cursor_first_def cursor_after_def cursor_last_def cursor_before_def)
qed

section \<open>An example\<close>

text \<open>A table with the rows 1, 2, 3, whose every column shows the row.\<close>

definition sample_table :: "(unit, nat) cursor_select \<Rightarrow> (nat list, unit) io" where
  "sample_table q w =
    (let xs = filter (\<lambda>r. list_all (meets (\<lambda>_. r)) (cq_where q)) [1, 2, 3]
     in (Inr (limited (cq_limit q) (case cq_order q of (_, Desc) # _ \<Rightarrow> rev xs | _ \<Rightarrow> xs)), w))"

lemma sample_table_selects: "runs_selects sample_table (\<lambda>r _. r) (\<lambda>_. [1, 2, 3])"
  unfolding runs_selects_def
proof (intro allI)
  fix q :: "(unit, nat) cursor_select" and w
  let ?xs = "filter (\<lambda>r. list_all (meets (\<lambda>_. r)) (cq_where q)) [1, 2, 3]"
  have up: "sorted_wrt (<) ?xs" by (rule sorted_wrt_filter) simp
  let ?ys = "case cq_order q of (_, Desc) # _ \<Rightarrow> rev ?xs | _ \<Rightarrow> ?xs"
  have "sorted_wrt (order_le (\<lambda>r _. r) (cq_order q)) ?ys"
  proof (cases "cq_order q")
    case Nil
    have "sorted_wrt (order_le (\<lambda>r _. r) []) ?xs" by (rule sorted_wrt_mono_rel[OF _ up]) simp
    then show ?thesis using Nil by simp
  next
    case (Cons o1 os)
    obtain col ord where o1: "o1 = (col, ord)" by (cases o1)
    have "sorted_wrt (order_le (\<lambda>r _. r) ((col, Asc) # os)) ?xs" by (rule sorted_wrt_mono_rel[OF _ up]) simp
    moreover have "sorted_wrt (\<lambda>r r'. order_le (\<lambda>r _. r) ((col, Desc) # os) r' r) ?xs"
      by (rule sorted_wrt_mono_rel[OF _ up]) simp
    ultimately show ?thesis using Cons o1 by (cases ord) (simp_all add: sorted_wrt_rev)
  qed
  then show "\<exists>xs. sample_table q w = (Inr (limited (cq_limit q) xs), w) \<and>
      mset xs = mset (filter (\<lambda>r. list_all (meets (\<lambda>_. r)) (cq_where q)) [1, 2, 3]) \<and>
      sorted_wrt (order_le (\<lambda>r _. r) (cq_order q)) xs"
    by (intro exI[of _ ?ys]) (auto simp: sample_table_def Let_def split: list.splits sort_order.splits)
qed

definition sample_cursor :: "(unit, nat) cursor" where
  "sample_cursor = cursor_by \<lparr>cq_base = (), cq_where = [], cq_order = [], cq_limit = None\<rparr> ''t'' (Unary ''id'')"

lemmas sample_defs = sample_cursor_def cursor_by_def cursor_new_def


theorem cursor_pages_follow_on_witness:
  "\<exists>c'. cursor_all sample_table Inr (cursor_first 1 (cursor_after (VOne 1) sample_cursor)) () = Ret (Inr [2], c', ())"
proof -
  have key: "inj_on (cursor_key (\<lambda>r _. r) sample_cursor) (set [1, 2, 3])"
    by (auto simp: inj_on_def cursor_key_def row_key_def sample_defs)
  have seq: "cursor_sequence (\<lambda>r _. r) (\<lambda>_. [1, 2, 3]) sample_cursor = [1, 2, 3]"
    by (simp add: cursor_sequence_def cursor_key_def row_key_def within_bounds_def sample_defs Let_def)
  show ?thesis
    using cursor_pages_follow_on[OF sample_table_selects _ key, of Inr id 0 "VOne 1" 1 "()"] unfolding seq
    by (simp add: sample_defs cursor_key_def row_key_def)
qed

end
