(* ===== verification/Migration.thy ===== *)
theory Migration
  imports DbIo
begin

text \<open>
  \<open>sea-orm-migration\<close>: the migrator (\<open>migrator.rs\<close>, \<open>migrator/exec.rs\<close>), its schema manager
  (\<open>manager.rs\<close>) and the executor the manager wraps (\<open>src/database/executor.rs\<close>). The statements
  the migrator builds are data; the driver that runs them is an argument. A transaction is a handle
  of the driver, and dropping an open one is its rollback.
\<close>

section \<open>Statements and the driver\<close>

datatype mig_stmt =
    CreateTableIfNotExists string
  | DropTable string
  | InsertVersion string string int
  | DeleteVersion string string
  | RawStatement string
  | DropForeignKey string string
  | DropType string

datatype mig_query =
    SelectVersions string
  | QueryTables
  | QueryForeignKeys
  | QueryTypes
  | HasTable string

text \<open>
  The operations of a driver take the session they run in: the connection (\<open>None\<close>) or an open
  transaction. \<open>dd_drop\<close> is the drop of a transaction that was not committed; \<open>dd_commit\<close> consumes
  the handle. \<open>dd_probe\<close> tells whether schema queries are compiled in for the backend.
\<close>

record ('h, 'row, 'w) db_driver =
  dd_backend :: db_backend
  dd_probe :: bool
  dd_execute :: "'h option \<Rightarrow> mig_stmt \<Rightarrow> (unit, 'w) io"
  dd_query_all :: "'h option \<Rightarrow> mig_query \<Rightarrow> ('row list, 'w) io"
  dd_query_one :: "'h option \<Rightarrow> mig_query \<Rightarrow> ('row option, 'w) io"
  dd_begin :: "'h option \<Rightarrow> ('h, 'w) io"
  dd_commit :: "'h \<Rightarrow> (unit, 'w) io"
  dd_drop :: "'h \<Rightarrow> 'w \<Rightarrow> 'w"
  dd_text :: "'row \<Rightarrow> string \<Rightarrow> (string, db_err) result"
  dd_int :: "'row \<Rightarrow> string \<Rightarrow> (int, db_err) result"
  dd_bool :: "'row \<Rightarrow> string \<Rightarrow> (bool, db_err) result"
  dd_now :: "'w \<Rightarrow> int"

section \<open>The executor and the schema manager\<close>

datatype 'h db_executor = Connection | Transaction 'h | OwnedTransaction 'h

fun session_of :: "'h db_executor \<Rightarrow> 'h option" where
  "session_of Connection = None"
| "session_of (Transaction h) = Some h"
| "session_of (OwnedTransaction h) = Some h"

definition executor_execute ::
  "('h, 'row, 'w) db_driver \<Rightarrow> 'h db_executor \<Rightarrow> mig_stmt \<Rightarrow> (unit, 'w) act" where
  "executor_execute db ex stmt = act_io (dd_execute db (session_of ex) stmt)"

definition executor_query_all ::
  "('h, 'row, 'w) db_driver \<Rightarrow> 'h db_executor \<Rightarrow> mig_query \<Rightarrow> ('row list, 'w) act" where
  "executor_query_all db ex q = act_io (dd_query_all db (session_of ex) q)"

definition executor_query_one ::
  "('h, 'row, 'w) db_driver \<Rightarrow> 'h db_executor \<Rightarrow> mig_query \<Rightarrow> ('row option, 'w) act" where
  "executor_query_one db ex q = act_io (dd_query_one db (session_of ex) q)"

definition executor_begin :: "('h, 'row, 'w) db_driver \<Rightarrow> 'h db_executor \<Rightarrow> ('h, 'w) act" where
  "executor_begin db ex = act_io (dd_begin db (session_of ex))"

definition manager_begin :: "('h, 'row, 'w) db_driver \<Rightarrow> 'h db_executor \<Rightarrow> ('h db_executor, 'w) act" where
  "manager_begin db ex = act_bind (executor_begin db ex) (\<lambda>h. act_ret (OwnedTransaction h))"

fun manager_commit :: "('h, 'row, 'w) db_driver \<Rightarrow> 'h db_executor \<Rightarrow> (unit, 'w) act" where
  "manager_commit db (OwnedTransaction h) = act_io (dd_commit db h)"
| "manager_commit db _ = act_err (Custom ''Cannot commit: SchemaManager does not own a transaction'')"

definition drop_table :: "('h, 'row, 'w) db_driver \<Rightarrow> 'h db_executor \<Rightarrow> string \<Rightarrow> (unit, 'w) act" where
  "drop_table db ex name = executor_execute db ex (DropTable name)"

definition backend_not_supported :: "('h, 'row, 'w) db_driver \<Rightarrow> string \<Rightarrow> db_err" where
  "backend_not_supported db ctx = BackendNotSupported (db_backend_as_str (dd_backend db)) ctx"

definition has_table :: "('h, 'row, 'w) db_driver \<Rightarrow> 'h db_executor \<Rightarrow> string \<Rightarrow> (bool, 'w) act" where
  "has_table db ex name =
    (if \<not> dd_probe db then act_err (backend_not_supported db ''has_table'')
     else act_bind (executor_query_one db ex (HasTable name)) (\<lambda>res.
       case res of
         None \<Rightarrow> act_err (Custom ''Failed to check table exists'')
       | Some row \<Rightarrow> act_res (dd_bool db row ''has_table'')))"

section \<open>Migrations and their status\<close>

datatype migration_status = Pending | Applied

fun migration_status_display :: "migration_status \<Rightarrow> string" where
  "migration_status_display Pending = ''Pending''"
| "migration_status_display Applied = ''Applied''"

text \<open>\<open>MigrationTrait\<close>; \<open>up\<close> and \<open>down\<close> are given the manager's executor.\<close>

record ('h, 'w) migration_trait =
  mg_name :: string
  mg_use_transaction :: "bool option"
  mg_up :: "'h db_executor \<Rightarrow> (unit, 'w) act"
  mg_down :: "'h db_executor \<Rightarrow> (unit, 'w) act"

definition default_down :: "'h db_executor \<Rightarrow> (unit, 'w) act" where
  "default_down ex = act_err (Migration (''We Don'' @ [CHR 0x27] @ ''t Do That Here''))"

definition default_use_transaction :: "bool option" where
  "default_use_transaction = None"

record ('h, 'w) migration =
  m_migration :: "('h, 'w) migration_trait"
  m_status :: migration_status

definition migration_name :: "('h, 'w) migration \<Rightarrow> string" where
  "migration_name m = mg_name (m_migration m)"

record seaql_migration =
  sm_version :: string
  sm_applied_at :: int

text \<open>What an implementor of \<open>MigratorTrait\<close> supplies.\<close>

record ('h, 'w) migrator =
  mr_migrations :: "('h, 'w) migration_trait list"
  mr_table :: string

definition get_migration_files :: "('h, 'w) migrator \<Rightarrow> ('h, 'w) migration list" where
  "get_migration_files mr = map (\<lambda>m. \<lparr>m_migration = m, m_status = Pending\<rparr>) (mr_migrations mr)"

definition model_from_row :: "('h, 'row, 'w) db_driver \<Rightarrow> 'row \<Rightarrow> (seaql_migration, db_err) result" where
  "model_from_row db row =
    res_bind (dd_text db row ''version'') (\<lambda>v.
    res_bind (dd_int db row ''applied_at'') (\<lambda>t. Inr \<lparr>sm_version = v, sm_applied_at = t\<rparr>))"

definition select_migration_models ::
  "('h, 'row, 'w) db_driver \<Rightarrow> 'h db_executor \<Rightarrow> string \<Rightarrow> (seaql_migration list, 'w) act" where
  "select_migration_models db ex table =
    act_bind (executor_query_all db ex (SelectVersions table)) (\<lambda>rows.
      act_res (try_map (model_from_row db) rows))"

definition select_migration_models_read_only ::
  "('h, 'row, 'w) db_driver \<Rightarrow> 'h db_executor \<Rightarrow> string \<Rightarrow> (seaql_migration list, 'w) act" where
  "select_migration_models_read_only db ex table =
    act_bind (has_table db ex table) (\<lambda>b.
      if \<not> b then act_ret [] else select_migration_models db ex table)"

text \<open>
  The two hash sets of names matter through membership, and through the iteration order of the
  names missing among the files, which \<open>order\<close> chooses.
\<close>

definition missing_message :: "string \<Rightarrow> string" where
  "missing_message v = ''Migration file of version '' @ [CHR 0x27] @ v @ [CHR 0x27] @
    '' is missing, this migration has been applied but its file is missing''"

definition with_status ::
  "(string list \<Rightarrow> string list) \<Rightarrow> ('h, 'w) migration list \<Rightarrow> seaql_migration list \<Rightarrow>
    (('h, 'w) migration list, db_err) result" where
  "with_status order files models =
    (let in_db = map sm_version models;
         in_fs = map migration_name files;
         pending = filter (\<lambda>n. n \<notin> set in_db) in_fs;
         files' = map (\<lambda>f. if migration_name f \<notin> set pending then f\<lparr>m_status := Applied\<rparr> else f) files;
         missing = filter (\<lambda>n. n \<notin> set in_fs) (remdups in_db);
         errors = map missing_message (order missing)
     in if errors \<noteq> [] then Inl (Custom (join [CHR 0x0A] errors)) else Inr files')"

definition install :: "('h, 'row, 'w) db_driver \<Rightarrow> 'h db_executor \<Rightarrow> ('h, 'w) migrator \<Rightarrow> (unit, 'w) act" where
  "install db ex mr = executor_execute db ex (CreateTableIfNotExists (mr_table mr))"

definition get_migration_models ::
  "('h, 'row, 'w) db_driver \<Rightarrow> 'h db_executor \<Rightarrow> ('h, 'w) migrator \<Rightarrow> (seaql_migration list, 'w) act" where
  "get_migration_models db ex mr =
    act_bind (install db ex mr) (\<lambda>_. select_migration_models db ex (mr_table mr))"

definition get_migration_with_status ::
  "(string list \<Rightarrow> string list) \<Rightarrow> ('h, 'row, 'w) db_driver \<Rightarrow> 'h db_executor \<Rightarrow> ('h, 'w) migrator \<Rightarrow>
    (('h, 'w) migration list, 'w) act" where
  "get_migration_with_status order db ex mr =
    act_bind (install db ex mr) (\<lambda>_.
    act_bind (get_migration_models db ex mr) (\<lambda>models.
      act_res (with_status order (get_migration_files mr) models)))"

definition get_pending_migrations ::
  "(string list \<Rightarrow> string list) \<Rightarrow> ('h, 'row, 'w) db_driver \<Rightarrow> 'h db_executor \<Rightarrow> ('h, 'w) migrator \<Rightarrow>
    (('h, 'w) migration list, 'w) act" where
  "get_pending_migrations order db ex mr =
    act_bind (install db ex mr) (\<lambda>_.
    act_bind (get_migration_with_status order db ex mr) (\<lambda>files.
      act_ret (filter (\<lambda>f. m_status f = Pending) files)))"

definition get_applied_migrations ::
  "(string list \<Rightarrow> string list) \<Rightarrow> ('h, 'row, 'w) db_driver \<Rightarrow> 'h db_executor \<Rightarrow> ('h, 'w) migrator \<Rightarrow>
    (('h, 'w) migration list, 'w) act" where
  "get_applied_migrations order db ex mr =
    act_bind (install db ex mr) (\<lambda>_.
    act_bind (get_migration_with_status order db ex mr) (\<lambda>files.
      act_ret (filter (\<lambda>f. m_status f = Applied) files)))"

definition get_migration_with_status_read_only ::
  "(string list \<Rightarrow> string list) \<Rightarrow> ('h, 'row, 'w) db_driver \<Rightarrow> 'h db_executor \<Rightarrow> ('h, 'w) migrator \<Rightarrow>
    (('h, 'w) migration list, 'w) act" where
  "get_migration_with_status_read_only order db ex mr =
    act_bind (select_migration_models_read_only db ex (mr_table mr)) (\<lambda>models.
      act_res (with_status order (get_migration_files mr) models))"

definition get_pending_migrations_read_only ::
  "(string list \<Rightarrow> string list) \<Rightarrow> ('h, 'row, 'w) db_driver \<Rightarrow> 'h db_executor \<Rightarrow> ('h, 'w) migrator \<Rightarrow>
    (('h, 'w) migration list, 'w) act" where
  "get_pending_migrations_read_only order db ex mr =
    act_bind (get_migration_with_status_read_only order db ex mr) (\<lambda>files.
      act_ret (filter (\<lambda>f. m_status f = Pending) files))"

definition get_applied_migrations_read_only ::
  "(string list \<Rightarrow> string list) \<Rightarrow> ('h, 'row, 'w) db_driver \<Rightarrow> 'h db_executor \<Rightarrow> ('h, 'w) migrator \<Rightarrow>
    (('h, 'w) migration list, 'w) act" where
  "get_applied_migrations_read_only order db ex mr =
    act_bind (get_migration_with_status_read_only order db ex mr) (\<lambda>files.
      act_ret (filter (\<lambda>f. m_status f = Applied) files))"

text \<open>\<open>status\<close> logs the lines; the log is its result here.\<close>

definition status ::
  "(string list \<Rightarrow> string list) \<Rightarrow> ('h, 'row, 'w) db_driver \<Rightarrow> 'h db_executor \<Rightarrow> ('h, 'w) migrator \<Rightarrow>
    (string list, 'w) act" where
  "status order db ex mr =
    act_bind (install db ex mr) (\<lambda>_.
    act_bind (get_migration_with_status order db ex mr) (\<lambda>files.
      act_ret (map (\<lambda>f. ''Migration '' @ [CHR 0x27] @ migration_name f @ [CHR 0x27] @ ''... '' @
        migration_status_display (m_status f)) files)))"

section \<open>Applying and rolling back\<close>

text \<open>
  A block that begins a transaction, runs its body in it with \<open>?\<close>, and commits: an error of the body
  drops the transaction.
\<close>

definition in_transaction ::
  "('h, 'row, 'w) db_driver \<Rightarrow> 'h db_executor \<Rightarrow> ('h \<Rightarrow> (unit, 'w) act) \<Rightarrow> (unit, 'w) act" where
  "in_transaction db ex body =
    act_bind (executor_begin db ex) (\<lambda>h w.
      run_bind (body h w) (\<lambda>rw.
        case fst rw of
          Inl e \<Rightarrow> Ret (Inl e, dd_drop db h (snd rw))
        | Inr _ \<Rightarrow> Ret (dd_commit db h (snd rw))))"

definition should_use_transaction :: "('h, 'w) migration_trait \<Rightarrow> db_backend \<Rightarrow> bool" where
  "should_use_transaction m backend =
    (case mg_use_transaction m of Some v \<Rightarrow> v | None \<Rightarrow> backend = Postgres)"

definition insert_migration_record ::
  "('h, 'row, 'w) db_driver \<Rightarrow> 'h db_executor \<Rightarrow> string \<Rightarrow> string \<Rightarrow> (unit, 'w) act" where
  "insert_migration_record db ex name table =
    (\<lambda>w. executor_execute db ex (InsertVersion table name (dd_now db w)) w)"

definition delete_migration_record ::
  "('h, 'row, 'w) db_driver \<Rightarrow> 'h db_executor \<Rightarrow> string \<Rightarrow> string \<Rightarrow> (unit, 'w) act" where
  "delete_migration_record db ex name table = executor_execute db ex (DeleteVersion table name)"

definition apply_migration ::
  "('h, 'row, 'w) db_driver \<Rightarrow> 'h db_executor \<Rightarrow> string \<Rightarrow> ('h, 'w) migration_trait \<Rightarrow> (unit, 'w) act" where
  "apply_migration db ex table m =
    (if should_use_transaction m (dd_backend db) then
       in_transaction db ex (\<lambda>h.
         act_bind (mg_up m (Transaction h)) (\<lambda>_.
           insert_migration_record db (Transaction h) (mg_name m) table))
     else
       act_bind (mg_up m ex) (\<lambda>_. insert_migration_record db ex (mg_name m) table))"

definition revert_migration ::
  "('h, 'row, 'w) db_driver \<Rightarrow> 'h db_executor \<Rightarrow> string \<Rightarrow> ('h, 'w) migration_trait \<Rightarrow> (unit, 'w) act" where
  "revert_migration db ex table m =
    (if should_use_transaction m (dd_backend db) then
       in_transaction db ex (\<lambda>h.
         act_bind (mg_down m (Transaction h)) (\<lambda>_.
           delete_migration_record db (Transaction h) (mg_name m) table))
     else
       act_bind (mg_down m ex) (\<lambda>_. delete_migration_record db ex (mg_name m) table))"

fun exec_up_with ::
  "('h, 'row, 'w) db_driver \<Rightarrow> 'h db_executor \<Rightarrow> 32 word option \<Rightarrow> ('h, 'w) migration list \<Rightarrow> string \<Rightarrow>
    (unit, 'w) act" where
  "exec_up_with db ex steps [] table = act_ret ()"
| "exec_up_with db ex steps (m # ms) table =
    (if steps = Some 0 then act_ret ()
     else act_bind (apply_migration db ex table (m_migration m)) (\<lambda>_.
       exec_up_with db ex (map_option (\<lambda>s. s - 1) steps) ms table))"

fun revert_loop ::
  "('h, 'row, 'w) db_driver \<Rightarrow> 'h db_executor \<Rightarrow> 32 word option \<Rightarrow> ('h, 'w) migration list \<Rightarrow> string \<Rightarrow>
    (unit, 'w) act" where
  "revert_loop db ex steps [] table = act_ret ()"
| "revert_loop db ex steps (m # ms) table =
    (if steps = Some 0 then act_ret ()
     else act_bind (revert_migration db ex table (m_migration m)) (\<lambda>_.
       revert_loop db ex (map_option (\<lambda>s. s - 1) steps) ms table))"

definition exec_down_with ::
  "('h, 'row, 'w) db_driver \<Rightarrow> 'h db_executor \<Rightarrow> 32 word option \<Rightarrow> ('h, 'w) migration list \<Rightarrow> string \<Rightarrow>
    (unit, 'w) act" where
  "exec_down_with db ex steps applied table = revert_loop db ex steps (rev applied) table"

definition exec_up ::
  "(string list \<Rightarrow> string list) \<Rightarrow> ('h, 'row, 'w) db_driver \<Rightarrow> 'h db_executor \<Rightarrow> ('h, 'w) migrator \<Rightarrow>
    32 word option \<Rightarrow> (unit, 'w) act" where
  "exec_up order db ex mr steps =
    act_bind (install db ex mr) (\<lambda>_.
    act_bind (get_pending_migrations order db ex mr) (\<lambda>pending.
      exec_up_with db ex steps pending (mr_table mr)))"

definition exec_down ::
  "(string list \<Rightarrow> string list) \<Rightarrow> ('h, 'row, 'w) db_driver \<Rightarrow> 'h db_executor \<Rightarrow> ('h, 'w) migrator \<Rightarrow>
    32 word option \<Rightarrow> (unit, 'w) act" where
  "exec_down order db ex mr steps =
    act_bind (install db ex mr) (\<lambda>_.
    act_bind (get_applied_migrations order db ex mr) (\<lambda>applied.
      exec_down_with db ex steps applied (mr_table mr)))"

section \<open>Dropping everything\<close>

definition query_tables :: "('h, 'row, 'w) db_driver \<Rightarrow> (mig_query, db_err) result" where
  "query_tables db =
    (if dd_probe db then Inr QueryTables else Inl (backend_not_supported db ''query_tables''))"

definition when_backend ::
  "('h, 'row, 'w) db_driver \<Rightarrow> db_backend \<Rightarrow> (unit, 'w) act \<Rightarrow> (unit, 'w) act" where
  "when_backend db b step = (if dd_backend db = b then step else act_ret ())"

definition drop_foreign_keys :: "('h, 'row, 'w) db_driver \<Rightarrow> 'h db_executor \<Rightarrow> (unit, 'w) act" where
  "drop_foreign_keys db ex =
    act_bind (executor_query_all db ex QueryForeignKeys) (act_each (\<lambda>row.
      act_bind (act_res (dd_text db row ''CONSTRAINT_NAME'')) (\<lambda>constraint.
      act_bind (act_res (dd_text db row ''TABLE_NAME'')) (\<lambda>table.
        executor_execute db ex (DropForeignKey table constraint)))))"

definition drop_tables :: "('h, 'row, 'w) db_driver \<Rightarrow> 'h db_executor \<Rightarrow> (unit, 'w) act" where
  "drop_tables db ex =
    act_bind (act_res (query_tables db)) (\<lambda>stmt.
    act_bind (executor_query_all db ex stmt) (act_each (\<lambda>row.
      act_bind (act_res (dd_text db row ''table_name'')) (\<lambda>table.
        executor_execute db ex (DropTable table)))))"

definition drop_types :: "('h, 'row, 'w) db_driver \<Rightarrow> 'h db_executor \<Rightarrow> (unit, 'w) act" where
  "drop_types db ex =
    act_bind (executor_query_all db ex QueryTypes) (act_each (\<lambda>row.
      act_bind (act_res (dd_text db row ''typname'')) (\<lambda>name.
        executor_execute db ex (DropType name))))"

definition drop_everything_impl :: "('h, 'row, 'w) db_driver \<Rightarrow> 'h db_executor \<Rightarrow> (unit, 'w) act" where
  "drop_everything_impl db ex =
    act_bind (when_backend db Sqlite (executor_execute db ex (RawStatement ''PRAGMA foreign_keys = OFF''))) (\<lambda>_.
    act_bind (when_backend db MySql (drop_foreign_keys db ex)) (\<lambda>_.
    act_bind (drop_tables db ex) (\<lambda>_.
    act_bind (when_backend db Postgres (drop_types db ex)) (\<lambda>_.
      when_backend db Sqlite (executor_execute db ex (RawStatement ''PRAGMA foreign_keys = ON''))))))"

definition drop_everything :: "('h, 'row, 'w) db_driver \<Rightarrow> 'h db_executor \<Rightarrow> (unit, 'w) act" where
  "drop_everything db ex =
    (if dd_backend db = Postgres
     then in_transaction db ex (\<lambda>h. drop_everything_impl db (Transaction h))
     else drop_everything_impl db ex)"

definition exec_fresh ::
  "(string list \<Rightarrow> string list) \<Rightarrow> ('h, 'row, 'w) db_driver \<Rightarrow> 'h db_executor \<Rightarrow> ('h, 'w) migrator \<Rightarrow> (unit, 'w) act" where
  "exec_fresh order db ex mr =
    act_bind (install db ex mr) (\<lambda>_.
    act_bind (drop_everything db ex) (\<lambda>_. exec_up order db ex mr None))"

section \<open>The commands\<close>

definition uninstall :: "('h, 'row, 'w) db_driver \<Rightarrow> 'h db_executor \<Rightarrow> ('h, 'w) migrator \<Rightarrow> (unit, 'w) act" where
  "uninstall db ex mr = drop_table db ex (mr_table mr)"

definition refresh ::
  "(string list \<Rightarrow> string list) \<Rightarrow> ('h, 'row, 'w) db_driver \<Rightarrow> 'h db_executor \<Rightarrow> ('h, 'w) migrator \<Rightarrow> (unit, 'w) act" where
  "refresh order db ex mr =
    act_bind (exec_down order db ex mr None) (\<lambda>_. exec_up order db ex mr None)"

definition reset ::
  "(string list \<Rightarrow> string list) \<Rightarrow> ('h, 'row, 'w) db_driver \<Rightarrow> 'h db_executor \<Rightarrow> ('h, 'w) migrator \<Rightarrow> (unit, 'w) act" where
  "reset order db ex mr =
    act_bind (exec_down order db ex mr None) (\<lambda>_. uninstall db ex mr)"

end
