(* ===== verification/MigrationSpec.thy ===== *)
theory MigrationSpec
  imports Migration
begin

text \<open>
  What the migrator promises. On a database whose statements and transactions behave as documented
  (\<open>migration_store\<close>), \<open>up\<close> and \<open>down\<close> refine a plan over the data and the recorded versions
  (\<open>plan_up\<close>, \<open>plan_down\<close>): migrations run in file order (backwards for \<open>down\<close>), a migration in a
  transaction is all or nothing, and a version is recorded exactly when its migration ran.
\<close>

section \<open>The database\<close>

text \<open>
  A database seen through its data, its migration table (\<open>None\<close> before it exists) and the open
  transaction: its handle with the data and the versions it will restore.
\<close>

record ('h, 'w, 'd) store_view =
  vw_data :: "'w \<Rightarrow> 'd"
  vw_versions :: "'w \<Rightarrow> string list option"
  vw_open :: "'w \<Rightarrow> ('h \<times> 'd \<times> string list option) option"

definition store_shows ::
  "('h, 'w, 'd) store_view \<Rightarrow> 'w \<Rightarrow> 'd \<Rightarrow> string list option \<Rightarrow>
    ('h \<times> 'd \<times> string list option) option \<Rightarrow> bool" where
  "store_shows vw w d vs b = (vw_data vw w = d \<and> vw_versions vw w = vs \<and> vw_open vw w = b)"

definition live :: "('h, 'w, 'd) store_view \<Rightarrow> 'h option \<Rightarrow> 'w \<Rightarrow> bool" where
  "live vw s w = (map_option fst (vw_open vw w) = s)"

definition recorded :: "('h, 'w, 'd) store_view \<Rightarrow> 'w \<Rightarrow> string list" where
  "recorded vw w = (case vw_versions vw w of None \<Rightarrow> [] | Some vs \<Rightarrow> vs)"

definition ok_with :: "('r, 'e) result \<times> 'w \<Rightarrow> ('r \<Rightarrow> 'w \<Rightarrow> bool) \<Rightarrow> bool" where
  "ok_with rw P = (case rw of (Inl _, _) \<Rightarrow> False | (Inr v, w') \<Rightarrow> P v w')"

text \<open>The documented behaviour of the statements the migrator issues, in the session they belong to.\<close>

definition migration_store :: "('h, 'row, 'w) db_driver \<Rightarrow> ('h, 'w, 'd) store_view \<Rightarrow> string \<Rightarrow> bool" where
  "migration_store db vw table = (\<forall>s w. live vw s w \<longrightarrow>
     ok_with (dd_execute db s (CreateTableIfNotExists table) w)
       (\<lambda>_ w'. store_shows vw w' (vw_data vw w) (Some (recorded vw w)) (vw_open vw w)) \<and>
     (\<forall>vs. vw_versions vw w = Some vs \<longrightarrow>
       ok_with (dd_query_all db s (SelectVersions table) w) (\<lambda>rows w'. w' = w \<and>
         (\<exists>models. try_map (model_from_row db) rows = Inr models \<and>
           mset (map sm_version models) = mset vs)) \<and>
       (\<forall>n t. n \<notin> set vs \<longrightarrow> ok_with (dd_execute db s (InsertVersion table n t) w)
         (\<lambda>_ w'. store_shows vw w' (vw_data vw w) (Some (vs @ [n])) (vw_open vw w))) \<and>
       (\<forall>n. ok_with (dd_execute db s (DeleteVersion table n) w)
         (\<lambda>_ w'. store_shows vw w' (vw_data vw w) (Some (filter (\<lambda>v. v \<noteq> n) vs)) (vw_open vw w)))) \<and>
     (s = None \<longrightarrow> ok_with (dd_begin db s w) (\<lambda>h w'.
       store_shows vw w' (vw_data vw w) (vw_versions vw w) (Some (h, vw_data vw w, vw_versions vw w)))) \<and>
     (\<forall>h d vs. vw_open vw w = Some (h, d, vs) \<longrightarrow>
       ok_with (dd_commit db h w) (\<lambda>_ w'. store_shows vw w' (vw_data vw w) (vw_versions vw w) None) \<and>
       store_shows vw (dd_drop db h w) d vs None))"

text \<open>A step of a migration returns, with the outcome and the effect \<open>g\<close> on the data, and leaves the
  migration table and the transaction it runs in alone.\<close>

definition has_effect ::
  "('h, 'w, 'd) store_view \<Rightarrow> ('h db_executor \<Rightarrow> (unit, 'w) act) \<Rightarrow>
    ('d \<Rightarrow> (unit, db_err) result \<times> 'd) \<Rightarrow> bool" where
  "has_effect vw step g = (\<forall>ex w. live vw (session_of ex) w \<longrightarrow>
     (\<exists>w'. step ex w = Ret (fst (g (vw_data vw w)), w') \<and>
       store_shows vw w' (snd (g (vw_data vw w))) (vw_versions vw w) (vw_open vw w)))"

section \<open>Plans\<close>

text \<open>A migration as the plan sees it: its version, whether it runs in a transaction, its effect.\<close>

type_synonym 'd planned = "string \<times> bool \<times> ('d \<Rightarrow> (unit, db_err) result \<times> 'd)"

fun plan_up :: "'d planned list \<Rightarrow> 'd \<Rightarrow> string list \<Rightarrow> (unit, db_err) result \<times> 'd \<times> string list" where
  "plan_up [] d vs = (Inr (), d, vs)"
| "plan_up ((n, atomic, g) # ms) d vs =
    (case g d of
       (Inl e, d') \<Rightarrow> (Inl e, if atomic then d else d', vs)
     | (Inr _, d') \<Rightarrow> plan_up ms d' (vs @ [n]))"

fun plan_down :: "'d planned list \<Rightarrow> 'd \<Rightarrow> string list \<Rightarrow> (unit, db_err) result \<times> 'd \<times> string list" where
  "plan_down [] d vs = (Inr (), d, vs)"
| "plan_down ((n, atomic, g) # ms) d vs =
    (case g d of
       (Inl e, d') \<Rightarrow> (Inl e, if atomic then d else d', vs)
     | (Inr _, d') \<Rightarrow> plan_down ms d' (filter (\<lambda>v. v \<noteq> n) vs))"

definition planned ::
  "('h, 'row, 'w) db_driver \<Rightarrow> (('h, 'w) migration_trait \<Rightarrow> 'd \<Rightarrow> (unit, db_err) result \<times> 'd) \<Rightarrow>
    ('h, 'w) migration_trait list \<Rightarrow> 'd planned list" where
  "planned db eff ms = map (\<lambda>m. (mg_name m, should_use_transaction m (dd_backend db), eff m)) ms"

definition first_steps :: "32 word option \<Rightarrow> 'a list \<Rightarrow> 'a list" where
  "first_steps steps xs = (case steps of None \<Rightarrow> xs | Some n \<Rightarrow> take (unat n) xs)"

lemma first_steps_Cons:
  "first_steps steps (x # xs) =
    (if steps = Some 0 then [] else x # first_steps (map_option (\<lambda>s. s - 1) steps) xs)"
proof (cases steps)
  case (Some n)
  have "unat n = Suc (unat (n - 1))" if "n \<noteq> 0" using that by (simp add: unat_minus_one unat_gt_0)
  with Some show ?thesis by (auto simp: first_steps_def)
qed (simp add: first_steps_def)

lemma planned_simps [simp]:
  "planned db eff [] = []"
  "planned db eff (m # ms) =
    (mg_name m, should_use_transaction m (dd_backend db), eff m) # planned db eff ms"
  by (simp_all add: planned_def)

lemma first_steps_Nil [simp]: "first_steps steps [] = []"
  by (simp add: first_steps_def split: option.splits)

section \<open>The laws, one by one\<close>

lemma ok_with_ex: "ok_with rw P \<longleftrightarrow> (\<exists>v w'. rw = (Inr v, w') \<and> P v w')"
  by (cases rw) (auto simp: ok_with_def split: sum.splits)

lemma store_install:
  assumes "migration_store db vw table" "live vw s w"
  shows "\<exists>w'. dd_execute db s (CreateTableIfNotExists table) w = (Inr (), w') \<and>
    store_shows vw w' (vw_data vw w) (Some (recorded vw w)) (vw_open vw w)"
  using assms unfolding migration_store_def ok_with_ex by auto

lemma store_select:
  assumes "migration_store db vw table" "live vw s w" "vw_versions vw w = Some vs"
  shows "\<exists>rows models. dd_query_all db s (SelectVersions table) w = (Inr rows, w) \<and>
    try_map (model_from_row db) rows = Inr models \<and> mset (map sm_version models) = mset vs"
  using assms unfolding migration_store_def ok_with_ex by blast

lemma store_insert:
  assumes "migration_store db vw table" "live vw s w" "vw_versions vw w = Some vs" "n \<notin> set vs"
  shows "\<exists>w'. dd_execute db s (InsertVersion table n t) w = (Inr (), w') \<and>
    store_shows vw w' (vw_data vw w) (Some (vs @ [n])) (vw_open vw w)"
  using assms unfolding migration_store_def ok_with_ex by auto

lemma store_delete:
  assumes "migration_store db vw table" "live vw s w" "vw_versions vw w = Some vs"
  shows "\<exists>w'. dd_execute db s (DeleteVersion table n) w = (Inr (), w') \<and>
    store_shows vw w' (vw_data vw w) (Some (filter (\<lambda>v. v \<noteq> n) vs)) (vw_open vw w)"
  using assms unfolding migration_store_def ok_with_ex by auto

lemma store_begin:
  assumes "migration_store db vw table" "vw_open vw w = None"
  shows "\<exists>h w'. dd_begin db None w = (Inr h, w') \<and>
    store_shows vw w' (vw_data vw w) (vw_versions vw w) (Some (h, vw_data vw w, vw_versions vw w))"
proof -
  have "live vw None w" using assms(2) by (simp add: live_def)
  with assms(1) show ?thesis unfolding migration_store_def ok_with_ex by blast
qed

lemma store_end:
  assumes "migration_store db vw table" "vw_open vw w = Some (h, d, vs)"
  shows "\<exists>w'. dd_commit db h w = (Inr (), w') \<and> store_shows vw w' (vw_data vw w) (vw_versions vw w) None"
    and "store_shows vw (dd_drop db h w) d vs None"
proof -
  have "live vw (Some h) w" using assms(2) by (simp add: live_def)
  with assms have "ok_with (dd_commit db h w) (\<lambda>_ w'. store_shows vw w' (vw_data vw w) (vw_versions vw w) None)"
    and "store_shows vw (dd_drop db h w) d vs None"
    unfolding migration_store_def by blast+
  then show "\<exists>w'. dd_commit db h w = (Inr (), w') \<and> store_shows vw w' (vw_data vw w) (vw_versions vw w) None"
    and "store_shows vw (dd_drop db h w) d vs None"
    by (auto simp: ok_with_ex)
qed

section \<open>One migration\<close>

text \<open>
  Applying and rolling back share their shape: the step of the migration, then the update of the
  migration table, in a transaction or not. \<open>updates_versions\<close> is what the second part does.
\<close>

definition step_effect ::
  "bool \<Rightarrow> ('d \<Rightarrow> (unit, db_err) result \<times> 'd) \<Rightarrow> (string list \<Rightarrow> string list) \<Rightarrow> 'd \<Rightarrow> string list \<Rightarrow>
    (unit, db_err) result \<times> 'd \<times> string list" where
  "step_effect atomic g f d vs =
    (case g d of (Inl e, d') \<Rightarrow> (Inl e, if atomic then d else d', vs) | (Inr _, d') \<Rightarrow> (Inr (), d', f vs))"

definition updates_versions ::
  "('h, 'w, 'd) store_view \<Rightarrow> string list \<Rightarrow> ('h db_executor \<Rightarrow> (unit, 'w) act) \<Rightarrow> (string list \<Rightarrow> string list) \<Rightarrow>
    bool" where
  "updates_versions vw vs upd f = (\<forall>ex w. live vw (session_of ex) w \<longrightarrow> vw_versions vw w = Some vs \<longrightarrow>
     (\<exists>w'. upd ex w = Ret (Inr (), w') \<and> store_shows vw w' (vw_data vw w) (Some (f vs)) (vw_open vw w)))"

text \<open>What a run from \<open>w\<close> ends in, outside every transaction.\<close>

definition ends_in ::
  "('h, 'w, 'd) store_view \<Rightarrow> ((unit, db_err) result \<times> 'w) run \<Rightarrow>
    (unit, db_err) result \<times> 'd \<times> string list \<Rightarrow> bool" where
  "ends_in vw run out = (\<exists>w'. run = Ret (fst out, w') \<and>
     store_shows vw w' (fst (snd out)) (Some (snd (snd out))) None)"

lemma step_then_update:
  assumes "has_effect vw step g" "updates_versions vw vs upd f"
    and "live vw (session_of ex) w" "vw_versions vw w = Some vs"
  shows "\<exists>w'. act_bind (step ex) (\<lambda>_. upd ex) w = Ret (fst (step_effect False g f (vw_data vw w) vs), w') \<and>
    store_shows vw w' (fst (snd (step_effect False g f (vw_data vw w) vs)))
      (Some (snd (snd (step_effect False g f (vw_data vw w) vs)))) (vw_open vw w)"
proof -
  obtain r d' where g: "g (vw_data vw w) = (r, d')" by fastforce
  from assms(1,3) g obtain w1 where run: "step ex w = Ret (r, w1)"
    and shows1: "store_shows vw w1 d' (Some vs) (vw_open vw w)"
    unfolding has_effect_def using assms(4) by fastforce
  show ?thesis
  proof (cases r)
    case (Inl e)
    with run shows1 g show ?thesis by (simp add: act_bind_step step_effect_def)
  next
    case (Inr u)
    from shows1 assms(3) have live1: "live vw (session_of ex) w1" and v1: "vw_versions vw w1 = Some vs"
      by (simp_all add: live_def store_shows_def)
    from assms(2) live1 v1 obtain w' where "upd ex w1 = Ret (Inr (), w')"
      and "store_shows vw w' (vw_data vw w1) (Some (f vs)) (vw_open vw w1)"
      unfolding updates_versions_def by blast
    with run shows1 g Inr show ?thesis by (auto simp: act_bind_step step_effect_def store_shows_def)
  qed
qed

lemma transaction_then_update:
  assumes store: "migration_store db vw table"
    and "has_effect vw step g" "updates_versions vw vs upd f"
    and "vw_open vw w = None" "vw_versions vw w = Some vs"
  shows "ends_in vw (in_transaction db Connection (\<lambda>h. act_bind (step (Transaction h)) (\<lambda>_. upd (Transaction h))) w)
    (step_effect True g f (vw_data vw w) vs)"
proof -
  let ?d = "vw_data vw w"
  obtain h w1 where run_begin: "dd_begin db None w = (Inr h, w1)"
    and w1: "store_shows vw w1 ?d (Some vs) (Some (h, ?d, Some vs))"
    using store_begin[OF store assms(4)] assms(5) by auto
  then have live1: "live vw (session_of (Transaction h)) w1"
    and v1: "vw_versions vw w1 = Some vs" "vw_data vw w1 = ?d" "vw_open vw w1 = Some (h, ?d, Some vs)"
    by (simp_all add: live_def store_shows_def)
  obtain w2 where body: "act_bind (step (Transaction h)) (\<lambda>_. upd (Transaction h)) w1 =
      Ret (fst (step_effect False g f ?d vs), w2)"
    and w2: "store_shows vw w2 (fst (snd (step_effect False g f ?d vs)))
      (Some (snd (snd (step_effect False g f ?d vs)))) (Some (h, ?d, Some vs))"
    using step_then_update[OF assms(2,3) live1 v1(1)] v1 by auto
  obtain r d' where g: "g ?d = (r, d')" by fastforce
  have open2: "vw_open vw w2 = Some (h, ?d, Some vs)" using w2 by (simp add: store_shows_def)
  obtain w3 where commit: "dd_commit db h w2 = (Inr (), w3)"
    and w3: "store_shows vw w3 (vw_data vw w2) (vw_versions vw w2) None"
    using store_end(1)[OF store open2] by blast
  have run: "in_transaction db Connection (\<lambda>h. act_bind (step (Transaction h)) (\<lambda>_. upd (Transaction h))) w =
      (case fst (step_effect False g f ?d vs) of
         Inl e \<Rightarrow> Ret (Inl e, dd_drop db h w2) | Inr _ \<Rightarrow> Ret (dd_commit db h w2))"
    using body run_begin by (simp add: in_transaction_def act_bind_def executor_begin_def act_io_def split: sum.split)
  show ?thesis
    using run g commit w2 w3 store_end(2)[OF store open2]
    by (auto simp: ends_in_def step_effect_def store_shows_def split: sum.splits)
qed

lemma scoped_step:
  assumes "migration_store db vw table" "has_effect vw step g" "updates_versions vw vs upd f"
    and "vw_open vw w = None" "vw_versions vw w = Some vs"
  shows "ends_in vw
    ((if atomic then in_transaction db Connection (\<lambda>h. act_bind (step (Transaction h)) (\<lambda>_. upd (Transaction h)))
      else act_bind (step Connection) (\<lambda>_. upd Connection)) w)
    (step_effect atomic g f (vw_data vw w) vs)"
proof (cases atomic)
  case True
  with transaction_then_update[OF assms] show ?thesis by simp
next
  case False
  have "live vw (session_of Connection) w" using assms(4) by (simp add: live_def)
  from step_then_update[OF assms(2,3) this assms(5)] show ?thesis
    by (simp add: False ends_in_def assms(4))
qed

lemma insert_updates:
  assumes "migration_store db vw table" "n \<notin> set vs"
  shows "updates_versions vw vs (\<lambda>ex. insert_migration_record db ex n table) (\<lambda>vs. vs @ [n])"
  unfolding updates_versions_def insert_migration_record_def executor_execute_def act_io_def
  using store_insert[OF assms(1) _ _ assms(2)] by fastforce

lemma delete_updates:
  assumes "migration_store db vw table"
  shows "updates_versions vw vs (\<lambda>ex. delete_migration_record db ex n table) (filter (\<lambda>v. v \<noteq> n))"
  unfolding updates_versions_def delete_migration_record_def executor_execute_def act_io_def
  using store_delete[OF assms] by fastforce

lemma apply_migration_effect:
  assumes "migration_store db vw table" "has_effect vw (mg_up m) g" "mg_name m \<notin> set vs"
    and "vw_open vw w = None" "vw_versions vw w = Some vs"
  shows "ends_in vw (apply_migration db Connection table m w)
    (step_effect (should_use_transaction m (dd_backend db)) g (\<lambda>vs. vs @ [mg_name m]) (vw_data vw w) vs)"
  using scoped_step[OF assms(1,2) insert_updates[OF assms(1,3)] assms(4,5)]
  by (simp add: apply_migration_def if_distrib[of "\<lambda>f. f w"])

lemma revert_migration_effect:
  assumes "migration_store db vw table" "has_effect vw (mg_down m) g"
    and "vw_open vw w = None" "vw_versions vw w = Some vs"
  shows "ends_in vw (revert_migration db Connection table m w)
    (step_effect (should_use_transaction m (dd_backend db)) g (filter (\<lambda>v. v \<noteq> mg_name m)) (vw_data vw w) vs)"
  using scoped_step[OF assms(1,2) delete_updates[OF assms(1)] assms(3,4)]
  by (simp add: revert_migration_def if_distrib[of "\<lambda>f. f w"])

text \<open>After a step, the rest runs where it ended.\<close>

lemma ends_in_bind:
  assumes "ends_in vw (m w) out"
    and "\<And>w'. fst out = Inr () \<Longrightarrow> store_shows vw w' (fst (snd out)) (Some (snd (snd out))) None \<Longrightarrow>
      ends_in vw (k w') out'"
    and "\<And>e. fst out = Inl e \<Longrightarrow> out' = out"
  shows "ends_in vw (act_bind m (\<lambda>_. k) w) out'"
proof -
  from assms(1) obtain w' where w': "m w = Ret (fst out, w')"
    "store_shows vw w' (fst (snd out)) (Some (snd (snd out))) None"
    unfolding ends_in_def by blast
  show ?thesis
  proof (cases "fst out")
    case (Inl e)
    with w' assms(3) show ?thesis by (auto simp: act_bind_step ends_in_def)
  next
    case (Inr u)
    with w' assms(2) show ?thesis by (simp add: act_bind_step)
  qed
qed

section \<open>The loops\<close>

text \<open>A plan is its first step, then the plan of the rest.\<close>

lemma plan_Cons:
  "plan_up ((n, atomic, g) # ms) d vs =
    (case step_effect atomic g (\<lambda>vs. vs @ [n]) d vs of
       (Inl e, d', vs') \<Rightarrow> (Inl e, d', vs') | (Inr _, d', vs') \<Rightarrow> plan_up ms d' vs')"
  "plan_down ((n, atomic, g) # ms) d vs =
    (case step_effect atomic g (filter (\<lambda>v. v \<noteq> n)) d vs of
       (Inl e, d', vs') \<Rightarrow> (Inl e, d', vs') | (Inr _, d', vs') \<Rightarrow> plan_down ms d' vs')"
  by (auto simp: step_effect_def split: sum.splits prod.splits)

lemma step_effect_Inr: "fst (step_effect atomic g f d vs) = Inr () \<Longrightarrow> snd (snd (step_effect atomic g f d vs)) = f vs"
  by (auto simp: step_effect_def split: sum.splits prod.splits)

lemma store_shows_ends: "store_shows vw w d (Some vs) None \<Longrightarrow> ends_in vw (act_ret () w) (Inr (), d, vs)"
  by (simp add: ends_in_def act_ret_def)

lemma exec_up_with_effect:
  assumes "migration_store db vw table"
  shows "list_all (\<lambda>m. has_effect vw (mg_up (m_migration m)) (eff (m_migration m))) ms \<Longrightarrow>
    distinct (map migration_name ms) \<Longrightarrow> set vs \<inter> migration_name ` set ms = {} \<Longrightarrow>
    store_shows vw w d (Some vs) None \<Longrightarrow>
    ends_in vw (exec_up_with db Connection steps ms table w)
      (plan_up (planned db eff (map m_migration (first_steps steps ms))) d vs)"
proof (induction ms arbitrary: steps vs w d)
  case Nil
  then show ?case by (simp add: store_shows_ends)
next
  case (Cons m ms)
  let ?m = "m_migration m"
  let ?out = "step_effect (should_use_transaction ?m (dd_backend db)) (eff ?m) (\<lambda>vs. vs @ [mg_name ?m]) d vs"
  show ?case
  proof (cases "steps = Some 0")
    case True
    with Cons.prems(4) show ?thesis by (simp add: first_steps_Cons store_shows_ends)
  next
    case False
    from Cons.prems(1) have eff: "has_effect vw (mg_up ?m) (eff ?m)" by simp
    from Cons.prems(3) have fresh: "mg_name ?m \<notin> set vs" by (auto simp: migration_name_def)
    from Cons.prems(4) have w: "vw_open vw w = None" "vw_versions vw w = Some vs" "vw_data vw w = d"
      by (simp_all add: store_shows_def)
    have first: "ends_in vw (apply_migration db Connection table ?m w) ?out"
      using apply_migration_effect[OF assms eff fresh w(1,2)] w(3) by simp
    show ?thesis
      unfolding exec_up_with.simps if_not_P[OF False] first_steps_Cons list.map planned_simps plan_Cons
    proof (rule ends_in_bind[of vw "apply_migration db Connection table ?m" w, OF first])
      fix w' assume ok: "fst ?out = Inr ()" and w': "store_shows vw w' (fst (snd ?out)) (Some (snd (snd ?out))) None"
      have vs': "snd (snd ?out) = vs @ [mg_name ?m]" by (rule step_effect_Inr[OF ok])
      have "set (vs @ [mg_name ?m]) \<inter> migration_name ` set ms = {}"
        using Cons.prems(2,3) by (auto simp: migration_name_def)
      from Cons.IH[OF _ _ this, of w' "fst (snd ?out)" "map_option (\<lambda>s. s - 1) steps"] Cons.prems(1,2) w' vs' ok
      show "ends_in vw (exec_up_with db Connection (map_option (\<lambda>s. s - 1) steps) ms table w')
        (case ?out of (Inl e, d', vs') \<Rightarrow> (Inl e, d', vs')
         | (Inr _, d', vs') \<Rightarrow> plan_up (planned db eff
             (map m_migration (first_steps (map_option (\<lambda>s. s - 1) steps) ms))) d' vs')"
        by (cases ?out) auto
    qed (auto split: sum.splits prod.splits)
  qed
qed

lemma revert_loop_effect:
  assumes "migration_store db vw table"
  shows "list_all (\<lambda>m. has_effect vw (mg_down (m_migration m)) (eff (m_migration m))) ms \<Longrightarrow>
    store_shows vw w d (Some vs) None \<Longrightarrow>
    ends_in vw (revert_loop db Connection steps ms table w)
      (plan_down (planned db eff (map m_migration (first_steps steps ms))) d vs)"
proof (induction ms arbitrary: steps vs w d)
  case Nil
  then show ?case by (simp add: store_shows_ends)
next
  case (Cons m ms)
  let ?m = "m_migration m"
  let ?out = "step_effect (should_use_transaction ?m (dd_backend db)) (eff ?m) (filter (\<lambda>v. v \<noteq> mg_name ?m)) d vs"
  show ?case
  proof (cases "steps = Some 0")
    case True
    with Cons.prems(2) show ?thesis by (simp add: first_steps_Cons store_shows_ends)
  next
    case False
    from Cons.prems(1) have eff: "has_effect vw (mg_down ?m) (eff ?m)" by simp
    from Cons.prems(2) have w: "vw_open vw w = None" "vw_versions vw w = Some vs" "vw_data vw w = d"
      by (simp_all add: store_shows_def)
    have first: "ends_in vw (revert_migration db Connection table ?m w) ?out"
      using revert_migration_effect[OF assms eff w(1,2)] w(3) by simp
    show ?thesis
      unfolding revert_loop.simps if_not_P[OF False] first_steps_Cons list.map planned_simps plan_Cons
    proof (rule ends_in_bind[of vw "revert_migration db Connection table ?m" w, OF first])
      fix w' assume ok: "fst ?out = Inr ()" and w': "store_shows vw w' (fst (snd ?out)) (Some (snd (snd ?out))) None"
      from Cons.IH[of w' "fst (snd ?out)" "snd (snd ?out)" "map_option (\<lambda>s. s - 1) steps"] Cons.prems(1) w' ok
      show "ends_in vw (revert_loop db Connection (map_option (\<lambda>s. s - 1) steps) ms table w')
        (case ?out of (Inl e, d', vs') \<Rightarrow> (Inl e, d', vs')
         | (Inr _, d', vs') \<Rightarrow> plan_down (planned db eff
             (map m_migration (first_steps (map_option (\<lambda>s. s - 1) steps) ms))) d' vs')"
        by (cases ?out) auto
    qed (auto split: sum.splits prod.splits)
  qed
qed

section \<open>The status of the migrations\<close>

lemma with_status_result:
  assumes "set (order (filter (\<lambda>n. n \<notin> set (map migration_name files)) (remdups (map sm_version models)))) =
      sm_version ` set models - migration_name ` set files"
  shows "with_status order files models =
    (if sm_version ` set models \<subseteq> migration_name ` set files
     then Inr (map (\<lambda>f. if migration_name f \<in> sm_version ` set models then f\<lparr>m_status := Applied\<rparr> else f) files)
     else Inl (Custom (join [CHR 0x0A] (map missing_message
       (order (filter (\<lambda>n. n \<notin> set (map migration_name files)) (remdups (map sm_version models))))))))"
proof -
  have empty: "order (filter (\<lambda>n. n \<notin> set (map migration_name files)) (remdups (map sm_version models))) = [] \<longleftrightarrow>
      sm_version ` set models \<subseteq> migration_name ` set files"
    using assms by (simp add: set_empty[symmetric] del: set_empty)
  have files: "map (\<lambda>f. if migration_name f \<notin> set (filter (\<lambda>n. n \<notin> set (map sm_version models)) (map migration_name files))
        then f\<lparr>m_status := Applied\<rparr> else f) files =
      map (\<lambda>f. if migration_name f \<in> sm_version ` set models then f\<lparr>m_status := Applied\<rparr> else f) files"
    by (rule map_cong) auto
  show ?thesis using empty files by (simp add: with_status_def Let_def)
qed

text \<open>A hash set iterates over its elements, each once, in an order of its own.\<close>

definition set_order :: "(string list \<Rightarrow> string list) \<Rightarrow> bool" where
  "set_order order = (\<forall>xs. mset (order xs) = mset xs)"

definition missing_versions :: "('h, 'w) migration_trait list \<Rightarrow> string list \<Rightarrow> string list" where
  "missing_versions ms vs = filter (\<lambda>v. v \<notin> mg_name ` set ms) (remdups vs)"

text \<open>The status the migrator reports for the versions on record.\<close>

definition status_of :: "string set \<Rightarrow> ('h, 'w) migration_trait \<Rightarrow> ('h, 'w) migration" where
  "status_of vs m = \<lparr>m_migration = m, m_status = (if mg_name m \<in> vs then Applied else Pending)\<rparr>"

lemma set_order_set: "set_order order \<Longrightarrow> set (order xs) = set xs"
  unfolding set_order_def by (metis set_mset_mset)

lemma files_simps:
  "map migration_name (get_migration_files mr) = map mg_name (mr_migrations mr)"
  "migration_name ` set (get_migration_files mr) = mg_name ` set (mr_migrations mr)"
  by (simp_all add: get_migration_files_def migration_name_def image_image)

lemma with_status_files:
  assumes "set_order order"
  shows "sm_version ` set models \<subseteq> mg_name ` set (mr_migrations mr) \<Longrightarrow>
      with_status order (get_migration_files mr) models =
        Inr (map (status_of (sm_version ` set models)) (mr_migrations mr))"
    and "\<not> sm_version ` set models \<subseteq> mg_name ` set (mr_migrations mr) \<Longrightarrow>
      \<exists>missing. with_status order (get_migration_files mr) models =
          Inl (Custom (join [CHR 0x0A] (map missing_message missing))) \<and>
        mset missing = mset (missing_versions (mr_migrations mr) (map sm_version models))"
proof -
  let ?missing = "filter (\<lambda>n. n \<notin> set (map migration_name (get_migration_files mr))) (remdups (map sm_version models))"
  have order: "set (order ?missing) = sm_version ` set models - migration_name ` set (get_migration_files mr)"
    by (subst set_order_set[OF assms]) (auto simp: files_simps)
  note result = with_status_result[of order _ models, OF order]
  have missing: "?missing = missing_versions (mr_migrations mr) (map sm_version models)"
    unfolding missing_versions_def files_simps(1) set_map ..
  show "with_status order (get_migration_files mr) models =
      Inr (map (status_of (sm_version ` set models)) (mr_migrations mr))"
    if "sm_version ` set models \<subseteq> mg_name ` set (mr_migrations mr)"
    using that unfolding result files_simps(2)
    by (auto simp: get_migration_files_def status_of_def migration_name_def)
  show "\<exists>missing. with_status order (get_migration_files mr) models =
        Inl (Custom (join [CHR 0x0A] (map missing_message missing))) \<and>
      mset missing = mset (missing_versions (mr_migrations mr) (map sm_version models))"
    if "\<not> sm_version ` set models \<subseteq> mg_name ` set (mr_migrations mr)"
    using that assms unfolding result files_simps(2) if_not_P[OF that]
    by (intro exI[of _ "order ?missing"]) (simp add: missing[symmetric] set_order_def files_simps)
qed

lemma install_run:
  assumes "migration_store db vw (mr_table mr)" "vw_open vw w = None"
  shows "\<exists>w'. install db Connection mr w = Ret (Inr (), w') \<and>
    store_shows vw w' (vw_data vw w) (Some (recorded vw w)) None"
proof -
  have "live vw (session_of Connection) w" using assms(2) by (simp add: live_def)
  from store_install[OF assms(1) this] assms(2) show ?thesis
    by (auto simp: install_def executor_execute_def act_io_def)
qed

lemma models_run:
  assumes "migration_store db vw (mr_table mr)" "store_shows vw w d (Some vs) None"
  shows "\<exists>models. select_migration_models db Connection (mr_table mr) w = Ret (Inr models, w) \<and>
    mset (map sm_version models) = mset vs"
proof -
  have "live vw (session_of Connection) w" "vw_versions vw w = Some vs"
    using assms(2) by (simp_all add: live_def store_shows_def)
  from store_select[OF assms(1) this] show ?thesis
    by (auto simp: select_migration_models_def executor_query_all_def act_bind_def act_io_def act_res_def)
qed

text \<open>Installing and reading the versions, in front of the rest of a command.\<close>

lemma with_status_run:
  assumes store: "migration_store db vw (mr_table mr)" and "vw_open vw w = None"
  shows "\<exists>w' models. get_migration_with_status order db Connection mr w =
      Ret (with_status order (get_migration_files mr) models, w') \<and>
    store_shows vw w' (vw_data vw w) (Some (recorded vw w)) None \<and>
    mset (map sm_version models) = mset (recorded vw w)"
proof -
  obtain w1 where w1: "install db Connection mr w = Ret (Inr (), w1)"
    "store_shows vw w1 (vw_data vw w) (Some (recorded vw w)) None"
    using install_run[OF assms] by blast
  then have open1: "vw_open vw w1 = None" and same1: "recorded vw w1 = recorded vw w" "vw_data vw w1 = vw_data vw w"
    by (simp_all add: store_shows_def recorded_def)
  obtain w2 where w2: "install db Connection mr w1 = Ret (Inr (), w2)"
    "store_shows vw w2 (vw_data vw w) (Some (recorded vw w)) None"
    using install_run[OF store open1] same1 by auto
  obtain models where models: "select_migration_models db Connection (mr_table mr) w2 = Ret (Inr models, w2)"
    "mset (map sm_version models) = mset (recorded vw w)"
    using models_run[OF store w2(2)] by blast
  have "get_migration_models db Connection mr w1 = Ret (Inr models, w2)"
    unfolding get_migration_models_def by (simp add: act_bind_step w2(1) models(1))
  then have "get_migration_with_status order db Connection mr w =
      Ret (with_status order (get_migration_files mr) models, w2)"
    unfolding get_migration_with_status_def
    by (simp add: act_bind_step w1(1) act_res_def)
  with w2(2) models(2) show ?thesis by blast
qed

text \<open>What a command's list of migrations is, once the versions on record have their files.\<close>

lemma filtered_run:
  assumes "migration_store db vw (mr_table mr)" "set_order order" "vw_open vw w = None"
    and "set (recorded vw w) \<subseteq> mg_name ` set (mr_migrations mr)"
  shows "\<exists>w'. get_pending_migrations order db Connection mr w =
      Ret (Inr (map (status_of (set (recorded vw w)))
        (filter (\<lambda>m. mg_name m \<notin> set (recorded vw w)) (mr_migrations mr))), w') \<and>
      store_shows vw w' (vw_data vw w) (Some (recorded vw w)) None"
    and "\<exists>w'. get_applied_migrations order db Connection mr w =
      Ret (Inr (map (status_of (set (recorded vw w)))
        (filter (\<lambda>m. mg_name m \<in> set (recorded vw w)) (mr_migrations mr))), w') \<and>
      store_shows vw w' (vw_data vw w) (Some (recorded vw w)) None"
proof -
  obtain w1 where w1: "install db Connection mr w = Ret (Inr (), w1)"
    "store_shows vw w1 (vw_data vw w) (Some (recorded vw w)) None"
    using install_run[OF assms(1,3)] by blast
  then have open1: "vw_open vw w1 = None" and same1: "recorded vw w1 = recorded vw w" "vw_data vw w1 = vw_data vw w"
    by (simp_all add: store_shows_def recorded_def)
  obtain w2 models where run: "get_migration_with_status order db Connection mr w1 =
      Ret (with_status order (get_migration_files mr) models, w2)"
    and w2: "store_shows vw w2 (vw_data vw w) (Some (recorded vw w)) None"
    and models: "mset (map sm_version models) = mset (recorded vw w)"
    using with_status_run[OF assms(1) open1, of order] unfolding same1 by blast
  have names: "sm_version ` set models = set (recorded vw w)"
    using mset_eq_setD[OF models] by simp
  have status: "with_status order (get_migration_files mr) models =
      Inr (map (status_of (set (recorded vw w))) (mr_migrations mr))"
    using with_status_files(1)[OF assms(2), of models mr] assms(4) names by simp
  have "filter (\<lambda>f. m_status f = Pending) (map (status_of vs) ms) = map (status_of vs) (filter (\<lambda>m. mg_name m \<notin> vs) ms)"
    and "filter (\<lambda>f. m_status f = Applied) (map (status_of vs) ms) = map (status_of vs) (filter (\<lambda>m. mg_name m \<in> vs) ms)"
    for vs :: "string set" and ms :: "('a, 'c) migration_trait list"
    by (induction ms) (auto simp: status_of_def)
  then show "\<exists>w'. get_pending_migrations order db Connection mr w =
      Ret (Inr (map (status_of (set (recorded vw w)))
        (filter (\<lambda>m. mg_name m \<notin> set (recorded vw w)) (mr_migrations mr))), w') \<and>
      store_shows vw w' (vw_data vw w) (Some (recorded vw w)) None"
    and "\<exists>w'. get_applied_migrations order db Connection mr w =
      Ret (Inr (map (status_of (set (recorded vw w)))
        (filter (\<lambda>m. mg_name m \<in> set (recorded vw w)) (mr_migrations mr))), w') \<and>
      store_shows vw w' (vw_data vw w) (Some (recorded vw w)) None"
    using w2 by (simp_all add: get_pending_migrations_def get_applied_migrations_def act_bind_step w1(1) run
      status act_ret_def)
qed

lemma names_of_status [simp]: "migration_name (status_of vs m) = mg_name m" "m_migration (status_of vs m) = m"
  by (simp_all add: migration_name_def status_of_def)

lemma first_steps_map: "first_steps steps (map f xs) = map f (first_steps steps xs)"
  by (simp add: first_steps_def take_map split: option.splits)

lemma list_all_filter: "list_all P xs \<Longrightarrow> list_all P (filter Q xs)"
  by (simp add: list_all_iff)

section \<open>The commands\<close>

lemma exec_up_effect:
  assumes "migration_store db vw (mr_table mr)" "set_order order"
    and "distinct (map mg_name (mr_migrations mr))"
    and "list_all (\<lambda>m. has_effect vw (mg_up m) (up m)) (mr_migrations mr)"
    and "vw_open vw w = None" "set (recorded vw w) \<subseteq> mg_name ` set (mr_migrations mr)"
  shows "ends_in vw (exec_up order db Connection mr steps w)
    (plan_up (planned db up (first_steps steps
      (filter (\<lambda>m. mg_name m \<notin> set (recorded vw w)) (mr_migrations mr)))) (vw_data vw w) (recorded vw w))"
proof -
  let ?pending = "filter (\<lambda>m. mg_name m \<notin> set (recorded vw w)) (mr_migrations mr)"
  obtain w1 where w1: "install db Connection mr w = Ret (Inr (), w1)"
    "store_shows vw w1 (vw_data vw w) (Some (recorded vw w)) None"
    using install_run[OF assms(1,5)] by blast
  then have open1: "vw_open vw w1 = None" and same1: "recorded vw w1 = recorded vw w" "vw_data vw w1 = vw_data vw w"
    by (simp_all add: store_shows_def recorded_def)
  obtain w2 where w2: "get_pending_migrations order db Connection mr w1 =
      Ret (Inr (map (status_of (set (recorded vw w))) ?pending), w2)"
    "store_shows vw w2 (vw_data vw w) (Some (recorded vw w)) None"
    using filtered_run(1)[OF assms(1,2) open1] assms(6) same1 by auto
  have "distinct (map mg_name ?pending)" using assms(3) by (rule distinct_map_filter)
  then have "ends_in vw (exec_up_with db Connection steps (map (status_of (set (recorded vw w))) ?pending) (mr_table mr) w2)
      (plan_up (planned db up (map m_migration (first_steps steps (map (status_of (set (recorded vw w))) ?pending))))
        (vw_data vw w) (recorded vw w))"
    using exec_up_with_effect[OF assms(1) _ _ _ w2(2), of up "map (status_of (set (recorded vw w))) ?pending" steps]
      list_all_filter[OF assms(4)]
    by (auto simp: list.pred_map comp_def image_image)
  then show ?thesis by (simp add: exec_up_def act_bind_step w1(1) w2(1) first_steps_map comp_def)
qed

lemma exec_down_effect:
  assumes "migration_store db vw (mr_table mr)" "set_order order"
    and "list_all (\<lambda>m. has_effect vw (mg_down m) (down m)) (mr_migrations mr)"
    and "vw_open vw w = None" "set (recorded vw w) \<subseteq> mg_name ` set (mr_migrations mr)"
  shows "ends_in vw (exec_down order db Connection mr steps w)
    (plan_down (planned db down (first_steps steps
      (rev (filter (\<lambda>m. mg_name m \<in> set (recorded vw w)) (mr_migrations mr))))) (vw_data vw w) (recorded vw w))"
proof -
  let ?applied = "filter (\<lambda>m. mg_name m \<in> set (recorded vw w)) (mr_migrations mr)"
  obtain w1 where w1: "install db Connection mr w = Ret (Inr (), w1)"
    "store_shows vw w1 (vw_data vw w) (Some (recorded vw w)) None"
    using install_run[OF assms(1,4)] by blast
  then have open1: "vw_open vw w1 = None" and same1: "recorded vw w1 = recorded vw w" "vw_data vw w1 = vw_data vw w"
    by (simp_all add: store_shows_def recorded_def)
  obtain w2 where w2: "get_applied_migrations order db Connection mr w1 =
      Ret (Inr (map (status_of (set (recorded vw w))) ?applied), w2)"
    "store_shows vw w2 (vw_data vw w) (Some (recorded vw w)) None"
    using filtered_run(2)[OF assms(1,2) open1] assms(5) same1 by auto
  have "list_all (\<lambda>m. has_effect vw (mg_down (m_migration m)) (down (m_migration m)))
      (rev (map (status_of (set (recorded vw w))) ?applied))"
    using list_all_filter[OF assms(3)] by (simp add: list_all_iff)
  from revert_loop_effect[OF assms(1) this w2(2), of steps]
  show ?thesis
    by (simp add: exec_down_def exec_down_with_def act_bind_step w1(1) w2(1) first_steps_map comp_def rev_map)
qed

end
