(* ===== verification/MigrationProps.thy ===== *)
theory MigrationProps
  imports MigrationSpec
begin

text \<open>
  The properties of the migrator, and a database they apply to: its data is the list of the objects
  created, its migration table a list of versions, and a transaction saves both.
\<close>

section \<open>A sample database\<close>

type_synonym sample_store = "string list \<times> string list option \<times> (unit \<times> string list \<times> string list option) option"

fun sample_execute :: "mig_stmt \<Rightarrow> (unit, sample_store) io" where
  "sample_execute (CreateTableIfNotExists t) (d, vs, b) =
     (Inr (), d, Some (case vs of None \<Rightarrow> [] | Some vs \<Rightarrow> vs), b)"
| "sample_execute (InsertVersion t n at) (d, Some vs, b) = (Inr (), d, Some (vs @ [n]), b)"
| "sample_execute (DeleteVersion t n) (d, Some vs, b) = (Inr (), d, Some (filter (\<lambda>v. v \<noteq> n) vs), b)"
| "sample_execute (RawStatement q) (d, vs, b) = (Inr (), d @ [q], vs, b)"
| "sample_execute (DropTable t) (d, vs, b) =
     (if t = ''locked'' then (Inl (exec_err t), d, vs, b) else (Inr (), filter (\<lambda>x. x \<noteq> t \<or> take 6 x = ''PRAGMA'') d, vs, b))"
| "sample_execute _ w = (Inl (exec_err ''no such table''), w)"

fun sample_query :: "mig_query \<Rightarrow> (string list, sample_store) io" where
  "sample_query (SelectVersions t) (d, Some vs, b) = (Inr vs, d, Some vs, b)"
| "sample_query QueryTables (d, vs, b) = (Inr (filter (\<lambda>x. take 6 x \<noteq> ''PRAGMA'') d), d, vs, b)"
| "sample_query _ w = (Inl (query_err ''no such table''), w)"

fun sample_probe :: "mig_query \<Rightarrow> (string option, sample_store) io" where
  "sample_probe (HasTable t) (d, vs, b) = (Inr (Some (if vs = None then ''0'' else ''1'')), d, vs, b)"
| "sample_probe _ w = (Inl (query_err ''unsupported''), w)"

definition sample_begin :: "(unit, sample_store) io" where
  "sample_begin = (\<lambda>(d, vs, b). (Inr (), d, vs, Some ((), d, vs)))"

definition sample_commit :: "(unit, sample_store) io" where
  "sample_commit = (\<lambda>(d, vs, b). (Inr (), d, vs, None))"

definition sample_rollback :: "sample_store \<Rightarrow> sample_store" where
  "sample_rollback = (\<lambda>(d, vs, b). case b of None \<Rightarrow> (d, vs, None) | Some (_, d', vs') \<Rightarrow> (d', vs', None))"

definition sample_driver :: "(unit, string, sample_store) db_driver" where
  "sample_driver = \<lparr>dd_backend = Sqlite, dd_probe = True,
     dd_execute = (\<lambda>s. sample_execute), dd_query_all = (\<lambda>s. sample_query), dd_query_one = (\<lambda>s. sample_probe),
     dd_begin = (\<lambda>s. sample_begin), dd_commit = (\<lambda>h. sample_commit), dd_drop = (\<lambda>h. sample_rollback),
     dd_text = (\<lambda>row c. Inr row), dd_int = (\<lambda>row c. Inr 0), dd_bool = (\<lambda>row c. Inr (row = ''1'')),
     dd_now = (\<lambda>w. 0)\<rparr>"

definition sample_view :: "(unit, sample_store, string list) store_view" where
  "sample_view = \<lparr>vw_data = fst, vw_versions = (\<lambda>w. fst (snd w)), vw_open = (\<lambda>w. snd (snd w))\<rparr>"

lemma sample_sel [simp]:
  "vw_data sample_view (d, vs, b) = d" "vw_versions sample_view (d, vs, b) = vs"
  "vw_open sample_view (d, vs, b) = b"
  by (simp_all add: sample_view_def)

lemma try_map_version_rows:
  "try_map (model_from_row sample_driver) vs = Inr (map (\<lambda>v. \<lparr>sm_version = v, sm_applied_at = 0\<rparr>) vs)"
  by (rule try_map_all_Inr) (simp add: model_from_row_def sample_driver_def)

lemma sample_migration_store: "migration_store sample_driver sample_view table"
proof -
  have "\<exists>models. try_map (model_from_row sample_driver) vs = Inr models \<and> image_mset sm_version (mset models) = mset vs"
    for vs unfolding try_map_version_rows by (simp add: multiset.map_comp comp_def flip: mset_map)
  then show ?thesis
    unfolding migration_store_def
    by (auto simp: ok_with_def store_shows_def live_def recorded_def sample_driver_def
      sample_begin_def sample_commit_def sample_rollback_def split: option.splits)
qed

text \<open>A migration that creates an object of its name, and one that fails half way.\<close>

definition sample_up :: "(unit, sample_store) migration_trait \<Rightarrow> string list \<Rightarrow> (unit, db_err) result \<times> string list" where
  "sample_up m d = (if mg_name m = ''bad'' then (Inl (exec_err ''boom''), d @ [''half'']) else (Inr (), d @ [mg_name m]))"

definition sample_down :: "(unit, sample_store) migration_trait \<Rightarrow> string list \<Rightarrow> (unit, db_err) result \<times> string list" where
  "sample_down m d = (Inr (), butlast d)"

definition on_store ::
  "(string list \<Rightarrow> (unit, db_err) result \<times> string list) \<Rightarrow> unit db_executor \<Rightarrow> (unit, sample_store) act" where
  "on_store g ex = (\<lambda>(d, vs, b). Ret (fst (g d), snd (g d), vs, b))"

definition sample_migration :: "string \<Rightarrow> bool option \<Rightarrow> (unit, sample_store) migration_trait" where
  "sample_migration n txn = \<lparr>mg_name = n, mg_use_transaction = txn,
     mg_up = on_store (if n = ''bad'' then (\<lambda>d. (Inl (exec_err ''boom''), d @ [''half''])) else (\<lambda>d. (Inr (), d @ [n]))),
     mg_down = on_store (\<lambda>d. (Inr (), butlast d))\<rparr>"

lemma on_store_effect: "has_effect sample_view (on_store g) g"
  by (simp add: has_effect_def on_store_def store_shows_def)

lemma sample_effects [simp]:
  "has_effect sample_view (mg_up (sample_migration n txn)) (sample_up (sample_migration n txn))"
  "has_effect sample_view (mg_down (sample_migration n txn)) (sample_down (sample_migration n txn))"
proof -
  have "sample_up (sample_migration n txn) =
      (if n = ''bad'' then (\<lambda>d. (Inl (exec_err ''boom''), d @ [''half''])) else (\<lambda>d. (Inr (), d @ [n])))"
    by (rule ext) (simp add: sample_up_def sample_migration_def)
  then show "has_effect sample_view (mg_up (sample_migration n txn)) (sample_up (sample_migration n txn))"
    by (simp add: sample_migration_def on_store_effect)
  have "sample_down (sample_migration n txn) = (\<lambda>d. (Inr (), butlast d))"
    by (rule ext) (simp add: sample_down_def)
  then show "has_effect sample_view (mg_down (sample_migration n txn)) (sample_down (sample_migration n txn))"
    by (simp add: sample_migration_def on_store_effect)
qed

lemma sample_name [simp]:
  "mg_name (sample_migration n txn) = n" "mg_use_transaction (sample_migration n txn) = txn"
  by (simp_all add: sample_migration_def)

lemma set_order_id [simp]: "set_order (\<lambda>xs. xs)"
  by (simp add: set_order_def)

section \<open>Applying migrations\<close>

text \<open>C22. Applying migrations: \<open>up\<close> runs the pending migrations, as many as asked for, in file order;
  each is recorded as soon as it succeeded, the first that fails ends the run with its error, and if
  that one earlier in a transaction the database is as it was before it. Every version recorded before
  must have its file.\<close>

theorem up_refines_plan:
  assumes "migration_store db vw (mr_table mr)" "set_order order"
    and "distinct (map mg_name (mr_migrations mr))"
    and "list_all (\<lambda>m. has_effect vw (mg_up m) (up m)) (mr_migrations mr)"
    and "vw_open vw w = None" "set (recorded vw w) \<subseteq> mg_name ` set (mr_migrations mr)"
  shows "ends_in vw (exec_up order db Connection mr steps w)
    (plan_up (planned db up (first_steps steps
      (filter (\<lambda>m. mg_name m \<notin> set (recorded vw w)) (mr_migrations mr)))) (vw_data vw w) (recorded vw w))"
  using assms by (rule exec_up_effect)

definition sample_migrator :: "(unit, sample_store) migrator" where
  "sample_migrator = \<lparr>mr_migrations = [sample_migration ''a'' None, sample_migration ''b'' None,
     sample_migration ''bad'' (Some True), sample_migration ''c'' None], mr_table = ''seaql_migrations''\<rparr>"

lemma up_refines_plan_witness:
  "ends_in sample_view (exec_up (\<lambda>xs. xs) sample_driver Connection sample_migrator None ([''a''], Some [''a''], None))
    (Inl (exec_err ''boom''), [''a'', ''b''], [''a'', ''b''])"
  using up_refines_plan[OF sample_migration_store set_order_id, where mr = sample_migrator and up = sample_up
    and w = "([''a''], Some [''a''], None)" and steps = None]
  by (simp add: sample_migrator_def recorded_def planned_def first_steps_def sample_up_def
    should_use_transaction_def)

section \<open>Going back\<close>







section \<open>Status\<close>

text \<open>Status: asking for the migrations with their status installs the migration table and lists
  every file in order, applied exactly when its version is recorded; it fails exactly when a recorded
  version has no file, and the message then has one line for each of these, in some order.\<close>

theorem status_reports_records:
  assumes "migration_store db vw (mr_table mr)" "set_order order" "vw_open vw w = None"
  shows "\<exists>w' missing. store_shows vw w' (vw_data vw w) (Some (recorded vw w)) None \<and>
    mset missing = mset (missing_versions (mr_migrations mr) (recorded vw w)) \<and>
    get_migration_with_status order db Connection mr w =
      Ret (if missing = [] then Inr (map (status_of (set (recorded vw w))) (mr_migrations mr))
        else Inl (Custom (join [CHR 0x0A] (map missing_message missing))), w')"
proof -
  obtain w' models where run: "get_migration_with_status order db Connection mr w =
      Ret (with_status order (get_migration_files mr) models, w')"
    and w': "store_shows vw w' (vw_data vw w) (Some (recorded vw w)) None"
    and models: "mset (map sm_version models) = mset (recorded vw w)"
    using with_status_run[OF assms(1,3), of order] by blast
  have names: "sm_version ` set models = set (recorded vw w)" using mset_eq_setD[OF models] by simp
  have remdups: "mset (missing_versions (mr_migrations mr) (map sm_version models)) =
      mset (missing_versions (mr_migrations mr) (recorded vw w))"
    using names by (subst set_eq_iff_mset_eq_distinct[symmetric]) (auto simp: missing_versions_def)
  show ?thesis
  proof (cases "sm_version ` set models \<subseteq> mg_name ` set (mr_migrations mr)")
    case True
    then have "missing_versions (mr_migrations mr) (recorded vw w) = []"
      using names by (auto simp: missing_versions_def filter_empty_conv)
    with with_status_files(1)[OF assms(2) True] run w' names show ?thesis by auto
  next
    case False
    then have "missing_versions (mr_migrations mr) (recorded vw w) \<noteq> []"
      using names by (auto simp: missing_versions_def filter_empty_conv)
    moreover obtain missing where failed: "with_status order (get_migration_files mr) models =
        Inl (Custom (join [CHR 0x0A] (map missing_message missing)))"
      and missing: "mset missing = mset (missing_versions (mr_migrations mr) (recorded vw w))"
      using with_status_files(2)[OF assms(2) False] remdups by auto
    ultimately have "missing \<noteq> []" by auto
    with run w' failed missing show ?thesis by (intro exI[of _ w'] exI[of _ missing]) simp
  qed
qed

lemma status_reports_records_witness:
  "\<exists>w' missing. store_shows sample_view w' [] (Some [''old'', ''a'']) None \<and> mset missing = mset [''old''] \<and>
    get_migration_with_status (\<lambda>xs. xs) sample_driver Connection sample_migrator ([], Some [''old'', ''a''], None) =
      Ret (if missing = [] then Inr (map (status_of {''old'', ''a''}) (mr_migrations sample_migrator))
        else Inl (Custom (join [CHR 0x0A] (map missing_message missing))), w')"
  using status_reports_records[OF sample_migration_store set_order_id,
    where mr = sample_migrator and w = "([], Some [''old'', ''a''], None)"]
  by (simp add: recorded_def missing_versions_def sample_migrator_def)

text \<open>Probing the migration table reads, and tells whether it exists.\<close>

definition probes_table :: "('h, 'row, 'w) db_driver \<Rightarrow> ('h, 'w, 'd) store_view \<Rightarrow> string \<Rightarrow> bool" where
  "probes_table db vw table = (dd_probe db \<and> (\<forall>w. vw_open vw w = None \<longrightarrow>
     ok_with (dd_query_one db None (HasTable table) w) (\<lambda>row w'. w' = w \<and>
       (\<exists>r. row = Some r \<and> dd_bool db r ''has_table'' = Inr (vw_versions vw w \<noteq> None)))))"

lemma sample_probes: "probes_table sample_driver sample_view table"
  by (auto simp: probes_table_def sample_driver_def ok_with_def)

lemma has_table_run:
  assumes "probes_table db vw table" "vw_open vw w = None"
  shows "has_table db Connection table w = Ret (Inr (vw_versions vw w \<noteq> None), w)"
proof -
  from assms obtain r where "dd_query_one db None (HasTable table) w = (Inr (Some r), w)"
    and "dd_bool db r ''has_table'' = Inr (vw_versions vw w \<noteq> None)"
    unfolding probes_table_def ok_with_ex by blast
  moreover have "dd_probe db" using assms(1) by (simp add: probes_table_def)
  ultimately show ?thesis
    by (simp add: has_table_def executor_query_one_def act_bind_def act_io_def act_res_def)
qed

lemma with_status_same_set:
  assumes "mset (map sm_version models) = mset (map sm_version models')" "set_order order"
    and "sm_version ` set models \<subseteq> mg_name ` set (mr_migrations mr)"
  shows "with_status order (get_migration_files mr) models = with_status order (get_migration_files mr) models'"
proof -
  have "sm_version ` set models' = sm_version ` set models" using mset_eq_setD[OF assms(1)] by simp
  with with_status_files(1)[OF assms(2), of models mr] with_status_files(1)[OF assms(2), of models' mr] assms(3)
  show ?thesis by simp
qed

text \<open>Read-only status: without creating the table, the read-only listing of pending migrations
  gives the same list as the one that installs the table, and changes nothing in the database.\<close>

theorem read_only_pending_agrees:
  assumes "migration_store db vw (mr_table mr)" "probes_table db vw (mr_table mr)" "set_order order"
    and "vw_open vw w = None" "set (recorded vw w) \<subseteq> mg_name ` set (mr_migrations mr)"
  shows "\<exists>pending w'. get_pending_migrations_read_only order db Connection mr w = Ret (Inr pending, w) \<and>
    get_pending_migrations order db Connection mr w = Ret (Inr pending, w')"
proof -
  note probe = act_bind_step(1)[of "has_table db Connection (mr_table mr)", OF has_table_run[OF assms(2,4)]]
  have models: "\<exists>models. select_migration_models_read_only db Connection (mr_table mr) w = Ret (Inr models, w) \<and>
      mset (map sm_version models) = mset (recorded vw w)"
  proof (cases "vw_versions vw w")
    case None
    then show ?thesis
      unfolding select_migration_models_read_only_def probe by (simp add: act_ret_def recorded_def)
  next
    case (Some vs)
    then have "store_shows vw w (vw_data vw w) (Some vs) None" using assms(4) by (simp add: store_shows_def)
    from models_run[OF assms(1) this] Some show ?thesis
      unfolding select_migration_models_read_only_def probe by (auto simp: recorded_def)
  qed
  then obtain models where read: "select_migration_models_read_only db Connection (mr_table mr) w = Ret (Inr models, w)"
    and names: "sm_version ` set models = set (recorded vw w)"
    using mset_eq_setD by (metis set_map)
  have status: "with_status order (get_migration_files mr) models =
      Inr (map (status_of (set (recorded vw w))) (mr_migrations mr))"
    using with_status_files(1)[OF assms(3), of models mr] names assms(5) by simp
  have "filter (\<lambda>f. m_status f = Pending) (map (status_of vs) ms) = map (status_of vs) (filter (\<lambda>m. mg_name m \<notin> vs) ms)"
    for vs :: "string set" and ms :: "('a, 'c) migration_trait list"
    by (induction ms) (auto simp: status_of_def)
  with filtered_run(1)[OF assms(1,3,4,5)] read status show ?thesis
    by (auto simp: get_pending_migrations_read_only_def get_migration_with_status_read_only_def act_bind_step
      act_res_def act_ret_def)
qed

lemma read_only_pending_agrees_witness:
  "\<exists>pending w'. get_pending_migrations_read_only (\<lambda>xs. xs) sample_driver Connection sample_migrator ([], None, None) =
      Ret (Inr pending, ([], None, None)) \<and>
    get_pending_migrations (\<lambda>xs. xs) sample_driver Connection sample_migrator ([], None, None) = Ret (Inr pending, w')"
  using read_only_pending_agrees[OF sample_migration_store sample_probes set_order_id,
    where mr = sample_migrator and w = "([], None, None)"]
  by (simp add: recorded_def)

section \<open>Dropping everything\<close>

text \<open>The foreign key switch of an SQLite connection: only the pragma moves it, and the pragma works.\<close>

definition foreign_key_switch :: "('h, 'row, 'w) db_driver \<Rightarrow> ('w \<Rightarrow> bool) \<Rightarrow> bool" where
  "foreign_key_switch db fk = (\<forall>w.
     ok_with (dd_execute db None (RawStatement ''PRAGMA foreign_keys = OFF'') w) (\<lambda>_ w'. \<not> fk w') \<and>
     ok_with (dd_execute db None (RawStatement ''PRAGMA foreign_keys = ON'') w) (\<lambda>_ w'. fk w') \<and>
     (\<forall>t. fk (snd (dd_execute db None (DropTable t) w)) = fk w) \<and>
     fk (snd (dd_query_all db None QueryTables w)) = fk w)"

definition keeps :: "('w \<Rightarrow> bool) \<Rightarrow> ('r, 'w) act \<Rightarrow> bool" where
  "keeps P m = (\<forall>w. P w \<longrightarrow> (\<exists>r w'. m w = Ret (r, w') \<and> P w'))"

lemma keeps_bind: "keeps P m \<Longrightarrow> (\<And>v. keeps P (f v)) \<Longrightarrow> keeps P (act_bind m f)"
  unfolding keeps_def act_bind_def by (fastforce split: sum.splits)

lemma keeps_ret: "keeps P (act_ret v)" "keeps P (act_res r)"
  by (simp_all add: keeps_def act_ret_def act_res_def)

lemma keeps_each: "(\<And>x. keeps P (f x)) \<Longrightarrow> keeps P (act_each f xs)"
  by (induction xs) (auto intro: keeps_bind keeps_ret)

lemma keeps_drop_tables:
  assumes "foreign_key_switch db fk"
  shows "keeps (\<lambda>w. \<not> fk w) (drop_tables db Connection)"
proof -
  have "keeps (\<lambda>w. \<not> fk w) (executor_execute db Connection (DropTable t))"
    and "keeps (\<lambda>w. \<not> fk w) (executor_query_all db Connection QueryTables)" for t
    using assms unfolding foreign_key_switch_def keeps_def executor_execute_def executor_query_all_def act_io_def
    by (metis session_of.simps(1) surjective_pairing)+
  then show ?thesis
    unfolding drop_tables_def query_tables_def
    by (cases "dd_probe db") (auto intro!: keeps_bind keeps_each keeps_ret simp: act_err_def keeps_def[of _ "\<lambda>w. Ret (Inl _, w)"])
qed

text \<open>Dropping everything on SQLite switches the foreign key checks off, and back on only when every
  table was dropped: after an error the connection is left with its checks off.\<close>

theorem drop_everything_error_leaves_checks_off:
  assumes "foreign_key_switch db fk" "dd_backend db = Sqlite"
  shows "\<exists>r w'. drop_everything db Connection w = Ret (r, w') \<and> fk w' = (r = Inr ())"
proof -
  obtain w1 where off: "dd_execute db None (RawStatement ''PRAGMA foreign_keys = OFF'') w = (Inr (), w1)" "\<not> fk w1"
    using assms(1) unfolding foreign_key_switch_def ok_with_ex by auto
  obtain r w2 where tables: "drop_tables db Connection w1 = Ret (r, w2)" "\<not> fk w2"
    using keeps_drop_tables[OF assms(1)] off(2) unfolding keeps_def by blast
  obtain w3 where on: "dd_execute db None (RawStatement ''PRAGMA foreign_keys = ON'') w2 = (Inr (), w3)" "fk w3"
    using assms(1) unfolding foreign_key_switch_def ok_with_ex by auto
  show ?thesis
    using off tables on assms(2)
    by (cases r) (simp_all add: drop_everything_def drop_everything_impl_def when_backend_def act_bind_def
      executor_execute_def act_io_def act_ret_def)
qed

text \<open>The checks are on unless the last pragma on record switched them off.\<close>

definition checks_on :: "sample_store \<Rightarrow> bool" where
  "checks_on w = (case filter (\<lambda>x. take 6 x = ''PRAGMA'') (rev (fst w)) of
     [] \<Rightarrow> True | q # qs \<Rightarrow> q = ''PRAGMA foreign_keys = ON'')"

lemma sample_switch: "foreign_key_switch sample_driver checks_on"
proof -
  have "filter (\<lambda>x. take 6 x = ''PRAGMA'') (rev (filter (\<lambda>x. x \<noteq> t \<or> take 6 x = ''PRAGMA'') d)) =
      filter (\<lambda>x. take 6 x = ''PRAGMA'') (rev d)" for t d
    by (simp flip: rev_filter) (metis (mono_tags, lifting) filter_cong)
  then show ?thesis
    by (auto simp: foreign_key_switch_def sample_driver_def ok_with_def checks_on_def)
qed

lemma drop_everything_error_leaves_checks_off_witness:
  "\<exists>r w'. drop_everything sample_driver Connection ([''cake'', ''locked''], None, None) = Ret (r, w') \<and>
    checks_on w' = (r = Inr ())"
  by (rule drop_everything_error_leaves_checks_off[OF sample_switch]) (simp add: sample_driver_def)

end
