(* ===== verification/Loader.thy ===== *)
theory Loader
  imports ValueTuples DbIo
begin

text \<open>
  \<open>src/query/loader.rs\<close>, with the conditions of \<open>src/query/util.rs\<close>: loading the related models of many
  models with one query, grouped per model. The select is a record of what the loader adds to it; the
  database that runs it is an argument.
\<close>

section \<open>Conditions on keys\<close>

text \<open>\<open>InCast\<close> carries the columns whose \<open>save_as\<close> wraps the values.\<close>

datatype ('c, 'v) key_condition =
    InValues "string \<times> string" "'v list"
  | InTuples "(string \<times> string) list" "'v list list"
  | InCast "(string \<times> string) list" "('c \<times> 'v) list list"
  | AnyAllEq "((string \<times> string) \<times> 'v) list list"

text \<open>\<open>Itertools::unique\<close>: the first occurrence of each element.\<close>

fun unique_from :: "'a list \<Rightarrow> 'a list \<Rightarrow> 'a list" where
  "unique_from seen [] = []"
| "unique_from seen (x # xs) =
    (if x \<in> set seen then unique_from seen xs else x # unique_from (x # seen) xs)"

definition unique :: "'a list \<Rightarrow> 'a list" where
  "unique xs = unique_from [] xs"

text \<open>What a message shows of values that are not strings, by their \<open>Debug\<close>.\<close>

record 'v debug_texts =
  dt_key :: "'v value_tuple \<Rightarrow> string"
  dt_identity :: "identity \<Rightarrow> string"
  dt_table :: "table_ref \<Rightarrow> string"

definition loader_arity_mismatch :: "'v debug_texts \<Rightarrow> nat \<Rightarrow> 'v value_tuple \<Rightarrow> db_err" where
  "loader_arity_mismatch dt expected actual =
    Type (''Loader: arity mismatch: expected '' @ show_nat expected @ '', got '' @ show_nat (vt_arity actual) @
      '' in '' @ dt_key dt actual)"

definition table_column :: "table_ref \<Rightarrow> string \<Rightarrow> string \<times> string" where
  "table_column tbl col = (sea_orm_table tbl, col)"

definition create_table_columns :: "table_ref \<Rightarrow> identity \<Rightarrow> (string \<times> string) list" where
  "create_table_columns tbl cols = map (table_column tbl) (columns cols)"

definition column_tuple_in_condition ::
  "bool \<Rightarrow> 'v debug_texts \<Rightarrow> table_ref \<Rightarrow> identity \<Rightarrow> 'v value_tuple list \<Rightarrow> db_backend \<Rightarrow>
    (('c, 'v) key_condition, db_err) result" where
  "column_tuple_in_condition old_sqlite dt tbl to keys backend =
    (let keys = unique keys in
     if arity to = 1 then
       res_bind (try_map (\<lambda>key. case key of VOne v \<Rightarrow> Inr v | _ \<Rightarrow> Inl (loader_arity_mismatch dt (arity to) key)) keys)
         (\<lambda>values. Inr (InValues (table_column tbl (hd (columns to))) values))
     else if old_sqlite \<and> backend = Sqlite then
       res_bind (try_map (\<lambda>key. if arity to \<noteq> vt_arity key then Inl (loader_arity_mismatch dt (arity to) key)
           else Inr (zip (create_table_columns tbl to) (vt_values key))) keys)
         (\<lambda>rows. Inr (AnyAllEq rows))
     else
       res_bind (try_map (\<lambda>key. if arity to \<noteq> vt_arity key then Inl (loader_arity_mismatch dt (arity to) key)
           else Inr (vt_values key)) keys)
         (\<lambda>rows. Inr (InTuples (create_table_columns tbl to) rows)))"

definition parse_identity_columns ::
  "('m, 'c, 'v, 'ty) entity_columns \<Rightarrow> identity \<Rightarrow> ('c list, db_err) result" where
  "parse_identity_columns ec i =
    try_map (\<lambda>col. ok_or (ec_from_str ec col) (mapping_failed col '' to column'')) (columns i)"

definition resolve_column_pairs ::
  "('m, 'c, 'v, 'ty) entity_columns \<Rightarrow> 'v debug_texts \<Rightarrow> table_ref \<Rightarrow> identity \<Rightarrow> identity \<Rightarrow>
    ('c list \<times> (string \<times> string) list, db_err) result" where
  "resolve_column_pairs ec dt tbl from to =
    res_bind (parse_identity_columns ec from) (\<lambda>from_columns.
      let to_columns = map (table_column tbl) (columns to) in
      if length from_columns \<noteq> length to_columns
      then Inl (Type (''Loader: identity column count mismatch between '' @ dt_identity dt from @ '' and '' @
        dt_identity dt to))
      else Inr (from_columns, to_columns))"

definition prepare_condition_with_save_as ::
  "('m, 'c, 'v, 'ty) entity_columns \<Rightarrow> 'v debug_texts \<Rightarrow> table_ref \<Rightarrow> identity \<Rightarrow> identity \<Rightarrow>
    'v value_tuple list \<Rightarrow> (('c, 'v) key_condition, db_err) result" where
  "prepare_condition_with_save_as ec dt tbl from to keys =
    (let keys = unique keys in
     res_bind (resolve_column_pairs ec dt tbl from to) (\<lambda>(from_cols, to_cols).
       if from_cols = [] \<or> to_cols = []
       then Inl (Type (''Loader: resolved zero columns for identities '' @ dt_identity dt from @ '' -> '' @
         dt_identity dt to))
       else
         res_bind (try_map (\<lambda>key. if length from_cols \<noteq> vt_arity key
             then Inl (loader_arity_mismatch dt (length from_cols) key)
             else Inr (zip from_cols (vt_values key))) keys)
           (\<lambda>rows. Inr (InCast (create_table_columns tbl to) rows))))"

definition prepare_condition ::
  "bool \<Rightarrow> ('m, 'c, 'v, 'ty) entity_columns \<Rightarrow> 'v debug_texts \<Rightarrow> table_ref \<Rightarrow> identity \<Rightarrow> identity \<Rightarrow>
    'v value_tuple list \<Rightarrow> db_backend \<Rightarrow> (('c, 'v) key_condition, db_err) result" where
  "prepare_condition old_sqlite ec dt tbl from to keys backend =
    (if backend = Postgres then prepare_condition_with_save_as ec dt tbl from to keys
     else column_tuple_in_condition old_sqlite dt tbl to keys backend)"

section \<open>Queries and containers\<close>

text \<open>A select with the joins and the filters the loader adds.\<close>

record ('s, 'u, 'c, 'v) loader_select =
  lq_base :: 's
  lq_join_rev :: "'u relation_def list"
  lq_filter :: "('c, 'v) key_condition list"

definition entity_select :: "'s \<Rightarrow> ('s, 'u, 'c, 'v) loader_select" where
  "entity_select s = \<lparr>lq_base = s, lq_join_rev = [], lq_filter = []\<rparr>"

definition lq_add_filter ::
  "('c, 'v) key_condition \<Rightarrow> ('s, 'u, 'c, 'v) loader_select \<Rightarrow> ('s, 'u, 'c, 'v) loader_select" where
  "lq_add_filter c q = q\<lparr>lq_filter := lq_filter q @ [c]\<rparr>"

definition lq_add_join ::
  "'u relation_def \<Rightarrow> ('s, 'u, 'c, 'v) loader_select \<Rightarrow> ('s, 'u, 'c, 'v) loader_select" where
  "lq_add_join r q = q\<lparr>lq_join_rev := lq_join_rev q @ [r]\<rparr>"

text \<open>
  The database: the models of a select, and the models with a dynamic model of extra columns, given
  as the table and the fields with their types.
\<close>

record ('s, 'u, 'c, 'v, 'ty, 'r, 'w) loader_db =
  ld_backend :: db_backend
  ld_old_sqlite :: bool
  ld_all :: "('s, 'u, 'c, 'v) loader_select \<Rightarrow> ('r list, 'w) io"
  ld_all_dyn :: "('s, 'u, 'c, 'v) loader_select \<Rightarrow> string \<Rightarrow> (string \<times> 'ty) list \<Rightarrow>
    (('r \<times> (string \<times> 'v) list) list, 'w) io"

record ('x, 't) container =
  ct_default :: 't
  ct_add :: "'t \<Rightarrow> 'x \<Rightarrow> 't"

definition vec_container :: "('x, 'x list) container" where
  "vec_container = \<lparr>ct_default = [], ct_add = (\<lambda>xs x. xs @ [x])\<rparr>"

definition option_container :: "('x, 'x option) container" where
  "option_container = \<lparr>ct_default = None, ct_add = (\<lambda>_ x. Some x)\<rparr>"

definition extract_col_type ::
  "('m, 'c, 'v, 'ty) entity_columns \<Rightarrow> identity \<Rightarrow> identity \<Rightarrow> ((string \<times> 'ty) list, db_err) result" where
  "extract_col_type ec left right =
    (if arity left \<noteq> arity right
     then Inl (Type (''Identity mismatch: left: '' @ show_nat (arity left) @ '' != right: '' @ show_nat (arity right)))
     else try_map (\<lambda>(l, r). res_bind (ok_or (ec_from_str ec l) (mapping_failed l []))
       (\<lambda>col_a. Inr (r, ec_value_type ec col_a))) (zip (columns left) (columns right)))"

fun dyn_model_to_key :: "(string \<times> 'v) list \<Rightarrow> ('v value_tuple, db_err) result" where
  "dyn_model_to_key [] = Inl (Type ''Identity zero?'')"
| "dyn_model_to_key [a] = Inr (VOne (snd a))"
| "dyn_model_to_key [a, b] = Inr (VTwo (snd a) (snd b))"
| "dyn_model_to_key [a, b, c] = Inr (VThree (snd a) (snd b) (snd c))"
| "dyn_model_to_key fs = Inr (VMany (map snd fs))"

section \<open>The loader\<close>

text \<open>The loops that fill the map, through a relation or through a junction.\<close>

definition add_models ::
  "('r, 'd, 'v, 'ty) entity_columns \<Rightarrow> ('r \<Rightarrow> 'x) \<Rightarrow> ('x, 't) container \<Rightarrow> identity \<Rightarrow> 'r list \<Rightarrow>
    ('v value_tuple, 't) hashmap \<Rightarrow> (('v value_tuple, 't) hashmap, db_err) result" where
  "add_models er conv ct to = try_fold (\<lambda>item m.
     res_bind (get_key_from_model er to item) (\<lambda>key.
       Inr (hm_modify key (ct_default ct) (\<lambda>holder. ct_add ct holder (conv item)) m)))"

definition add_joined ::
  "'v debug_texts \<Rightarrow> ('r \<Rightarrow> 'x) \<Rightarrow> ('x, 't) container \<Rightarrow> ('r \<times> (string \<times> 'v) list) list \<Rightarrow>
    ('v value_tuple, 't) hashmap \<Rightarrow> (('v value_tuple, 't) hashmap, db_err) result" where
  "add_joined dt conv ct = try_fold (\<lambda>(item, key) m.
     res_bind (dyn_model_to_key key) (\<lambda>key.
     res_bind (ok_or (hm_get m key) (RecordNotFound (''Loader: failed to find model for '' @ dt_key dt key)))
       (\<lambda>vec. Inr (hm_insert key (ct_add ct vec (conv item)) m))))"

definition per_key ::
  "('x, 't) container \<Rightarrow> ('v value_tuple, 't) hashmap \<Rightarrow> 'v value_tuple list \<Rightarrow> 't list" where
  "per_key ct m keys = map (\<lambda>key. case hm_get m key of Some t \<Rightarrow> t | None \<Rightarrow> ct_default ct) keys"

definition load_via ::
  "('m, 'c, 'v, 'ty) entity_columns \<Rightarrow> 'v debug_texts \<Rightarrow> ('r \<Rightarrow> 'x) \<Rightarrow> ('x, 't) container \<Rightarrow>
    ('s, 'u, 'c, 'v, 'ty, 'r, 'w) loader_db \<Rightarrow> 'm list \<Rightarrow> ('s, 'u, 'c, 'v) loader_select \<Rightarrow>
    'u relation_def \<Rightarrow> 'u relation_def \<Rightarrow> ('t list, 'w) act" where
  "load_via ec dt conv ct db items stmt rel_def via_def =
    act_bind (act_res (try_map (get_key_from_model ec (from_col via_def)) items)) (\<lambda>keys.
      if keys = [] then act_ret []
      else
        act_bind (act_res (prepare_condition (ld_old_sqlite db) ec dt (to_tbl via_def) (from_col via_def)
          (to_col via_def) keys (ld_backend db))) (\<lambda>c.
        let stmt = lq_add_filter c (lq_add_join rel_def stmt) in
        act_bind (act_res (extract_col_type ec (from_col via_def) (to_col via_def))) (\<lambda>fields.
        act_bind (act_io (ld_all_dyn db stmt (sea_orm_table (to_tbl via_def)) fields)) (\<lambda>data.
        let m = fold (\<lambda>key. hm_insert key (ct_default ct)) keys [] in
        act_bind (act_res (add_joined dt conv ct data m)) (\<lambda>m. act_ret (per_key ct m keys))))))"

definition load_direct ::
  "('m, 'c, 'v, 'ty) entity_columns \<Rightarrow> ('r, 'd, 'v, 'ty) entity_columns \<Rightarrow> 'v debug_texts \<Rightarrow> ('r \<Rightarrow> 'x) \<Rightarrow>
    ('x, 't) container \<Rightarrow> ('s, 'u, 'c, 'v, 'ty, 'r, 'w) loader_db \<Rightarrow> 'm list \<Rightarrow>
    ('s, 'u, 'c, 'v) loader_select \<Rightarrow> 'u relation_def \<Rightarrow> ('t list, 'w) act" where
  "load_direct ec er dt conv ct db items stmt rel_def =
    act_bind (act_res (try_map (get_key_from_model ec (from_col rel_def)) items)) (\<lambda>keys.
      if keys = [] then act_ret []
      else
        act_bind (act_res (prepare_condition (ld_old_sqlite db) ec dt (to_tbl rel_def) (from_col rel_def)
          (to_col rel_def) keys (ld_backend db))) (\<lambda>c.
        act_bind (act_io (ld_all db (lq_add_filter c stmt))) (\<lambda>data.
        act_bind (act_res (add_models er conv ct (to_col rel_def) data [])) (\<lambda>m.
          act_ret (per_key ct m keys)))))"

definition loader_impl_impl ::
  "('m, 'c, 'v, 'ty) entity_columns \<Rightarrow> ('r, 'd, 'v, 'ty) entity_columns \<Rightarrow> 'v debug_texts \<Rightarrow> ('r \<Rightarrow> 'x) \<Rightarrow>
    ('x, 't) container \<Rightarrow> ('s, 'u, 'c, 'v, 'ty, 'r, 'w) loader_db \<Rightarrow> 'm list \<Rightarrow>
    ('s, 'u, 'c, 'v) loader_select \<Rightarrow> 'u relation_def \<Rightarrow> 'u relation_def option \<Rightarrow> ('t list, 'w) act" where
  "loader_impl_impl ec er dt conv ct db items stmt rel_def via_def =
    (case via_def of
       Some via_def \<Rightarrow> load_via ec dt conv ct db items stmt rel_def via_def
     | None \<Rightarrow> load_direct ec er dt conv ct db items stmt rel_def)"

section \<open>Checks and entry points\<close>

definition check_self_ref :: "'u relation_def \<Rightarrow> (unit, db_err) result" where
  "check_self_ref r =
    (if from_tbl r \<noteq> to_tbl r then Inl (query_err ''Relation must be self referencing'')
     else if is_owner r then Inl (query_err ''Relation must be belongs_to'')
     else Inr ())"

definition check_self_ref_many :: "'u relation_def \<Rightarrow> (unit, db_err) result" where
  "check_self_ref_many r =
    (if from_tbl r \<noteq> to_tbl r then Inl (query_err ''Relation must be self referencing'')
     else if \<not> is_owner r then Inl (query_err ''Relation must not be belongs_to'')
     else Inr ())"

text \<open>\<open>Related::to\<close> and \<open>Related::via\<close>.\<close>

record 'u related =
  rl_to :: "'u relation_def"
  rl_via :: "'u relation_def option"

definition loader_impl where
  "loader_impl ec er dt conv ct db items stmt rel =
    loader_impl_impl ec er dt conv ct db items stmt (rl_to rel) (rl_via rel)"

definition load_self where
  "load_self ec dt conv db items stmt rel_def =
    act_bind (act_res (check_self_ref rel_def)) (\<lambda>_.
      loader_impl_impl ec ec dt conv option_container db items stmt rel_def None)"

definition load_self_many where
  "load_self_many ec dt conv db items stmt rel_def =
    (if from_tbl rel_def \<noteq> to_tbl rel_def then act_err (query_err ''Relation must be self referencing'')
     else loader_impl_impl ec ec dt conv vec_container db items stmt
       (if \<not> is_owner rel_def then relation_rev rel_def else rel_def) None)"

definition load_self_via where
  "load_self_via ec dt conv db items s to via =
    loader_impl_impl ec ec dt conv vec_container db items (entity_select s) to (Some via)"

definition load_self_via_rev where
  "load_self_via_rev ec dt conv db items s to via =
    loader_impl_impl ec ec dt conv vec_container db items (entity_select s) (relation_rev via) (Some (relation_rev to))"

definition load_one where
  "load_one ec er dt conv db items stmt rel =
    (if rel_type (rl_to rel) \<noteq> HasOne then act_err (query_err ''Relation is HasMany instead of HasOne'')
     else loader_impl ec er dt conv option_container db items stmt rel)"

definition load_many where
  "load_many ec er dt conv db items stmt rel = loader_impl ec er dt conv vec_container db items stmt rel"

section \<open>Optional and nested models\<close>

fun assemble_options :: "'t \<Rightarrow> 'm option list \<Rightarrow> 't list \<Rightarrow> 't list" where
  "assemble_options d [] items = []"
| "assemble_options d (None # input) items = d # assemble_options d input items"
| "assemble_options d (Some _ # input) [] = d # assemble_options d input []"
| "assemble_options d (Some _ # input) (x # items) = x # assemble_options d input items"

text \<open>The inner loop takes as many items as the vector has, the defaults when there are none left.\<close>

fun take_items :: "'t \<Rightarrow> 'm list \<Rightarrow> 't list \<Rightarrow> 't list \<times> 't list" where
  "take_items d [] items = ([], items)"
| "take_items d (_ # input) [] = (let (ts, rest) = take_items d input [] in (d # ts, rest))"
| "take_items d (_ # input) (x # items) = (let (ts, rest) = take_items d input items in (x # ts, rest))"

fun assemble_vectors :: "'t \<Rightarrow> 'm list list \<Rightarrow> 't list \<Rightarrow> 't list list" where
  "assemble_vectors d [] items = []"
| "assemble_vectors d (input # rest) items =
    (let (ts, items') = take_items d input items in ts # assemble_vectors d rest items')"

definition load_one_of_options where
  "load_one_of_options ec er dt conv db items stmt rel =
    (if rel_type (rl_to rel) \<noteq> HasOne then act_err (query_err ''Relation is HasMany instead of HasOne'')
     else act_bind (loader_impl ec er dt conv option_container db (List.map_filter (\<lambda>m. m) items) stmt rel)
       (\<lambda>found. act_ret (assemble_options None items found)))"

definition load_many_of_options where
  "load_many_of_options ec er dt conv db items stmt rel =
    act_bind (loader_impl ec er dt conv vec_container db (List.map_filter (\<lambda>m. m) items) stmt rel)
      (\<lambda>found. act_ret (assemble_options [] items found))"

definition load_one_nested where
  "load_one_nested ec er dt conv db items stmt rel =
    (if rel_type (rl_to rel) \<noteq> HasOne then act_err (query_err ''Relation is HasMany instead of HasOne'')
     else act_bind (loader_impl ec er dt conv option_container db (concat items) stmt rel)
       (\<lambda>found. act_ret (assemble_vectors None items found)))"

definition load_many_nested where
  "load_many_nested ec er dt conv db items stmt rel =
    act_bind (loader_impl ec er dt conv vec_container db (concat items) stmt rel)
      (\<lambda>found. act_ret (assemble_vectors [] items found))"

section \<open>Many to many in two queries\<close>

text \<open>\<open>shuffle\<close> is the iteration order of the map's values.\<close>

definition add_junctions ::
  "('j, 'e, 'v, 'ty) entity_columns \<Rightarrow> identity \<Rightarrow> identity \<Rightarrow> 'j list \<Rightarrow>
    ('v value_tuple, 'v value_tuple list) hashmap \<Rightarrow> (('v value_tuple, 'v value_tuple list) hashmap, db_err) result" where
  "add_junctions ej to from = try_fold (\<lambda>model keymap.
     res_bind (get_key_from_model ej to model) (\<lambda>pk.
     res_bind (get_key_from_model ej from model) (\<lambda>fk.
       Inr (hm_modify pk [] (\<lambda>entry. entry @ [fk]) keymap))))"

definition index_models ::
  "('r, 'd, 'v, 'ty) entity_columns \<Rightarrow> identity \<Rightarrow> 'r list \<Rightarrow> ('v value_tuple, 'r) hashmap \<Rightarrow>
    (('v value_tuple, 'r) hashmap, db_err) result" where
  "index_models er to = try_fold (\<lambda>model acc.
     res_bind (get_key_from_model er to model) (\<lambda>key. Inr (hm_insert key model acc)))"

definition load_many_to_many ::
  "('v value_tuple list list \<Rightarrow> 'v value_tuple list list) \<Rightarrow>
    ('m, 'c, 'v, 'ty) entity_columns \<Rightarrow> ('j, 'e, 'v, 'ty) entity_columns \<Rightarrow> ('r, 'd, 'v, 'ty) entity_columns \<Rightarrow>
    'v debug_texts \<Rightarrow> ('s2, 'u, 'c, 'v, 'ty, 'j, 'w) loader_db \<Rightarrow> ('s, 'u, 'e, 'v, 'ty, 'r, 'w) loader_db \<Rightarrow>
    'm list \<Rightarrow> ('s, 'u, 'e, 'v) loader_select \<Rightarrow> 's2 \<Rightarrow> table_ref \<Rightarrow> 'u related \<Rightarrow> ('r list list, 'w) act" where
  "load_many_to_many shuffle ec ej er dt dbj db items stmt via via_table rel =
    (case rl_via rel of
       None \<Rightarrow> act_err (query_err ''Relation is not ManyToMany'')
     | Some via_rel \<Rightarrow>
         let rel_def = rl_to rel in
         if rel_type rel_def \<noteq> HasOne then act_err (query_err ''Relation to is not HasOne'')
         else if to_tbl via_rel \<noteq> via_table
         then act_err (query_err (''The given via Entity is incorrect: expected: '' @ dt_table dt (to_tbl via_rel) @
           '', given: '' @ dt_table dt via_table))
         else if items = [] then act_ret []
         else
           act_bind (act_res (try_map (get_key_from_model ec (from_col via_rel)) items)) (\<lambda>pkeys.
           act_bind (act_res (prepare_condition (ld_old_sqlite dbj) ec dt (to_tbl via_rel) (from_col via_rel)
             (to_col via_rel) pkeys (ld_backend dbj))) (\<lambda>c.
           act_bind (act_io (ld_all dbj (lq_add_filter c (entity_select via)))) (\<lambda>junctions.
           act_bind (act_res (add_junctions ej (to_col via_rel) (from_col rel_def) junctions [])) (\<lambda>keymap.
           act_bind (act_res (prepare_condition (ld_old_sqlite db) ej dt (to_tbl rel_def) (from_col rel_def)
             (to_col rel_def) (concat (shuffle (hm_values keymap))) (ld_backend db))) (\<lambda>c.
           act_bind (act_io (ld_all db (lq_add_filter c stmt))) (\<lambda>models.
           act_bind (act_res (index_models er (to_col rel_def) models [])) (\<lambda>found.
             act_ret (map (\<lambda>pkey.
               List.map_filter (hm_get found) (case hm_get keymap pkey of Some fks \<Rightarrow> fks | None \<Rightarrow> []))
               pkeys)))))))))"

end
