(* ===== verification/LoaderSpec.thy ===== *)
theory LoaderSpec
  imports Loader
begin

text \<open>
  What the loader promises: on a database that evaluates the conditions as SQL does, loading for many
  models gives each of them exactly the rows a query of its own would give, in the order of the
  select. The conditions have a meaning per row (\<open>sat_key\<close>), in which NULL matches nothing.
\<close>

section \<open>The database\<close>

text \<open>
  \<open>null\<close> are the NULL values. A cast by the \<open>save_as\<close> of a column leaves a key value as it is.
\<close>

fun sat_key :: "('v \<Rightarrow> bool) \<Rightarrow> (string \<times> string \<Rightarrow> 'v) \<Rightarrow> ('c, 'v) key_condition \<Rightarrow> bool" where
  "sat_key null val (InValues col vs) = (\<not> null (val col) \<and> val col \<in> set vs)"
| "sat_key null val (InTuples cols rows) = (\<not> list_ex null (map val cols) \<and> map val cols \<in> set rows)"
| "sat_key null val (InCast cols rows) = (\<not> list_ex null (map val cols) \<and> map val cols \<in> set (map (map snd) rows))"
| "sat_key null val (AnyAllEq rows) = list_ex (list_all (\<lambda>(col, v). \<not> null (val col) \<and> val col = v)) rows"

text \<open>
  The rows of a select without joins are the rows of its base that meet the filters, in the base's
  order; \<open>val\<close> gives the columns of a row.
\<close>

definition selects_rows ::
  "('s, 'u, 'c, 'v, 'ty, 'r, 'w) loader_db \<Rightarrow> ('v \<Rightarrow> bool) \<Rightarrow> ('r \<Rightarrow> string \<times> string \<Rightarrow> 'v) \<Rightarrow>
    ('s \<Rightarrow> 'w \<Rightarrow> 'r list) \<Rightarrow> bool" where
  "selects_rows db null val rows = (\<forall>q w. lq_join_rev q = [] \<longrightarrow>
     ld_all db q w = (Inr (filter (\<lambda>r. list_all (sat_key null (val r)) (lq_filter q)) (rows (lq_base q) w)), w))"

text \<open>The rows of a select joined to a junction: pairs of a row and a junction row, with the junction's
  fields asked for.\<close>

definition selects_joined ::
  "('s, 'u, 'c, 'v, 'ty, 'r, 'w) loader_db \<Rightarrow> ('v \<Rightarrow> bool) \<Rightarrow> ('r \<times> 'j \<Rightarrow> string \<times> string \<Rightarrow> 'v) \<Rightarrow>
    ('s \<Rightarrow> 'u relation_def \<Rightarrow> 'w \<Rightarrow> ('r \<times> 'j) list) \<Rightarrow> bool" where
  "selects_joined db null val rows = (\<forall>q rel tbl fs w. lq_join_rev q = [rel] \<longrightarrow>
     ld_all_dyn db q tbl fs w =
       (Inr (map (\<lambda>rj. (fst rj, map (\<lambda>(f, t). (f, val rj (tbl, f))) fs))
         (filter (\<lambda>rj. list_all (sat_key null (val rj)) (lq_filter q)) (rows (lq_base q) rel w))), w))"

section \<open>Keys\<close>

definition tuple_of :: "'v list \<Rightarrow> 'v value_tuple" where
  "tuple_of vs = the (vt_of_list vs)"

lemma vt_of_list_tuple: "vs \<noteq> [] \<Longrightarrow> vt_of_list vs = Some (tuple_of vs)"
  unfolding tuple_of_def using vt_of_list_None by fastforce

lemma vt_values_tuple [simp]: "vs \<noteq> [] \<Longrightarrow> vt_values (tuple_of vs) = vs"
  by (rule vt_values_of_list) (rule vt_of_list_tuple)

lemma tuple_of_inject: "vs \<noteq> [] \<Longrightarrow> vs' \<noteq> [] \<Longrightarrow> tuple_of vs = tuple_of vs' \<longleftrightarrow> vs = vs'"
  using vt_values_tuple by metis

lemma tuple_of_single: "tuple_of [v] = VOne v"
  by (simp add: tuple_of_def)

lemma dyn_model_to_key_tuple: "fs \<noteq> [] \<Longrightarrow> dyn_model_to_key fs = Inr (tuple_of (map snd fs))"
  by (cases fs rule: dyn_model_to_key.cases) (auto simp: tuple_of_def)

text \<open>The columns of an identity as the entity knows them.\<close>

definition knows :: "('m, 'c, 'v, 'ty) entity_columns \<Rightarrow> identity \<Rightarrow> bool" where
  "knows ec i = (columns i \<noteq> [] \<and> list_all (\<lambda>col. ec_from_str ec col \<noteq> None) (columns i))"

definition key_of :: "('m, 'c, 'v, 'ty) entity_columns \<Rightarrow> identity \<Rightarrow> 'm \<Rightarrow> 'v list" where
  "key_of ec i m = map (\<lambda>col. ec_get ec m (the (ec_from_str ec col))) (columns i)"

lemma knows_those: "knows ec i \<Longrightarrow> those (map (ec_from_str ec) (columns i)) = Some (map (\<lambda>col. the (ec_from_str ec col)) (columns i))"
proof -
  have "list_all (\<lambda>col. ec_from_str ec col \<noteq> None) cols \<Longrightarrow>
      those (map (ec_from_str ec) cols) = Some (map (\<lambda>col. the (ec_from_str ec col)) cols)" for cols
    by (induction cols) auto
  then show "knows ec i \<Longrightarrow> ?thesis" by (simp add: knows_def)
qed

lemma get_key_known: "knows ec i \<Longrightarrow> get_key_from_model ec i m = Inr (tuple_of (key_of ec i m))"
  unfolding get_key_Inr by (auto simp: knows_those key_of_def comp_def knows_def intro!: vt_of_list_tuple)

lemma length_key_of [simp]: "length (key_of ec i m) = arity i"
  by (simp add: key_of_def length_columns)

lemma key_of_nonempty: "knows ec i \<Longrightarrow> key_of ec i m \<noteq> []"
  by (simp add: key_of_def knows_def)

lemma set_unique [simp]: "set (unique xs) = set xs"
proof -
  have "set (unique_from seen xs) = set xs - set seen" for seen
    by (induction seen xs rule: unique_from.induct) auto
  then show ?thesis by (simp add: unique_def)
qed

section \<open>The conditions\<close>

text \<open>The values of the key columns in a row.\<close>

definition row_key :: "(string \<times> string \<Rightarrow> 'v) \<Rightarrow> table_ref \<Rightarrow> identity \<Rightarrow> 'v list" where
  "row_key val tbl to = map val (create_table_columns tbl to)"

definition matches_keys :: "('v \<Rightarrow> bool) \<Rightarrow> (string \<times> string \<Rightarrow> 'v) \<Rightarrow> table_ref \<Rightarrow> identity \<Rightarrow> 'v list list \<Rightarrow> bool" where
  "matches_keys null val tbl to keys =
    (\<not> list_ex null (row_key val tbl to) \<and> row_key val tbl to \<in> set keys)"

lemma map_tuples_Inr:
  "list_all (\<lambda>k. length k = n \<and> k \<noteq> []) keys \<Longrightarrow>
    try_map (\<lambda>key. if n \<noteq> vt_arity key then Inl (e key) else Inr (g (vt_values key))) (map tuple_of keys) =
      Inr (map g keys)"
  by (induction keys) (auto simp: vt_arity_def)

lemma unique_map_tuple:
  "list_all (\<lambda>k. k \<noteq> []) keys \<Longrightarrow> unique (map tuple_of keys) = map tuple_of (unique keys)"
proof -
  have "list_all (\<lambda>k. k \<noteq> []) keys \<Longrightarrow> list_all (\<lambda>k. k \<noteq> []) seen \<Longrightarrow>
      unique_from (map tuple_of seen) (map tuple_of keys) = map tuple_of (unique_from seen keys)" for seen
  proof (induction seen keys rule: unique_from.induct)
    case (2 seen x xs)
    have "tuple_of x \<in> tuple_of ` set seen \<longleftrightarrow> x \<in> set seen"
      using 2 tuple_of_inject[of x] by (auto simp: list_all_iff)
    with 2 show ?case by auto
  qed simp
  from this[of "[]"] show "list_all (\<lambda>k. k \<noteq> []) keys \<Longrightarrow> ?thesis" by (simp add: unique_def)
qed

lemma list_all_unique: "list_all P keys \<Longrightarrow> list_all P (unique keys)"
  by (simp add: list_all_iff)

lemma zip_eq_sat:
  "length k = length cols \<Longrightarrow>
    list_all (\<lambda>(col, v). \<not> null (val col) \<and> val col = v) (zip cols k) \<longleftrightarrow>
      \<not> list_ex null (map val cols) \<and> map val cols = k"
  by (induction cols arbitrary: k) (auto simp: length_Suc_conv)

lemma column_tuple_in_condition_sat:
  assumes "list_all (\<lambda>k. length k = arity to) keys" "arity to \<noteq> 0"
  shows "\<exists>c. column_tuple_in_condition old dt tbl to (map tuple_of keys) backend = Inr c \<and>
    (\<forall>val. sat_key null val c = matches_keys null val tbl to keys)"
proof -
  have nonempty: "list_all (\<lambda>k. k \<noteq> []) keys" using assms by (auto simp: list_all_iff)
  have all: "list_all (\<lambda>k. length k = arity to \<and> k \<noteq> []) (unique keys)"
    using assms nonempty by (auto simp: list_all_iff)
  note uniq = unique_map_tuple[OF nonempty]
  show ?thesis
  proof (cases "arity to = 1")
    case True
    then obtain a where a: "columns to = [a]" using length_columns[of to] by (auto simp: length_Suc_conv)
    have "try_map (\<lambda>key. case key of VOne v \<Rightarrow> Inr v | _ \<Rightarrow> Inl (loader_arity_mismatch dt (arity to) key))
        (map tuple_of ks) = Inr (map hd ks)" if "list_all (\<lambda>k. length k = 1) ks" for ks
      using that by (induction ks) (auto simp: length_Suc_conv tuple_of_single)
    from this[of "unique keys"] True all have single: "try_map (\<lambda>key. case key of VOne v \<Rightarrow> Inr v
        | _ \<Rightarrow> Inl (loader_arity_mismatch dt (arity to) key)) (map tuple_of (unique keys)) = Inr (map hd (unique keys))"
      by (simp add: list_all_iff)
    have "x \<in> hd ` set keys \<longleftrightarrow> [x] \<in> set keys" for x
      using assms True by (force simp: list_all_iff length_Suc_conv)
    with single True show ?thesis
      by (simp add: column_tuple_in_condition_def uniq matches_keys_def row_key_def create_table_columns_def a)
  next
    case False
    have len: "length (create_table_columns tbl to) = arity to"
      by (simp add: create_table_columns_def length_columns)
    have sat: "list_ex (list_all (\<lambda>(col, v). \<not> null (val col) \<and> val col = v))
        (map (zip (create_table_columns tbl to)) (unique keys)) \<longleftrightarrow> matches_keys null val tbl to keys" for val
    proof -
      have "list_all (\<lambda>(col, v). \<not> null (val col) \<and> val col = v) (zip (create_table_columns tbl to) k) \<longleftrightarrow>
          \<not> list_ex null (row_key val tbl to) \<and> row_key val tbl to = k" if "k \<in> set keys" for k
        using zip_eq_sat[of k "create_table_columns tbl to" null val] assms(1) that len
        by (simp add: list_all_iff[of _ keys] row_key_def)
      then show ?thesis by (auto simp: matches_keys_def list_ex_iff[of "list_all _"] comp_def)
    qed
    show ?thesis
      using map_tuples_Inr[OF all, of "loader_arity_mismatch dt (arity to)" "zip (create_table_columns tbl to)"]
        map_tuples_Inr[OF all, of "loader_arity_mismatch dt (arity to)" "\<lambda>x. x"] False sat
      by (auto simp: column_tuple_in_condition_def Let_def uniq matches_keys_def row_key_def)
  qed
qed

lemma parse_known:
  "knows ec i \<Longrightarrow> parse_identity_columns ec i = Inr (map (\<lambda>col. the (ec_from_str ec col)) (columns i))"
  unfolding parse_identity_columns_def
  by (rule try_map_all_Inr) (auto simp: knows_def list_all_iff)

lemma save_as_condition_sat:
  assumes "knows ec from" "arity from = arity to" "list_all (\<lambda>k. length k = arity to) keys" "arity to \<noteq> 0"
  shows "\<exists>c. prepare_condition_with_save_as ec dt tbl from to (map tuple_of keys) = Inr c \<and>
    (\<forall>val. sat_key null val c = matches_keys null val tbl to keys)"
proof -
  let ?cols = "map (\<lambda>col. the (ec_from_str ec col)) (columns from)"
  have nonempty: "list_all (\<lambda>k. k \<noteq> []) keys" using assms by (auto simp: list_all_iff)
  have len: "length ?cols = arity to" using assms(2) by (simp add: length_columns)
  have all: "list_all (\<lambda>k. length k = length ?cols \<and> k \<noteq> []) (unique keys)"
    using assms(3) nonempty len by (auto simp: list_all_iff)
  have resolve: "resolve_column_pairs ec dt tbl from to = Inr (?cols, map (table_column tbl) (columns to))"
    using assms(2) by (simp add: resolve_column_pairs_def parse_known[OF assms(1)] length_columns)
  have snds: "map (map snd) (map (zip ?cols) (unique keys)) = unique keys"
    using all by (auto simp: list_all_iff intro!: map_idI)
  have cols: "columns from \<noteq> []" "columns to \<noteq> []" using assms length_columns[of to] by (auto simp: knows_def)
  show ?thesis
    using map_tuples_Inr[OF all, of "loader_arity_mismatch dt (length ?cols)" "zip ?cols"] cols snds
    by (simp add: prepare_condition_with_save_as_def unique_map_tuple[OF nonempty] resolve matches_keys_def row_key_def
        flip: set_map)
qed

lemma prepare_condition_sat:
  assumes "knows ec from" "arity from = arity to" "list_all (\<lambda>k. length k = arity to) keys"
  shows "\<exists>c. prepare_condition old ec dt tbl from to (map tuple_of keys) backend = Inr c \<and>
    (\<forall>val. sat_key null val c = matches_keys null val tbl to keys)"
proof -
  have "arity to \<noteq> 0" using assms(1,2) length_columns[of "from"] by (metis knows_def length_0_conv)
  then show ?thesis
    using save_as_condition_sat[OF assms] column_tuple_in_condition_sat[OF assms(3)]
    by (cases "backend = Postgres") (simp_all add: prepare_condition_def)
qed

section \<open>Loading\<close>

text \<open>
  The specification: the models a query of its own finds for the key \<open>k\<close>, in a container. \<open>selected\<close>
  are the rows of the select the user gave.
\<close>

definition fills :: "('x, 't) container \<Rightarrow> ('r \<Rightarrow> 'x) \<Rightarrow> 'r list \<Rightarrow> 't" where
  "fills ct conv rs = fold (\<lambda>r t. ct_add ct t (conv r)) rs (ct_default ct)"

definition has_key :: "('v \<Rightarrow> bool) \<Rightarrow> (string \<times> string \<Rightarrow> 'v) \<Rightarrow> table_ref \<Rightarrow> identity \<Rightarrow> 'v list \<Rightarrow> bool" where
  "has_key null val tbl to k = (\<not> list_ex null k \<and> row_key val tbl to = k)"

definition selected ::
  "('v \<Rightarrow> bool) \<Rightarrow> ('r \<Rightarrow> string \<times> string \<Rightarrow> 'v) \<Rightarrow> ('c, 'v) key_condition list \<Rightarrow> 'r list \<Rightarrow> 'r list" where
  "selected null val conds rs = filter (\<lambda>r. list_all (sat_key null (val r)) conds) rs"

text \<open>Decoding a row gives a model with the row's values in the key columns.\<close>

definition decodes ::
  "('r, 'd, 'v, 'ty) entity_columns \<Rightarrow> ('r \<Rightarrow> string \<times> string \<Rightarrow> 'v) \<Rightarrow> table_ref \<Rightarrow> identity \<Rightarrow> bool" where
  "decodes er val tbl to = (knows er to \<and> (\<forall>r. key_of er to r = row_key (val r) tbl to))"

lemma fills_vec [simp]: "fills vec_container conv rs = map conv rs"
proof -
  have "fold (\<lambda>r t. t @ [conv r]) rs acc = acc @ map conv rs" for acc
    by (induction rs arbitrary: acc) auto
  then show ?thesis by (simp add: fills_def vec_container_def)
qed

lemma fills_option [simp]: "fills option_container conv rs = (if rs = [] then None else Some (conv (last rs)))"
proof -
  have "fold (\<lambda>r _. Some (conv r)) rs acc = (if rs = [] then acc else Some (conv (last rs)))" for acc
    by (induction rs arbitrary: acc) auto
  then show ?thesis by (simp add: fills_def option_container_def)
qed

lemma add_models_fold:
  "knows er to \<Longrightarrow> add_models er conv ct to data m =
    Inr (fold (\<lambda>r. hm_modify (tuple_of (key_of er to r)) (ct_default ct) (\<lambda>t. ct_add ct t (conv r))) data m)"
  by (induction data arbitrary: m) (simp_all add: add_models_def get_key_known)

lemma keys_of_items:
  "knows ec i \<Longrightarrow> try_map (get_key_from_model ec i) items = Inr (map tuple_of (map (key_of ec i) items))"
  by (induction items) (simp_all add: get_key_known)

lemma per_key_map: "per_key ct m (map f items) = map (\<lambda>x. case hm_get m (f x) of Some t \<Rightarrow> t | None \<Rightarrow> ct_default ct) items"
  by (simp add: per_key_def)

lemma filled_holder:
  "hm_get m k = None \<or> hm_get m k = Some (ct_default ct) \<Longrightarrow>
    (case hm_get (fold (\<lambda>r. hm_modify (key r) (ct_default ct) (\<lambda>t. ct_add ct t (conv r))) data m) k of
      Some t \<Rightarrow> t | None \<Rightarrow> ct_default ct) = fills ct conv (filter (\<lambda>r. key r = k) data)"
  unfolding hm.get_fold_modif fills_def by (auto split: option.splits)

text \<open>Among the rows fetched for all keys, those of one of the keys are those a query for it finds.\<close>

lemma filter_fetched:
  assumes "k \<in> set keys"
  shows "filter (\<lambda>r. row_key (val r) tbl to = k)
      (filter (\<lambda>r. list_all (sat_key null (val r)) conds \<and> matches_keys null (val r) tbl to keys) rs) =
    filter (\<lambda>r. has_key null (val r) tbl to k) (selected null val conds rs)"
  using assms by (auto simp: selected_def has_key_def matches_keys_def intro!: filter_cong)

lemma load_direct_spec:
  assumes db: "selects_rows db null val rows" and "lq_join_rev stmt = []"
    and ec: "knows ec (from_col rel)" and er: "decodes er val (to_tbl rel) (to_col rel)"
    and "arity (from_col rel) = arity (to_col rel)"
  shows "load_direct ec er dt conv ct db items stmt rel w =
    Ret (Inr (map (\<lambda>m. fills ct conv (filter (\<lambda>r. has_key null (val r) (to_tbl rel) (to_col rel)
      (key_of ec (from_col rel) m)) (selected null val (lq_filter stmt) (rows (lq_base stmt) w)))) items), w)"
proof (cases "items = []")
  case True
  then show ?thesis by (simp add: load_direct_def keys_of_items[OF ec] act_ret_def)
next
  case False
  let ?keys = "map (key_of ec (from_col rel)) items"
  have lens: "list_all (\<lambda>k. length k = arity (to_col rel)) ?keys" using assms(5) by (simp add: list_all_iff)
  obtain c where c: "prepare_condition (ld_old_sqlite db) ec dt (to_tbl rel) (from_col rel) (to_col rel)
      (map tuple_of ?keys) (ld_backend db) = Inr c"
    and sat: "sat_key null val' c = matches_keys null val' (to_tbl rel) (to_col rel) ?keys" for val'
    using prepare_condition_sat[OF ec assms(5) lens] by blast
  let ?data = "filter (\<lambda>r. list_all (sat_key null (val r)) (lq_filter stmt) \<and>
      matches_keys null (val r) (to_tbl rel) (to_col rel) ?keys) (rows (lq_base stmt) w)"
  have fetch: "ld_all db (lq_add_filter c stmt) w = (Inr ?data, w)"
    using db assms(2) by (simp add: selects_rows_def lq_add_filter_def sat)
  have knows: "knows er (to_col rel)" and keyr: "key_of er (to_col rel) r = row_key (val r) (to_tbl rel) (to_col rel)" for r
    using er by (simp_all add: decodes_def)
  let ?key = "\<lambda>r. tuple_of (row_key (val r) (to_tbl rel) (to_col rel))"
  let ?m = "fold (\<lambda>r. hm_modify (?key r) (ct_default ct) (\<lambda>t. ct_add ct t (conv r))) ?data []"
  have added: "add_models er conv ct (to_col rel) ?data [] = Inr ?m"
    using add_models_fold[OF knows] by (simp add: keyr)
  have nonempty: "row_key (val r) (to_tbl rel) (to_col rel) \<noteq> []" for r
    using key_of_nonempty[OF knows, of r] by (simp add: keyr)
  have holder: "(case hm_get ?m (tuple_of (key_of ec (from_col rel) m)) of Some t \<Rightarrow> t | None \<Rightarrow> ct_default ct) =
      fills ct conv (filter (\<lambda>r. has_key null (val r) (to_tbl rel) (to_col rel) (key_of ec (from_col rel) m))
        (selected null val (lq_filter stmt) (rows (lq_base stmt) w)))" if "m \<in> set items" for m
  proof -
    have same: "?key r = tuple_of (key_of ec (from_col rel) m) \<longleftrightarrow>
        row_key (val r) (to_tbl rel) (to_col rel) = key_of ec (from_col rel) m" for r
      using tuple_of_inject[OF nonempty key_of_nonempty[OF ec]] .
    have "key_of ec (from_col rel) m \<in> set ?keys" using that by simp
    note fetched = filter_fetched[OF this, of val "to_tbl rel" "to_col rel" null "lq_filter stmt" "rows (lq_base stmt) w"]
    show ?thesis
      unfolding fetched[symmetric] by (subst filled_holder) (simp_all add: hm.get_empty same)
  qed
  show ?thesis
    using False c added holder
    by (simp add: load_direct_def keys_of_items[OF ec] act_bind_io(1)[of "ld_all db (lq_add_filter c stmt)", OF fetch] act_ret_def
      per_key_map comp_def)
qed

text \<open>Through a junction: the joined rows whose junction columns carry the key.\<close>

lemma add_joined_fold:
  "list_all (\<lambda>rf. snd rf \<noteq> [] \<and> hm_get m (tuple_of (map snd (snd rf))) \<noteq> None) data \<Longrightarrow>
    add_joined dt conv ct data m =
      Inr (fold (\<lambda>rf. hm_modify (tuple_of (map snd (snd rf))) (ct_default ct) (\<lambda>t. ct_add ct t (conv (fst rf)))) data m)"
proof (induction data arbitrary: m)
  case (Cons rf data)
  obtain r fs where rf: "rf = (r, fs)" by (cases rf)
  with Cons.prems obtain t where t: "hm_get m (tuple_of (map snd fs)) = Some t" and fs: "fs \<noteq> []" by auto
  let ?m = "hm_modify (tuple_of (map snd fs)) (ct_default ct) (\<lambda>t. ct_add ct t (conv r)) m"
  have insert_eq: "hm_insert (tuple_of (map snd fs)) (ct_add ct t (conv r)) m = ?m"
    using t by (simp add: hm_insert_def hm_modify_def hm_get_def)
  have "list_all (\<lambda>rf. snd rf \<noteq> [] \<and> hm_get ?m (tuple_of (map snd (snd rf))) \<noteq> None) data"
    using Cons.prems by (auto simp: list_all_iff hm.get_modif)
  from Cons.IH[OF this] show ?case
    using t fs by (simp add: rf add_joined_def dyn_model_to_key_tuple insert_eq)
qed (simp add: add_joined_def)

lemma get_prefilled:
  "hm_get (fold (\<lambda>key. hm_insert key d) keys []) k = (if k \<in> set keys then Some d else None)"
proof -
  have "hm_get (fold (\<lambda>key. hm_insert key d) keys m) k = (if k \<in> set keys then Some d else hm_get m k)" for m
    by (induction keys arbitrary: m) (auto simp: hm.get_ins)
  then show ?thesis by (simp add: hm.get_empty)
qed

lemma extract_known:
  assumes "knows ec from" "arity from = arity to"
  shows "\<exists>fs. extract_col_type ec from to = Inr fs \<and> map fst fs = columns to"
proof -
  have "try_map (\<lambda>(l, r). res_bind (ok_or (ec_from_str ec l) (mapping_failed l []))
        (\<lambda>col_a. Inr (r, ec_value_type ec col_a))) (zip (columns from) (columns to)) =
      Inr (map (\<lambda>(l, r). (r, ec_value_type ec (the (ec_from_str ec l)))) (zip (columns from) (columns to)))"
    using assms(1) by (intro try_map_all_Inr) (fastforce simp: knows_def list_all_iff dest: set_zip_leftD)
  moreover have "map fst (map (\<lambda>(l, r). (r, ec_value_type ec (the (ec_from_str ec l)))) (zip (columns from) (columns to))) =
      columns to"
    using assms(2) by (simp add: comp_def case_prod_unfold map_snd_zip length_columns)
  ultimately show ?thesis using assms(2) by (simp add: extract_col_type_def)
qed

lemma load_via_spec:
  fixes val :: "'r \<times> 'j \<Rightarrow> string \<times> string \<Rightarrow> 'v"
  assumes db: "selects_joined db null val rows" and "lq_join_rev stmt = []"
    and ec: "knows ec (from_col via)" and ar: "arity (from_col via) = arity (to_col via)"
  shows "load_via ec dt conv ct db items stmt rel via w =
    Ret (Inr (map (\<lambda>m. fills ct conv (map fst (filter (\<lambda>rj. has_key null (val rj) (to_tbl via) (to_col via)
      (key_of ec (from_col via) m)) (selected null val (lq_filter stmt) (rows (lq_base stmt) rel w))))) items), w)"
proof (cases "items = []")
  case True
  then show ?thesis by (simp add: load_via_def keys_of_items[OF ec] act_ret_def)
next
  case False
  let ?keys = "map (key_of ec (from_col via)) items"
  let ?rk = "\<lambda>rj. row_key (val rj) (to_tbl via) (to_col via)"
  have lens: "list_all (\<lambda>k. length k = arity (to_col via)) ?keys" using ar by (simp add: list_all_iff)
  obtain c where c: "prepare_condition (ld_old_sqlite db) ec dt (to_tbl via) (from_col via) (to_col via)
      (map tuple_of ?keys) (ld_backend db) = Inr c"
    and sat: "sat_key null val' c = matches_keys null val' (to_tbl via) (to_col via) ?keys" for val'
    using prepare_condition_sat[OF ec ar lens] by blast
  obtain fs where fs: "extract_col_type ec (from_col via) (to_col via) = Inr fs" "map fst fs = columns (to_col via)"
    using extract_known[OF ec ar] by blast
  let ?tbl = "sea_orm_table (to_tbl via)"
  let ?data = "filter (\<lambda>rj. list_all (sat_key null (val rj)) (lq_filter stmt) \<and>
      matches_keys null (val rj) (to_tbl via) (to_col via) ?keys) (rows (lq_base stmt) rel w)"
  let ?row = "\<lambda>rj. (fst rj, map (\<lambda>(f, t). (f, val rj (?tbl, f))) fs)"
  have fetch: "ld_all_dyn db (lq_add_filter c (lq_add_join rel stmt)) ?tbl fs w = (Inr (map ?row ?data), w)"
    using db assms(2) by (simp add: selects_joined_def lq_add_filter_def lq_add_join_def sat)
  have row_keys: "map snd (snd (?row rj)) = ?rk rj" for rj
  proof -
    have "map snd (snd (?row rj)) = map (\<lambda>f. val rj (?tbl, f)) (map fst fs)" by (simp add: case_prod_unfold)
    then show ?thesis by (simp add: fs(2) row_key_def create_table_columns_def table_column_def)
  qed
  have cols: "columns (to_col via) \<noteq> []"
    using ec ar length_columns[of "to_col via"] length_columns[of "from_col via"] by (auto simp: knows_def)
  then have nonempty: "?rk rj \<noteq> []" and "fs \<noteq> []" for rj
    using fs(2) by (auto simp: row_key_def create_table_columns_def)
  let ?init = "fold (\<lambda>key. hm_insert key (ct_default ct)) (map tuple_of ?keys) []"
  let ?key = "\<lambda>rj. tuple_of (?rk rj)"
  let ?m = "fold (\<lambda>rj. hm_modify (?key rj) (ct_default ct) (\<lambda>t. ct_add ct t (conv (fst rj)))) ?data ?init"
  have "hm_get ?init (?key rj) \<noteq> None" if "rj \<in> set ?data" for rj
  proof -
    have "?rk rj \<in> set ?keys" using that by (simp add: matches_keys_def)
    then have "?key rj \<in> set (map tuple_of ?keys)" by (metis image_eqI set_map)
    then show ?thesis by (simp only: get_prefilled if_True) simp
  qed
  then have "list_all (\<lambda>rf. snd rf \<noteq> [] \<and> hm_get ?init (tuple_of (map snd (snd rf))) \<noteq> None) (map ?row ?data)"
    using \<open>fs \<noteq> []\<close> row_keys by (auto simp: list_all_iff)
  from add_joined_fold[OF this] have added: "add_joined dt conv ct (map ?row ?data) ?init = Inr ?m"
    by (simp only: fold_map comp_def row_keys fst_conv)
  have holder: "(case hm_get ?m (tuple_of (key_of ec (from_col via) m)) of Some t \<Rightarrow> t | None \<Rightarrow> ct_default ct) =
      fills ct conv (map fst (filter (\<lambda>rj. has_key null (val rj) (to_tbl via) (to_col via) (key_of ec (from_col via) m))
        (selected null val (lq_filter stmt) (rows (lq_base stmt) rel w))))" if "m \<in> set items" for m
  proof -
    have same: "?key rj = tuple_of (key_of ec (from_col via) m) \<longleftrightarrow> ?rk rj = key_of ec (from_col via) m" for rj
      using tuple_of_inject[OF nonempty key_of_nonempty[OF ec]] .
    have "key_of ec (from_col via) m \<in> set ?keys" using that by simp
    note fetched = filter_fetched[OF this, of val "to_tbl via" "to_col via" null "lq_filter stmt" "rows (lq_base stmt) rel w"]
    have "hm_get ?init k = None \<or> hm_get ?init k = Some (ct_default ct)" for k by (simp add: get_prefilled)
    from filled_holder[OF this, of ?key "\<lambda>rj. conv (fst rj)" ?data] show ?thesis
      unfolding fetched[symmetric] by (simp add: same fills_def fold_map comp_def)
  qed
  show ?thesis
    using False c added holder fs(1)
    by (simp add: load_via_def keys_of_items[OF ec] act_bind_io(1)[of "ld_all_dyn db (lq_add_filter c (lq_add_join rel stmt)) ?tbl fs", OF fetch] act_ret_def
      per_key_map comp_def Let_def)
qed

end
