(* ===== verification/LoaderProps.thy ===== *)
theory LoaderProps
  imports LoaderSpec
begin

text \<open>
  The properties of the loader: batches find what single queries find, nested inputs keep their shape,
  and the two ways through a junction agree. The sample database at the end is a bakery: cakes, the
  fruits on them and the fillings they share.
\<close>

section \<open>Assembling nested results\<close>

lemma assemble_options_map:
  "assemble_options d input (map f (List.map_filter (\<lambda>m. m) input)) = map (\<lambda>m. case m of None \<Rightarrow> d | Some m \<Rightarrow> f m) input"
proof (induction input)
  case (Cons m input)
  then show ?case by (cases m) (simp_all add: List.map_filter_simps)
qed simp

lemma take_items_map: "take_items d input (map f input @ rest) = (map f input, rest)"
  by (induction input) simp_all

lemma assemble_vectors_map: "assemble_vectors d input (map f (concat input)) = map (map f) input"
  by (induction input) (simp_all add: take_items_map)

section \<open>A sample database\<close>

text \<open>Rows are tables of columns; NULL is a value of its own.\<close>

type_synonym sample_row = "string \<Rightarrow> int option"

definition sample_columns :: "string list \<Rightarrow> (sample_row, string, int option, unit) entity_columns" where
  "sample_columns cols = \<lparr>ec_from_str = (\<lambda>c. if c \<in> set cols then Some c else None), ec_get = (\<lambda>m c. m c),
     ec_value_type = (\<lambda>_. ())\<rparr>"

lemma sample_columns_sel [simp]:
  "ec_from_str (sample_columns cols) c = (if c \<in> set cols then Some c else None)"
  "ec_get (sample_columns cols) m = m"
  by (simp_all add: sample_columns_def)

definition is_null :: "int option \<Rightarrow> bool" where
  "is_null v = (v = None)"

definition sample_db ::
  "('s \<Rightarrow> sample_row list) \<Rightarrow> ('s \<Rightarrow> 'u relation_def \<Rightarrow> (sample_row \<times> sample_row) list) \<Rightarrow> string \<Rightarrow>
    ('s, 'u, string, int option, unit, sample_row, unit) loader_db" where
  "sample_db rows joined jt =
    \<lparr>ld_backend = Sqlite, ld_old_sqlite = False,
     ld_all = (\<lambda>q w. (Inr (filter (\<lambda>r. list_all (sat_key is_null (\<lambda>(t, c). r c)) (lq_filter q)) (rows (lq_base q))), w)),
     ld_all_dyn = (\<lambda>q tbl fs w. (Inr (map (\<lambda>rj. (fst rj, map (\<lambda>(f, t). (f, (if tbl = jt then snd rj else fst rj) f)) fs))
       (filter (\<lambda>rj. list_all (sat_key is_null (\<lambda>(t, c). (if t = jt then snd rj else fst rj) c)) (lq_filter q))
         (case lq_join_rev q of [rel] \<Rightarrow> joined (lq_base q) rel | _ \<Rightarrow> []))), w))\<rparr>"

lemma sample_selects_rows: "selects_rows (sample_db rows joined jt) is_null (\<lambda>r (t, c). r c) (\<lambda>s w. rows s)"
  by (simp add: selects_rows_def sample_db_def)

lemma sample_selects_joined:
  "selects_joined (sample_db rows joined jt) is_null (\<lambda>rj (t, c). (if t = jt then snd rj else fst rj) c) (\<lambda>s rel w. joined s rel)"
  by (simp add: selects_joined_def sample_db_def)

lemma sample_knows: "knows (sample_columns cols) i \<longleftrightarrow> columns i \<noteq> [] \<and> list_all (\<lambda>c. c \<in> set cols) (columns i)"
  by (auto simp: knows_def list_all_iff)

lemma sample_decodes:
  "columns i \<noteq> [] \<Longrightarrow> list_all (\<lambda>c. c \<in> set cols) (columns i) \<Longrightarrow> decodes (sample_columns cols) (\<lambda>r (t, c). r c) tbl i"
  by (auto simp: decodes_def sample_knows key_of_def row_key_def create_table_columns_def table_column_def
      list_all_iff)

definition sample_row :: "(string \<times> int) list \<Rightarrow> sample_row" where
  "sample_row fs c = map_of fs c"

definition sample_texts :: "int option debug_texts" where
  "sample_texts = \<lparr>dt_key = (\<lambda>_. []), dt_identity = (\<lambda>_. []), dt_table = (\<lambda>_. [])\<rparr>"

definition plain_relation :: "relation_type \<Rightarrow> string \<Rightarrow> string \<Rightarrow> string \<Rightarrow> string \<Rightarrow> bool \<Rightarrow> unit relation_def" where
  "plain_relation rt t1 c1 t2 c2 owner =
    \<lparr>rel_type = rt, from_tbl = TableRef (TableName None t1) None, to_tbl = TableRef (TableName None t2) None,
     from_col = Unary c1, to_col = Unary c2, is_owner = owner, skip_fk = False, on_delete = None, on_update = None,
     on_condition = None, fk_name = None, condition_type = AllType\<rparr>"

definition cake_fruit :: "unit relation_def" where
  "cake_fruit = plain_relation HasMany ''cake'' ''id'' ''fruit'' ''cake_id'' True"

definition cake :: "int \<Rightarrow> sample_row" where
  "cake i = sample_row [(''id'', i)]"

definition fruit :: "int \<Rightarrow> int \<Rightarrow> sample_row" where
  "fruit i c = sample_row [(''id'', i), (''cake_id'', c)]"

definition fruits :: "sample_row list" where
  "fruits = [fruit 1 1, sample_row [(''id'', 2)], fruit 3 2, fruit 4 1]"

section \<open>Batches and single queries\<close>

text \<open>C24. Batch loading along a relation gives every model, in the order of the input, exactly the related
  models that a query of its own would find for its key, in the order of the select; equal models get
  equal lists, and a key with a NULL gets none.\<close>

theorem load_many_matches_single_queries:
  assumes "selects_rows db null val rows" "lq_join_rev stmt = []"
    and "knows ec (from_col (rl_to rel))" "decodes er val (to_tbl (rl_to rel)) (to_col (rl_to rel))"
    and "arity (from_col (rl_to rel)) = arity (to_col (rl_to rel))" "rl_via rel = None"
  shows "load_many ec er dt conv db items stmt rel w =
    Ret (Inr (map (\<lambda>m. map conv (filter (\<lambda>r. has_key null (val r) (to_tbl (rl_to rel)) (to_col (rl_to rel))
      (key_of ec (from_col (rl_to rel)) m)) (selected null val (lq_filter stmt) (rows (lq_base stmt) w)))) items), w)"
  using load_direct_spec[OF assms(1-5), of dt conv vec_container items w] assms(6)
  by (simp add: load_many_def loader_impl_def loader_impl_impl_def)

lemma load_many_matches_single_queries_witness:
  "load_many (sample_columns [''id'']) (sample_columns [''id'', ''cake_id'']) sample_texts (\<lambda>r. r ''id'')
      (sample_db (\<lambda>_. fruits) (\<lambda>_ _. []) []) [cake 2, cake 1, cake 7] (entity_select ())
      \<lparr>rl_to = cake_fruit, rl_via = None\<rparr> () =
    Ret (Inr [[Some 3], [Some 1, Some 4], []], ())"
  by (subst load_many_matches_single_queries[OF sample_selects_rows _ _ sample_decodes])
    (simp_all add: entity_select_def cake_fruit_def plain_relation_def sample_knows selected_def fruits_def has_key_def
      key_of_def row_key_def create_table_columns_def table_column_def fruit_def cake_def sample_row_def
      is_null_def)

text \<open>Loading for optional and for nested models keeps the shape of the input: each model that is there
  gets what a query of its own would find, in its place, and a missing one gets nothing.\<close>

theorem nested_loads_keep_shape:
  assumes "selects_rows db null val rows" "lq_join_rev stmt = []"
    and "knows ec (from_col (rl_to rel))" "decodes er val (to_tbl (rl_to rel)) (to_col (rl_to rel))"
    and "arity (from_col (rl_to rel)) = arity (to_col (rl_to rel))" "rl_via rel = None"
    and one: "one = (\<lambda>m. map conv (filter (\<lambda>r. has_key null (val r) (to_tbl (rl_to rel)) (to_col (rl_to rel))
      (key_of ec (from_col (rl_to rel)) m)) (selected null val (lq_filter stmt) (rows (lq_base stmt) w))))"
  shows "load_many_of_options ec er dt conv db options stmt rel w =
      Ret (Inr (map (\<lambda>m. case m of None \<Rightarrow> [] | Some m \<Rightarrow> one m) options), w) \<and>
    load_many_nested ec er dt conv db nested stmt rel w = Ret (Inr (map (map one) nested), w)"
proof -
  have "loader_impl ec er dt conv vec_container db items stmt rel w = Ret (Inr (map one items), w)" for items
    using load_direct_spec[OF assms(1-5), of dt conv vec_container items w] assms(6)
    by (simp add: loader_impl_def loader_impl_impl_def one)
  then show ?thesis
    by (simp add: load_many_of_options_def load_many_nested_def act_bind_step act_ret_def assemble_options_map
      assemble_vectors_map)
qed

lemma nested_loads_keep_shape_witness:
  "load_many_of_options (sample_columns [''id'']) (sample_columns [''id'', ''cake_id'']) sample_texts (\<lambda>r. r ''id'')
      (sample_db (\<lambda>_. fruits) (\<lambda>_ _. []) []) [None, Some (cake 1)] (entity_select ())
      \<lparr>rl_to = cake_fruit, rl_via = None\<rparr> () = Ret (Inr [[], [Some 1, Some 4]], ()) \<and>
    load_many_nested (sample_columns [''id'']) (sample_columns [''id'', ''cake_id'']) sample_texts (\<lambda>r. r ''id'')
      (sample_db (\<lambda>_. fruits) (\<lambda>_ _. []) []) [[cake 2, cake 1], [], [cake 2]] (entity_select ())
      \<lparr>rl_to = cake_fruit, rl_via = None\<rparr> () = Ret (Inr [[[Some 3], [Some 1, Some 4]], [], [[Some 3]]], ())"
proof -
  let ?one = "\<lambda>m. map (\<lambda>r. r ''id'') (filter (\<lambda>r. has_key is_null (\<lambda>(t, c). r c) (to_tbl cake_fruit) (to_col cake_fruit)
      (key_of (sample_columns [''id'']) (from_col cake_fruit) m)) fruits)"
  have one: "?one (cake 1) = [Some 1, Some 4]" "?one (cake 2) = [Some 3]"
    by (simp_all add: cake_fruit_def plain_relation_def fruits_def has_key_def
      key_of_def row_key_def create_table_columns_def table_column_def fruit_def cake_def sample_row_def
      is_null_def)
  have "load_many_of_options (sample_columns [''id'']) (sample_columns [''id'', ''cake_id'']) sample_texts (\<lambda>r. r ''id'')
      (sample_db (\<lambda>_. fruits) (\<lambda>_ _. []) []) [None, Some (cake 1)] (entity_select ())
      \<lparr>rl_to = cake_fruit, rl_via = None\<rparr> () = Ret (Inr (map (\<lambda>m. case m of None \<Rightarrow> [] | Some m \<Rightarrow> ?one m) [None, Some (cake 1)]), ()) \<and>
    load_many_nested (sample_columns [''id'']) (sample_columns [''id'', ''cake_id'']) sample_texts (\<lambda>r. r ''id'')
      (sample_db (\<lambda>_. fruits) (\<lambda>_ _. []) []) [[cake 2, cake 1], [], [cake 2]] (entity_select ())
      \<lparr>rl_to = cake_fruit, rl_via = None\<rparr> () = Ret (Inr (map (map ?one) [[cake 2, cake 1], [], [cake 2]]), ())"
    by (rule nested_loads_keep_shape[OF sample_selects_rows _ _ sample_decodes])
      (simp_all add: entity_select_def cake_fruit_def plain_relation_def sample_knows selected_def)
  then show ?thesis by (simp add: one)
qed

section \<open>Through a junction\<close>

lemma map_filter_join:
  assumes "distinct (map k rs)"
  shows "mset (List.map_filter (\<lambda>j. map_of (map (\<lambda>r. (k r, r)) rs) (f j)) js) =
    mset (concat (map (\<lambda>r. map (\<lambda>_. r) (filter (\<lambda>j. k r = f j) js)) rs))"
proof (induction js)
  case Nil
  then show ?case by (induction rs) (simp_all add: List.map_filter_simps)
next
  case (Cons j js)
  have one: "mset (filter (\<lambda>r. k r = x) rs) = (case map_of (map (\<lambda>r. (k r, r)) rs) x of None \<Rightarrow> {#} | Some r \<Rightarrow> {#r#})" for x
    using assms by (induction rs) (auto simp: filter_empty_conv image_iff split: option.splits)
  have "mset (concat (map (\<lambda>r. map (\<lambda>_. r) (filter (\<lambda>j. k r = f j) (j # js))) rs)) =
      mset (filter (\<lambda>r. k r = f j) rs) + mset (concat (map (\<lambda>r. map (\<lambda>_. r) (filter (\<lambda>j. k r = f j) js)) rs))"
    by (induction rs) auto
  with Cons one[of "f j"] show ?case by (simp add: List.map_filter_simps split: option.splits)
qed

text \<open>The inner join of rows and junction rows on the relation of the junction to the rows.\<close>

definition inner_join ::
  "('v \<Rightarrow> bool) \<Rightarrow> ('r \<Rightarrow> string \<times> string \<Rightarrow> 'v) \<Rightarrow> ('j \<Rightarrow> string \<times> string \<Rightarrow> 'v) \<Rightarrow> 'u relation_def \<Rightarrow>
    'r list \<Rightarrow> 'j list \<Rightarrow> ('r \<times> 'j) list" where
  "inner_join null rval jval rel rs js = concat (map (\<lambda>r. map (Pair r) (filter (\<lambda>j.
     has_key null (rval r) (to_tbl rel) (to_col rel) (row_key (jval j) (from_tbl rel) (from_col rel))) js)) rs)"

lemma add_junctions_fold:
  "knows ej to \<Longrightarrow> knows ej from \<Longrightarrow> add_junctions ej to from data m =
    Inr (fold (\<lambda>j. hm_modify (tuple_of (key_of ej to j)) [] (\<lambda>fks. fks @ [tuple_of (key_of ej from j)])) data m)"
  by (induction data arbitrary: m) (simp_all add: add_junctions_def get_key_known)

lemma index_models_fold:
  "knows er to \<Longrightarrow> index_models er to data m =
    Inr (fold (\<lambda>r. hm_insert (tuple_of (key_of er to r)) r) data m)"
  by (induction data arbitrary: m) (simp_all add: index_models_def get_key_known)

lemma fold_append_singleton: "fold (\<lambda>x acc. acc @ [f x]) xs acc = acc @ map f xs"
  by (induction xs arbitrary: acc) auto

text \<open>The key map of the junction rows: under each key the foreign keys, in order; its values are
  these foreign keys.\<close>

lemma keymap_get:
  "(case hm_get (fold (\<lambda>j. hm_modify (pk j) [] (\<lambda>fks. fks @ [fk j])) data []) k of Some fks \<Rightarrow> fks | None \<Rightarrow> []) =
    map fk (filter (\<lambda>j. pk j = k) data)"
  unfolding hm.get_fold_modif_empty by (auto simp: fold_append_singleton filter_empty_conv)

lemma set_concat_hm_values: "set (concat (hm_values m)) = {x. \<exists>k xs. (k, xs) \<in> set m \<and> x \<in> set xs}"
  by (auto simp: hm_values_def) force

lemma keymap_values:
  "set (concat (hm_values (fold (\<lambda>j. hm_modify (pk j) [] (\<lambda>fks. fks @ [fk j])) data []))) = fk ` set data"
proof -
  let ?m = "fold (\<lambda>j. hm_modify (pk j) [] (\<lambda>fks. fks @ [fk j])) data []"
  have wf: "hm_wf ?m" by (intro hm.wf_fold_modif) simp
  have get: "hm_get ?m k = (if k \<in> pk ` set data then Some (map fk (filter (\<lambda>j. pk j = k) data)) else None)" for k
    unfolding hm.get_fold_modif_empty by (simp add: fold_append_singleton)
  have entries: "(k, fks) \<in> set ?m \<longleftrightarrow> k \<in> pk ` set data \<and> fks = map fk (filter (\<lambda>j. pk j = k) data)" for k fks
    unfolding hm_get_iff[OF wf, symmetric] get by auto
  show ?thesis unfolding set_concat_hm_values entries by auto
qed

lemma concat_map_filter: "(\<And>x. \<not> Q x \<Longrightarrow> f x = []) \<Longrightarrow> concat (map f (filter Q xs)) = concat (map f xs)"
  by (induction xs) auto

text \<open>The join, restricted to one key, grouped by row.\<close>

lemma inner_join_of_key:
  assumes "\<And>r j. row_key (val (r, j)) tbl to = P j"
  shows "map fst (filter (\<lambda>rj. has_key null (val rj) tbl to k) (inner_join null rval jval rel rs js)) =
    concat (map (\<lambda>r. map (\<lambda>_. r) (filter (\<lambda>j. \<not> list_ex null k \<and> P j = k \<and>
      has_key null (rval r) (to_tbl rel) (to_col rel) (row_key (jval j) (from_tbl rel) (from_col rel))) js)) rs)"
  by (induction rs) (auto simp: inner_join_def has_key_def[of _ "val _"] assms filter_map comp_def intro!: arg_cong[of _ _ "map _"] filter_cong)

text \<open>What the two queries of \<open>load_many_to_many\<close> fetch, and the list it makes of them for a key.\<close>

lemma two_queries_agree:
  assumes keys: "k \<in> set keys" and dist: "distinct (map R rs)"
    and js: "js = filter (\<lambda>j. \<not> list_ex null (P j) \<and> P j \<in> set keys) all_js"
    and fetched: "fetched = filter (\<lambda>r. \<not> list_ex null (R r) \<and> R r \<in> F ` set js) rs"
  shows "mset (List.map_filter (\<lambda>j. map_of (map (\<lambda>r. (R r, r)) fetched) (F j)) (filter (\<lambda>j. P j = k) js)) =
    mset (concat (map (\<lambda>r. map (\<lambda>_. r) (filter (\<lambda>j. \<not> list_ex null k \<and> P j = k \<and> \<not> list_ex null (F j) \<and> R r = F j) all_js)) rs))"
proof -
  have "distinct (map R fetched)" using dist unfolding fetched by (rule distinct_map_filter)
  note map_filter_join[OF this, of F "filter (\<lambda>j. P j = k) js"]
  also have "concat (map (\<lambda>r. map (\<lambda>_. r) (filter (\<lambda>j. R r = F j) (filter (\<lambda>j. P j = k) js))) fetched) =
      concat (map (\<lambda>r. map (\<lambda>_. r) (filter (\<lambda>j. \<not> list_ex null k \<and> P j = k \<and> \<not> list_ex null (F j) \<and> R r = F j) all_js)) fetched)"
    using keys unfolding fetched js by (intro arg_cong[of _ _ concat] map_cong refl arg_cong[of _ _ "map _"]) (auto intro!: filter_cong)
  also have "\<dots> = concat (map (\<lambda>r. map (\<lambda>_. r) (filter (\<lambda>j. \<not> list_ex null k \<and> P j = k \<and> \<not> list_ex null (F j) \<and> R r = F j) all_js)) rs)"
    unfolding fetched using keys by (intro concat_map_filter) (auto simp: js filter_empty_conv)
  finally show ?thesis .
qed

definition iterates :: "('a list \<Rightarrow> 'a list) \<Rightarrow> bool" where
  "iterates shuffle = (\<forall>xs. mset (shuffle xs) = mset xs)"

lemma set_iterates: "iterates shuffle \<Longrightarrow> set (shuffle xs) = set xs"
  unfolding iterates_def by (metis set_mset_mset)

lemma index_lookup:
  assumes "distinct (map R rs)" "\<And>r. R r \<noteq> []" "x \<noteq> []"
  shows "hm_get (fold (\<lambda>r. hm_insert (tuple_of (R r)) r) rs []) (tuple_of x) = map_of (map (\<lambda>r. (R r, r)) rs) x"
proof -
  have inj: "tuple_of (R r) = tuple_of y \<longleftrightarrow> R r = y" if "y \<noteq> []" for r y
    by (rule tuple_of_inject[OF assms(2) that])
  have "distinct (map (\<lambda>r. tuple_of (R r)) rs)"
    using assms(1) by (induction rs) (auto simp: inj[OF assms(2)] image_iff)
  then have "hm_get (fold (\<lambda>r. hm_insert (tuple_of (R r)) r) rs []) (tuple_of x) =
      map_of (map (\<lambda>r. (tuple_of (R r), r)) rs) (tuple_of x)"
    unfolding hm.get_fold_ins_empty
    by (subst map_of_inject_set[of _ "map (\<lambda>r. (tuple_of (R r), r)) rs", THEN iffD2])
      (simp_all add: comp_def rev_map[symmetric])
  also have "\<dots> = map_of (map (\<lambda>r. (R r, r)) rs) x"
    using inj[OF assms(3)] by (induction rs) (auto simp: eq_commute)
  finally show ?thesis .
qed

lemma load_many_to_many_spec:
  assumes dbj: "selects_rows dbj null jval jrows" and db: "selects_rows db null rval rrows"
    and rel: "rl_via rel = Some via" "rel_type (rl_to rel) = HasOne" "to_tbl via = via_table"
    and ec: "knows ec (from_col via)" and er: "decodes er rval (to_tbl (rl_to rel)) (to_col (rl_to rel))"
    and ej: "decodes ej jval (to_tbl via) (to_col via)" "decodes ej jval (from_tbl (rl_to rel)) (from_col (rl_to rel))"
    and ar: "arity (from_col via) = arity (to_col via)" "arity (from_col (rl_to rel)) = arity (to_col (rl_to rel))"
    and order: "iterates shuffle"
    and dist: "distinct (map (\<lambda>r. row_key (rval r) (to_tbl (rl_to rel)) (to_col (rl_to rel))) (rrows s w))"
  shows "\<exists>found. load_many_to_many shuffle ec ej er dt dbj db items (entity_select s) jb via_table rel w = Ret (Inr found, w) \<and>
    map mset found = map (\<lambda>m. mset (concat (map (\<lambda>r. map (\<lambda>_. r) (filter (\<lambda>j.
      \<not> list_ex null (key_of ec (from_col via) m) \<and> row_key (jval j) (to_tbl via) (to_col via) = key_of ec (from_col via) m \<and>
      \<not> list_ex null (row_key (jval j) (from_tbl (rl_to rel)) (from_col (rl_to rel))) \<and>
      row_key (rval r) (to_tbl (rl_to rel)) (to_col (rl_to rel)) = row_key (jval j) (from_tbl (rl_to rel)) (from_col (rl_to rel)))
      (jrows jb w))) (rrows s w)))) items"
proof (cases "items = []")
  case True
  then show ?thesis using rel by (simp add: load_many_to_many_def act_ret_def)
next
  case False
  let ?rd = "rl_to rel"
  let ?P = "\<lambda>j. row_key (jval j) (to_tbl via) (to_col via)"
  let ?F = "\<lambda>j. row_key (jval j) (from_tbl ?rd) (from_col ?rd)"
  let ?R = "\<lambda>r. row_key (rval r) (to_tbl ?rd) (to_col ?rd)"
  let ?K = "\<lambda>m. key_of ec (from_col via) m"
  let ?keys = "map ?K items"
  have lens: "list_all (\<lambda>k. length k = arity (to_col via)) ?keys" using ar(1) by (simp add: list_all_iff)
  obtain c where c: "prepare_condition (ld_old_sqlite dbj) ec dt (to_tbl via) (from_col via) (to_col via)
      (map tuple_of ?keys) (ld_backend dbj) = Inr c"
    and sat: "sat_key null val' c = matches_keys null val' (to_tbl via) (to_col via) ?keys" for val'
    using prepare_condition_sat[OF ec ar(1) lens] by blast
  let ?js = "filter (\<lambda>j. \<not> list_ex null (?P j) \<and> ?P j \<in> set ?keys) (jrows jb w)"
  have fetch1: "ld_all dbj (lq_add_filter c (entity_select jb)) w = (Inr ?js, w)"
    using dbj by (simp add: selects_rows_def lq_add_filter_def entity_select_def sat matches_keys_def)
  have kj: "knows ej (to_col via)" "knows ej (from_col ?rd)" and kr: "knows er (to_col ?rd)"
    and keyj: "key_of ej (to_col via) j = ?P j" "key_of ej (from_col ?rd) j = ?F j" and keyr: "key_of er (to_col ?rd) r = ?R r"
    for j r using ej er by (simp_all add: decodes_def)
  let ?keymap = "fold (\<lambda>j. hm_modify (tuple_of (?P j)) [] (\<lambda>fks. fks @ [tuple_of (?F j)])) ?js []"
  have junctions: "add_junctions ej (to_col via) (from_col ?rd) ?js [] = Inr ?keymap"
    using add_junctions_fold[OF kj] by (simp add: keyj)
  let ?fks = "concat (shuffle (hm_values ?keymap))"
  have fks: "set ?fks = (\<lambda>j. tuple_of (?F j)) ` set ?js"
    using keymap_values[of "\<lambda>j. tuple_of (?P j)" "\<lambda>j. tuple_of (?F j)" ?js] set_iterates[OF order] by simp
  have nonempty: "?F j \<noteq> []" "?R r \<noteq> []" "?P j \<noteq> []" for j r
    using key_of_nonempty kj kr keyj keyr by metis+
  let ?ks = "map vt_values ?fks"
  have ks: "map tuple_of ?ks = ?fks" and set_ks: "set ?ks = ?F ` set ?js"
  proof -
    have rebuilt: "tuple_of (vt_values x) = x" if "x \<in> set ?fks" for x
      using that nonempty(1) unfolding fks by auto
    then show "map tuple_of ?ks = ?fks" unfolding map_map by (intro map_idI rebuilt) simp
    show "set ?ks = ?F ` set ?js" unfolding set_map[of vt_values] fks image_image using nonempty(1) by simp
  qed
  have lens2: "list_all (\<lambda>k. length k = arity (to_col ?rd)) ?ks"
    unfolding list_all_iff set_ks using ar(2) by (auto simp: row_key_def create_table_columns_def length_columns)
  obtain c2 where c2: "prepare_condition (ld_old_sqlite db) ej dt (to_tbl ?rd) (from_col ?rd) (to_col ?rd) ?fks
      (ld_backend db) = Inr c2"
    and sat2: "sat_key null val' c2 = matches_keys null val' (to_tbl ?rd) (to_col ?rd) ?ks" for val'
    using prepare_condition_sat[OF kj(2) ar(2) lens2] unfolding ks by blast
  let ?fetched = "filter (\<lambda>r. \<not> list_ex null (?R r) \<and> ?R r \<in> ?F ` set ?js) (rrows s w)"
  have fetch2: "ld_all db (lq_add_filter c2 (entity_select s)) w = (Inr ?fetched, w)"
    using db unfolding selects_rows_def
    by (simp add: lq_add_filter_def entity_select_def sat2 matches_keys_def set_ks del: set_map set_concat)
  let ?index = "fold (\<lambda>r. hm_insert (tuple_of (?R r)) r) ?fetched []"
  have index: "index_models er (to_col ?rd) ?fetched [] = Inr ?index"
    using index_models_fold[OF kr] by (simp add: keyr)
  let ?one = "\<lambda>m. List.map_filter (hm_get ?index) (case hm_get ?keymap (tuple_of (?K m)) of Some fks \<Rightarrow> fks | None \<Rightarrow> [])"
  have run: "load_many_to_many shuffle ec ej er dt dbj db items (entity_select s) jb via_table rel w = Ret (Inr (map ?one items), w)"
    using False rel c c2 junctions index
    by (simp add: load_many_to_many_def Let_def keys_of_items[OF ec] act_ret_def comp_def
      act_bind_io(1)[of "ld_all dbj (lq_add_filter c (entity_select jb))", OF fetch1]
      act_bind_io(1)[of "ld_all db (lq_add_filter c2 (entity_select s))", OF fetch2])
  have distR: "distinct (map ?R ?fetched)" using dist by (rule distinct_map_filter)
  have holder: "mset (?one m) = mset (concat (map (\<lambda>r. map (\<lambda>_. r) (filter (\<lambda>j.
      \<not> list_ex null (?K m) \<and> ?P j = ?K m \<and> \<not> list_ex null (?F j) \<and> ?R r = ?F j) (jrows jb w))) (rrows s w)))"
    if "m \<in> set items" for m
  proof -
    have same: "tuple_of (?P j) = tuple_of (?K m) \<longleftrightarrow> ?P j = ?K m" for j
      using tuple_of_inject[OF nonempty(3) key_of_nonempty[OF ec]] .
    have fkeys: "(case hm_get ?keymap (tuple_of (?K m)) of Some fks \<Rightarrow> fks | None \<Rightarrow> []) =
        map (\<lambda>j. tuple_of (?F j)) (filter (\<lambda>j. ?P j = ?K m) ?js)"
      unfolding keymap_get same ..
    have one: "?one m = List.map_filter (\<lambda>j. map_of (map (\<lambda>r. (?R r, r)) ?fetched) (?F j)) (filter (\<lambda>j. ?P j = ?K m) ?js)"
      unfolding fkeys List.map_filter_def map_map filter_map comp_def
        index_lookup[of ?R, OF distR nonempty(2) nonempty(1)] ..
    have "?K m \<in> set ?keys" using that by simp
    then show ?thesis unfolding one by (rule two_queries_agree[OF _ dist refl refl])
  qed
  have "map mset (map ?one items) = map (\<lambda>m. mset (concat (map (\<lambda>r. map (\<lambda>_. r) (filter (\<lambda>j.
      \<not> list_ex null (?K m) \<and> ?P j = ?K m \<and> \<not> list_ex null (?F j) \<and> ?R r = ?F j) (jrows jb w))) (rrows s w)))) items"
    unfolding map_map comp_def by (rule map_cong[OF refl]) (rule holder)
  with run show ?thesis by blast
qed

text \<open>C25. Two ways through a junction: loading many-to-many with two queries gives every model the same
  related models as the single joined query does, up to their order, when the junction's query joins
  the same rows and the target's key identifies its rows.\<close>

theorem many_to_many_agrees_with_join:
  assumes "selects_rows dbj null jval jrows" "selects_rows db null rval rrows" "selects_joined dbv null val joined"
    and "rl_via rel = Some via" "rel_type (rl_to rel) = HasOne" "to_tbl via = via_table"
    and "knows ec (from_col via)" "decodes er rval (to_tbl (rl_to rel)) (to_col (rl_to rel))"
    and "decodes ej jval (to_tbl via) (to_col via)" "decodes ej jval (from_tbl (rl_to rel)) (from_col (rl_to rel))"
    and "arity (from_col via) = arity (to_col via)" "arity (from_col (rl_to rel)) = arity (to_col (rl_to rel))"
    and "iterates shuffle"
    and "distinct (map (\<lambda>r. row_key (rval r) (to_tbl (rl_to rel)) (to_col (rl_to rel))) (rrows s w))"
    and "joined s (rl_to rel) w = inner_join null rval jval (rl_to rel) (rrows s w) (jrows jb w)"
    and "\<And>r j. row_key (val (r, j)) (to_tbl via) (to_col via) = row_key (jval j) (to_tbl via) (to_col via)"
  shows "\<exists>two one. load_many_to_many shuffle ec ej er dt dbj db items (entity_select s) jb via_table rel w = Ret (Inr two, w) \<and>
    load_many ec er' dt (\<lambda>r. r) dbv items (entity_select s) rel w = Ret (Inr one, w) \<and> map mset two = map mset one"
proof -
  obtain two where two: "load_many_to_many shuffle ec ej er dt dbj db items (entity_select s) jb via_table rel w = Ret (Inr two, w)"
    and two_mset: "map mset two = map (\<lambda>m. mset (concat (map (\<lambda>r. map (\<lambda>_. r) (filter (\<lambda>j.
      \<not> list_ex null (key_of ec (from_col via) m) \<and> row_key (jval j) (to_tbl via) (to_col via) = key_of ec (from_col via) m \<and>
      \<not> list_ex null (row_key (jval j) (from_tbl (rl_to rel)) (from_col (rl_to rel))) \<and>
      row_key (rval r) (to_tbl (rl_to rel)) (to_col (rl_to rel)) = row_key (jval j) (from_tbl (rl_to rel)) (from_col (rl_to rel)))
      (jrows jb w))) (rrows s w)))) items"
    using load_many_to_many_spec[OF assms(1,2,4-14)] by blast
  let ?one = "map (\<lambda>m. map fst (filter (\<lambda>rj. has_key null (val rj) (to_tbl via) (to_col via) (key_of ec (from_col via) m))
      (joined s (rl_to rel) w))) items"
  have one: "load_many ec er' dt (\<lambda>r. r) dbv items (entity_select s) rel w = Ret (Inr ?one, w)"
    using load_via_spec[OF assms(3) _ assms(7,11), of "entity_select s" dt "\<lambda>r. r" vec_container items "rl_to rel" w] assms(4)
    by (simp add: load_many_def loader_impl_def loader_impl_impl_def selected_def entity_select_def)
  have "map mset two = map mset ?one"
    unfolding two_mset map_map comp_def assms(15) has_key_def[of _ "rval _"]
      inner_join_of_key[where val = val and tbl = "to_tbl via" and to = "to_col via"
        and P = "\<lambda>j. row_key (jval j) (to_tbl via) (to_col via)", OF assms(16)] ..
  with two one show ?thesis by blast
qed

definition cake_filling_cake :: "unit relation_def" where
  "cake_filling_cake = plain_relation HasMany ''cake'' ''id'' ''cake_filling'' ''cake_id'' True"

definition cake_filling_filling :: "unit relation_def" where
  "cake_filling_filling = plain_relation HasOne ''cake_filling'' ''filling_id'' ''filling'' ''id'' False"

definition fillings :: "sample_row list" where
  "fillings = [sample_row [(''id'', 10)], sample_row [(''id'', 20)]]"

definition cake_fillings :: "sample_row list" where
  "cake_fillings = map (\<lambda>(c, f). sample_row [(''cake_id'', c), (''filling_id'', f)]) [(1, 20), (1, 10), (2, 20)]"

definition cake_to_filling :: "unit related" where
  "cake_to_filling = \<lparr>rl_to = cake_filling_filling, rl_via = Some cake_filling_cake\<rparr>"

lemma many_to_many_agrees_with_join_witness:
  "\<exists>two one. load_many_to_many rev (sample_columns [''id'']) (sample_columns [''cake_id'', ''filling_id''])
      (sample_columns [''id'']) sample_texts (sample_db (\<lambda>_. cake_fillings) (\<lambda>_ _. []) [])
      (sample_db (\<lambda>_. fillings) (\<lambda>_ _. []) []) [cake 1, cake 2] (entity_select ()) ()
      (TableRef (TableName None ''cake_filling'') None) cake_to_filling () = Ret (Inr two, ()) \<and>
    load_many (sample_columns [''id'']) (sample_columns [''id'']) sample_texts (\<lambda>r. r)
      (sample_db (\<lambda>_. fillings) (\<lambda>_ rel. inner_join is_null (\<lambda>r (t, c). r c) (\<lambda>r (t, c). r c) rel fillings cake_fillings) ''cake_filling'')
      [cake 1, cake 2] (entity_select ()) cake_to_filling () = Ret (Inr one, ()) \<and> map mset two = map mset one"
  by (rule many_to_many_agrees_with_join[OF sample_selects_rows sample_selects_rows sample_selects_joined,
      where via = cake_filling_cake])
    (simp_all add: cake_to_filling_def cake_filling_cake_def cake_filling_filling_def plain_relation_def sample_knows
      sample_decodes iterates_def row_key_def create_table_columns_def table_column_def fillings_def sample_row_def)

end
