(* ===== verification/ActiveModels.thy ===== *)
theory ActiveModels
  imports ValueTuples
begin

text \<open>
  \<open>src/entity/active_value.rs\<close> and the state of \<open>src/entity/active_model.rs\<close>: a field is set, unchanged
  or not set, and an active model has one per column. Also the keys of active models under a relation,
  from \<open>src/query/util.rs\<close>.
\<close>

section \<open>Active values\<close>

datatype 'v active_value = Set 'v | Unchanged 'v | NotSet

fun is_set :: "'v active_value \<Rightarrow> bool" where
  "is_set (Set _) = True"
| "is_set _ = False"

fun is_unchanged :: "'v active_value \<Rightarrow> bool" where
  "is_unchanged (Unchanged _) = True"
| "is_unchanged _ = False"

fun is_not_set :: "'v active_value \<Rightarrow> bool" where
  "is_not_set NotSet = True"
| "is_not_set _ = False"

fun is_set_and :: "('v \<Rightarrow> bool) \<Rightarrow> 'v active_value \<Rightarrow> bool" where
  "is_set_and f (Set v) = f v"
| "is_set_and f _ = False"

fun is_unchanged_and :: "('v \<Rightarrow> bool) \<Rightarrow> 'v active_value \<Rightarrow> bool" where
  "is_unchanged_and f (Unchanged v) = f v"
| "is_unchanged_and f _ = False"

fun into_value :: "'v active_value \<Rightarrow> 'v option" where
  "into_value (Set v) = Some v"
| "into_value (Unchanged v) = Some v"
| "into_value NotSet = None"

definition av_take :: "'v active_value \<Rightarrow> 'v option \<times> 'v active_value" where
  "av_take a = (into_value a, NotSet)"

fun av_unwrap :: "'v active_value \<Rightarrow> 'v run" where
  "av_unwrap (Set v) = Ret v"
| "av_unwrap (Unchanged v) = Ret v"
| "av_unwrap NotSet = Panic ''Cannot unwrap ActiveValue::NotSet''"

definition av_reset :: "'v active_value \<Rightarrow> 'v active_value" where
  "av_reset a = (case fst (av_take a) of Some v \<Rightarrow> Set v | None \<Rightarrow> NotSet)"

fun set_ne :: "'v \<Rightarrow> 'v active_value \<Rightarrow> 'v active_value" where
  "set_ne v (Unchanged current) = (if v = current then Unchanged current else Set v)"
| "set_ne v _ = Set v"

fun set_ne_and :: "'v \<Rightarrow> ('v \<Rightarrow> bool) \<Rightarrow> 'v active_value \<Rightarrow> 'v active_value" where
  "set_ne_and v f (Unchanged current) = (if v = current then Unchanged current else Set v)"
| "set_ne_and v f (Set current) = (if \<not> f v then Set current else Set v)"
| "set_ne_and v f NotSet = Set v"

fun set_if_unset :: "'v \<Rightarrow> 'v active_value \<Rightarrow> 'v active_value" where
  "set_if_unset v NotSet = Set v"
| "set_if_unset v a = a"

fun av_to_option :: "'v active_value \<Rightarrow> 'v option active_value" where
  "av_to_option (Set v) = Set (Some v)"
| "av_to_option (Unchanged v) = Unchanged (Some v)"
| "av_to_option NotSet = NotSet"

section \<open>Active models\<close>

text \<open>
  What the code uses of an entity: its table, name and columns in declaration order (\<open>Column::iter\<close>),
  the primary key's columns, whether the key is generated, the columns by name, and which are
  nullable. An active model gives each column its active value.
\<close>

record 'c entity_meta =
  em_table :: table_ref
  em_name :: string
  em_columns :: "'c list"
  em_primary_key :: "'c list"
  em_auto_increment :: bool
  em_from_str :: "string \<Rightarrow> 'c option"
  em_nullable :: "'c \<Rightarrow> bool"

type_synonym ('c, 'v) active_model = "'c \<Rightarrow> 'v active_value"

definition am_take :: "'c \<Rightarrow> ('c, 'v) active_model \<Rightarrow> 'v active_value \<times> ('c, 'v) active_model" where
  "am_take c am = (am c, am(c := NotSet))"

definition am_set :: "'c \<Rightarrow> 'v \<Rightarrow> ('c, 'v) active_model \<Rightarrow> ('c, 'v) active_model" where
  "am_set c v am = am(c := Set v)"

definition am_set_if_not_equals :: "'c \<Rightarrow> 'v \<Rightarrow> ('c, 'v) active_model \<Rightarrow> ('c, 'v) active_model" where
  "am_set_if_not_equals c v am = am(c := set_ne v (am c))"

definition reset_all :: "'c entity_meta \<Rightarrow> ('c, 'v) active_model \<Rightarrow> ('c, 'v) active_model" where
  "reset_all em am = fold (\<lambda>c am. am(c := av_reset (am c))) (em_columns em) am"

definition is_changed :: "'c entity_meta \<Rightarrow> ('c, 'v) active_model \<Rightarrow> bool" where
  "is_changed em am = list_ex (\<lambda>c. is_set (am c)) (em_columns em)"

fun all_keys_set :: "('c, 'v) active_model \<Rightarrow> 'c list \<Rightarrow> bool" where
  "all_keys_set am [] = True"
| "all_keys_set am (c # cs) = (if is_not_set (am c) then False else all_keys_set am cs)"

definition is_update :: "'c entity_meta \<Rightarrow> ('c, 'v) active_model \<Rightarrow> bool" where
  "is_update em am = all_keys_set am (em_primary_key em)"

text \<open>\<open>next!()\<close> leaves the function with \<open>None\<close> at the first column without a value.\<close>

fun next_values :: "('c, 'v) active_model \<Rightarrow> 'c list \<Rightarrow> 'v list option" where
  "next_values am [] = Some []"
| "next_values am (c # cs) =
    Option.bind (into_value (am c)) (\<lambda>v. Option.bind (next_values am cs) (\<lambda>vs. Some (v # vs)))"

definition get_primary_key_value :: "'c entity_meta \<Rightarrow> ('c, 'v) active_model \<Rightarrow> 'v value_tuple option" where
  "get_primary_key_value em am =
    Option.bind (next_values am (em_primary_key em)) (\<lambda>vs.
      case vs of [a] \<Rightarrow> Some (VOne a) | [a, b] \<Rightarrow> Some (VTwo a b) | [a, b, c] \<Rightarrow> Some (VThree a b c)
      | _ \<Rightarrow> Some (VMany vs))"

text \<open>A model as an active model: every field unchanged.\<close>

definition into_active_model :: "('c \<Rightarrow> 'v) \<Rightarrow> ('c, 'v) active_model" where
  "into_active_model m = (\<lambda>c. Unchanged (m c))"

section \<open>Keys of relations\<close>

definition active_key_loop ::
  "'c entity_meta \<Rightarrow> ('c, 'v) active_model \<Rightarrow> string list \<Rightarrow> 'v value_tuple option \<Rightarrow>
    ('v value_tuple option, db_err) result" where
  "active_key_loop em am = try_fold (\<lambda>col vals.
     res_bind (ok_or (em_from_str em col) (mapping_failed col '' to column'')) (\<lambda>c.
     res_bind (ok_or (into_value (am c)) (AttrNotSet (em_name em @ ''.'' @ col))) (\<lambda>v.
       Inr (vt_push vals v))))"

definition get_key_from_active_model ::
  "'c entity_meta \<Rightarrow> identity \<Rightarrow> ('c, 'v) active_model \<Rightarrow> ('v value_tuple, db_err) result" where
  "get_key_from_active_model em cols am =
    res_bind (active_key_loop em am (columns cols) None) (\<lambda>vals.
      case vals of Some v \<Rightarrow> Inr v | None \<Rightarrow> Inl (Type ''Identity zero?''))"

definition set_key_on_active_model ::
  "'c entity_meta \<Rightarrow> identity \<Rightarrow> ('c, 'v) active_model \<Rightarrow> 'v value_tuple \<Rightarrow> (('c, 'v) active_model, db_err) result" where
  "set_key_on_active_model em cols am vals =
    (if vt_arity vals \<noteq> arity cols
     then Inl (Type (''Arity mismatch: '' @ show_nat (vt_arity vals) @ '' != '' @ show_nat (arity cols)))
     else try_fold (\<lambda>(col, v) am.
       res_bind (ok_or (em_from_str em col) (mapping_failed col '' to column'')) (\<lambda>c.
         Inr (am_set_if_not_equals c v am))) (zip (columns cols) (vt_values vals)) am)"

text \<open>\<open>clear_key_on_active_model\<close>: the columns are checked first, in order, and a column that is not
  nullable ends the function with \<open>false\<close>; then every value becomes the NULL of its type.\<close>

fun nullable_columns ::
  "'c entity_meta \<Rightarrow> string list \<Rightarrow> ((string \<times> 'c) list option, db_err) result" where
  "nullable_columns em [] = Inr (Some [])"
| "nullable_columns em (col # cols) =
    (case em_from_str em col of
       None \<Rightarrow> Inl (mapping_failed col '' to column'')
     | Some c \<Rightarrow>
         if \<not> em_nullable em c then Inr None
         else res_bind (nullable_columns em cols) (\<lambda>r. Inr (map_option ((#) (col, c)) r)))"

definition clear_key_on_active_model ::
  "('v \<Rightarrow> 'v) \<Rightarrow> 'c entity_meta \<Rightarrow> identity \<Rightarrow> ('c, 'v) active_model \<Rightarrow> (bool \<times> ('c, 'v) active_model, db_err) result" where
  "clear_key_on_active_model as_null em cols am =
    res_bind (nullable_columns em (columns cols)) (\<lambda>parsed.
      case parsed of
        None \<Rightarrow> Inr (False, am)
      | Some cs \<Rightarrow>
          res_bind (try_map (\<lambda>(col, c).
              res_bind (ok_or (into_value (am c)) (AttrNotSet (em_name em @ ''.'' @ col)))
                (\<lambda>v. Inr (c, as_null v))) cs)
            (\<lambda>vals. Inr (True, fold (\<lambda>(c, v). am_set c v) vals am)))"

text \<open>The parent's key on the child, and back.\<close>

definition set_parent_key_for_def ::
  "('u relation_def \<Rightarrow> string) \<Rightarrow> 'c entity_meta \<Rightarrow> 'd entity_meta \<Rightarrow> ('d, 'v) active_model \<Rightarrow> 'u relation_def \<Rightarrow>
    ('c, 'v) active_model \<Rightarrow> (('c, 'v) active_model, db_err) result" where
  "set_parent_key_for_def show_rel em pm parent rel am =
    (if is_owner rel then Inl (Type (''Relation '' @ show_rel rel @ '' is not belongs_to''))
     else res_bind (get_key_from_active_model pm (to_col rel) parent) (\<lambda>vals.
       set_key_on_active_model em (from_col rel) am vals))"

definition get_parent_key ::
  "string \<Rightarrow> 'c entity_meta \<Rightarrow> 'u relation_def \<Rightarrow> ('c, 'v) active_model \<Rightarrow> ('v value_tuple, db_err) result" where
  "get_parent_key other em rel am =
    (if is_owner rel
     then Inl (Type (''Relation from '' @ em_name em @ '' to '' @ other @ '' is not belongs_to''))
     else get_key_from_active_model em (from_col rel) am)"

definition clear_parent_key ::
  "('v \<Rightarrow> 'v) \<Rightarrow> string \<Rightarrow> 'c entity_meta \<Rightarrow> 'u relation_def \<Rightarrow> ('c, 'v) active_model \<Rightarrow>
    (bool \<times> ('c, 'v) active_model, db_err) result" where
  "clear_parent_key as_null other em rel am =
    (if is_owner rel
     then Inl (Type (''Relation from '' @ em_name em @ '' to '' @ other @ '' is not belongs_to''))
     else clear_key_on_active_model as_null em (from_col rel) am)"

section \<open>Facts\<close>

lemma all_keys_set_iff: "all_keys_set am cs \<longleftrightarrow> list_all (\<lambda>c. \<not> is_not_set (am c)) cs"
  by (induction cs) auto

lemma into_value_None [simp]: "into_value a = None \<longleftrightarrow> is_not_set a"
  by (cases a) auto

lemma next_values_Some:
  "next_values am cs = Some vs \<longleftrightarrow> list_all2 (\<lambda>c v. into_value (am c) = Some v) cs vs"
  by (induction cs arbitrary: vs) (auto simp: bind_eq_Some_conv list_all2_Cons1)

lemma next_values_all: "list_all (\<lambda>c. \<not> is_not_set (am c)) cs \<Longrightarrow> next_values am cs = Some (map (\<lambda>c. the (into_value (am c))) cs)"
proof (induction cs)
  case (Cons c cs)
  then show ?case by (cases "am c") auto
qed simp

lemma get_primary_key_tuple:
  "em_primary_key em \<noteq> [] \<Longrightarrow> is_update em am \<Longrightarrow>
    get_primary_key_value em am = vt_of_list (map (\<lambda>c. the (into_value (am c))) (em_primary_key em))"
  unfolding is_update_def all_keys_set_iff get_primary_key_value_def
  by (simp add: next_values_all) (cases "em_primary_key em" rule: vt_of_list.cases; simp)

lemma active_key_loop_Inr:
  "active_key_loop em am cols (vt_of_list vs) = Inr out \<longleftrightarrow>
    (\<exists>cs ws. those (map (em_from_str em) cols) = Some cs \<and> next_values am cs = Some ws \<and> out = vt_of_list (vs @ ws))"
proof (induction cols arbitrary: vs)
  case Nil
  then show ?case by (auto simp: active_key_loop_def)
next
  case (Cons c cols)
  show ?case
  proof (cases "em_from_str em c")
    case None
    then show ?thesis by (simp add: active_key_loop_def)
  next
    case (Some x)
    show ?thesis
    proof (cases "into_value (am x)")
      case None
      with Some show ?thesis by (cases "am x") (auto simp: active_key_loop_def)
    next
      case (Some v)
      have "active_key_loop em am (c # cols) (vt_of_list vs) = active_key_loop em am cols (vt_of_list (vs @ [v]))"
        using \<open>em_from_str em c = Some x\<close> Some by (simp add: active_key_loop_def vt_push_of_list)
      with Cons.IH[of "vs @ [v]"] \<open>em_from_str em c = Some x\<close> Some show ?thesis
        by (auto simp: bind_eq_Some_conv)
    qed
  qed
qed

end
