(* ===== verification/Mutations.thy ===== *)
theory Mutations
  imports ActiveModels Loader
begin

text \<open>
  \<open>src/query/insert.rs\<close>, \<open>update.rs\<close>, \<open>delete.rs\<close> and their executors in \<open>src/executor\<close>: the statements made
  of active models, what each execution does with and without \<open>RETURNING\<close>, and the operations of
  \<open>ActiveModelTrait\<close> that run them between the hooks. The database that runs the statements is an
  argument.
\<close>

section \<open>Statements\<close>

text \<open>\<open>SaveAs\<close> is a value under its column's \<open>save_as\<close>.\<close>

datatype ('c, 'v) sql_expr = SaveAs 'c 'v | KeywordNull | PlainValue 'v

text \<open>\<open>OnConflict::columns(target)\<close> with \<open>do_nothing_on(keys)\<close>.\<close>

record 'c on_conflict =
  oc_target :: "'c list"
  oc_do_nothing_on :: "'c list"

record ('c, 'v) insert_statement =
  ins_table :: table_ref
  ins_columns :: "'c list"
  ins_values :: "('c, 'v) sql_expr list list"
  ins_default_values :: bool
  ins_on_conflict :: "'c on_conflict option"
  ins_returning :: "'c list option"

record ('c, 'v) update_statement =
  upd_table :: table_ref
  upd_values :: "('c \<times> ('c, 'v) sql_expr) list"
  upd_where :: "('c \<times> 'v) list"
  upd_returning :: "'c list option"

text \<open>A delete by key equalities, and by any of some conditions on keys if there are such.\<close>

record ('c, 'v) delete_statement =
  del_table :: table_ref
  del_where :: "('c \<times> 'v) list"
  del_any :: "('c, 'v) key_condition list option"
  del_returning :: "'c list option"

datatype ('c, 'v) mutation =
    InsertStmt "('c, 'v) insert_statement"
  | UpdateStmt "('c, 'v) update_statement"
  | DeleteStmt "('c, 'v) delete_statement"

text \<open>\<open>InsertStatement::values_panic\<close>: a row must have a value for each column.\<close>

definition values_panic ::
  "('c, 'v) sql_expr list \<Rightarrow> ('c, 'v) insert_statement \<Rightarrow> ('c, 'v) insert_statement run" where
  "values_panic row q =
    (if length row \<noteq> length (ins_columns q) then Panic ''called `Result::unwrap()` on an `Err` value''
     else Ret (q\<lparr>ins_values := ins_values q @ [row]\<rparr>))"

definition new_insert :: "'c entity_meta \<Rightarrow> ('c, 'v) insert_statement" where
  "new_insert em = \<lparr>ins_table = em_table em, ins_columns = [], ins_values = [], ins_default_values = False,
     ins_on_conflict = None, ins_returning = None\<rparr>"

record ('c, 'v) insert =
  in_query :: "('c, 'v) insert_statement"
  in_primary_key :: "'v value_tuple option"

record ('c, 'v) insert_many =
  im_query :: "('c, 'v) insert_statement"
  im_primary_key :: "'v value_tuple option"
  im_empty :: bool

record ('c, 'v) try_insert =
  ti_insert :: "('c, 'v) insert"
  ti_empty :: bool

definition known_key :: "'c entity_meta \<Rightarrow> ('c, 'v) active_model \<Rightarrow> 'v value_tuple option" where
  "known_key em am = (if \<not> em_auto_increment em then get_primary_key_value em am else None)"

fun one_values :: "('c, 'v) active_model \<Rightarrow> 'c list \<Rightarrow> 'c list \<times> ('c, 'v) sql_expr list" where
  "one_values am [] = ([], [])"
| "one_values am (c # cs) =
    (let (av, am') = am_take c am; (cols, vals) = one_values am' cs in
     case av of
       Set v \<Rightarrow> (c # cols, SaveAs c v # vals)
     | Unchanged v \<Rightarrow> (c # cols, SaveAs c v # vals)
     | NotSet \<Rightarrow> (cols, vals))"

definition insert_one :: "'c entity_meta \<Rightarrow> ('c, 'v) active_model \<Rightarrow> ('c, 'v) insert run" where
  "insert_one em am =
    (let (cols, vals) = one_values am (em_columns em) in
     run_bind (values_panic vals ((new_insert em)\<lparr>ins_columns := cols, ins_default_values := True\<rparr>))
       (\<lambda>q. Ret \<lparr>in_query = q, in_primary_key = known_key em am\<rparr>))"

text \<open>
  \<open>InsertMany::many\<close>: per model, the columns it uses are marked, the NULL of each value's type is kept,
  and a missing value is written as the keyword; then every row is cut down to the used columns, with
  the kept NULL in place of the keyword.
\<close>

record ('c, 'v) many_state =
  ms_columns :: "'c option list"
  ms_null :: "'v option list"
  ms_rows :: "('c, 'v) sql_expr list list"
  ms_key :: "'v value_tuple option"

definition mark_value ::
  "('v \<Rightarrow> 'v) \<Rightarrow> nat \<times> 'c \<Rightarrow> ('c, 'v) active_model \<times> 'c option list \<times> 'v option list \<times> ('c, 'v) sql_expr list \<Rightarrow>
    ('c, 'v) active_model \<times> 'c option list \<times> 'v option list \<times> ('c, 'v) sql_expr list" where
  "mark_value as_null ic st =
    (case ic of (idx, c) \<Rightarrow> case st of (am, cols, null, vals) \<Rightarrow>
     (let (av, am) = am_take c am in
      case av of
        Set v \<Rightarrow> (am, cols[idx := Some c], null[idx := Some (as_null v)], vals @ [SaveAs c v])
      | Unchanged v \<Rightarrow> (am, cols[idx := Some c], null[idx := Some (as_null v)], vals @ [SaveAs c v])
      | NotSet \<Rightarrow> (am, cols, null, vals @ [KeywordNull])))"

definition mark_model ::
  "('v \<Rightarrow> 'v) \<Rightarrow> 'c entity_meta \<Rightarrow> ('c, 'v) active_model \<Rightarrow> ('c, 'v) many_state \<Rightarrow> ('c, 'v) many_state" where
  "mark_model as_null em am st =
    (case fold (mark_value as_null) (enumerate 0 (em_columns em)) (am, ms_columns st, ms_null st, []) of
       (_, cols, null, vals) \<Rightarrow>
         \<lparr>ms_columns = cols, ms_null = null, ms_rows = ms_rows st @ [vals], ms_key = known_key em am\<rparr>)"

definition cut_row ::
  "'c option list \<Rightarrow> 'v option list \<Rightarrow> ('c, 'v) sql_expr list \<Rightarrow> ('c, 'v) sql_expr list" where
  "cut_row cols null row =
    List.map_filter (\<lambda>(i, v).
      if cols ! i \<noteq> None then (if v \<noteq> KeywordNull then Some v else map_option PlainValue (null ! i)) else None)
      (enumerate 0 row)"

fun push_rows ::
  "('c, 'v) sql_expr list list \<Rightarrow> ('c, 'v) insert_statement \<Rightarrow> ('c, 'v) insert_statement run" where
  "push_rows [] q = Ret q"
| "push_rows (row # rows) q = run_bind (values_panic row q) (push_rows rows)"

definition insert_many_of ::
  "('v \<Rightarrow> 'v) \<Rightarrow> 'c entity_meta \<Rightarrow> ('c, 'v) active_model list \<Rightarrow> ('c, 'v) insert_many run" where
  "insert_many_of as_null em models =
    (let n = length (em_columns em);
         st = fold (mark_model as_null em) models
           \<lparr>ms_columns = replicate n None, ms_null = replicate n None, ms_rows = [], ms_key = None\<rparr>;
         is_empty = (ms_rows st = []);
         q = (if \<not> is_empty then (new_insert em)\<lparr>ins_columns := List.map_filter (\<lambda>c. c) (ms_columns st)\<rparr>
           else new_insert em)
     in run_bind (push_rows (map (cut_row (ms_columns st) (ms_null st)) (ms_rows st)) q)
          (\<lambda>q. Ret \<lparr>im_query = q, im_primary_key = ms_key st, im_empty = is_empty\<rparr>))"

definition on_conflict_primary_key :: "'c entity_meta \<Rightarrow> 'c on_conflict" where
  "on_conflict_primary_key em = \<lparr>oc_target = em_primary_key em, oc_do_nothing_on = em_primary_key em\<rparr>"

definition try_from_one :: "('c, 'v) insert \<Rightarrow> ('c, 'v) try_insert" where
  "try_from_one i = \<lparr>ti_insert = i, ti_empty = False\<rparr>"

definition try_from_many :: "('c, 'v) insert_many \<Rightarrow> ('c, 'v) try_insert" where
  "try_from_many im =
    \<lparr>ti_insert = \<lparr>in_query = im_query im, in_primary_key = im_primary_key im\<rparr>, ti_empty = im_empty im\<rparr>"

definition one_do_nothing :: "'c entity_meta \<Rightarrow> ('c, 'v) insert \<Rightarrow> ('c, 'v) try_insert" where
  "one_do_nothing em i =
    try_from_one (i\<lparr>in_query := (in_query i)\<lparr>ins_on_conflict := Some (on_conflict_primary_key em)\<rparr>\<rparr>)"

definition many_do_nothing :: "'c entity_meta \<Rightarrow> ('c, 'v) insert_many \<Rightarrow> ('c, 'v) try_insert" where
  "many_do_nothing em im =
    try_from_many (im\<lparr>im_query := (im_query im)\<lparr>ins_on_conflict := Some (on_conflict_primary_key em)\<rparr>\<rparr>)"

definition insert_on_conflict :: "'c on_conflict \<Rightarrow> ('c, 'v) insert \<Rightarrow> ('c, 'v) insert" where
  "insert_on_conflict oc i = i\<lparr>in_query := (in_query i)\<lparr>ins_on_conflict := Some oc\<rparr>\<rparr>"

definition many_on_conflict :: "'c on_conflict \<Rightarrow> ('c, 'v) insert_many \<Rightarrow> ('c, 'v) insert_many" where
  "many_on_conflict oc im = im\<lparr>im_query := (im_query im)\<lparr>ins_on_conflict := Some oc\<rparr>\<rparr>"

definition one_do_nothing_on :: "'c entity_meta \<Rightarrow> 'c list \<Rightarrow> ('c, 'v) insert \<Rightarrow> ('c, 'v) try_insert" where
  "one_do_nothing_on em cs i =
    try_from_one (insert_on_conflict \<lparr>oc_target = cs, oc_do_nothing_on = em_primary_key em\<rparr> i)"

definition many_do_nothing_on :: "'c entity_meta \<Rightarrow> 'c list \<Rightarrow> ('c, 'v) insert_many \<Rightarrow> ('c, 'v) try_insert" where
  "many_do_nothing_on em cs im =
    try_from_many (many_on_conflict \<lparr>oc_target = cs, oc_do_nothing_on = em_primary_key em\<rparr> im)"

text \<open>\<open>Update::one\<close> and \<open>Delete::one\<close> filter on the whole primary key, or hold the error.\<close>

fun key_filter :: "db_err \<Rightarrow> ('c, 'v) active_model \<Rightarrow> 'c list \<Rightarrow> (('c \<times> 'v) list, db_err) result" where
  "key_filter e am [] = Inr []"
| "key_filter e am (c # cs) =
    (case am c of
       Set v \<Rightarrow> res_bind (key_filter e am cs) (\<lambda>w. Inr ((c, v) # w))
     | Unchanged v \<Rightarrow> res_bind (key_filter e am cs) (\<lambda>w. Inr ((c, v) # w))
     | NotSet \<Rightarrow> Inl e)"

definition set_values :: "('c, 'v) active_model \<Rightarrow> 'c list \<Rightarrow> ('c \<times> ('c, 'v) sql_expr) list" where
  "set_values am cs = List.map_filter (\<lambda>c. case am c of Set v \<Rightarrow> Some (c, SaveAs c v) | _ \<Rightarrow> None) cs"

definition update_one ::
  "'c entity_meta \<Rightarrow> ('c, 'v) active_model \<Rightarrow> (('c, 'v) update_statement, db_err) result" where
  "update_one em am =
    res_bind (key_filter (PrimaryKeyNotSet ''UpdateOne'') am (em_primary_key em)) (\<lambda>conds.
      Inr \<lparr>upd_table = em_table em,
        upd_values = set_values am (filter (\<lambda>c. c \<notin> set (em_primary_key em)) (em_columns em)),
        upd_where = conds, upd_returning = None\<rparr>)"

definition update_many_set ::
  "'c entity_meta \<Rightarrow> ('c, 'v) active_model \<Rightarrow> ('c, 'v) update_statement \<Rightarrow> ('c, 'v) update_statement" where
  "update_many_set em am q = q\<lparr>upd_values := upd_values q @ set_values am (em_columns em)\<rparr>"

definition delete_one ::
  "'c entity_meta \<Rightarrow> ('c, 'v) active_model \<Rightarrow> (('c, 'v) delete_statement, db_err) result" where
  "delete_one em am =
    res_bind (key_filter (PrimaryKeyNotSet ''DeleteOne'') am (em_primary_key em)) (\<lambda>conds.
      Inr \<lparr>del_table = em_table em, del_where = conds, del_any = None, del_returning = None\<rparr>)"

section \<open>Executing\<close>

record exec_result =
  er_rows_affected :: "64 word"
  er_last_insert_id :: "64 word"

text \<open>\<open>DeleteMany\<close> with one filter, which may be an \<open>any\<close>.\<close>

definition delete_many_any ::
  "'c entity_meta \<Rightarrow> ('c, 'v) key_condition list \<Rightarrow> ('c, 'v) delete_statement" where
  "delete_many_any em cs = \<lparr>del_table = em_table em, del_where = [], del_any = Some cs, del_returning = None\<rparr>"

text \<open>
  The database: statements executed, statements whose \<open>RETURNING\<close> rows are read, a select by primary
  key, and the decoding of rows and of a generated key.
\<close>

record ('c, 'v, 'row, 'm, 'w) mutation_db =
  mu_backend :: db_backend
  mu_returning :: bool
  mu_execute :: "('c, 'v) mutation \<Rightarrow> (exec_result, 'w) io"
  mu_query_one :: "('c, 'v) mutation \<Rightarrow> ('row option, 'w) io"
  mu_query_all :: "('c, 'v) mutation \<Rightarrow> ('row list, 'w) io"
  mu_find_by_id :: "'v value_tuple \<Rightarrow> ('m option, 'w) io"
  mu_model :: "'row \<Rightarrow> ('m, db_err) result"
  mu_key :: "'row \<Rightarrow> 'c list \<Rightarrow> ('v value_tuple, db_err) result"
  mu_from_u64 :: "64 word \<Rightarrow> ('v value_tuple, db_err) result"

definition returning_not_supported :: "('c, 'v, 'row, 'm, 'w) mutation_db \<Rightarrow> string \<Rightarrow> db_err" where
  "returning_not_supported db ctx = BackendNotSupported (db_backend_as_str (mu_backend db)) ctx"

definition returning_one :: "('c, 'v, 'row, 'm, 'w) mutation_db \<Rightarrow> ('c, 'v) mutation \<Rightarrow> ('m option, 'w) act" where
  "returning_one db q =
    act_bind (act_io (mu_query_one db q)) (\<lambda>row.
      case row of
        None \<Rightarrow> act_ret None
      | Some row \<Rightarrow> act_bind (act_res (mu_model db row)) (\<lambda>m. act_ret (Some m)))"

definition returning_all :: "('c, 'v, 'row, 'm, 'w) mutation_db \<Rightarrow> ('c, 'v) mutation \<Rightarrow> ('m list, 'w) act" where
  "returning_all db q =
    act_bind (act_io (mu_query_all db q)) (\<lambda>rows. act_res (try_map (mu_model db) rows))"

definition exec_insert ::
  "'c entity_meta \<Rightarrow> ('c, 'v, 'row, 'm, 'w) mutation_db \<Rightarrow> 'v value_tuple option \<Rightarrow> ('c, 'v) insert_statement \<Rightarrow>
    ('v value_tuple, 'w) act" where
  "exec_insert em db primary_key q =
    (if mu_returning db then
       act_bind (act_io (mu_query_all db (InsertStmt q))) (\<lambda>rows.
         if rows = [] then act_err RecordNotInserted
         else act_res (map_err (\<lambda>_. UnpackInsertId) (mu_key db (last rows) (em_primary_key em))))
     else
       act_bind (act_io (mu_execute db (InsertStmt q))) (\<lambda>res.
         if er_rows_affected res = 0 then act_err RecordNotInserted
         else case primary_key of
           Some key \<Rightarrow> act_ret key
         | None \<Rightarrow>
             if mu_backend db = MySql \<and> er_last_insert_id res = 0 then act_err RecordNotInserted
             else act_res (map_err (\<lambda>_. UnpackInsertId) (mu_from_u64 db (er_last_insert_id res)))))"

definition insert_exec ::
  "'c entity_meta \<Rightarrow> ('c, 'v, 'row, 'm, 'w) mutation_db \<Rightarrow> ('c, 'v) insert \<Rightarrow> ('v value_tuple, 'w) act" where
  "insert_exec em db i =
    exec_insert em db (in_primary_key i)
      (if mu_returning db then (in_query i)\<lparr>ins_returning := Some (em_primary_key em)\<rparr> else in_query i)"

definition insert_exec_without_returning ::
  "('c, 'v, 'row, 'm, 'w) mutation_db \<Rightarrow> ('c, 'v) insert \<Rightarrow> (64 word, 'w) act" where
  "insert_exec_without_returning db i =
    act_bind (act_io (mu_execute db (InsertStmt (in_query i)))) (\<lambda>res. act_ret (er_rows_affected res))"

definition insert_exec_with_returning ::
  "'c entity_meta \<Rightarrow> ('c, 'v, 'row, 'm, 'w) mutation_db \<Rightarrow> ('c, 'v) insert \<Rightarrow> ('m, 'w) act" where
  "insert_exec_with_returning em db i =
    act_bind
      (if mu_returning db then
         returning_one db (InsertStmt ((in_query i)\<lparr>ins_returning := Some (em_columns em)\<rparr>))
       else
         act_bind (exec_insert em db (in_primary_key i) (in_query i)) (\<lambda>key. act_io (mu_find_by_id db key)))
      (\<lambda>found. case found of
         Some m \<Rightarrow> act_ret m
       | None \<Rightarrow> act_err (RecordNotFound ''Failed to find inserted item''))"

definition insert_exec_with_returning_keys ::
  "'c entity_meta \<Rightarrow> ('c, 'v, 'row, 'm, 'w) mutation_db \<Rightarrow> ('c, 'v) insert \<Rightarrow> ('v value_tuple list, 'w) act" where
  "insert_exec_with_returning_keys em db i =
    (if mu_returning db then
       act_bind (act_io (mu_query_all db (InsertStmt ((in_query i)\<lparr>ins_returning := Some (em_primary_key em)\<rparr>))))
         (\<lambda>rows. act_res (try_map (\<lambda>row. map_err (\<lambda>_. UnpackInsertId) (mu_key db row (em_primary_key em))) rows))
     else act_err (returning_not_supported db ''INSERT RETURNING''))"

definition insert_exec_with_returning_many ::
  "'c entity_meta \<Rightarrow> ('c, 'v, 'row, 'm, 'w) mutation_db \<Rightarrow> ('c, 'v) insert \<Rightarrow> ('m list, 'w) act" where
  "insert_exec_with_returning_many em db i =
    (if mu_returning db
     then returning_all db (InsertStmt ((in_query i)\<lparr>ins_returning := Some (em_columns em)\<rparr>))
     else act_err (returning_not_supported db ''INSERT RETURNING''))"

definition into_one :: "('c, 'v) insert_many \<Rightarrow> ('c, 'v) insert run" where
  "into_one im =
    (if im_empty im then Panic ''assertion failed: !self.empty''
     else Ret \<lparr>in_query = im_query im, in_primary_key = im_primary_key im\<rparr>)"

definition many_exec ::
  "'c entity_meta \<Rightarrow> ('c, 'v, 'row, 'm, 'w) mutation_db \<Rightarrow> ('c, 'v) insert_many \<Rightarrow> ('v value_tuple option, 'w) act" where
  "many_exec em db im =
    (if im_empty im then act_ret None
     else act_bind (act_run (into_one im)) (\<lambda>i. act_bind (insert_exec em db i) (\<lambda>key. act_ret (Some key))))"

definition many_exec_with_returning ::
  "'c entity_meta \<Rightarrow> ('c, 'v, 'row, 'm, 'w) mutation_db \<Rightarrow> ('c, 'v) insert_many \<Rightarrow> ('m list, 'w) act" where
  "many_exec_with_returning em db im =
    (if im_empty im then act_ret []
     else act_bind (act_run (into_one im)) (insert_exec_with_returning_many em db))"

definition many_exec_without_returning ::
  "('c, 'v, 'row, 'm, 'w) mutation_db \<Rightarrow> ('c, 'v) insert_many \<Rightarrow> (64 word, 'w) act" where
  "many_exec_without_returning db im =
    (if im_empty im then act_ret 0
     else act_bind (act_run (into_one im)) (insert_exec_without_returning db))"

definition many_exec_with_returning_keys ::
  "'c entity_meta \<Rightarrow> ('c, 'v, 'row, 'm, 'w) mutation_db \<Rightarrow> ('c, 'v) insert_many \<Rightarrow> ('v value_tuple list, 'w) act" where
  "many_exec_with_returning_keys em db im =
    (if im_empty im then act_ret []
     else act_bind (act_run (into_one im)) (insert_exec_with_returning_keys em db))"

datatype 'a try_insert_result = Empty | Conflicted | Inserted 'a

definition try_exec_by ::
  "(('c, 'v) insert \<Rightarrow> ('a, 'w) act) \<Rightarrow> ('c, 'v) try_insert \<Rightarrow> ('a try_insert_result, 'w) act" where
  "try_exec_by exec t =
    (if ti_empty t then act_ret Empty
     else (\<lambda>w. run_bind (exec (ti_insert t) w) (\<lambda>rw.
       case fst rw of
         Inr v \<Rightarrow> Ret (Inr (Inserted v), snd rw)
       | Inl e \<Rightarrow> if e = RecordNotInserted then Ret (Inr Conflicted, snd rw) else Ret (Inl e, snd rw))))"

definition try_exec where
  "try_exec em db t = try_exec_by (insert_exec em db) t"

definition try_exec_without_returning where
  "try_exec_without_returning db t = try_exec_by (insert_exec_without_returning db) t"

definition try_exec_with_returning where
  "try_exec_with_returning em db t = try_exec_by (insert_exec_with_returning em db) t"

definition try_exec_with_returning_keys where
  "try_exec_with_returning_keys em db t = try_exec_by (insert_exec_with_returning_keys em db) t"

definition try_exec_with_returning_many where
  "try_exec_with_returning_many em db t = try_exec_by (insert_exec_with_returning_many em db) t"

subsection \<open>Updates and deletes\<close>

definition find_updated_model_by_id ::
  "'c entity_meta \<Rightarrow> ('c, 'v, 'row, 'm, 'w) mutation_db \<Rightarrow> ('c, 'v) active_model \<Rightarrow> ('m, 'w) act" where
  "find_updated_model_by_id em db am =
    (case get_primary_key_value em am of
       None \<Rightarrow> act_err UpdateGetPrimaryKey
     | Some key \<Rightarrow>
         act_bind (act_io (mu_find_by_id db key)) (\<lambda>found.
           case found of
             Some m \<Rightarrow> act_ret m
           | None \<Rightarrow> act_err (RecordNotFound ''Failed to find updated item'')))"

definition updater_exec ::
  "('c, 'v, 'row, 'm, 'w) mutation_db \<Rightarrow> bool \<Rightarrow> ('c, 'v) update_statement \<Rightarrow> (64 word, 'w) act" where
  "updater_exec db check_record_exists q =
    (if upd_values q = [] then act_ret 0
     else act_bind (act_io (mu_execute db (UpdateStmt q))) (\<lambda>res.
       if check_record_exists \<and> er_rows_affected res = 0 then act_err RecordNotUpdated
       else act_ret (er_rows_affected res)))"

definition exec_update_and_return_updated ::
  "'c entity_meta \<Rightarrow> ('c, 'v, 'row, 'm, 'w) mutation_db \<Rightarrow> ('c, 'v) update_statement \<Rightarrow> ('c, 'v) active_model \<Rightarrow>
    ('m, 'w) act" where
  "exec_update_and_return_updated em db q am =
    (if upd_values q = [] then find_updated_model_by_id em db am
     else if mu_returning db then
       act_bind (returning_one db (UpdateStmt (q\<lparr>upd_returning := Some (em_columns em)\<rparr>))) (\<lambda>found.
         case found of Some m \<Rightarrow> act_ret m | None \<Rightarrow> act_err RecordNotUpdated)
     else
       act_bind (updater_exec db True q) (\<lambda>_. find_updated_model_by_id em db am))"

definition exec_update_with_returning ::
  "'c entity_meta \<Rightarrow> ('c, 'v, 'row, 'm, 'w) mutation_db \<Rightarrow> ('c, 'v) update_statement \<Rightarrow> ('m list, 'w) act" where
  "exec_update_with_returning em db q =
    (if upd_values q = [] then act_ret []
     else if mu_returning db then returning_all db (UpdateStmt (q\<lparr>upd_returning := Some (em_columns em)\<rparr>))
     else act_err (returning_not_supported db ''UPDATE RETURNING''))"

definition update_one_exec ::
  "'c entity_meta \<Rightarrow> ('c, 'v, 'row, 'm, 'w) mutation_db \<Rightarrow> ('c, 'v) active_model \<Rightarrow> ('m, 'w) act" where
  "update_one_exec em db am =
    act_bind (act_res (update_one em am)) (\<lambda>q. exec_update_and_return_updated em db q am)"

definition update_one_exec_without_returning ::
  "'c entity_meta \<Rightarrow> ('c, 'v, 'row, 'm, 'w) mutation_db \<Rightarrow> ('c, 'v) active_model \<Rightarrow> (64 word, 'w) act" where
  "update_one_exec_without_returning em db am =
    act_bind (act_res (update_one em am)) (\<lambda>q. updater_exec db True q)"

definition update_many_exec ::
  "('c, 'v, 'row, 'm, 'w) mutation_db \<Rightarrow> ('c, 'v) update_statement \<Rightarrow> (64 word, 'w) act" where
  "update_many_exec db q = updater_exec db False q"

definition exec_delete ::
  "('c, 'v, 'row, 'm, 'w) mutation_db \<Rightarrow> ('c, 'v) delete_statement \<Rightarrow> (64 word, 'w) act" where
  "exec_delete db q = act_bind (act_io (mu_execute db (DeleteStmt q))) (\<lambda>res. act_ret (er_rows_affected res))"

definition exec_delete_with_returning_many ::
  "'c entity_meta \<Rightarrow> ('c, 'v, 'row, 'm, 'w) mutation_db \<Rightarrow> ('c, 'v) delete_statement \<Rightarrow> ('m list, 'w) act" where
  "exec_delete_with_returning_many em db q =
    (if mu_returning db then returning_all db (DeleteStmt (q\<lparr>del_returning := Some (em_columns em)\<rparr>))
     else act_err (returning_not_supported db ''DELETE RETURNING''))"

definition exec_delete_with_returning_one ::
  "'c entity_meta \<Rightarrow> ('c, 'v, 'row, 'm, 'w) mutation_db \<Rightarrow> ('c, 'v) delete_statement \<Rightarrow> ('m option, 'w) act" where
  "exec_delete_with_returning_one em db q =
    (if mu_returning db then returning_one db (DeleteStmt (q\<lparr>del_returning := Some (em_columns em)\<rparr>))
     else act_err (returning_not_supported db ''DELETE RETURNING''))"

text \<open>Counts of several deletes are added at their width.\<close>

definition delete_merge :: "64 word \<Rightarrow> 64 word \<Rightarrow> 64 word" where
  "delete_merge affected n = affected + n"

definition delete_one_exec ::
  "'c entity_meta \<Rightarrow> ('c, 'v, 'row, 'm, 'w) mutation_db \<Rightarrow> ('c, 'v) active_model \<Rightarrow> (64 word, 'w) act" where
  "delete_one_exec em db am = act_bind (act_res (delete_one em am)) (exec_delete db)"

definition delete_one_exec_with_returning ::
  "'c entity_meta \<Rightarrow> ('c, 'v, 'row, 'm, 'w) mutation_db \<Rightarrow> ('c, 'v) active_model \<Rightarrow> ('m option, 'w) act" where
  "delete_one_exec_with_returning em db am =
    act_bind (act_res (delete_one em am)) (exec_delete_with_returning_one em db)"

section \<open>Saving an active model\<close>

text \<open>\<open>ActiveModelBehavior\<close>: the hooks around an insert (\<open>True\<close>), an update and a delete.\<close>

record ('c, 'v, 'm, 'w) active_hooks =
  hk_before_save :: "bool \<Rightarrow> ('c, 'v) active_model \<Rightarrow> (('c, 'v) active_model, 'w) act"
  hk_after_save :: "bool \<Rightarrow> 'm \<Rightarrow> ('m, 'w) act"
  hk_before_delete :: "('c, 'v) active_model \<Rightarrow> (('c, 'v) active_model, 'w) act"
  hk_after_delete :: "('c, 'v) active_model \<Rightarrow> (('c, 'v) active_model, 'w) act"

definition default_hooks :: "('c, 'v, 'm, 'w) active_hooks" where
  "default_hooks = \<lparr>hk_before_save = (\<lambda>ins. act_ret), hk_after_save = (\<lambda>ins. act_ret),
     hk_before_delete = act_ret, hk_after_delete = act_ret\<rparr>"

definition am_insert where
  "am_insert em db hk am =
    act_bind (hk_before_save hk True am) (\<lambda>am.
    act_bind (act_run (insert_one em am)) (\<lambda>i.
    act_bind (insert_exec_with_returning em db i) (\<lambda>m. hk_after_save hk True m)))"

definition am_update where
  "am_update em db hk am =
    act_bind (hk_before_save hk False am) (\<lambda>am.
    act_bind (update_one_exec em db am) (\<lambda>m. hk_after_save hk False m))"

definition am_update_without_returning where
  "am_update_without_returning em db hk am =
    act_bind (hk_before_save hk False am) (\<lambda>am. update_one_exec_without_returning em db am)"

definition am_save where
  "am_save em db hk to_active am =
    act_bind (if \<not> is_update em am then am_insert em db hk am else am_update em db hk am)
      (\<lambda>m. act_ret (to_active m))"

definition am_delete where
  "am_delete em db hk am =
    act_bind (hk_before_delete hk am) (\<lambda>am.
    act_bind (delete_one_exec em db am) (\<lambda>res.
    act_bind (hk_after_delete hk am) (\<lambda>_. act_ret res)))"

end
