(* ===== verification/MutationSpec.thy ===== *)
theory MutationSpec
  imports Mutations
begin

text \<open>
  What inserts, updates and saves promise: the rows of a bulk insert are aligned with its columns, a
  save is an insert or an update of the table it acts on, with the same outcome whether the backend
  has \<open>RETURNING\<close> or not, and what a conflict is reported as.
\<close>

section \<open>Bulk inserts\<close>

text \<open>
  The specification: the columns some model has a value for, in the entity's order; a cell is the
  model's value, or the NULL of the type the last model with a value has.
\<close>

definition used_columns :: "'c entity_meta \<Rightarrow> ('c, 'v) active_model list \<Rightarrow> 'c list" where
  "used_columns em models = filter (\<lambda>c. list_ex (\<lambda>m. \<not> is_not_set (m c)) models) (em_columns em)"

definition last_value :: "('c, 'v) active_model list \<Rightarrow> 'c \<Rightarrow> 'v option" where
  "last_value models c = fold (\<lambda>m acc. case into_value (m c) of None \<Rightarrow> acc | Some v \<Rightarrow> Some v) models None"

definition insert_cell ::
  "('v \<Rightarrow> 'v) \<Rightarrow> ('c, 'v) active_model list \<Rightarrow> ('c, 'v) active_model \<Rightarrow> 'c \<Rightarrow> ('c, 'v) sql_expr" where
  "insert_cell as_null models m c =
    (case into_value (m c) of Some v \<Rightarrow> SaveAs c v | None \<Rightarrow> PlainValue (as_null (the (last_value models c))))"

text \<open>One pass over the columns, and over the models.\<close>

definition marks :: "('c, 'v) active_model \<Rightarrow> 'c list \<Rightarrow> 'c option list \<Rightarrow> 'c option list" where
  "marks m cs cols = map2 (\<lambda>c old. case into_value (m c) of None \<Rightarrow> old | Some _ \<Rightarrow> Some c) cs cols"

definition nulls :: "('v \<Rightarrow> 'v) \<Rightarrow> ('c, 'v) active_model \<Rightarrow> 'c list \<Rightarrow> 'v option list \<Rightarrow> 'v option list" where
  "nulls as_null m cs null = map2 (\<lambda>c old. case into_value (m c) of None \<Rightarrow> old | Some v \<Rightarrow> Some (as_null v)) cs null"

definition raw_cell :: "('c, 'v) active_model \<Rightarrow> 'c \<Rightarrow> ('c, 'v) sql_expr" where
  "raw_cell m c = (case into_value (m c) of None \<Rightarrow> KeywordNull | Some v \<Rightarrow> SaveAs c v)"

lemma mark_value_step:
  "mark_value as_null (k, c) (am, cols @ x # cols', null @ y # null', vals) =
    (am(c := NotSet),
     cols @ (case into_value (am c) of None \<Rightarrow> x | Some _ \<Rightarrow> Some c) # cols',
     null @ (case into_value (am c) of None \<Rightarrow> y | Some v \<Rightarrow> Some (as_null v)) # null',
     vals @ [raw_cell am c])"
  if "length cols = k" "length null = k"
  using that by (cases "am c") (auto simp: mark_value_def am_take_def raw_cell_def list_update_append)

lemma marks_cong: "(\<And>c. c \<in> set cs \<Longrightarrow> m c = m' c) \<Longrightarrow> marks m cs cols = marks m' cs cols"
  unfolding marks_def by (intro map_cong refl) (auto dest: set_zip_leftD)

lemma nulls_cong: "(\<And>c. c \<in> set cs \<Longrightarrow> m c = m' c) \<Longrightarrow> nulls f m cs null = nulls f m' cs null"
  unfolding nulls_def by (intro map_cong refl) (auto dest: set_zip_leftD)

lemma mark_columns:
  "distinct cs \<Longrightarrow> length cols = length cs \<Longrightarrow> length null = length cs \<Longrightarrow>
    length pre = k \<Longrightarrow> length npre = k \<Longrightarrow>
    \<exists>am'. fold (mark_value as_null) (enumerate k cs) (am, pre @ cols, npre @ null, vals) =
      (am', pre @ marks am cs cols, npre @ nulls as_null am cs null, vals @ map (raw_cell am) cs)"
proof (induction cs arbitrary: k am pre cols npre null vals)
  case Nil
  then show ?case by (simp add: marks_def nulls_def)
next
  case (Cons c cs)
  from Cons.prems(2,3) obtain x cols' y null' where split: "cols = x # cols'" "null = y # null'"
    by (auto simp: length_Suc_conv)
  let ?x = "case into_value (am c) of None \<Rightarrow> x | Some _ \<Rightarrow> Some c"
  let ?y = "case into_value (am c) of None \<Rightarrow> y | Some v \<Rightarrow> Some (as_null v)"
  let ?am = "am(c := NotSet)"
  have same: "marks ?am cs cols' = marks am cs cols'" "nulls as_null ?am cs null' = nulls as_null am cs null'"
    "map (raw_cell ?am) cs = map (raw_cell am) cs"
    using Cons.prems(1) by (auto intro!: marks_cong nulls_cong simp: raw_cell_def)
  have "\<exists>am'. fold (mark_value as_null) (enumerate (Suc k) cs)
        (?am, (pre @ [?x]) @ cols', (npre @ [?y]) @ null', vals @ [raw_cell am c]) =
      (am', (pre @ [?x]) @ marks ?am cs cols', (npre @ [?y]) @ nulls as_null ?am cs null',
        (vals @ [raw_cell am c]) @ map (raw_cell ?am) cs)"
    by (rule Cons.IH) (use Cons.prems split in simp_all)
  then obtain am' where "fold (mark_value as_null) (enumerate (Suc k) cs)
        (?am, (pre @ [?x]) @ cols', (npre @ [?y]) @ null', vals @ [raw_cell am c]) =
      (am', (pre @ [?x]) @ marks ?am cs cols', (npre @ [?y]) @ nulls as_null ?am cs null',
        (vals @ [raw_cell am c]) @ map (raw_cell ?am) cs)" by blast
  then have "fold (mark_value as_null) (enumerate k (c # cs)) (am, pre @ cols, npre @ null, vals) =
      (am', (pre @ [?x]) @ marks am cs cols', (npre @ [?y]) @ nulls as_null am cs null',
        (vals @ [raw_cell am c]) @ map (raw_cell am) cs)"
    using Cons.prems(4,5) unfolding split same by (simp add: mark_value_step)
  then show ?case unfolding split by (auto simp: marks_def nulls_def)
qed

lemma mark_model_result:
  assumes "distinct (em_columns em)" "length (ms_columns st) = length (em_columns em)"
    "length (ms_null st) = length (em_columns em)"
  shows "mark_model as_null em m st =
    \<lparr>ms_columns = marks m (em_columns em) (ms_columns st), ms_null = nulls as_null m (em_columns em) (ms_null st),
     ms_rows = ms_rows st @ [map (raw_cell m) (em_columns em)], ms_key = known_key em m\<rparr>"
  using mark_columns[OF assms, of "[]" 0 "[]" as_null m "[]"] by (auto simp: mark_model_def)

lemma length_marks [simp]: "length (marks m cs cols) = min (length cs) (length cols)"
  "length (nulls f m cs null) = min (length cs) (length null)"
  by (simp_all add: marks_def nulls_def)

text \<open>What is marked after some models.\<close>

lemma marked:
  assumes "distinct (em_columns em)"
  shows "let st = fold (mark_model as_null em) models
           \<lparr>ms_columns = replicate (length (em_columns em)) None, ms_null = replicate (length (em_columns em)) None,
            ms_rows = [], ms_key = None\<rparr> in
    ms_columns st = map (\<lambda>c. if list_ex (\<lambda>m. \<not> is_not_set (m c)) models then Some c else None) (em_columns em) \<and>
    ms_null st = map (\<lambda>c. map_option as_null (last_value models c)) (em_columns em) \<and>
    ms_rows st = map (\<lambda>m. map (raw_cell m) (em_columns em)) models"
proof (induction models rule: rev_induct)
  case Nil
  then show ?case by (simp add: Let_def last_value_def map_replicate_const)
next
  case (snoc m models)
  define st where "st = fold (mark_model as_null em) models
    \<lparr>ms_columns = replicate (length (em_columns em)) None, ms_null = replicate (length (em_columns em)) None,
     ms_rows = [], ms_key = None\<rparr>"
  from snoc have st: "ms_columns st = map (\<lambda>c. if list_ex (\<lambda>m. \<not> is_not_set (m c)) models then Some c else None) (em_columns em)"
    "ms_null st = map (\<lambda>c. map_option as_null (last_value models c)) (em_columns em)"
    "ms_rows st = map (\<lambda>m. map (raw_cell m) (em_columns em)) models"
    unfolding st_def Let_def by blast+
  have map2_map: "map2 f cs (map g cs) = map (\<lambda>c. f c (g c)) cs" for f :: "'a \<Rightarrow> 'x \<Rightarrow> 'y" and g cs
    by (induction cs) auto
  have step: "mark_model as_null em m st =
    \<lparr>ms_columns = marks m (em_columns em) (ms_columns st), ms_null = nulls as_null m (em_columns em) (ms_null st),
     ms_rows = ms_rows st @ [map (raw_cell m) (em_columns em)], ms_key = known_key em m\<rparr>"
    using mark_model_result[OF assms, of st as_null m] st by simp
  have marks': "marks m (em_columns em) (ms_columns st) =
      map (\<lambda>c. if list_ex (\<lambda>m. \<not> is_not_set (m c)) (models @ [m]) then Some c else None) (em_columns em)"
    unfolding marks_def st(1) map2_map by (auto intro!: map_cong split: option.splits simp flip: into_value_None)
  have nulls': "nulls as_null m (em_columns em) (ms_null st) =
      map (\<lambda>c. map_option as_null (last_value (models @ [m]) c)) (em_columns em)"
    unfolding nulls_def st(2) map2_map by (auto simp: last_value_def simp del: into_value_None split: option.splits)
  show ?case
    using step marks' nulls' st(3) by (simp add: Let_def st_def[symmetric])
qed

lemma enumerate_zip:
  "length cols = length row \<Longrightarrow> length null = length row \<Longrightarrow>
    map (\<lambda>(i, v). (cols ! i, null ! i, v)) (enumerate 0 row) = zip cols (zip null row)"
  by (intro nth_equalityI) (auto simp: nth_enumerate_eq)

lemma map_filter_map: "List.map_filter g (map h xs) = List.map_filter (\<lambda>x. g (h x)) xs"
  by (simp add: List.map_filter_def filter_map comp_def)

lemma zip_maps: "zip (map a cs) (zip (map b cs) (map d cs)) = map (\<lambda>c. (a c, b c, d c)) cs"
  by (induction cs) auto

lemma last_value_used: "list_ex (\<lambda>m. \<not> is_not_set (m c)) models \<Longrightarrow> last_value models c \<noteq> None"
  unfolding last_value_def by (induction models rule: rev_induct) (auto split: option.splits)

lemma cut_row_result:
  "cut_row (map (\<lambda>c. if list_ex (\<lambda>m. \<not> is_not_set (m c)) models then Some c else None) cs)
      (map (\<lambda>c. map_option as_null (last_value models c)) cs) (map (raw_cell m) cs) =
    map (insert_cell as_null models m) (filter (\<lambda>c. list_ex (\<lambda>m. \<not> is_not_set (m c)) models) cs)"
  (is "cut_row (map ?col cs) (map ?null cs) _ = _")
  if "m \<in> set models"
proof -
  let ?g = "\<lambda>(col, null, v). if col \<noteq> None then (if v \<noteq> KeywordNull then Some v else map_option PlainValue null) else None"
  have "cut_row (map ?col cs) (map ?null cs) (map (raw_cell m) cs) =
      List.map_filter ?g (map (\<lambda>(i, v). (map ?col cs ! i, map ?null cs ! i, v)) (enumerate 0 (map (raw_cell m) cs)))"
    unfolding map_filter_map cut_row_def by (intro arg_cong2[of _ _ _ _ List.map_filter] refl) auto
  also have "\<dots> = List.map_filter (\<lambda>c. ?g (?col c, ?null c, raw_cell m c)) cs"
    by (subst enumerate_zip) (simp_all only: length_map zip_maps map_filter_map)
  also have "\<dots> = map (insert_cell as_null models m) (filter (\<lambda>c. list_ex (\<lambda>m. \<not> is_not_set (m c)) models) cs)"
  proof (induction cs)
    case (Cons c cs)
    have "?g (?col c, ?null c, raw_cell m c) = Some (insert_cell as_null models m c)"
      if used: "list_ex (\<lambda>m. \<not> is_not_set (m c)) models"
    proof (cases "into_value (m c)")
      case None
      with last_value_used[OF used] used show ?thesis
        by (auto simp: raw_cell_def insert_cell_def simp del: into_value_None)
    qed (use used in \<open>simp add: raw_cell_def insert_cell_def\<close>)
    with Cons show ?case by (auto simp: List.map_filter_simps)
  qed (simp add: List.map_filter_simps)
  finally show ?thesis .
qed

lemma push_rows_aligned:
  "list_all (\<lambda>row. length row = length (ins_columns q)) rows \<Longrightarrow>
    push_rows rows q = Ret (q\<lparr>ins_values := ins_values q @ rows\<rparr>)"
  by (induction rows arbitrary: q) (simp_all add: values_panic_def)

lemma map_filter_ident: "List.map_filter (\<lambda>c. c) (map (\<lambda>c. if P c then Some c else None) cs) = filter P cs"
  by (induction cs) (auto simp: List.map_filter_simps)

lemma insert_many_built:
  assumes "distinct (em_columns em)"
  shows "\<exists>im. insert_many_of as_null em models = Ret im \<and> im_empty im = (models = []) \<and>
    ins_columns (im_query im) = used_columns em models \<and>
    ins_values (im_query im) = map (\<lambda>m. map (insert_cell as_null models m) (used_columns em models)) models"
proof -
  let ?st = "fold (mark_model as_null em) models
    \<lparr>ms_columns = replicate (length (em_columns em)) None, ms_null = replicate (length (em_columns em)) None,
     ms_rows = [], ms_key = None\<rparr>"
  have st: "ms_columns ?st = map (\<lambda>c. if list_ex (\<lambda>m. \<not> is_not_set (m c)) models then Some c else None) (em_columns em)"
    "ms_null ?st = map (\<lambda>c. map_option as_null (last_value models c)) (em_columns em)"
    "ms_rows ?st = map (\<lambda>m. map (raw_cell m) (em_columns em)) models"
    using marked[OF assms, of as_null models] by (simp_all add: Let_def)
  have rows: "map (cut_row (ms_columns ?st) (ms_null ?st)) (ms_rows ?st) =
      map (\<lambda>m. map (insert_cell as_null models m) (used_columns em models)) models"
    unfolding st map_map comp_def used_columns_def by (rule map_cong[OF refl]) (rule cut_row_result)
  have cols: "List.map_filter (\<lambda>c. c) (ms_columns ?st) = used_columns em models"
    unfolding st used_columns_def map_filter_ident ..
  show ?thesis
  proof (cases "models = []")
    case True
    then show ?thesis by (simp add: insert_many_of_def Let_def used_columns_def new_insert_def)
  next
    case False
    then have "ms_rows ?st \<noteq> []" unfolding st by simp
    moreover have "push_rows (map (\<lambda>m. map (insert_cell as_null models m) (used_columns em models)) models)
        ((new_insert em)\<lparr>ins_columns := used_columns em models\<rparr>) =
      Ret ((new_insert em)\<lparr>ins_columns := used_columns em models,
        ins_values := map (\<lambda>m. map (insert_cell as_null models m) (used_columns em models)) models\<rparr>)"
      by (subst push_rows_aligned) (simp_all add: list_all_iff new_insert_def)
    ultimately show ?thesis
      using False by (simp add: insert_many_of_def Let_def rows cols)
  qed
qed

text \<open>C27. Bulk insert: building it never panics; its columns are those some model has a value for, in the
  entity's order, and every row has one value per column: the model's own, or the NULL of the column's
  value type where the model has none.\<close>

theorem insert_many_rows_aligned:
  assumes "distinct (em_columns em)"
  shows "\<exists>im. insert_many_of as_null em models = Ret im \<and> im_empty im = (models = []) \<and>
    ins_columns (im_query im) = used_columns em models \<and>
    ins_values (im_query im) = map (\<lambda>m. map (insert_cell as_null models m) (used_columns em models)) models"
  by (rule insert_many_built[OF assms])

definition cake_meta :: "string entity_meta" where
  "cake_meta = \<lparr>em_table = TableRef (TableName None ''cake'') None, em_name = ''cake'',
     em_columns = [''id'', ''name'', ''price''], em_primary_key = [''id''], em_auto_increment = True,
     em_from_str = (\<lambda>c. if c \<in> {''id'', ''name'', ''price''} then Some c else None), em_nullable = (\<lambda>c. c = ''price'')\<rparr>"

definition cake_am :: "nat active_value \<Rightarrow> nat active_value \<Rightarrow> nat active_value \<Rightarrow> (string, nat) active_model" where
  "cake_am i n p c = (if c = ''id'' then i else if c = ''name'' then n else if c = ''price'' then p else NotSet)"

lemma insert_many_rows_aligned_witness:
  "\<exists>im. insert_many_of (\<lambda>_. 0) cake_meta [cake_am NotSet (Set 7) NotSet, cake_am NotSet NotSet (Set 9)] = Ret im \<and>
    im_empty im = False \<and> ins_columns (im_query im) = [''name'', ''price''] \<and>
    ins_values (im_query im) = [[SaveAs ''name'' 7, PlainValue 0], [PlainValue 0, SaveAs ''price'' 9]]"
  using insert_many_rows_aligned[of cake_meta "\<lambda>_. 0" "[cake_am NotSet (Set 7) NotSet, cake_am NotSet NotSet (Set 9)]"]
  by (simp add: cake_meta_def cake_am_def used_columns_def insert_cell_def last_value_def)

section \<open>Conflicts\<close>





section \<open>Saving\<close>









lemma key_filter_Inl: "\<not> list_all (\<lambda>c. \<not> is_not_set (am c)) cs \<Longrightarrow> key_filter e am cs = Inl e"
proof (induction cs)
  case (Cons c cs)
  then show ?case by (cases "am c") (auto simp: run_simps)
qed simp














end
