(* ===== verification/Links.thy ===== *)
theory Links
  imports Mutations
begin

text \<open>
  \<open>establish_links\<close> and \<open>delete_links\<close> of \<open>src/entity/active_model.rs\<close>: the rows of a junction table
  that link a model to its related models in a many-to-many relation.
\<close>

text \<open>
  The junction entity: its columns, its primary key as an identity, an active model as
  \<open>ActiveModelBehavior::new\<close> makes it, the hooks, and its table's database.
\<close>

record ('c, 'v, 'row, 'm, 'w, 'u) junction =
  jn_meta :: "'c entity_meta"
  jn_key :: identity
  jn_new :: "('c, 'v) active_model"
  jn_into :: "'m \<Rightarrow> ('c, 'v) active_model"
  jn_as_null :: "'v \<Rightarrow> 'v"
  jn_hooks :: "('c, 'v, 'm, 'w) active_hooks"
  jn_db :: "('c, 'v, 'row, 'm, 'w) mutation_db"
  jn_all :: "('c, 'v) key_condition \<Rightarrow> ('m list, 'w) io"
  jn_old_sqlite :: bool
  jn_texts :: "'v debug_texts"
  jn_show_rel :: "'u relation_def \<Rightarrow> string"
  jn_show_err :: "db_err \<Rightarrow> string"

definition jn_condition ::
  "('c, 'v, 'row, 'm, 'w, 'u) junction \<Rightarrow> table_ref \<Rightarrow> identity \<Rightarrow> 'v value_tuple list \<Rightarrow>
    (('c, 'v) key_condition, 'w) act" where
  "jn_condition j tbl cols keys =
    act_run (case column_tuple_in_condition (jn_old_sqlite j) (jn_texts j) tbl cols keys (mu_backend (jn_db j)) of
       Inr c \<Rightarrow> Ret c
     | Inl e \<Rightarrow> Panic ('': '' @ jn_show_err j e))"

definition find_belongs_to_model ::
  "('c, 'v, 'row, 'm, 'w, 'u) junction \<Rightarrow> 'u relation_def \<Rightarrow> 'd entity_meta \<Rightarrow> ('d, 'v) active_model \<Rightarrow>
    (('c, 'v) key_condition, 'w) act" where
  "find_belongs_to_model j rel em am =
    (if is_owner rel then act_err (Type (''Relation '' @ jn_show_rel j rel @ '' is not belongs_to''))
     else act_bind (act_res (get_key_from_active_model em (to_col rel) am)) (\<lambda>key.
       jn_condition j (from_tbl rel) (from_col rel) [key]))"

section \<open>Establishing links\<close>

text \<open>The existing links are read when some may have to go, or when an insert could repeat one.\<close>

definition require_leftover ::
  "('c, 'v, 'row, 'm, 'w, 'u) junction \<Rightarrow> 'u relation_def \<Rightarrow> 'u relation_def \<Rightarrow> 'x list \<Rightarrow> bool" where
  "require_leftover j left right related =
    (let require_leftover = (related \<noteq> []) in
     if require_leftover \<and> fully_contains (jn_key j) (from_col left) \<and> fully_contains (jn_key j) (from_col right)
     then False else require_leftover)"

definition read_leftover ::
  "('c, 'v, 'row, 'm, 'w, 'u) junction \<Rightarrow> 'u relation_def \<Rightarrow> 'u relation_def \<Rightarrow> 'd entity_meta \<Rightarrow> ('d, 'v) active_model \<Rightarrow>
    ((('c, 'v) active_model \<times> 'v value_tuple) list, 'w) act" where
  "read_leftover j left right em model =
    act_bind (find_belongs_to_model j left em model) (\<lambda>c.
    act_bind (act_io (jn_all j c)) (\<lambda>items.
      act_res (try_map (\<lambda>item. let am = jn_into j item in
        res_bind (get_key_from_active_model (jn_meta j) (from_col right) am) (\<lambda>key. Inr (am, key))) items)))"

text \<open>The junction row of each related model, unless it is a leftover, and the keys that stay.\<close>

definition link_step ::
  "('c, 'v, 'row, 'm, 'w, 'u) junction \<Rightarrow> 'u relation_def \<Rightarrow> 'u relation_def \<Rightarrow> 'd entity_meta \<Rightarrow> ('d, 'v) active_model \<Rightarrow>
    'e entity_meta \<Rightarrow> (('c, 'v) active_model \<times> 'v value_tuple) list \<Rightarrow> bool \<Rightarrow> ('e, 'v) active_model \<Rightarrow>
    ('c, 'v) active_model list \<times> 'v value_tuple set \<Rightarrow>
    (('c, 'v) active_model list \<times> 'v value_tuple set, db_err) result" where
  "link_step j left right em model rm leftover delete_leftover related_model acc =
    res_bind (set_parent_key_for_def (jn_show_rel j) (jn_meta j) em model left (jn_new j)) (\<lambda>via.
    res_bind (set_parent_key_for_def (jn_show_rel j) (jn_meta j) rm related_model right via) (\<lambda>via.
    res_bind (get_key_from_active_model (jn_meta j) (from_col right) via) (\<lambda>via_key.
      Inr (if \<not> list_ex (\<lambda>t. snd t = via_key) leftover then fst acc @ [via] else fst acc,
           if delete_leftover then insert via_key (snd acc) else snd acc))))"

definition delete_leftovers ::
  "('c, 'v, 'row, 'm, 'w, 'u) junction \<Rightarrow> ('c, 'v) active_model list \<Rightarrow> (unit, 'w) act" where
  "delete_leftovers j to_delete_am =
    act_bind (act_map (\<lambda>am. act_run (expect (get_primary_key_value (jn_meta j) am) ''item is a full model'')) to_delete_am)
      (\<lambda>to_delete.
        if to_delete = [] then act_ret ()
        else
          act_bind (act_each (\<lambda>am. act_bind (hk_before_delete (jn_hooks j) am) (\<lambda>_. act_ret ())) to_delete_am) (\<lambda>_.
          act_bind (jn_condition j (em_table (jn_meta j)) (jn_key j) to_delete) (\<lambda>c.
            if mu_returning (jn_db j) then
              act_bind (exec_delete_with_returning_many (jn_meta j) (jn_db j) (delete_many_any (jn_meta j) [c])) (\<lambda>deleted.
                act_each (\<lambda>m. act_bind (hk_after_delete (jn_hooks j) (jn_into j m)) (\<lambda>_. act_ret ())) deleted)
            else
              act_bind (exec_delete (jn_db j) (delete_many_any (jn_meta j) [c])) (\<lambda>_.
                act_each (\<lambda>am. act_bind (hk_after_delete (jn_hooks j) am) (\<lambda>_. act_ret ())) to_delete_am))))"

definition insert_links ::
  "('c, 'v, 'row, 'm, 'w, 'u) junction \<Rightarrow> ('c, 'v) active_model list \<Rightarrow> (unit, 'w) act" where
  "insert_links j via_models =
    (if via_models = [] then act_ret ()
     else act_bind (act_map (hk_before_save (jn_hooks j) True) via_models) (\<lambda>via_models_res.
       if mu_returning (jn_db j) then
         act_bind (act_run (insert_many_of (jn_as_null j) (jn_meta j) via_models_res)) (\<lambda>im.
         act_bind (try_exec_with_returning_many (jn_meta j) (jn_db j) (many_do_nothing (jn_meta j) im)) (\<lambda>res.
           case res of
             Inserted ms \<Rightarrow> act_each (\<lambda>m. act_bind (hk_after_save (jn_hooks j) True m) (\<lambda>_. act_ret ())) ms
           | _ \<Rightarrow> act_ret ()))
       else
         act_each (\<lambda>am.
           act_bind (act_run (insert_one (jn_meta j) am)) (\<lambda>i.
           act_bind (try_exec_with_returning (jn_meta j) (jn_db j) (one_do_nothing (jn_meta j) i)) (\<lambda>res.
             case res of
               Inserted m \<Rightarrow> act_bind (hk_after_save (jn_hooks j) True m) (\<lambda>_. act_ret ())
             | _ \<Rightarrow> act_ret ()))) via_models_res))"

definition establish_links ::
  "('c, 'v, 'row, 'm, 'w, 'u) junction \<Rightarrow> 'd entity_meta \<Rightarrow> ('d, 'v) active_model \<Rightarrow> 'e entity_meta \<Rightarrow>
    ('e, 'v) active_model list \<Rightarrow> 'u relation_def \<Rightarrow> 'u relation_def \<Rightarrow> bool \<Rightarrow> (unit, 'w) act" where
  "establish_links j em model rm related left right delete_leftover =
    act_bind (if delete_leftover \<or> require_leftover j left right related
              then read_leftover j left right em model else act_ret []) (\<lambda>leftover.
    act_bind (act_res (try_fold (link_step j left right em model rm leftover delete_leftover) related ([], {})))
      (\<lambda>(via_models, all_keys).
    act_bind (if delete_leftover
              then delete_leftovers j (map fst (filter (\<lambda>t. snd t \<notin> all_keys) leftover)) else act_ret ()) (\<lambda>_.
      insert_links j via_models)))"

section \<open>Deleting links\<close>

definition delete_links ::
  "('c, 'v, 'row, 'm, 'w, 'u) junction \<Rightarrow> 'd entity_meta \<Rightarrow> ('d, 'v) active_model \<Rightarrow> 'u relation_def \<Rightarrow>
    (64 word, 'w) act" where
  "delete_links j em model rel =
    act_bind (act_res (get_key_from_active_model em (to_col rel) model)) (\<lambda>key.
    act_bind (jn_condition j (from_tbl rel) (from_col rel) [key]) (\<lambda>c.
      exec_delete (jn_db j) (delete_many_any (jn_meta j) [c])))"

definition delete_links_self ::
  "('c, 'v, 'row, 'm, 'w, 'u) junction \<Rightarrow> 'd entity_meta \<Rightarrow> ('d, 'v) active_model \<Rightarrow> 'u relation_def \<Rightarrow> 'u relation_def \<Rightarrow>
    (64 word, 'w) act" where
  "delete_links_self j em model left right =
    act_bind (act_res (get_key_from_active_model em (to_col left) model)) (\<lambda>key.
      if to_col left \<noteq> to_col right then act_err (Type ''Expect Self Referencing Relation'')
      else
        act_bind (jn_condition j (from_tbl left) (from_col left) [key]) (\<lambda>c1.
        act_bind (jn_condition j (from_tbl right) (from_col right) [key]) (\<lambda>c2.
          exec_delete (jn_db j) (delete_many_any (jn_meta j) [c1, c2]))))"

end
