(* ===== verification/LinksSpec.thy ===== *)
theory LinksSpec
  imports Links LoaderSpec MutationSpec
begin

text \<open>
  What establishing links promises: on a junction table whose primary key is the composite of its two
  relations, over a database that evaluates conditions as SQL does and drops inserts that conflict, the
  links of the model afterwards are the given ones, with the old ones unless they are to go, and the
  links of other models stay; with \<open>RETURNING\<close> or without.
\<close>

section \<open>Keys of active models\<close>

definition am_knows :: "'c entity_meta \<Rightarrow> identity \<Rightarrow> bool" where
  "am_knows em i = (columns i \<noteq> [] \<and> list_all (\<lambda>col. em_from_str em col \<noteq> None) (columns i))"

definition key_columns :: "'c entity_meta \<Rightarrow> identity \<Rightarrow> 'c list" where
  "key_columns em i = map (\<lambda>col. the (em_from_str em col)) (columns i)"

definition am_values :: "('c, 'v) active_model \<Rightarrow> 'c list \<Rightarrow> 'v list" where
  "am_values am cs = map (\<lambda>c. the (into_value (am c))) cs"



lemma length_key_columns [simp]: "length (key_columns em i) = arity i"
  by (simp add: key_columns_def length_columns)

lemma am_knows_arity: "am_knows em i \<Longrightarrow> arity i \<noteq> 0"
  using length_columns[of i] by (cases "columns i") (auto simp: am_knows_def)

lemma length_am_values [simp]: "length (am_values am cs) = length cs"
  by (simp add: am_values_def)






lemma into_value_set_ne [simp]: "into_value (set_ne v a) = Some v"
  by (cases a) auto







section \<open>The junction table\<close>

text \<open>
  The junction's primary key is the composite of the two relations, which do not overlap. \<open>kl\<close>, \<open>kr\<close> and
  \<open>kp\<close> are the columns of the left, the right and the primary key.
\<close>

definition left_columns where "left_columns j left = key_columns (jn_meta j) (from_col left)"

definition pk_columns where "pk_columns j = em_primary_key (jn_meta j)"

definition composite_junction ::
  "('c, 'v, 'row, 'm, 'w, 'u) junction \<Rightarrow> 'u relation_def \<Rightarrow> 'u relation_def \<Rightarrow> bool" where
  "composite_junction j left right =
    (\<not> is_owner left \<and> \<not> is_owner right \<and>
     am_knows (jn_meta j) (from_col left) \<and> am_knows (jn_meta j) (from_col right) \<and> am_knows (jn_meta j) (jn_key j) \<and>
     distinct (left_columns j left @ left_columns j right) \<and>
     set (columns (jn_key j)) = set (columns (from_col left)) \<union> set (columns (from_col right)) \<and>
     pk_columns j = key_columns (jn_meta j) (jn_key j) \<and>
     \<not> em_auto_increment (jn_meta j) \<and> distinct (em_columns (jn_meta j)))"

text \<open>A row as its columns, and the link it is.\<close>

definition jn_row :: "('c, 'v, 'row, 'm, 'w, 'u) junction \<Rightarrow> 'm \<Rightarrow> string \<times> string \<Rightarrow> 'v" where
  "jn_row j m = (\<lambda>(t, col). the (into_value (jn_into j m (the (em_from_str (jn_meta j) col)))))"

definition link_of ::
  "('c, 'v, 'row, 'm, 'w, 'u) junction \<Rightarrow> 'u relation_def \<Rightarrow> 'u relation_def \<Rightarrow> ('c, 'v) active_model \<Rightarrow>
    'v list \<times> 'v list" where
  "link_of j left right am = (am_values am (left_columns j left), am_values am (left_columns j right))"

definition links ::
  "('c, 'v, 'row, 'm, 'w, 'u) junction \<Rightarrow> 'u relation_def \<Rightarrow> 'u relation_def \<Rightarrow> 'm list \<Rightarrow> ('v list \<times> 'v list) set" where
  "links j left right rows = (\<lambda>m. link_of j left right (jn_into j m)) ` set rows"



lemma row_key_jn: "row_key (jn_row j m) tbl cols = am_values (jn_into j m) (key_columns (jn_meta j) cols)"
  by (simp add: row_key_def jn_row_def create_table_columns_def am_values_def key_columns_def table_column_def comp_def)




definition deletes_from_table ::
  "('c, 'v, 'row, 'm, 'w, 'u) junction \<Rightarrow> ('v \<Rightarrow> bool) \<Rightarrow> ('w \<Rightarrow> 'm list) \<Rightarrow> bool" where
  "deletes_from_table j null tbl = (\<forall>w cs. \<exists>w' n rows ms.
     mu_execute (jn_db j) (DeleteStmt (delete_many_any (jn_meta j) cs)) w = (Inr n, w') \<and>
     mu_query_all (jn_db j)
       (DeleteStmt ((delete_many_any (jn_meta j) cs)\<lparr>del_returning := Some (em_columns (jn_meta j))\<rparr>)) w = (Inr rows, w') \<and>
     try_map (mu_model (jn_db j)) rows = Inr ms \<and>
     tbl w' = filter (\<lambda>m. \<not> list_ex (sat_key null (jn_row j m)) cs) (tbl w))"


section \<open>Inserting\<close>






section \<open>Deleting leftovers\<close>

lemma jn_condition_known:
  assumes "list_all (\<lambda>k. length k = arity cols) keys" "arity cols \<noteq> 0"
  shows "\<exists>c. jn_condition j t cols (map tuple_of keys) = act_ret c \<and>
    (\<forall>val. sat_key null val c = matches_keys null val t cols keys)"
  using column_tuple_in_condition_sat[OF assms, of "jn_old_sqlite j" "jn_texts j" t "mu_backend (jn_db j)" null]
  by (force simp: jn_condition_def act_run_def act_ret_def)

lemma act_map_res: "act_map (\<lambda>x. act_run (f x)) xs = act_ret (map g xs)" if "\<And>x. x \<in> set xs \<Longrightarrow> f x = Ret (g x)"
  using that by (induction xs) simp_all


section \<open>The links afterwards\<close>













text \<open>Deleting links removes the model's and no others.\<close>

lemma delete_links_result:
  assumes composite: "composite_junction j left right" and store: "deletes_from_table j null tbl"
    and key: "get_key_from_active_model em (to_col left) model = Inr (tuple_of kl)" "length kl = arity (from_col left)"
      "\<not> list_ex null kl"
  shows "\<exists>n w'. delete_links j em model left w = Ret (Inr n, w') \<and>
    links j left right (tbl w') = {l \<in> links j left right (tbl w). fst l \<noteq> kl}"
proof -
  have "am_knows (jn_meta j) (from_col left)" using composite by (simp add: composite_junction_def)
  with jn_condition_known[of "from_col left" "[kl]" j "from_tbl left" null] key(2)
  obtain c where c: "jn_condition j (from_tbl left) (from_col left) [tuple_of kl] = act_ret c"
    "\<And>val. sat_key null val c = matches_keys null val (from_tbl left) (from_col left) [kl]"
    by (auto dest: am_knows_arity)
  from store[unfolded deletes_from_table_def, rule_format, of "[c]" w] obtain w' n where db:
    "mu_execute (jn_db j) (DeleteStmt (delete_many_any (jn_meta j) [c])) w = (Inr n, w')"
    "tbl w' = filter (\<lambda>m. \<not> list_ex (sat_key null (jn_row j m)) [c]) (tbl w)" by blast
  have gone: "sat_key null (jn_row j m) c \<longleftrightarrow> fst (link_of j left right (jn_into j m)) = kl" for m
    using key(3) by (auto simp: c(2) matches_keys_def row_key_jn link_of_def left_columns_def)
  have "delete_links j em model left w = Ret (Inr (er_rows_affected n), w')"
    using key(1) c(1) db(1) by (simp add: delete_links_def exec_delete_def act_bind_def act_io_def act_res_def act_ret_app)
  moreover have "links j left right (tbl w') = {l \<in> links j left right (tbl w). fst l \<noteq> kl}"
    by (auto simp: db(2) gone links_def)
  ultimately show ?thesis by blast
qed

section \<open>Cakes and fillings\<close>


























end
