(* ===== verification/CodegenModel.thy ===== *)
theory CodegenModel
  imports SchemaEntity
begin

text \<open>
  The data of the entity generator (\<open>sea-orm-codegen/src/entity\<close>: \<open>column.rs\<close>, \<open>relation.rs\<close>,
  \<open>conjunct_relation.rs\<close>, \<open>primary_key.rs\<close>, \<open>base_entity.rs\<close>, and \<open>util.rs\<close>, \<open>error.rs\<close>): an entity
  read from a table, with its columns and relations, and the names and pieces of Rust text derived
  from them. A \<open>TokenStream\<close> is its source text, in which spaces are not significant; an \<open>Ident\<close> is its
  text. The case conversions of the crate \<open>heck\<close> are the record \<open>heck\<close>, an argument. \<open>column_type\<close> is
  \<open>sea_query::ColumnType\<close>, of which the code matches every variant.
\<close>

section \<open>Column types and statements\<close>

datatype string_len = LenN nat | LenNone | LenMax

datatype column_type =
    CtChar "nat option" | CtString string_len | CtText | CtBlob
  | CtTinyInteger | CtSmallInteger | CtInteger | CtBigInteger
  | CtTinyUnsigned | CtSmallUnsigned | CtUnsigned | CtBigUnsigned
  | CtFloat | CtDouble | CtDecimal "(nat \<times> nat) option" | CtMoney "(nat \<times> nat) option"
  | CtDateTime | CtTimestamp | CtTimestampWithTimeZone | CtTime | CtDate | CtYear
  | CtBinary nat | CtVarBinary string_len | CtBoolean | CtJson | CtJsonBinary | CtUuid
  | CtEnum string "string list" | CtArray column_type | CtVector "nat option"
  | CtBit "nat option" | CtVarBit nat | CtCidr | CtInet | CtMacAddr | CtLTree
  | CtInterval "string option" "nat option" | CtCustom string

text \<open>What the transformer reads of a \<open>sea_query::TableCreateStatement\<close>.\<close>

record stmt_column =
  sc_name :: string
  sc_type :: "column_type option"
  sc_auto_increment :: bool
  sc_nullable :: "bool option"
  sc_unique :: bool
  sc_primary_key :: bool

record table_create =
  tc_table :: "table_ref option"
  tc_columns :: "stmt_column list"
  tc_indexes :: "index_def list"
  tc_foreign_keys :: "foreign_key list"

record heck =
  to_snake_case :: "string \<Rightarrow> string"
  to_upper_camel_case :: "string \<Rightarrow> string"

section \<open>Errors and keywords\<close>

datatype codegen_error = StdIoError string | TransformError string

definition RUST_KEYWORDS :: "string list" where
  "RUST_KEYWORDS =
    [''as'', ''async'', ''await'', ''break'', ''const'', ''continue'', ''dyn'', ''else'', ''enum'',
     ''extern'', ''false'', ''fn'', ''for'', ''if'', ''impl'', ''in'', ''let'', ''loop'', ''match'',
     ''mod'', ''move'', ''mut'', ''pub'', ''ref'', ''return'', ''static'', ''struct'', ''super'',
     ''trait'', ''true'', ''type'', ''union'', ''unsafe'', ''use'', ''where'', ''while'', ''abstract'',
     ''become'', ''box'', ''do'', ''final'', ''macro'', ''override'', ''priv'', ''try'', ''typeof'',
     ''unsized'', ''virtual'', ''yield'']"

definition RUST_SPECIAL_KEYWORDS :: "string list" where
  "RUST_SPECIAL_KEYWORDS = [''crate'', ''Self'', ''self'']"

definition escape_rust_keyword :: "string \<Rightarrow> string" where
  "escape_rust_keyword s =
    (if s \<in> set RUST_KEYWORDS then ''r#'' @ s
     else if s \<in> set RUST_SPECIAL_KEYWORDS then s @ ''_''
     else s)"

section \<open>Columns\<close>

record cg_column =
  cgc_name :: string
  cgc_type :: column_type
  cgc_auto_increment :: bool
  cgc_not_null :: bool
  cgc_unique :: bool
  cgc_unique_key :: "string option"

datatype date_time_crate = Chrono | TimeCrate
datatype big_integer_type = I64 | I32

record column_option =
  date_time_crate :: date_time_crate
  big_integer_type :: big_integer_type

definition column_snake_case :: "heck \<Rightarrow> cg_column \<Rightarrow> string" where
  "column_snake_case h c = escape_rust_keyword (to_snake_case h (cgc_name c))"

definition column_camel_case :: "heck \<Rightarrow> cg_column \<Rightarrow> string" where
  "column_camel_case h c = escape_rust_keyword (to_upper_camel_case h (cgc_name c))"

definition is_snake_case_name :: "heck \<Rightarrow> cg_column \<Rightarrow> bool" where
  "is_snake_case_name h c = (to_snake_case h (cgc_name c) = cgc_name c)"

fun write_rs_type :: "heck \<Rightarrow> column_option \<Rightarrow> column_type \<Rightarrow> string" where
  "write_rs_type h opt (CtChar _) = ''String''"
| "write_rs_type h opt (CtString _) = ''String''"
| "write_rs_type h opt CtText = ''String''"
| "write_rs_type h opt (CtCustom _) = ''String''"
| "write_rs_type h opt CtTinyInteger = ''i8''"
| "write_rs_type h opt CtSmallInteger = ''i16''"
| "write_rs_type h opt CtInteger = ''i32''"
| "write_rs_type h opt CtBigInteger = (case big_integer_type opt of I64 \<Rightarrow> ''i64'' | I32 \<Rightarrow> ''i32'')"
| "write_rs_type h opt CtTinyUnsigned = ''u8''"
| "write_rs_type h opt CtSmallUnsigned = ''u16''"
| "write_rs_type h opt CtUnsigned = ''u32''"
| "write_rs_type h opt CtBigUnsigned = ''u64''"
| "write_rs_type h opt CtFloat = ''f32''"
| "write_rs_type h opt CtDouble = ''f64''"
| "write_rs_type h opt CtJson = ''Json''"
| "write_rs_type h opt CtJsonBinary = ''Json''"
| "write_rs_type h opt CtDate = (case date_time_crate opt of Chrono \<Rightarrow> ''Date'' | TimeCrate \<Rightarrow> ''TimeDate'')"
| "write_rs_type h opt CtTime = (case date_time_crate opt of Chrono \<Rightarrow> ''Time'' | TimeCrate \<Rightarrow> ''TimeTime'')"
| "write_rs_type h opt CtDateTime =
    (case date_time_crate opt of Chrono \<Rightarrow> ''DateTime'' | TimeCrate \<Rightarrow> ''TimeDateTime'')"
| "write_rs_type h opt CtTimestamp =
    (case date_time_crate opt of Chrono \<Rightarrow> ''DateTimeUtc'' | TimeCrate \<Rightarrow> ''TimeDateTime'')"
| "write_rs_type h opt CtTimestampWithTimeZone =
    (case date_time_crate opt of Chrono \<Rightarrow> ''DateTimeWithTimeZone'' | TimeCrate \<Rightarrow> ''TimeDateTimeWithTimeZone'')"
| "write_rs_type h opt (CtDecimal _) = ''Decimal''"
| "write_rs_type h opt (CtMoney _) = ''Decimal''"
| "write_rs_type h opt CtUuid = ''Uuid''"
| "write_rs_type h opt (CtBinary _) = ''Vec<u8>''"
| "write_rs_type h opt (CtVarBinary _) = ''Vec<u8>''"
| "write_rs_type h opt CtBlob = ''Vec<u8>''"
| "write_rs_type h opt CtBoolean = ''bool''"
| "write_rs_type h opt (CtEnum name _) = to_upper_camel_case h name"
| "write_rs_type h opt (CtArray t) = ''Vec<'' @ write_rs_type h opt t @ ''>''"
| "write_rs_type h opt (CtVector _) = ''PgVector''"
| "write_rs_type h opt (CtBit n) = (if n = None \<or> n = Some 1 then ''bool'' else ''Vec<u8>'')"
| "write_rs_type h opt (CtVarBit _) = ''Vec<u8>''"
| "write_rs_type h opt CtYear = ''i32''"
| "write_rs_type h opt CtCidr = ''IpNetwork''"
| "write_rs_type h opt CtInet = ''IpNetwork''"
| "write_rs_type h opt (CtInterval _ _) = ''String''"
| "write_rs_type h opt CtMacAddr = ''String''"
| "write_rs_type h opt CtLTree = ''String''"

definition optional_type :: "bool \<Rightarrow> string \<Rightarrow> string" where
  "optional_type not_null ident = (if not_null then ident else ''Option<'' @ ident @ ''>'')"

definition get_rs_type :: "heck \<Rightarrow> column_option \<Rightarrow> cg_column \<Rightarrow> string" where
  "get_rs_type h opt c = optional_type (cgc_not_null c) (write_rs_type h opt (cgc_type c))"

definition quoted :: "string \<Rightarrow> string" where
  "quoted s = quote_char @ s @ quote_char"

fun var_binary_len :: "string_len \<Rightarrow> string" where
  "var_binary_len (LenN n) = ''StringLen::N('' @ show_nat n @ '')''"
| "var_binary_len LenNone = ''StringLen::None''"
| "var_binary_len LenMax = ''StringLen::Max''"

definition some_pair :: "nat \<times> nat \<Rightarrow> string" where
  "some_pair p = ''Some(('' @ show_nat (fst p) @ '', '' @ show_nat (snd p) @ ''))''"

fun col_type_attr :: "column_type \<Rightarrow> string option" where
  "col_type_attr CtFloat = Some ''Float''"
| "col_type_attr CtDouble = Some ''Double''"
| "col_type_attr (CtDecimal (Some p)) = Some (''Decimal('' @ some_pair p @ '')'')"
| "col_type_attr (CtMoney (Some p)) = Some (''Money('' @ some_pair p @ '')'')"
| "col_type_attr CtText = Some ''Text''"
| "col_type_attr CtJsonBinary = Some ''JsonBinary''"
| "col_type_attr (CtBinary n) = Some (''Binary('' @ show_nat n @ '')'')"
| "col_type_attr (CtVarBinary l) = Some (''VarBinary('' @ var_binary_len l @ '')'')"
| "col_type_attr CtBlob = Some ''Blob''"
| "col_type_attr CtCidr = Some ''Cidr''"
| "col_type_attr _ = None"

fun get_col_type_attrs :: "cg_column \<Rightarrow> string option" where
  "get_col_type_attrs c =
    (case cgc_type c of
       CtCustom iden \<Rightarrow> Some (''ignore, column_type = '' @ quoted (''custom('' @ quoted iden @ '')'')
         @ '', select_as = '' @ quoted ''text'')
     | t \<Rightarrow> map_option (\<lambda>ty. ''column_type = '' @ quoted ty) (col_type_attr t))"

fun show_opt :: "nat option \<Rightarrow> string" where
  "show_opt None = ''None''"
| "show_opt (Some n) = ''Some('' @ show_nat n @ ''u32)''"

fun show_pair_opt :: "(nat \<times> nat) option \<Rightarrow> string" where
  "show_pair_opt None = ''None''"
| "show_pair_opt (Some (p, s)) = ''Some(('' @ show_nat p @ ''u32, '' @ show_nat s @ ''u32))''"

fun show_len :: "string_len \<Rightarrow> string" where
  "show_len (LenN n) = ''StringLen::N('' @ show_nat n @ ''u32)''"
| "show_len LenNone = ''StringLen::None''"
| "show_len LenMax = ''StringLen::Max''"

fun write_col_def :: "heck \<Rightarrow> string option \<Rightarrow> column_type \<Rightarrow> string" where
  "write_col_def h en (CtChar n) = ''ColumnType::Char('' @ show_opt n @ '')''"
| "write_col_def h en (CtString l) = ''ColumnType::String('' @ show_len l @ '')''"
| "write_col_def h en CtText = ''ColumnType::Text''"
| "write_col_def h en CtTinyInteger = ''ColumnType::TinyInteger''"
| "write_col_def h en CtSmallInteger = ''ColumnType::SmallInteger''"
| "write_col_def h en CtInteger = ''ColumnType::Integer''"
| "write_col_def h en CtBigInteger = ''ColumnType::BigInteger''"
| "write_col_def h en CtTinyUnsigned = ''ColumnType::TinyUnsigned''"
| "write_col_def h en CtSmallUnsigned = ''ColumnType::SmallUnsigned''"
| "write_col_def h en CtUnsigned = ''ColumnType::Unsigned''"
| "write_col_def h en CtBigUnsigned = ''ColumnType::BigUnsigned''"
| "write_col_def h en CtFloat = ''ColumnType::Float''"
| "write_col_def h en CtDouble = ''ColumnType::Double''"
| "write_col_def h en (CtDecimal p) = ''ColumnType::Decimal('' @ show_pair_opt p @ '')''"
| "write_col_def h en CtDateTime = ''ColumnType::DateTime''"
| "write_col_def h en CtTimestamp = ''ColumnType::Timestamp''"
| "write_col_def h en CtTimestampWithTimeZone = ''ColumnType::TimestampWithTimeZone''"
| "write_col_def h en CtTime = ''ColumnType::Time''"
| "write_col_def h en CtDate = ''ColumnType::Date''"
| "write_col_def h en (CtBinary n) = ''ColumnType::Binary('' @ show_nat n @ ''u32)''"
| "write_col_def h en (CtVarBinary l) = ''ColumnType::VarBinary('' @ show_len l @ '')''"
| "write_col_def h en CtBlob = ''ColumnType::Blob''"
| "write_col_def h en CtBoolean = ''ColumnType::Boolean''"
| "write_col_def h en (CtMoney p) = ''ColumnType::Money('' @ show_pair_opt p @ '')''"
| "write_col_def h en CtJson = ''ColumnType::Json''"
| "write_col_def h en CtJsonBinary = ''ColumnType::JsonBinary''"
| "write_col_def h en CtUuid = ''ColumnType::Uuid''"
| "write_col_def h en CtCidr = ''ColumnType::Cidr''"
| "write_col_def h en CtInet = ''ColumnType::Inet''"
| "write_col_def h en (CtCustom s) = ''ColumnType::custom('' @ quoted s @ '')''"
| "write_col_def h en (CtEnum name _) =
    (case en of Some ident \<Rightarrow> ident | None \<Rightarrow> to_upper_camel_case h name)
    @ ''::db_type().get_column_type().to_owned()''"
| "write_col_def h en (CtArray t) = ''ColumnType::Array(RcOrArc::new('' @ write_col_def h en t @ ''))''"
| "write_col_def h en (CtVector n) = ''ColumnType::Vector('' @ show_opt n @ '')''"
| "write_col_def h en CtYear = ''ColumnType::Year''"
| "write_col_def h en (CtBit n) = ''ColumnType::Bit('' @ show_opt n @ '')''"
| "write_col_def h en (CtVarBit n) = ''ColumnType::VarBit('' @ show_nat n @ ''u32)''"
| "write_col_def h en CtMacAddr = ''ColumnType::MacAddr''"
| "write_col_def h en CtLTree = ''ColumnType::LTree''"
| "write_col_def h en (CtInterval _ _) = ''ColumnType::Interval(None, None)''"

definition get_def_inner :: "heck \<Rightarrow> string option \<Rightarrow> cg_column \<Rightarrow> string" where
  "get_def_inner h en c = write_col_def h en (cgc_type c) @ ''.def()''
    @ (if \<not> cgc_not_null c then ''.null()'' else [])
    @ (if cgc_unique c then ''.unique()'' else [])"

definition get_def :: "heck \<Rightarrow> cg_column \<Rightarrow> string" where
  "get_def h c = get_def_inner h None c"

definition get_def_with_enum_type_ident :: "heck \<Rightarrow> string \<Rightarrow> cg_column \<Rightarrow> string" where
  "get_def_with_enum_type_ident h ident c = get_def_inner h (Some ident) c"

definition col_info :: "cg_column \<Rightarrow> string" where
  "col_info c = (if cgc_auto_increment c then '', auto_increment'' else [])
    @ (if cgc_not_null c then '', not_null'' else [])
    @ (if cgc_unique c then '', unique'' else [])"

definition get_info :: "heck \<Rightarrow> column_option \<Rightarrow> cg_column \<Rightarrow> string" where
  "get_info h opt c =
    ''Column `'' @ cgc_name c @ ''`: '' @ filter (\<lambda>x. x \<noteq> CHR '' '') (get_rs_type h opt c) @ col_info c"

definition get_serde_attribute :: "cg_column \<Rightarrow> bool \<Rightarrow> bool \<Rightarrow> bool \<Rightarrow> string" where
  "get_serde_attribute c is_primary_key skip_deserializing_primary_key skip_hidden_column =
    (if take 1 (cgc_name c) = ''_'' \<and> skip_hidden_column then ''#[serde(skip)]''
     else if skip_deserializing_primary_key \<and> is_primary_key then ''#[serde(skip_deserializing)]''
     else [])"

fun get_inner_col_type :: "cg_column \<Rightarrow> column_type" where
  "get_inner_col_type c = (case cgc_type c of CtArray t \<Rightarrow> t | t \<Rightarrow> t)"

definition column_from_def :: "stmt_column \<Rightarrow> cg_column run" where
  "column_from_def cd =
    run_bind (expect (sc_type cd) ''ColumnType should not be empty'') (\<lambda>ty.
      Ret \<lparr>cgc_name = sc_name cd, cgc_type = ty, cgc_auto_increment = sc_auto_increment cd,
           cgc_not_null = (case sc_nullable cd of Some nullable \<Rightarrow> \<not> nullable | None \<Rightarrow> False),
           cgc_unique = sc_unique cd, cgc_unique_key = None\<rparr>)"

section \<open>Relations\<close>

datatype cg_relation_type = CgHasOne | CgHasMany | CgBelongsTo

record cg_relation =
  cgr_ref_table :: string
  cgr_columns :: "string list"
  cgr_ref_columns :: "string list"
  cgr_rel_type :: cg_relation_type
  cgr_on_update :: "fk_action option"
  cgr_on_delete :: "fk_action option"
  cgr_self_referencing :: bool
  cgr_num_suffix :: nat
  cgr_impl_related :: bool

definition relation_enum_name :: "heck \<Rightarrow> cg_relation \<Rightarrow> string" where
  "relation_enum_name h rel =
    (let name = (if cgr_self_referencing rel then ''SelfRef''
                 else to_upper_camel_case h (cgr_ref_table rel))
     in if cgr_num_suffix rel > 0 then name @ show_nat (cgr_num_suffix rel) else name)"

definition relation_module_name :: "heck \<Rightarrow> cg_relation \<Rightarrow> string option" where
  "relation_module_name h rel =
    (if cgr_self_referencing rel then None
     else Some (escape_rust_keyword (to_snake_case h (cgr_ref_table rel))))"

fun get_rel_type :: "cg_relation_type \<Rightarrow> string" where
  "get_rel_type CgHasOne = ''has_one''"
| "get_rel_type CgHasMany = ''has_many''"
| "get_rel_type CgBelongsTo = ''belongs_to''"

fun get_foreign_key_action :: "fk_action \<Rightarrow> string" where
  "get_foreign_key_action Restrict = ''Restrict''"
| "get_foreign_key_action Cascade = ''Cascade''"
| "get_foreign_key_action SetNull = ''SetNull''"
| "get_foreign_key_action NoAction = ''NoAction''"
| "get_foreign_key_action SetDefault = ''SetDefault''"

definition get_column_camel_case :: "heck \<Rightarrow> cg_relation \<Rightarrow> string list" where
  "get_column_camel_case h rel = map (to_upper_camel_case h) (cgr_columns rel)"

definition get_ref_column_camel_case :: "heck \<Rightarrow> cg_relation \<Rightarrow> string list" where
  "get_ref_column_camel_case h rel = map (to_upper_camel_case h) (cgr_ref_columns rel)"

text \<open>The three closures of \<open>get_src_ref_columns\<close> are its arguments.\<close>

definition get_src_ref_columns ::
  "heck \<Rightarrow> (string \<Rightarrow> 't) \<Rightarrow> (string \<Rightarrow> 't) \<Rightarrow> ('t list \<Rightarrow> 't) \<Rightarrow> cg_relation \<Rightarrow> 't \<times> 't" where
  "get_src_ref_columns h map_src_column map_ref_column map_punctuated rel =
    (let from = fold (\<lambda>c acc. acc @ [map_src_column c]) (get_column_camel_case h rel) [];
         to = fold (\<lambda>c acc. acc @ [map_ref_column c]) (get_ref_column_camel_case h rel) []
     in (map_punctuated from, map_punctuated to))"

definition column_tuple :: "string list \<Rightarrow> string" where
  "column_tuple cs =
    (if length cs \<le> 1 then join '', '' cs else ''('' @ join '', '' cs @ '')'')"

definition relation_def_text :: "heck \<Rightarrow> cg_relation \<Rightarrow> string" where
  "relation_def_text h rel =
    (let rel_type = get_rel_type (cgr_rel_type rel);
         module_name = relation_module_name h rel;
         path = (case module_name of Some m \<Rightarrow> ''super::'' @ m @ ''::'' | None \<Rightarrow> []);
         ref_entity = path @ ''Entity''
     in case cgr_rel_type rel of
          CgBelongsTo \<Rightarrow>
            (let (from, to) = get_src_ref_columns h (\<lambda>c. ''Column::'' @ c)
                   (\<lambda>c. path @ ''Column::'' @ c) column_tuple rel
             in ''Entity::'' @ rel_type @ ''('' @ ref_entity @ '').from('' @ from @ '').to('' @ to @ '').into()'')
        | _ \<Rightarrow> ''Entity::'' @ rel_type @ ''('' @ ref_entity @ '').into()'')"

definition action_attr :: "string \<Rightarrow> fk_action option \<Rightarrow> string" where
  "action_attr attr action =
    (case action of Some a \<Rightarrow> attr @ '' = '' @ quoted (get_foreign_key_action a) @ '','' | None \<Rightarrow> [])"

definition relation_attrs :: "heck \<Rightarrow> cg_relation \<Rightarrow> string" where
  "relation_attrs h rel =
    (let rel_type = get_rel_type (cgr_rel_type rel);
         path = (case relation_module_name h rel of Some m \<Rightarrow> ''super::'' @ m @ ''::'' | None \<Rightarrow> []);
         ref_entity = path @ ''Entity''
     in case cgr_rel_type rel of
          CgBelongsTo \<Rightarrow>
            (let (from, to) = get_src_ref_columns h (\<lambda>c. ''Column::'' @ c)
                   (\<lambda>c. path @ ''Column::'' @ c) column_tuple rel
             in ''#[sea_orm('' @ rel_type @ '' = '' @ quoted ref_entity @ '', from = '' @ quoted from
               @ '', to = '' @ quoted to @ '','' @ action_attr ''on_update'' (cgr_on_update rel)
               @ action_attr ''on_delete'' (cgr_on_delete rel) @ '')]'')
        | _ \<Rightarrow> ''#[sea_orm('' @ rel_type @ '' = '' @ quoted ref_entity @ '')]'')"

definition relation_from_fk :: "foreign_key \<Rightarrow> cg_relation run" where
  "relation_from_fk tbl_fk =
    run_bind (expect (fk_ref_tbl tbl_fk) ''RefTable should not be empty'') (\<lambda>s.
      Ret \<lparr>cgr_ref_table = sea_orm_table s, cgr_columns = fk_columns tbl_fk,
           cgr_ref_columns = fk_ref_columns tbl_fk, cgr_rel_type = CgBelongsTo,
           cgr_on_update = fk_on_update tbl_fk, cgr_on_delete = fk_on_delete tbl_fk,
           cgr_self_referencing = False, cgr_num_suffix = 0, cgr_impl_related = True\<rparr>)"

section \<open>Many-to-many relations, primary keys, enums\<close>

record conjunct_relation =
  conj_via :: string
  conj_to :: string

definition get_via_snake_case :: "heck \<Rightarrow> conjunct_relation \<Rightarrow> string" where
  "get_via_snake_case h c = escape_rust_keyword (to_snake_case h (conj_via c))"

definition get_to_snake_case :: "heck \<Rightarrow> conjunct_relation \<Rightarrow> string" where
  "get_to_snake_case h c = escape_rust_keyword (to_snake_case h (conj_to c))"

definition get_to_upper_camel_case :: "heck \<Rightarrow> conjunct_relation \<Rightarrow> string" where
  "get_to_upper_camel_case h c = to_upper_camel_case h (conj_to c)"

record cg_active_enum =
  cae_name :: string
  cae_values :: "string list"

section \<open>Entities\<close>

text \<open>A \<open>PrimaryKey\<close> is the name of its column.\<close>

record cg_entity =
  cge_table_name :: string
  cge_columns :: "cg_column list"
  cge_relations :: "cg_relation list"
  cge_conjunct_relations :: "conjunct_relation list"
  cge_primary_keys :: "string list"

definition entity_snake_case :: "heck \<Rightarrow> cg_entity \<Rightarrow> string" where
  "entity_snake_case h e = to_snake_case h (cge_table_name e)"

definition entity_camel_case :: "heck \<Rightarrow> cg_entity \<Rightarrow> string" where
  "entity_camel_case h e = to_upper_camel_case h (cge_table_name e)"

definition entity_snake_case_ident :: "heck \<Rightarrow> cg_entity \<Rightarrow> string" where
  "entity_snake_case_ident h e = escape_rust_keyword (entity_snake_case h e)"

definition entity_camel_case_ident :: "heck \<Rightarrow> cg_entity \<Rightarrow> string" where
  "entity_camel_case_ident h e = escape_rust_keyword (entity_camel_case h e)"

definition get_relation_enum_name :: "heck \<Rightarrow> cg_entity \<Rightarrow> string list" where
  "get_relation_enum_name h e = map (relation_enum_name h) (cge_relations e)"

definition get_conjunct_relations_to_upper_camel_case :: "heck \<Rightarrow> cg_entity \<Rightarrow> string list" where
  "get_conjunct_relations_to_upper_camel_case h e =
    map (get_to_upper_camel_case h) (cge_conjunct_relations e)"

definition get_related_entity_enum_name :: "heck \<Rightarrow> cg_entity \<Rightarrow> string list" where
  "get_related_entity_enum_name h e =
    get_relation_enum_name h e
    @ map (\<lambda>rel. relation_enum_name h rel @ ''Reverse'') (filter cgr_self_referencing (cge_relations e))
    @ get_conjunct_relations_to_upper_camel_case h e"

definition get_related_entity_modules :: "heck \<Rightarrow> cg_entity \<Rightarrow> string list" where
  "get_related_entity_modules h e =
    (let produce = (\<lambda>rel. case relation_module_name h rel of Some m \<Rightarrow> m | None \<Rightarrow> ''self'')
     in map produce (cge_relations e)
        @ map produce (filter cgr_self_referencing (cge_relations e))
        @ map (get_to_snake_case h) (cge_conjunct_relations e))"

definition produce_relation_attrs :: "heck \<Rightarrow> bool \<Rightarrow> cg_relation \<Rightarrow> string" where
  "produce_relation_attrs h rvs rel =
    (let entity = (case relation_module_name h rel of
           Some m \<Rightarrow> ''super::'' @ m @ ''::Entity'' | None \<Rightarrow> ''Entity'')
     in if cgr_self_referencing rel \<or> \<not> cgr_impl_related rel \<or> cgr_num_suffix rel > 0
        then ''#[sea_orm(entity = '' @ quoted entity @ '', def = ''
          @ quoted (''Relation::'' @ relation_enum_name h rel @ ''.def()''
              @ (if rvs then ''.rev()'' else [])) @ '')]''
        else ''#[sea_orm(entity = '' @ quoted entity @ '')]'')"

definition get_related_entity_attrs :: "heck \<Rightarrow> cg_entity \<Rightarrow> string list" where
  "get_related_entity_attrs h e =
    map (produce_relation_attrs h False) (cge_relations e)
    @ map (produce_relation_attrs h True) (filter cgr_self_referencing (cge_relations e))
    @ map (\<lambda>c. ''#[sea_orm(entity = '' @ quoted (''super::'' @ get_to_snake_case h c @ ''::Entity'') @ '')]'')
        (cge_conjunct_relations e)"

definition get_primary_key_auto_increment :: "cg_entity \<Rightarrow> bool" where
  "get_primary_key_auto_increment e = list_ex cgc_auto_increment (cge_columns e)"

definition get_primary_key_rs_type :: "heck \<Rightarrow> column_option \<Rightarrow> cg_entity \<Rightarrow> string run" where
  "get_primary_key_rs_type h opt e =
    run_bind (run_map (\<lambda>pk.
        run_bind (expect (find (\<lambda>col. cgc_name col = pk) (cge_columns e))
            ''called `Option::unwrap()` on a `None` value'') (\<lambda>col. Ret (get_rs_type h opt col)))
      (cge_primary_keys e)) (\<lambda>types.
    Ret (if types \<noteq> []
         then (let value_type = (if length types > 1 then [''('', join '', '' types, '')''] else types)
               in concat value_type)
         else []))"

fun is_floats :: "column_type \<Rightarrow> bool" where
  "is_floats CtFloat = True"
| "is_floats CtDouble = True"
| "is_floats (CtArray t) = is_floats t"
| "is_floats (CtVector _) = True"
| "is_floats _ = False"

definition get_eq_needed :: "cg_entity \<Rightarrow> string" where
  "get_eq_needed e =
    (case find (\<lambda>c. is_floats (cgc_type c)) (cge_columns e) of None \<Rightarrow> '', Eq'' | Some _ \<Rightarrow> [])"

definition get_column_serde_attributes :: "cg_entity \<Rightarrow> bool \<Rightarrow> bool \<Rightarrow> string list" where
  "get_column_serde_attributes e skip_deserializing_primary_key skip_hidden_column =
    map (\<lambda>col. get_serde_attribute col (cgc_name col \<in> set (cge_primary_keys e))
      skip_deserializing_primary_key skip_hidden_column) (cge_columns e)"

end
