(* ===== verification/Transformer.thy ===== *)
theory Transformer
  imports CodegenModel
begin

text \<open>
  The transformer of the entity generator (\<open>sea-orm-codegen/src/entity/transformer.rs\<close>): from the
  statements that create the tables of a schema to the entities, with the relations a foreign key
  gives on both sides and the many-to-many relations through junction tables. \<open>transform\<close> is its
  function, in the order of the code: \<open>table_step\<close> per statement, then the inverse relations, the
  relations to tables that are not generated, the junctions, and the order of the output. A
  \<open>BTreeMap\<close> is the list of its entries in key order.
\<close>

section \<open>Ordered maps\<close>

fun bt_insert :: "'k :: linorder \<Rightarrow> 'v \<Rightarrow> ('k \<times> 'v) list \<Rightarrow> ('k \<times> 'v) list" where
  "bt_insert k v [] = [(k, v)]"
| "bt_insert k v ((k', v') # m) =
    (if k < k' then (k, v) # (k', v') # m
     else if k = k' then (k, v) # m
     else (k', v') # bt_insert k v m)"

text \<open>\<open>if let Some(x) = map.get_mut(k)\<close> followed by a mutation of \<open>x\<close>.\<close>

definition bt_update :: "'k \<Rightarrow> ('v \<Rightarrow> 'v) \<Rightarrow> ('k \<times> 'v) list \<Rightarrow> ('k \<times> 'v) list" where
  "bt_update k f m = map (\<lambda>(k', v). (k', if k' = k then f v else v)) m"

definition bt_sorted :: "('k :: linorder \<times> 'v) list \<Rightarrow> bool" where
  "bt_sorted m = sorted_wrt (<) (map fst m)"

section \<open>The columns of a table\<close>

definition mark_unique :: "index_def list \<Rightarrow> cg_column \<Rightarrow> cg_column" where
  "mark_unique indexes col =
    col\<lparr>cgc_unique := (cgc_unique col
      \<or> length (filter (\<lambda>col_names. length col_names = 1 \<and> col_names ! 0 = cgc_name col)
           (map idx_cols (filter idx_unique indexes))) > 0)\<rparr>"

definition note_enum ::
  "cg_column \<Rightarrow> (string \<times> cg_active_enum) list \<Rightarrow> (string \<times> cg_active_enum) list" where
  "note_enum col enums =
    (case get_inner_col_type col of
       CtEnum name variants \<Rightarrow> bt_insert name \<lparr>cae_name = name, cae_values = variants\<rparr> enums
     | _ \<Rightarrow> enums)"

definition inline_primary_keys :: "table_create \<Rightarrow> string list" where
  "inline_primary_keys tc = map sc_name (filter sc_primary_key (tc_columns tc))"

definition transform_columns :: "table_create \<Rightarrow> cg_column list run" where
  "transform_columns tc =
    run_map (\<lambda>cd. run_bind (column_from_def cd) (\<lambda>col. Ret (mark_unique (tc_indexes tc) col)))
      (tc_columns tc)"

definition key_suffix :: "string \<Rightarrow> string" where
  "key_suffix key_name =
    (case rsplit_once ''-'' key_name of Some (_, suffix) \<Rightarrow> suffix | None \<Rightarrow> key_name)"

definition set_unique_key :: "index_def \<Rightarrow> cg_column list \<Rightarrow> cg_column list" where
  "set_unique_key index cols =
    (if idx_unique index \<and> length (idx_cols index) > 1
     then (case idx_name index of
             Some key_name \<Rightarrow>
               fold (\<lambda>col_name. map (\<lambda>column.
                   if cgc_name column = col_name
                   then column\<lparr>cgc_unique_key := Some (key_suffix key_name)\<rparr> else column))
                 (idx_cols index) cols
           | None \<Rightarrow> cols)
     else cols)"

section \<open>The relations of a table\<close>

definition count_ref :: "string \<Rightarrow> (string \<times> nat) list \<Rightarrow> (string \<times> nat) list" where
  "count_ref ref_tbl counts =
    (case map_of counts ref_tbl of
       Some n \<Rightarrow> bt_update ref_tbl (\<lambda>n. (if n = 0 then 1 else n) + 1) counts
     | None \<Rightarrow> bt_insert ref_tbl 0 counts)"

text \<open>The first pass over the foreign keys: the counters, and a relation for each key.\<close>

fun count_relations ::
  "foreign_key list \<Rightarrow> (string \<times> nat) list \<Rightarrow> ((string \<times> nat) list \<times> cg_relation list) run" where
  "count_relations [] counts = Ret (counts, [])"
| "count_relations (tbl_fk # fks) counts =
    run_bind (expect (fk_ref_tbl tbl_fk) ''called `Option::unwrap()` on a `None` value'') (\<lambda>t.
    run_bind (relation_from_fk tbl_fk) (\<lambda>rel.
    run_bind (count_relations fks (count_ref (sea_orm_table t) counts)) (\<lambda>(counts', rels).
    Ret (counts', rel # rels))))"

text \<open>The second pass numbers the relations. The closure of \<open>.rev().map(..).rev()\<close> runs when the
  outer \<open>rev\<close> is asked for its next element, which is the first one: the relations are numbered
  from the first to the last, with decreasing numbers.\<close>

fun number_relations ::
  "string \<Rightarrow> cg_relation list \<Rightarrow> (string \<times> nat) list \<Rightarrow> cg_relation list" where
  "number_relations table_name [] counts = []"
| "number_relations table_name (rel # rels) counts =
    (let rel' = rel\<lparr>cgr_self_referencing := (cgr_ref_table rel = table_name)\<rparr>
     in case map_of counts (cgr_ref_table rel) of
          Some n \<Rightarrow> rel'\<lparr>cgr_num_suffix := n\<rparr> # number_relations table_name rels
            (if n > 0 then bt_update (cgr_ref_table rel) (\<lambda>n. n - 1) counts else counts)
        | None \<Rightarrow> rel' # number_relations table_name rels counts)"

definition index_primary_keys :: "table_create \<Rightarrow> string list" where
  "index_primary_keys tc = concat (map idx_cols (filter idx_primary (tc_indexes tc)))"

section \<open>The inverse relations\<close>

definition fk_unique :: "cg_entity \<Rightarrow> cg_relation \<Rightarrow> bool" where
  "fk_unique entity rel =
    (let uniq = list_all (\<lambda>column.
           list_ex (\<lambda>col. cgc_name col = column) (filter cgc_unique (cge_columns entity)))
           (cgr_columns rel)
     in if length (cgr_columns rel) = length (cge_primary_keys entity)
           \<and> length (filter (\<lambda>pk. pk \<in> set (cgr_columns rel)) (cge_primary_keys entity))
               = length (cge_primary_keys entity)
        then True else uniq)"

definition inverse_relation :: "cg_entity \<Rightarrow> cg_relation \<Rightarrow> cg_relation" where
  "inverse_relation entity rel =
    rel\<lparr>cgr_rel_type := (if fk_unique entity rel then CgHasOne else CgHasMany),
        cgr_ref_table := cge_table_name entity, cgr_columns := [], cgr_ref_columns := []\<rparr>"

definition add_inverse ::
  "cg_entity \<Rightarrow> cg_relation \<Rightarrow> (string \<times> cg_relation list) list \<Rightarrow> (string \<times> cg_relation list) list" where
  "add_inverse entity rel inverse_relations =
    (if cgr_self_referencing rel then inverse_relations
     else if cgr_num_suffix rel > 0 then inverse_relations
     else btree_push (cgr_ref_table rel) (inverse_relation entity rel) inverse_relations)"

section \<open>One statement\<close>

record transform_state =
  tr_enums :: "(string \<times> cg_active_enum) list"
  tr_inverse :: "(string \<times> cg_relation list) list"
  tr_entities :: "(string \<times> cg_entity) list"

definition table_entity ::
  "string \<Rightarrow> table_create \<Rightarrow> cg_column list \<Rightarrow> (string \<times> nat) list \<Rightarrow> cg_relation list \<Rightarrow> cg_entity" where
  "table_entity table_name tc cols counts rels =
    \<lparr>cge_table_name = table_name,
     cge_columns = fold set_unique_key (tc_indexes tc) cols,
     cge_relations = number_relations table_name rels counts,
     cge_conjunct_relations = [],
     cge_primary_keys = inline_primary_keys tc @ index_primary_keys tc\<rparr>"

definition table_step ::
  "table_create \<Rightarrow> transform_state \<Rightarrow> (transform_state, codegen_error) result run" where
  "table_step tc s =
    (case tc_table tc of
       None \<Rightarrow> Ret (Inl (TransformError ''Table name should not be empty''))
     | Some table_ref \<Rightarrow>
         run_bind (transform_columns tc) (\<lambda>cols.
         run_bind (count_relations (tc_foreign_keys tc) []) (\<lambda>(counts, rels).
         let table_name = sea_orm_table table_ref;
             entity = table_entity table_name tc cols counts rels
         in Ret (Inr (s\<lparr>tr_enums := fold note_enum cols (tr_enums s),
                        tr_entities := bt_insert table_name entity (tr_entities s),
                        tr_inverse := fold (add_inverse entity) (cge_relations entity) (tr_inverse s)\<rparr>)))))"

fun table_steps ::
  "table_create list \<Rightarrow> transform_state \<Rightarrow> (transform_state, codegen_error) result run" where
  "table_steps [] s = Ret (Inr s)"
| "table_steps (tc # tcs) s = run_try (table_step tc s) (table_steps tcs)"

section \<open>After the last statement\<close>

definition push_inverse :: "cg_relation \<Rightarrow> cg_entity \<Rightarrow> cg_entity" where
  "push_inverse relation entity =
    (if list_ex (\<lambda>rel. cgr_ref_table rel = cgr_ref_table relation) (cge_relations entity) then entity
     else entity\<lparr>cge_relations := cge_relations entity @ [relation]\<rparr>)"

definition add_inverse_relations ::
  "(string \<times> cg_relation list) list \<Rightarrow> (string \<times> cg_entity) list \<Rightarrow> (string \<times> cg_entity) list" where
  "add_inverse_relations invs entities =
    fold (\<lambda>(tbl_name, relations). bt_update tbl_name (fold push_inverse relations)) invs entities"

definition retain_known :: "(string \<times> cg_entity) list \<Rightarrow> (string \<times> cg_entity) list" where
  "retain_known entities =
    (let table_names = map fst entities
     in map (\<lambda>(t, e). (t, e\<lparr>cge_relations := filter (\<lambda>rel.
          cgr_self_referencing rel \<or> cgr_ref_table rel \<in> set table_names) (cge_relations e)\<rparr>)) entities)"

definition is_conjunct_relation :: "cg_entity \<Rightarrow> bool" where
  "is_conjunct_relation entity =
    (length (cge_relations entity) = 2 \<and> length (cge_primary_keys entity) = 2)"

definition push_conjunct :: "string \<Rightarrow> string \<Rightarrow> cg_entity \<Rightarrow> cg_entity" where
  "push_conjunct via to entity =
    entity\<lparr>cge_conjunct_relations := cge_conjunct_relations entity @ [\<lparr>conj_via = via, conj_to = to\<rparr>]\<rparr>"

definition conjunct_step ::
  "string \<Rightarrow> (string \<times> cg_entity) list \<Rightarrow> (string \<times> cg_entity) list" where
  "conjunct_step table_name entities =
    (case map_of entities table_name of
       Some entity \<Rightarrow>
         if is_conjunct_relation entity
         then (let relations = cge_relations entity
               in fold (\<lambda>(i, rel).
                    let another_rel = relations ! (if i = 0 then 1 else 0)
                    in bt_update (cgr_ref_table rel)
                         (push_conjunct table_name (cgr_ref_table another_rel)))
                    (enumerate 0 relations) entities)
         else entities
     | None \<Rightarrow> entities)"

definition add_conjunct_relations :: "(string \<times> cg_entity) list \<Rightarrow> (string \<times> cg_entity) list" where
  "add_conjunct_relations entities = fold conjunct_step (map fst entities) entities"

definition duplicated_to :: "conjunct_relation list \<Rightarrow> string list" where
  "duplicated_to conjs =
    map fst (filter (\<lambda>(k, n). n > 1)
      (fold (\<lambda>c acc. hm_modify (conj_to c) (0 :: nat) (\<lambda>n. n + 1) acc) conjs []))"

definition finish_entity :: "cg_entity \<Rightarrow> cg_entity" where
  "finish_entity v =
    (let dup = duplicated_to (cge_conjunct_relations v);
         conjs = filter (\<lambda>c. conj_to c \<notin> set dup) (cge_conjunct_relations v);
         relations = map (\<lambda>relation.
           if list_ex (\<lambda>c. conj_to c = cgr_ref_table relation) conjs
           then relation\<lparr>cgr_impl_related := False\<rparr> else relation) (cge_relations v)
     in v\<lparr>cge_relations := sort_key cgr_ref_table relations,
          cge_conjunct_relations := sort_key conj_to conjs\<rparr>)"

record entity_writer =
  ew_entities :: "cg_entity list"
  ew_enums :: "(string \<times> cg_active_enum) list"

definition link_entities :: "transform_state \<Rightarrow> (string \<times> cg_entity) list" where
  "link_entities s =
    add_conjunct_relations (retain_known (add_inverse_relations (tr_inverse s) (tr_entities s)))"

definition transform :: "table_create list \<Rightarrow> (entity_writer, codegen_error) result run" where
  "transform stmts =
    run_try (table_steps stmts \<lparr>tr_enums = [], tr_inverse = [], tr_entities = []\<rparr>) (\<lambda>s.
      Ret (Inr \<lparr>ew_entities = map (\<lambda>(_, v). finish_entity v) (link_entities s),
                ew_enums = tr_enums s\<rparr>))"

end
