(* ===== verification/TransformerSpec.thy ===== *)
theory TransformerSpec
  imports Transformer
begin

text \<open>
  What the transformer of the entity generator computes: the laws of its ordered maps, the numbering
  of the relations to one table, the entities after all passes (\<open>linked_entity\<close>), and the properties
  of its output that make the generated code compile and mean what the schema says.
\<close>

section \<open>Ordered maps\<close>

lemma map_of_bt_insert: "map_of (bt_insert k v m) = (map_of m)(k \<mapsto> v)"
  by (induction k v m rule: bt_insert.induct) auto

lemma keys_bt_insert: "fst ` set (bt_insert k v m) = insert k (fst ` set m)"
  by (induction k v m rule: bt_insert.induct) auto

lemma sorted_bt_insert: "bt_sorted m \<Longrightarrow> bt_sorted (bt_insert k v m)"
proof (induction k v m rule: bt_insert.induct)
  case (2 k v k' v' m)
  then show ?case using keys_bt_insert[of k v m] by (auto simp: bt_sorted_def)
qed (simp add: bt_sorted_def)

lemma bt_sorted_distinct: "bt_sorted m \<Longrightarrow> distinct (map fst m)"
  unfolding bt_sorted_def by (simp add: strict_sorted_iff)

lemma bt_update_keys [simp]: "map fst (bt_update k f m) = map fst m"
  by (induction m) (auto simp: bt_update_def)

lemma bt_sorted_update [simp]: "bt_sorted (bt_update k f m) = bt_sorted m"
  by (simp add: bt_sorted_def)

lemma map_of_bt_update:
  "map_of (bt_update k f m) j = (if j = k then map_option f (map_of m j) else map_of m j)"
  by (induction m) (auto simp: bt_update_def)

lemma bt_sorted_Nil [simp]: "bt_sorted []"
  by (simp add: bt_sorted_def)

lemma bt_sorted_delete: "bt_sorted m \<Longrightarrow> bt_sorted (AList.delete k m)"
  by (induction m) (auto simp: bt_sorted_def AList.delete_eq)

text \<open>The laws of a map, of which the hash map of the library is another instance.\<close>

interpretation bt: hash_map "[]" map_of bt_insert
    "\<lambda>k d f m. bt_insert k (f (case map_of m k of None \<Rightarrow> d | Some v \<Rightarrow> v)) m"
    AList.delete bt_sorted
  by unfold_locales
    (auto simp: map_of_bt_insert delete_conv' sorted_bt_insert bt_sorted_delete)

section \<open>The numbers of the relations\<close>

text \<open>How often a table is referenced, as the counters record it.\<close>

fun next_count :: "nat option \<Rightarrow> nat option" where
  "next_count None = Some 0"
| "next_count (Some n) = Some ((if n = 0 then 1 else n) + 1)"

abbreviation refs_to :: "string \<Rightarrow> cg_relation list \<Rightarrow> cg_relation list" where
  "refs_to t rels \<equiv> filter (\<lambda>r. cgr_ref_table r = t) rels"

lemma map_of_count_ref: "map_of (count_ref t counts) = (map_of counts)(t := next_count (map_of counts t))"
  by (auto simp: count_ref_def map_of_bt_insert map_of_bt_update split: option.splits)

lemma count_relations_counts:
  "count_relations fks counts = Ret (counts', rels) \<Longrightarrow>
    map_of counts' t = (next_count ^^ length (refs_to t rels)) (map_of counts t)"
proof (induction fks arbitrary: counts counts' rels)
  case (Cons fk fks)
  from Cons.prems obtain tr rels' where tr: "fk_ref_tbl fk = Some tr"
    and rest: "count_relations fks (count_ref (sea_orm_table tr) counts) = Ret (counts', rels')"
    and rels: "relation_from_fk fk = Ret (hd rels)" "rels = hd rels # rels'"
    by (auto simp: run_simps)
  have "cgr_ref_table (hd rels) = sea_orm_table tr"
    using arg_cong[OF rels(1), of "\<lambda>x. case x of Ret r \<Rightarrow> cgr_ref_table r | _ \<Rightarrow> []"] tr
    by (simp add: relation_from_fk_def)
  with Cons.IH[OF rest] show ?case
    by (subst rels(2)) (simp add: map_of_count_ref funpow_swap1)
qed simp

lemma funpow_next_count:
  "(next_count ^^ n) None = (if n = 0 then None else if n = 1 then Some 0 else Some n)"
  by (induction n) auto

lemma counts_of_relations:
  assumes "count_relations fks [] = Ret (counts, rels)"
  shows "map_of counts t = (let n = length (refs_to t rels)
    in if n = 0 then None else if n = 1 then Some 0 else Some n)"
  using count_relations_counts[OF assms, of t] by (simp add: funpow_next_count)

text \<open>A counter fits the relations that are left to number.\<close>

definition count_fits :: "cg_relation list \<Rightarrow> (string \<times> nat) list \<Rightarrow> bool" where
  "count_fits rels counts \<longleftrightarrow>
    (\<forall>t. case map_of counts t of
       None \<Rightarrow> refs_to t rels = []
     | Some n \<Rightarrow> if n = 0 then length (refs_to t rels) \<le> 1 else length (refs_to t rels) = n)"

lemma count_fits_step:
  assumes "count_fits (rel # rels) counts" "map_of counts (cgr_ref_table rel) = Some n"
  shows "count_fits rels (if n > 0 then bt_update (cgr_ref_table rel) (\<lambda>n. n - 1) counts else counts)"
  unfolding count_fits_def
proof
  fix t
  from assms(1)[unfolded count_fits_def, rule_format, of t] assms(2)
  show "case map_of (if n > 0 then bt_update (cgr_ref_table rel) (\<lambda>n. n - 1) counts else counts) t of
      None \<Rightarrow> refs_to t rels = []
    | Some n \<Rightarrow> if n = 0 then length (refs_to t rels) \<le> 1 else length (refs_to t rels) = n"
    by (auto simp: map_of_bt_update split: option.splits if_splits)
qed

lemma number_relations_suffixes:
  assumes "count_fits rels counts"
  shows "map cgr_num_suffix (refs_to t (number_relations tn rels counts)) =
    (case map_of counts t of
       None \<Rightarrow> []
     | Some n \<Rightarrow> if n = 0 then replicate (length (refs_to t rels)) 0 else rev [1..<Suc n])"
  using assms
proof (induction tn rels counts rule: number_relations.induct)
  case (1 tn counts)
  from 1[unfolded count_fits_def, rule_format, of t] show ?case by (auto split: option.splits)
next
  case (2 tn rel rels counts)
  show ?case
  proof (cases "map_of counts (cgr_ref_table rel)")
    case None
    with 2(3)[unfolded count_fits_def, rule_format, of "cgr_ref_table rel"] show ?thesis by simp
  next
    case (Some n)
    from 2(2)[OF refl Some count_fits_step[OF 2(3) Some]] show ?thesis
      using 2(3)[unfolded count_fits_def, rule_format, of "cgr_ref_table rel"] Some
      by (auto simp: Let_def map_of_bt_update split: option.splits)
  qed
qed

lemma number_relations_shape:
  "list_all2 (\<lambda>r r'. \<exists>n. r' = r\<lparr>cgr_self_referencing := (cgr_ref_table r = tn), cgr_num_suffix := n\<rparr>)
    rels (number_relations tn rels counts)"
proof (induction tn rels counts rule: number_relations.induct)
  case (2 tn rel rels counts)
  show ?case
  proof (cases "map_of counts (cgr_ref_table rel)")
    case None
    from None 2(1)[OF refl None] show ?thesis
      by (simp add: Let_def) (rule exI[of _ "cgr_num_suffix rel"], simp)
  next
    case (Some n)
    with 2(2)[OF refl Some] show ?thesis by (auto simp: Let_def)
  qed
qed simp

lemma count_relations_shape:
  "count_relations fks counts = Ret (counts', rels) \<Longrightarrow>
    list_all2 (\<lambda>fk r. relation_from_fk fk = Ret r) fks rels"
proof (induction fks arbitrary: counts counts' rels)
  case (Cons fk fks)
  then show ?case by (auto simp: run_simps)
qed simp

lemma distinct_pairs:
  "(\<And>t. distinct (map g (filter (\<lambda>x. f x = t) xs))) \<Longrightarrow> distinct (map (\<lambda>x. (f x, g x)) xs)"
proof (induction xs)
  case (Cons x xs)
  have tail: "distinct (map g (filter (\<lambda>x. f x = t) xs))" for t
    using Cons.prems[of t] by (cases "f x = t") auto
  moreover have "(f x, g x) \<notin> (\<lambda>x. (f x, g x)) ` set xs"
  proof
    assume "(f x, g x) \<in> (\<lambda>x. (f x, g x)) ` set xs"
    then obtain y where "y \<in> set xs" "f y = f x" "g y = g x" by auto
    with Cons.prems[of "f x"] show False by (auto simp: image_iff)
  qed
  ultimately show ?case using Cons.IH by simp
qed simp

section \<open>One table\<close>

text \<open>What holds of the relations of an entity before the last pass: a relation is known by the
  table it goes to and its number.\<close>

definition relation_id :: "cg_relation \<Rightarrow> string \<times> nat" where
  "relation_id r = (cgr_ref_table r, cgr_num_suffix r)"

definition relations_ok :: "cg_entity \<Rightarrow> bool" where
  "relations_ok e \<longleftrightarrow> distinct (map relation_id (cge_relations e))
    \<and> (\<forall>r\<in>set (cge_relations e). cgr_self_referencing r = (cgr_ref_table r = cge_table_name e))
    \<and> (\<forall>r\<in>set (cge_relations e). cgr_num_suffix r > 0 \<longrightarrow>
         2 \<le> length (refs_to (cgr_ref_table r) (cge_relations e)))"

lemma counts_fit:
  assumes "count_relations fks [] = Ret (counts, rels)"
  shows "count_fits rels counts"
  unfolding count_fits_def by (simp add: counts_of_relations[OF assms] Let_def)

lemma table_suffixes:
  assumes "count_relations fks [] = Ret (counts, rels)"
  shows "map cgr_num_suffix (refs_to t (number_relations tn rels counts)) =
    (let n = length (refs_to t rels) in if n = 1 then [0] else rev [1..<Suc n])"
  using number_relations_suffixes[OF counts_fit[OF assms], of t tn]
  by (auto simp: counts_of_relations[OF assms] Let_def length_Suc_conv split: if_splits)

lemma length_refs_numbered:
  "length (refs_to t (number_relations tn rels counts)) = length (refs_to t rels)"
proof -
  have "map cgr_ref_table rs' = map cgr_ref_table rs"
    if "list_all2 (\<lambda>r r'. \<exists>n. r' = r\<lparr>cgr_self_referencing := (cgr_ref_table r = tn), cgr_num_suffix := n\<rparr>) rs rs'"
    for rs rs'
    using that by induction auto
  from this[OF number_relations_shape]
  have "length (filter (\<lambda>u. u = t) (map cgr_ref_table (number_relations tn rels counts))) =
      length (filter (\<lambda>u. u = t) (map cgr_ref_table rels))"
    by simp
  then show ?thesis by (simp add: filter_map comp_def)
qed

lemma table_entity_ok:
  assumes "count_relations fks [] = Ret (counts, rels)"
  shows "relations_ok (table_entity tn tc cols counts rels)"
proof -
  let ?rs = "number_relations tn rels counts"
  have "distinct (map cgr_num_suffix (refs_to t ?rs))" for t
    by (simp add: table_suffixes[OF assms] Let_def)
  then have "distinct (map relation_id ?rs)"
    unfolding relation_id_def by (rule distinct_pairs)
  moreover have "cgr_self_referencing r = (cgr_ref_table r = tn)" if "r \<in> set ?rs" for r
    using that number_relations_shape[of tn rels counts]
    by (auto simp: in_set_conv_nth list_all2_conv_all_nth)
  moreover have "2 \<le> length (refs_to (cgr_ref_table r) ?rs)" if "r \<in> set ?rs" "cgr_num_suffix r > 0" for r
  proof -
    have "cgr_num_suffix r \<in> set (map cgr_num_suffix (refs_to (cgr_ref_table r) ?rs))"
      using that(1) by auto
    with that(2) show ?thesis
      unfolding table_suffixes[OF assms] length_refs_numbered
      by (auto simp: Let_def split: if_splits)
  qed
  ultimately show ?thesis by (simp add: relations_ok_def table_entity_def)
qed

section \<open>All statements\<close>

definition statement_entity :: "table_create \<Rightarrow> cg_entity \<Rightarrow> bool" where
  "statement_entity tc e \<longleftrightarrow>
    (\<exists>t cols counts rels. tc_table tc = Some t \<and> transform_columns tc = Ret cols
      \<and> count_relations (tc_foreign_keys tc) [] = Ret (counts, rels)
      \<and> e = table_entity (sea_orm_table t) tc cols counts rels)"

lemma table_step_result:
  assumes "table_step tc s = Ret (Inr s')"
  obtains e where "statement_entity tc e"
    "tr_entities s' = bt_insert (cge_table_name e) e (tr_entities s)"
    "tr_inverse s' = fold (add_inverse e) (cge_relations e) (tr_inverse s)"
proof -
  from assms obtain t cols counts rels where
    "tc_table tc = Some t" "transform_columns tc = Ret cols"
    "count_relations (tc_foreign_keys tc) [] = Ret (counts, rels)"
    and s': "s' = (let entity = table_entity (sea_orm_table t) tc cols counts rels
      in s\<lparr>tr_enums := fold note_enum cols (tr_enums s),
           tr_entities := bt_insert (sea_orm_table t) entity (tr_entities s),
           tr_inverse := fold (add_inverse entity) (cge_relations entity) (tr_inverse s)\<rparr>)"
    by (auto simp: table_step_def run_simps Let_def split: option.splits)
  then have "statement_entity tc (table_entity (sea_orm_table t) tc cols counts rels)"
    by (auto simp: statement_entity_def)
  then show ?thesis by (rule that) (simp_all add: s' Let_def table_entity_def)
qed

lemma table_steps_result:
  "table_steps tcs s = Ret (Inr s') \<Longrightarrow>
    \<exists>es. list_all2 statement_entity tcs es
      \<and> tr_entities s' = fold (\<lambda>e. bt_insert (cge_table_name e) e) es (tr_entities s)
      \<and> tr_inverse s' = fold (\<lambda>e. fold (add_inverse e) (cge_relations e)) es (tr_inverse s)"
proof (induction tcs arbitrary: s)
  case (Cons tc tcs)
  from Cons.prems obtain s1 where s1: "table_step tc s = Ret (Inr s1)" and rest: "table_steps tcs s1 = Ret (Inr s')"
    by (auto simp: run_simps)
  from table_step_result[OF s1] obtain e where e: "statement_entity tc e"
    "tr_entities s1 = bt_insert (cge_table_name e) e (tr_entities s)"
    "tr_inverse s1 = fold (add_inverse e) (cge_relations e) (tr_inverse s)" by metis
  from Cons.IH[OF rest] obtain es where "list_all2 statement_entity tcs es"
    "tr_entities s' = fold (\<lambda>e. bt_insert (cge_table_name e) e) es (tr_entities s1)"
    "tr_inverse s' = fold (\<lambda>e. fold (add_inverse e) (cge_relations e)) es (tr_inverse s1)" by blast
  with e show ?case by (intro exI[of _ "e # es"]) simp
qed simp

lemma statement_entity_facts:
  assumes "statement_entity tc e"
  shows "relations_ok e" "cge_conjunct_relations e = []"
    "tc_table tc = Some t \<Longrightarrow> cge_table_name e = sea_orm_table t"
  using assms table_entity_ok by (auto simp: statement_entity_def table_entity_def)

section \<open>The inverse relations\<close>

definition entries :: "('k \<times> 'v list) list \<Rightarrow> 'k \<Rightarrow> 'v list" where
  "entries m k = (case map_of m k of None \<Rightarrow> [] | Some vs \<Rightarrow> vs)"

definition has_inverse :: "string \<Rightarrow> cg_relation \<Rightarrow> bool" where
  "has_inverse t rel \<longleftrightarrow> \<not> cgr_self_referencing rel \<and> cgr_num_suffix rel = 0 \<and> cgr_ref_table rel = t"

definition inverses :: "string \<Rightarrow> cg_entity \<Rightarrow> cg_relation list" where
  "inverses t e = map (inverse_relation e) (filter (has_inverse t) (cge_relations e))"

lemma sorted_btree_push: "bt_sorted m \<Longrightarrow> bt_sorted (btree_push k v m)"
  unfolding bt_sorted_def by (rule btree_push_sorted)

lemma entries_btree_push:
  "bt_sorted m \<Longrightarrow> entries (btree_push k v m) t = (if t = k then entries m t @ [v] else entries m t)"
  by (simp add: entries_def bt_sorted_def btree_push_get split: option.splits)

lemma fold_add_inverse:
  "bt_sorted m \<Longrightarrow> bt_sorted (fold (add_inverse e) rels m)
    \<and> entries (fold (add_inverse e) rels m) t
      = entries m t @ map (inverse_relation e) (filter (has_inverse t) rels)"
proof (induction rels arbitrary: m)
  case (Cons r rels)
  have "bt_sorted (add_inverse e r m)" using Cons.prems by (simp add: add_inverse_def sorted_btree_push)
  from Cons.IH[OF this] Cons.prems show ?case
    by (auto simp: add_inverse_def entries_btree_push has_inverse_def)
qed simp

lemma all_inverses:
  "bt_sorted m \<Longrightarrow> bt_sorted (fold (\<lambda>e. fold (add_inverse e) (cge_relations e)) es m)
    \<and> entries (fold (\<lambda>e. fold (add_inverse e) (cge_relations e)) es m) t
      = entries m t @ concat (map (inverses t) es)"
proof (induction es arbitrary: m)
  case (Cons e es)
  have m': "bt_sorted (fold (add_inverse e) (cge_relations e) m)"
    using fold_add_inverse[OF Cons.prems] by blast
  from Cons.IH[OF this] fold_add_inverse[OF Cons.prems, of e "cge_relations e" t] show ?case
    by (simp add: inverses_def)
qed simp

lemma push_inverse_facts:
  assumes "relations_ok e" "cgr_num_suffix r = 0" "\<not> cgr_self_referencing r"
    "cgr_ref_table r \<noteq> cge_table_name e"
  shows "relations_ok (push_inverse r e)"
  using assms unfolding relations_ok_def push_inverse_def
  by (auto simp: list_ex_iff relation_id_def)

lemma push_inverse_kept [simp]:
  "cge_table_name (push_inverse r e) = cge_table_name e"
  "cge_conjunct_relations (push_inverse r e) = cge_conjunct_relations e"
  "cge_columns (push_inverse r e) = cge_columns e"
  "cge_primary_keys (push_inverse r e) = cge_primary_keys e"
  by (auto simp: push_inverse_def)

lemma fold_push_inverse_kept [simp]:
  "cge_table_name (fold push_inverse rs e) = cge_table_name e"
  "cge_conjunct_relations (fold push_inverse rs e) = cge_conjunct_relations e"
  "cge_columns (fold push_inverse rs e) = cge_columns e"
  "cge_primary_keys (fold push_inverse rs e) = cge_primary_keys e"
  by (induction rs arbitrary: e) simp_all

lemma fold_push_inverse_ok:
  assumes "relations_ok e"
    "\<And>r. r \<in> set rs \<Longrightarrow> cgr_num_suffix r = 0 \<and> \<not> cgr_self_referencing r \<and> cgr_ref_table r \<noteq> cge_table_name e"
  shows "relations_ok (fold push_inverse rs e)"
  using assms
proof (induction rs arbitrary: e)
  case (Cons r rs)
  have "relations_ok (push_inverse r e)"
    using Cons.prems(2)[of r] by (intro push_inverse_facts[OF Cons.prems(1)]) auto
  with Cons.IH[of "push_inverse r e"] Cons.prems(2) show ?case by simp
qed simp

lemma inverses_facts:
  assumes "relations_ok e" "r \<in> set (inverses t e)"
  shows "cgr_num_suffix r = 0" "\<not> cgr_self_referencing r" "cgr_ref_table r \<noteq> t"
    "cgr_ref_table r = cge_table_name e"
  using assms by (auto simp: inverses_def has_inverse_def inverse_relation_def relations_ok_def)

lemma map_of_add_inverse_relations:
  "distinct (map fst invs) \<Longrightarrow> map_of (add_inverse_relations invs ents) t =
    map_option (fold push_inverse (entries invs t)) (map_of ents t)"
proof (induction invs arbitrary: ents)
  case Nil
  then show ?case by (cases "map_of ents t") (simp_all add: add_inverse_relations_def entries_def)
next
  case (Cons x invs)
  obtain u rs where x: "x = (u, rs)" by (cases x)
  have "map_of (add_inverse_relations (x # invs) ents) t =
      map_option (fold push_inverse (entries invs t)) (map_of (bt_update u (fold push_inverse rs) ents) t)"
    using Cons.IH[of "bt_update u (fold push_inverse rs) ents"] Cons.prems
    by (simp add: x add_inverse_relations_def)
  moreover have "entries invs u = []" using Cons.prems
    by (auto simp: x entries_def dest: map_of_SomeD split: option.splits)
       (metis fst_conv image_eqI map_of_SomeD)
  ultimately show ?case
    by (cases "map_of ents t") (auto simp: map_of_bt_update entries_def x)
qed

lemma keys_add_inverse_relations [simp]: "map fst (add_inverse_relations invs ents) = map fst ents"
  unfolding add_inverse_relations_def by (induction invs arbitrary: ents) auto

section \<open>Relations to known tables\<close>

definition known_relations :: "string set \<Rightarrow> cg_entity \<Rightarrow> cg_entity" where
  "known_relations names e =
    e\<lparr>cge_relations := filter (\<lambda>rel. cgr_self_referencing rel \<or> cgr_ref_table rel \<in> names) (cge_relations e)\<rparr>"

lemma retain_known_eq: "retain_known ents = map (\<lambda>(t, e). (t, known_relations (fst ` set ents) e)) ents"
  by (simp add: retain_known_def known_relations_def Let_def case_prod_unfold)

lemma keys_retain_known [simp]: "map fst (retain_known ents) = map fst ents"
  by (simp add: retain_known_eq case_prod_unfold)

lemma distinct_map_filter': "distinct (map f xs) \<Longrightarrow> distinct (map f (filter P xs))"
  by (induction xs) auto

lemma known_relations_facts:
  assumes "relations_ok e" "cge_table_name e \<in> names"
  shows "relations_ok (known_relations names e)"
    and "\<And>r. r \<in> set (cge_relations (known_relations names e)) \<Longrightarrow> cgr_ref_table r \<in> names"
    and "cge_table_name (known_relations names e) = cge_table_name e"
    and "cge_conjunct_relations (known_relations names e) = cge_conjunct_relations e"
    and "cge_primary_keys (known_relations names e) = cge_primary_keys e"
proof -
  have keep: "refs_to (cgr_ref_table r) (cge_relations (known_relations names e)) =
      refs_to (cgr_ref_table r) (cge_relations e)"
    if "r \<in> set (cge_relations (known_relations names e))" for r
  proof -
    have "cgr_ref_table r \<in> names" using that assms by (auto simp: known_relations_def relations_ok_def)
    then show ?thesis by (auto simp: known_relations_def intro!: filter_cong)
  qed
  then show "relations_ok (known_relations names e)"
    using assms(1) unfolding relations_ok_def
    by (auto simp: known_relations_def distinct_map_filter' simp del: filter_filter)
qed (use assms in \<open>auto simp: known_relations_def relations_ok_def\<close>)

section \<open>The junctions\<close>

text \<open>What a table contributes to the many-to-many relations of \<open>t\<close>: nothing unless it is taken for a
  junction, else the other side of each of its two relations that goes to \<open>t\<close>.\<close>

definition junction_of :: "string \<Rightarrow> string \<times> cg_entity \<Rightarrow> conjunct_relation list" where
  "junction_of t je =
    (if is_conjunct_relation (snd je)
     then (let r0 = cge_relations (snd je) ! 0; r1 = cge_relations (snd je) ! 1
           in (if cgr_ref_table r0 = t then [\<lparr>conj_via = fst je, conj_to = cgr_ref_table r1\<rparr>] else [])
            @ (if cgr_ref_table r1 = t then [\<lparr>conj_via = fst je, conj_to = cgr_ref_table r0\<rparr>] else []))
     else [])"

definition add_conjs :: "conjunct_relation list \<Rightarrow> cg_entity \<Rightarrow> cg_entity" where
  "add_conjs cs e = e\<lparr>cge_conjunct_relations := cge_conjunct_relations e @ cs\<rparr>"

lemma add_conjs_simps [simp]:
  "add_conjs [] e = e" "add_conjs cs (add_conjs ds e) = add_conjs (ds @ cs) e"
  "cge_relations (add_conjs cs e) = cge_relations e"
  "cge_primary_keys (add_conjs cs e) = cge_primary_keys e"
  "cge_table_name (add_conjs cs e) = cge_table_name e"
  "cge_columns (add_conjs cs e) = cge_columns e"
  "cge_conjunct_relations (add_conjs cs e) = cge_conjunct_relations e @ cs"
  by (simp_all add: add_conjs_def)

lemma push_conjunct_eq: "push_conjunct via to = add_conjs [\<lparr>conj_via = via, conj_to = to\<rparr>]"
  by (simp add: push_conjunct_def add_conjs_def fun_eq_iff)

lemma conjunct_step_get:
  assumes "map_of ents j = Some e"
  shows "map_of (conjunct_step j ents) t = map_option (add_conjs (junction_of t (j, e))) (map_of ents t)"
proof (cases "is_conjunct_relation e")
  case True
  then obtain r0 r1 where two: "cge_relations e = [r0, r1]"
    by (auto simp: is_conjunct_relation_def numeral_2_eq_2 length_Suc_conv)
  show ?thesis
    using True by (cases "map_of ents t")
      (auto simp: conjunct_step_def assms two Let_def enumerate_eq_zip map_of_bt_update junction_of_def
        push_conjunct_eq upt_rec)
next
  case False
  then show ?thesis
    by (cases "map_of ents t") (simp_all add: conjunct_step_def assms junction_of_def)
qed

lemma junction_of_add_conjs [simp]: "junction_of t (j, add_conjs cs e) = junction_of t (j, e)"
  by (simp add: junction_of_def is_conjunct_relation_def Let_def)

lemma keys_conjunct_step [simp]: "map fst (conjunct_step j ents) = map fst ents"
proof -
  have "map fst (fold (\<lambda>(i, rel). bt_update (f rel) (g i)) xs ents) = map fst ents"
    for f :: "cg_relation \<Rightarrow> string" and g :: "nat \<Rightarrow> cg_entity \<Rightarrow> cg_entity" and xs
    by (induction xs arbitrary: ents) auto
  then show ?thesis by (auto simp: conjunct_step_def Let_def split: option.splits)
qed

lemma fold_conjunct_step:
  assumes "\<And>j e. (j, e) \<in> set js \<Longrightarrow> \<exists>cs. map_of ents j = Some (add_conjs cs e)"
  shows "map_of (fold conjunct_step (map fst js) ents) t =
    map_option (add_conjs (concat (map (junction_of t) js))) (map_of ents t)"
  using assms
proof (induction js arbitrary: ents)
  case Nil
  then show ?case by (cases "map_of ents t") simp_all
next
  case (Cons je js)
  obtain j e where je: "je = (j, e)" by (cases je)
  from Cons.prems[of j e] obtain cs where j: "map_of ents j = Some (add_conjs cs e)" by (auto simp: je)
  have "\<exists>cs. map_of (conjunct_step j ents) k = Some (add_conjs cs e')" if "(k, e') \<in> set js" for k e'
    using Cons.prems[of k e'] that by (auto simp: conjunct_step_get[OF j])
  from Cons.IH[OF this] show ?case
    by (cases "map_of ents t") (simp_all add: je conjunct_step_get[OF j])
qed

lemma keys_fold_conjunct_step [simp]: "map fst (fold conjunct_step js ents) = map fst ents"
  by (induction js arbitrary: ents) auto

lemma map_of_eqI:
  assumes "map fst xs = map fst ys" "distinct (map fst xs)" "\<And>k. map_of xs k = map_of ys k"
  shows "xs = ys"
  using assms
proof (induction xs arbitrary: ys)
  case (Cons x xs)
  then obtain y ys' where ys: "ys = y # ys'" "fst y = fst x" "map fst xs = map fst ys'"
    by (cases ys) auto
  have "snd x = snd y" using Cons.prems(3)[of "fst x"] ys(2) by (simp add: ys(1))
  moreover have "map_of xs k = map_of ys' k" for k
  proof (cases "k = fst x")
    case True
    then have "k \<notin> fst ` set xs" "k \<notin> fst ` set ys'"
      using Cons.prems(2) ys(3) by (auto simp flip: set_map)
    then show ?thesis by (simp add: map_of_eq_None_iff[THEN iffD2])
  next
    case False
    with Cons.prems(3)[of k] ys(2) show ?thesis by (simp add: ys(1))
  qed
  ultimately show ?case
    using Cons.IH[OF ys(3)] Cons.prems(2) ys by (simp add: prod_eq_iff)
qed simp

lemma map_of_map_snd: "map_of (map (\<lambda>(k, v). (k, f k v)) xs) k = map_option (f k) (map_of xs k)"
  by (induction xs) auto

lemma add_conjunct_relations_eq:
  assumes "distinct (map fst ents)"
  shows "add_conjunct_relations ents =
    map (\<lambda>(t, e). (t, add_conjs (concat (map (junction_of t) ents)) e)) ents"
proof (rule map_of_eqI)
  show "map_of (add_conjunct_relations ents) t =
      map_of (map (\<lambda>(t, e). (t, add_conjs (concat (map (junction_of t) ents)) e)) ents) t" for t
    unfolding add_conjunct_relations_def map_of_map_snd
    by (rule fold_conjunct_step) (use assms in \<open>auto intro!: exI[of _ "[]"]\<close>)
qed (use assms in \<open>simp_all add: add_conjunct_relations_def case_prod_unfold\<close>)

section \<open>The output\<close>

definition tables_of :: "cg_entity list \<Rightarrow> (string \<times> cg_entity) list" where
  "tables_of es = fold (\<lambda>e. bt_insert (cge_table_name e) e) es []"

definition before_junctions :: "cg_entity list \<Rightarrow> (string \<times> cg_entity) list" where
  "before_junctions es =
    map (\<lambda>(t, e). (t, known_relations (cge_table_name ` set es)
      (fold push_inverse (concat (map (inverses t) es)) e))) (tables_of es)"

definition junctions_of :: "(string \<times> cg_entity) list \<Rightarrow> string \<Rightarrow> conjunct_relation list" where
  "junctions_of ents t = concat (map (junction_of t) ents)"

definition linked :: "(string \<times> cg_entity) list \<Rightarrow> bool" where
  "linked ents \<longleftrightarrow> distinct (map fst ents)
    \<and> (\<forall>(t, e)\<in>set ents. cge_table_name e = t \<and> cge_conjunct_relations e = [] \<and> relations_ok e
         \<and> (\<forall>r\<in>set (cge_relations e). cgr_ref_table r \<in> fst ` set ents))"

lemma sorted_tables_of: "bt_sorted (tables_of es)"
  unfolding tables_of_def by (rule bt.wf_fold_ins) simp

lemma get_tables_of: "map_of (tables_of es) t = map_of (rev (map (\<lambda>e. (cge_table_name e, e)) es)) t"
  unfolding tables_of_def by (simp add: bt.get_fold_ins_empty)

lemma keys_tables_of: "fst ` set (tables_of es) = cge_table_name ` set es"
proof -
  have "t \<in> fst ` set (tables_of es) \<longleftrightarrow> t \<in> cge_table_name ` set es" for t
    using get_tables_of[of es t] map_of_eq_None_iff[of "tables_of es" t]
      map_of_eq_None_iff[of "rev (map (\<lambda>e. (cge_table_name e, e)) es)" t]
    by (simp add: image_image)
  then show ?thesis by blast
qed

lemma in_tables_of: "(t, e) \<in> set (tables_of es) \<Longrightarrow> e \<in> set es \<and> cge_table_name e = t"
proof -
  assume "(t, e) \<in> set (tables_of es)"
  then have "map_of (tables_of es) t = Some e"
    using bt_sorted_distinct[OF sorted_tables_of] by simp
  then show ?thesis by (auto simp: get_tables_of dest: map_of_SomeD)
qed

lemma linked_before_junctions:
  assumes ok: "\<And>e. e \<in> set es \<Longrightarrow> relations_ok e \<and> cge_conjunct_relations e = []"
  shows "linked (before_junctions es)"
proof -
  let ?names = "cge_table_name ` set es"
  have names: "fst ` set (before_junctions es) = ?names"
    by (simp add: before_junctions_def image_image case_prod_unfold keys_tables_of)
  have "cge_table_name d = t \<and> cge_conjunct_relations d = [] \<and> relations_ok d
      \<and> (\<forall>r\<in>set (cge_relations d). cgr_ref_table r \<in> ?names)"
    if td: "(t, d) \<in> set (before_junctions es)" for t d
  proof -
    let ?inv = "concat (map (inverses t) es)"
    from td obtain e where e: "(t, e) \<in> set (tables_of es)"
      and d: "d = known_relations ?names (fold push_inverse ?inv e)"
      by (auto simp: before_junctions_def)
    from in_tables_of[OF e] have "e \<in> set es" and t: "cge_table_name e = t" by auto
    have "relations_ok (fold push_inverse ?inv e)"
      using \<open>e \<in> set es\<close> ok t by (intro fold_push_inverse_ok) (auto dest: inverses_facts)
    note known = known_relations_facts[OF this, of ?names]
    from known ok[OF \<open>e \<in> set es\<close>] \<open>e \<in> set es\<close> t show ?thesis by (auto simp: d)
  qed
  moreover have "distinct (map fst (before_junctions es))"
    using bt_sorted_distinct[OF sorted_tables_of]
    by (simp add: before_junctions_def case_prod_unfold comp_def)
  ultimately show ?thesis unfolding linked_def names by blast
qed

lemma before_junctions_eq:
  assumes "tr_entities s = tables_of es"
    and "tr_inverse s = fold (\<lambda>e. fold (add_inverse e) (cge_relations e)) es []"
  shows "retain_known (add_inverse_relations (tr_inverse s) (tr_entities s)) = before_junctions es"
proof (rule map_of_eqI)
  note inv = all_inverses[OF bt_sorted_Nil, of es, folded assms(2)]
  have distinct: "distinct (map fst (tr_inverse s))" using inv by (blast intro: bt_sorted_distinct)
  have names: "fst ` set (add_inverse_relations (tr_inverse s) (tr_entities s)) = cge_table_name ` set es"
    using keys_add_inverse_relations[of "tr_inverse s" "tr_entities s"]
    by (metis assms(1) keys_tables_of list.set_map)
  show "map_of (retain_known (add_inverse_relations (tr_inverse s) (tr_entities s))) t =
      map_of (before_junctions es) t" for t
    using conjunct2[OF inv, of t]
    by (simp add: retain_known_eq before_junctions_def map_of_map_snd names[unfolded assms(1)]
      map_of_add_inverse_relations[OF distinct] assms(1) entries_def option.map_comp comp_def)
  show "map fst (retain_known (add_inverse_relations (tr_inverse s) (tr_entities s))) =
      map fst (before_junctions es)"
    by (simp add: before_junctions_def case_prod_unfold assms(1) comp_def)
  show "distinct (map fst (retain_known (add_inverse_relations (tr_inverse s) (tr_entities s))))"
    using bt_sorted_distinct[OF sorted_tables_of] by (simp add: assms(1))
qed

lemma transform_result:
  assumes "transform stmts = Ret (Inr w)"
  obtains es where "list_all2 statement_entity stmts es" "linked (before_junctions es)"
    "ew_entities w = map (\<lambda>(t, e). finish_entity (add_conjs (junctions_of (before_junctions es) t) e))
      (before_junctions es)"
proof -
  let ?s0 = "\<lparr>tr_enums = [], tr_inverse = [], tr_entities = []\<rparr>"
  from assms obtain s where s: "table_steps stmts ?s0 = Ret (Inr s)"
    and w: "ew_entities w = map (\<lambda>(_, v). finish_entity v) (link_entities s)"
    by (auto simp: transform_def run_simps)
  from table_steps_result[OF s] obtain es where es: "list_all2 statement_entity stmts es"
    and ents: "tr_entities s = tables_of es"
    and inv: "tr_inverse s = fold (\<lambda>e. fold (add_inverse e) (cge_relations e)) es []"
    by (auto simp: tables_of_def)
  have "relations_ok e \<and> cge_conjunct_relations e = []" if "e \<in> set es" for e
    using es that statement_entity_facts by (auto simp: list_all2_conv_all_nth in_set_conv_nth)
  then have linked: "linked (before_junctions es)" by (rule linked_before_junctions)
  then have "link_entities s = map (\<lambda>(t, e). (t, add_conjs (junctions_of (before_junctions es) t) e))
      (before_junctions es)"
    unfolding link_entities_def before_junctions_eq[OF ents inv] junctions_of_def
    by (intro add_conjunct_relations_eq) (simp add: linked_def)
  then show ?thesis using that[OF es linked] w by (simp add: case_prod_unfold comp_def)
qed
end
