(* ===== verification/CodegenWriter.thy ===== *)
theory CodegenWriter
  imports Transformer
begin

text \<open>
  The writer of the entity generator (\<open>sea-orm-codegen/src/entity/writer.rs\<close>, \<open>writer/compact.rs\<close>,
  \<open>expanded.rs\<close>, \<open>frontend.rs\<close>, \<open>dense.rs\<close>): the Rust items written for an entity. A \<open>TokenStream\<close> of
  items is a list of \<open>rust_item\<close>, the abstract syntax of what \<open>quote!\<close> spells; types, paths, attributes
  and bodies are text. The options that are token streams of their own (extra derives and attributes)
  are text as well.
\<close>

section \<open>Items\<close>

record rust_field =
  rf_attrs :: "string list"
  rf_name :: string
  rf_type :: string

record rust_variant =
  rv_attrs :: "string list"
  rv_name :: string

record rust_use =
  ru_path :: string
  ru_name :: string

text \<open>An import binds the name \<open>ru_name\<close> to the item \<open>ru_path\<close>; \<open>use p;\<close> binds the last segment, which
  is then the \<open>ru_name\<close>. \<open>ImplRelated\<close> is \<open>impl Related<target> for Entity\<close> with the bodies of \<open>to\<close> and
  of \<open>via\<close>, when there is one.\<close>

datatype rust_item =
    UseItem rust_use
  | GlobUse string
  | TypeAlias string string
  | ModItem string
  | UnitStruct "string list" string
  | StructItem "string list" string "rust_field list"
  | EnumItem "string list" string "rust_variant list"
  | ImplRelated string string "string option"
  | ImplItem string "string list"
  | MacroItem string "string list"

datatype with_serde = SerdeNone | SerdeSerialize | SerdeDeserialize | SerdeBoth
datatype entity_format = Compact | Expanded | Frontend | Dense
datatype with_prelude = PreludeAll | PreludeNone | PreludeAllAllowUnusedImports
datatype banner_version = BannerOff | BannerMajor | BannerMinor | BannerPatch

fun extra_derive :: "with_serde \<Rightarrow> string" where
  "extra_derive SerdeNone = []"
| "extra_derive SerdeSerialize = '', Serialize''"
| "extra_derive SerdeDeserialize = '', Deserialize''"
| "extra_derive SerdeBoth = '', Serialize, Deserialize''"

definition bonus_derive :: "string list \<Rightarrow> string" where
  "bonus_derive extra_derives = fold (\<lambda>d acc. acc @ '', '' @ d) extra_derives []"

definition bonus_attributes :: "string list \<Rightarrow> string list" where
  "bonus_attributes attributes = fold (\<lambda>a acc. acc @ [''#['' @ a @ '']'']) attributes []"

definition unsupported_variant :: "string \<Rightarrow> string \<Rightarrow> codegen_error" where
  "unsupported_variant v possible =
    TransformError (''Unsupported enum variant '' @ [CHR 0x27] @ v @ [CHR 0x27]
      @ '' (possible variant: '' @ possible @ '')'')"

definition with_prelude_from_str :: "string \<Rightarrow> (with_prelude, codegen_error) result" where
  "with_prelude_from_str s =
    (if s = ''none'' then Inr PreludeNone
     else if s = ''all-allow-unused-imports'' then Inr PreludeAllAllowUnusedImports
     else if s = ''all'' then Inr PreludeAll
     else Inl (unsupported_variant s ''none, all-allow-unused-imports, all''))"

definition entity_format_from_str :: "string \<Rightarrow> (entity_format, codegen_error) result" where
  "entity_format_from_str s =
    (if s = ''compact'' then Inr Compact
     else if s = ''expanded'' then Inr Expanded
     else if s = ''frontend'' then Inr Frontend
     else if s = ''dense'' then Inr Dense
     else Inl (unsupported_variant s ''compact, expanded, frontend, dense''))"

definition with_serde_from_str :: "string \<Rightarrow> (with_serde, codegen_error) result" where
  "with_serde_from_str s =
    (if s = ''none'' then Inr SerdeNone
     else if s = ''serialize'' then Inr SerdeSerialize
     else if s = ''deserialize'' then Inr SerdeDeserialize
     else if s = ''both'' then Inr SerdeBoth
     else Inl (unsupported_variant s ''none, serialize, deserialize, both''))"

section \<open>Imports\<close>

fun gen_import_serde :: "with_serde \<Rightarrow> rust_item list" where
  "gen_import_serde SerdeNone = []"
| "gen_import_serde SerdeSerialize = [UseItem \<lparr>ru_path = ''serde::Serialize'', ru_name = ''Serialize''\<rparr>]"
| "gen_import_serde SerdeDeserialize = [UseItem \<lparr>ru_path = ''serde::Deserialize'', ru_name = ''Deserialize''\<rparr>]"
| "gen_import_serde SerdeBoth =
    [UseItem \<lparr>ru_path = ''serde::Deserialize'', ru_name = ''Deserialize''\<rparr>,
     UseItem \<lparr>ru_path = ''serde::Serialize'', ru_name = ''Serialize''\<rparr>]"

definition gen_import :: "with_serde \<Rightarrow> rust_item list" where
  "gen_import serde = GlobUse ''sea_orm::entity::prelude'' # gen_import_serde serde"

text \<open>The local names of the active enums: a name that is taken gets the suffix \<open>Enum\<close>, and then a
  number, the first one from 2 that is free.\<close>

definition reserved_idents :: "string list" where
  "reserved_idents = [''Model'', ''Entity'', ''ActiveModel'', ''Column'', ''PrimaryKey'', ''Relation'']"

definition enum_candidate :: "string \<Rightarrow> nat \<Rightarrow> string" where
  "enum_candidate enum_name_upper i = enum_name_upper @ ''Enum'' @ show_nat i"

lemma enum_candidate_inj: "inj (enum_candidate u)"
  by (rule injI) (simp add: enum_candidate_def)

function free_candidate :: "string list \<Rightarrow> string \<Rightarrow> nat \<Rightarrow> string" where
  "free_candidate used_idents enum_name_upper i =
    (if enum_candidate enum_name_upper i \<notin> set used_idents then enum_candidate enum_name_upper i
     else free_candidate used_idents enum_name_upper (i + 1))"
  by pat_completeness auto

text \<open>Each round passes one of the used identifiers.\<close>

termination free_candidate
proof (relation "measure (\<lambda>(used, u, i). card {j. i \<le> j \<and> enum_candidate u j \<in> set used})")
  fix used :: "string list" and u i
  assume "\<not> enum_candidate u i \<notin> set used"
  then have "{j. i \<le> j \<and> enum_candidate u j \<in> set used} =
      insert i {j. i + 1 \<le> j \<and> enum_candidate u j \<in> set used}"
    by (auto simp: Suc_le_eq le_less)
  moreover have "finite {j. i + 1 \<le> j \<and> enum_candidate u j \<in> set used}"
    by (rule finite_subset[OF _ finite_vimageI[OF _ enum_candidate_inj, of "set used" u]]) auto
  ultimately show "((used, u, i + 1), used, u, i) \<in>
      measure (\<lambda>(used, u, i). card {j. i \<le> j \<and> enum_candidate u j \<in> set used})"
    by simp
qed simp

declare free_candidate.simps [simp del]

definition local_enum_ident :: "string list \<Rightarrow> string \<Rightarrow> string" where
  "local_enum_ident used_idents enum_name_upper =
    (let local = (if enum_name_upper \<in> set used_idents then enum_name_upper @ ''Enum'' else enum_name_upper)
     in if local \<in> set used_idents then free_candidate used_idents enum_name_upper 2 else local)"

record enum_imports =
  ei_imports :: "rust_item list"
  ei_idents :: "(string \<times> string) list"
  ei_used :: "string list"

definition import_enum_step :: "heck \<Rightarrow> cg_column \<Rightarrow> enum_imports \<Rightarrow> enum_imports" where
  "import_enum_step h col s =
    (case get_inner_col_type col of
       CtEnum enum_name _ \<Rightarrow>
         if map_of (ei_idents s) enum_name \<noteq> None then s
         else (let enum_name_upper = to_upper_camel_case h enum_name;
                   local = local_enum_ident (ei_used s) enum_name_upper
               in \<lparr>ei_imports = ei_imports s @
                     [UseItem \<lparr>ru_path = ''super::sea_orm_active_enums::'' @ enum_name_upper, ru_name = local\<rparr>],
                   ei_idents = bt_insert enum_name local (ei_idents s),
                   ei_used = local # ei_used s\<rparr>)
     | _ \<Rightarrow> s)"

definition gen_import_active_enum :: "heck \<Rightarrow> cg_entity \<Rightarrow> enum_imports" where
  "gen_import_active_enum h entity =
    fold (import_enum_step h) (cge_columns entity)
      \<lparr>ei_imports = [], ei_idents = [], ei_used = reserved_idents\<rparr>"

definition get_column_rs_types_with_enum_idents ::
  "heck \<Rightarrow> cg_entity \<Rightarrow> column_option \<Rightarrow> (string \<times> string) list \<Rightarrow> string list" where
  "get_column_rs_types_with_enum_idents h entity opt idents =
    map (\<lambda>col.
      case cgc_type col of
        CtArray _ \<Rightarrow> get_rs_type h opt col
      | CtEnum name _ \<Rightarrow>
          (case map_of idents name of
             Some ident \<Rightarrow> optional_type (cgc_not_null col) ident
           | None \<Rightarrow> get_rs_type h opt col)
      | _ \<Rightarrow> get_rs_type h opt col) (cge_columns entity)"

section \<open>The items of an entity\<close>

definition gen_entity_struct :: "rust_item list" where
  "gen_entity_struct = [UnitStruct [''#[derive(Copy, Clone, Default, Debug, DeriveEntity)]''] ''Entity'']"

definition gen_impl_entity_name :: "cg_entity \<Rightarrow> string option \<Rightarrow> rust_item list" where
  "gen_impl_entity_name entity schema_name =
    [ImplItem ''EntityName for Entity''
      ((case schema_name of
          Some s \<Rightarrow> [''fn schema_name(&self) -> Option<&str> { Some('' @ quoted s @ '') }'']
        | None \<Rightarrow> [])
       @ [''fn table_name(&self) -> &'' @ [CHR 0x27] @ ''static str { '' @ quoted (cge_table_name entity) @ '' }''])]"

definition gen_column_enum :: "heck \<Rightarrow> cg_entity \<Rightarrow> string \<Rightarrow> rust_item list" where
  "gen_column_enum h entity column_extra_derives =
    [EnumItem [''#[derive(Copy, Clone, Debug, EnumIter, DeriveColumn'' @ column_extra_derives @ '')]''] ''Column''
      (map (\<lambda>col. \<lparr>rv_attrs = (if \<not> is_snake_case_name h col
             then [''#[sea_orm(column_name = '' @ quoted (cgc_name col) @ '')]''] else []),
           rv_name = column_camel_case h col\<rparr>) (cge_columns entity))]"

definition gen_primary_key_enum :: "heck \<Rightarrow> cg_entity \<Rightarrow> rust_item list" where
  "gen_primary_key_enum h entity =
    [EnumItem [''#[derive(Copy, Clone, Debug, EnumIter, DerivePrimaryKey)]''] ''PrimaryKey''
      (map (\<lambda>pk. \<lparr>rv_attrs = [], rv_name = to_upper_camel_case h pk\<rparr>) (cge_primary_keys entity))]"

definition gen_impl_primary_key :: "heck \<Rightarrow> cg_entity \<Rightarrow> column_option \<Rightarrow> rust_item list run" where
  "gen_impl_primary_key h entity opt =
    run_bind (get_primary_key_rs_type h opt entity) (\<lambda>value_type.
      Ret [ImplItem ''PrimaryKeyTrait for PrimaryKey''
        [''type ValueType = '' @ value_type @ '';'',
         ''fn auto_increment() -> bool { ''
           @ (if get_primary_key_auto_increment entity then ''true'' else ''false'') @ '' }'']])"

definition gen_relation_enum :: "heck \<Rightarrow> cg_entity \<Rightarrow> rust_item list" where
  "gen_relation_enum h entity =
    [EnumItem [''#[derive(Copy, Clone, Debug, EnumIter)]''] ''Relation''
      (map (\<lambda>n. \<lparr>rv_attrs = [], rv_name = n\<rparr>) (get_relation_enum_name h entity))]"

definition gen_impl_column_trait :: "heck \<Rightarrow> cg_entity \<Rightarrow> (string \<times> string) list \<Rightarrow> rust_item list" where
  "gen_impl_column_trait h entity idents =
    [ImplItem ''ColumnTrait for Column''
      [''type EntityName = Entity;'',
       ''fn def(&self) -> ColumnDef { match self { ''
       @ concat (map (\<lambda>col. ''Self::'' @ column_camel_case h col @ '' => ''
           @ (case get_inner_col_type col of
                CtEnum name _ \<Rightarrow>
                  (case map_of idents name of
                     Some ident \<Rightarrow> get_def_with_enum_type_ident h ident col
                   | None \<Rightarrow> get_def h col)
              | _ \<Rightarrow> get_def h col) @ '', '') (cge_columns entity)) @ ''} }'']]"

definition gen_impl_relation_trait :: "heck \<Rightarrow> cg_entity \<Rightarrow> rust_item list" where
  "gen_impl_relation_trait h entity =
    [ImplItem ''RelationTrait for Relation''
      [''fn def(&self) -> RelationDef { ''
       @ (if get_relation_enum_name h entity = [] then ''panic!('' @ quoted ''No RelationDef'' @ '')''
          else ''match self { ''
            @ concat (map (\<lambda>rel. ''Self::'' @ relation_enum_name h rel @ '' => '' @ relation_def_text h rel @ '', '')
                (cge_relations entity)) @ ''}'')
       @ '' }'']]"

definition gen_impl_related :: "heck \<Rightarrow> cg_entity \<Rightarrow> rust_item list list" where
  "gen_impl_related h entity =
    map (\<lambda>rel. [ImplRelated
        (case relation_module_name h rel of Some m \<Rightarrow> ''super::'' @ m @ ''::Entity'' | None \<Rightarrow> ''Entity'')
        (''Relation::'' @ relation_enum_name h rel @ ''.def()'') None])
      (filter (\<lambda>rel. \<not> cgr_self_referencing rel \<and> cgr_num_suffix rel = 0 \<and> cgr_impl_related rel)
        (cge_relations entity))"

definition gen_impl_conjunct_related :: "heck \<Rightarrow> cg_entity \<Rightarrow> rust_item list list" where
  "gen_impl_conjunct_related h entity =
    map (\<lambda>c. [ImplRelated (''super::'' @ get_to_snake_case h c @ ''::Entity'')
        (''super::'' @ get_via_snake_case h c @ ''::Relation::'' @ get_to_upper_camel_case h c @ ''.def()'')
        (Some (''super::'' @ get_via_snake_case h c @ ''::Relation::'' @ entity_camel_case_ident h entity
          @ ''.def().rev()''))])
      (cge_conjunct_relations entity)"

definition gen_related_entity :: "heck \<Rightarrow> cg_entity \<Rightarrow> rust_item list" where
  "gen_related_entity h entity =
    [EnumItem [''#[derive(Copy, Clone, Debug, EnumIter, DeriveRelatedEntity)]''] ''RelatedEntity''
      (map2 (\<lambda>attr n. \<lparr>rv_attrs = [attr], rv_name = n\<rparr>)
        (get_related_entity_attrs h entity) (get_related_entity_enum_name h entity))]"

definition impl_active_model_behavior :: "rust_item list" where
  "impl_active_model_behavior = [ImplItem ''ActiveModelBehavior for ActiveModel'' []]"

definition gen_mod :: "heck \<Rightarrow> cg_entity \<Rightarrow> rust_item list" where
  "gen_mod h entity = [ModItem (escape_rust_keyword (entity_snake_case_ident h entity))]"

definition gen_prelude_use :: "heck \<Rightarrow> cg_entity \<Rightarrow> rust_item list" where
  "gen_prelude_use h entity =
    [UseItem \<lparr>ru_path = ''super::'' @ entity_snake_case_ident h entity @ ''::Entity'',
              ru_name = entity_camel_case_ident h entity\<rparr>]"

definition gen_prelude_use_model :: "heck \<Rightarrow> cg_entity \<Rightarrow> rust_item list" where
  "gen_prelude_use_model h entity =
    [UseItem \<lparr>ru_path = ''super::'' @ entity_snake_case_ident h entity @ ''::Model'',
              ru_name = entity_camel_case_ident h entity\<rparr>]"

end
