(* ===== verification/CodegenFormats.thy ===== *)
theory CodegenFormats
  imports CodegenWriter
begin

text \<open>
  The four formats of the entity generator (\<open>sea-orm-codegen/src/entity/writer/compact.rs\<close>,
  \<open>expanded.rs\<close>, \<open>frontend.rs\<close>, \<open>dense.rs\<close>), the files it writes (\<open>writer.rs\<close>) and the Mermaid diagram
  (\<open>mermaid.rs\<close>). \<open>pluralize\<close> is the function of the crate \<open>pluralizer\<close>, \<open>print\<close> the text of a block of
  tokens; both are arguments.
\<close>

section \<open>The model struct\<close>

definition model_field_attrs :: "heck \<Rightarrow> cg_entity \<Rightarrow> cg_column \<Rightarrow> string list" where
  "model_field_attrs h entity col =
    (let is_primary_key = (cgc_name col \<in> set (cge_primary_keys entity))
     in (if \<not> is_snake_case_name h col then [''column_name = '' @ quoted (cgc_name col)] else [])
        @ (if is_primary_key
           then ''primary_key'' # (if \<not> cgc_auto_increment col then [''auto_increment = false''] else [])
           else [])
        @ (case get_col_type_attrs col of
             Some ts \<Rightarrow> ts # (if \<not> cgc_not_null col then [''nullable''] else [])
           | None \<Rightarrow> [])
        @ (if cgc_unique col then [''unique'']
           else (case cgc_unique_key col of
                   Some unique_key \<Rightarrow> [''unique_key = '' @ quoted unique_key]
                 | None \<Rightarrow> [])))"

definition model_field :: "heck \<Rightarrow> cg_entity \<Rightarrow> bool \<Rightarrow> bool \<Rightarrow> cg_column \<Rightarrow> string \<Rightarrow> rust_field" where
  "model_field h entity skip_deserializing_primary_key skip_hidden_column col rs_type =
    (let attrs = model_field_attrs h entity col;
         serde = get_serde_attribute col (cgc_name col \<in> set (cge_primary_keys entity))
           skip_deserializing_primary_key skip_hidden_column
     in \<lparr>rf_attrs = (if attrs \<noteq> [] then [''#[sea_orm('' @ join '', '' attrs @ '')]''] else [])
           @ (if serde \<noteq> [] then [serde] else []),
         rf_name = column_snake_case h col, rf_type = rs_type\<rparr>)"

definition serde_field :: "heck \<Rightarrow> string \<Rightarrow> cg_column \<Rightarrow> string \<Rightarrow> rust_field" where
  "serde_field h serde col rs_type =
    \<lparr>rf_attrs = (if serde \<noteq> [] then [serde] else []), rf_name = column_snake_case h col, rf_type = rs_type\<rparr>"

definition table_attr :: "cg_entity \<Rightarrow> string option \<Rightarrow> string" where
  "table_attr entity schema_name =
    ''#[sea_orm('' @ (case schema_name of Some s \<Rightarrow> ''schema_name = '' @ quoted s @ '', '' | None \<Rightarrow> [])
      @ ''table_name = '' @ quoted (cge_table_name entity) @ '')]''"

text \<open>The options all formats share.\<close>

record format_options =
  fo_serde :: with_serde
  fo_column :: column_option
  fo_schema_name :: "string option"
  fo_skip_deserializing_primary_key :: bool
  fo_skip_hidden_column :: bool
  fo_model_extra_derives :: string
  fo_model_extra_attributes :: "string list"
  fo_column_extra_derives :: string
  fo_seaography :: bool
  fo_impl_active_model_behavior :: bool

definition compact_fields ::
  "heck \<Rightarrow> cg_entity \<Rightarrow> format_options \<Rightarrow> (string \<times> string) list \<Rightarrow> rust_field list" where
  "compact_fields h entity fo idents =
    map2 (model_field h entity (fo_skip_deserializing_primary_key fo) (fo_skip_hidden_column fo))
      (cge_columns entity) (get_column_rs_types_with_enum_idents h entity (fo_column fo) idents)"

section \<open>Compact\<close>

definition gen_compact_model_struct ::
  "heck \<Rightarrow> cg_entity \<Rightarrow> format_options \<Rightarrow> (string \<times> string) list \<Rightarrow> rust_item list" where
  "gen_compact_model_struct h entity fo idents =
    [StructItem
      ([''#[derive(Clone, Debug, PartialEq'' @ get_eq_needed entity @ '', DeriveEntityModel''
          @ extra_derive (fo_serde fo) @ fo_model_extra_derives fo @ '')]'',
        table_attr entity (fo_schema_name fo)] @ fo_model_extra_attributes fo)
      ''Model'' (compact_fields h entity fo idents)]"

definition gen_compact_relation_enum :: "heck \<Rightarrow> cg_entity \<Rightarrow> rust_item list" where
  "gen_compact_relation_enum h entity =
    [EnumItem [''#[derive(Copy, Clone, Debug, EnumIter, DeriveRelation)]''] ''Relation''
      (map (\<lambda>rel. \<lparr>rv_attrs = [relation_attrs h rel], rv_name = relation_enum_name h rel\<rparr>)
        (cge_relations entity))]"

definition gen_compact_code_blocks :: "heck \<Rightarrow> cg_entity \<Rightarrow> format_options \<Rightarrow> rust_item list list" where
  "gen_compact_code_blocks h entity fo =
    (let active_enums = gen_import_active_enum h entity;
         imports = gen_import (fo_serde fo) @ ei_imports active_enums
     in [imports, gen_compact_model_struct h entity fo (ei_idents active_enums),
         gen_compact_relation_enum h entity]
        @ gen_impl_related h entity @ gen_impl_conjunct_related h entity
        @ (if fo_impl_active_model_behavior fo then [impl_active_model_behavior] else [])
        @ (if fo_seaography fo then [gen_related_entity h entity] else []))"

section \<open>Expanded\<close>

definition gen_expanded_model_struct ::
  "heck \<Rightarrow> cg_entity \<Rightarrow> format_options \<Rightarrow> (string \<times> string) list \<Rightarrow> rust_item list" where
  "gen_expanded_model_struct h entity fo idents =
    [StructItem
      ([''#[derive(Clone, Debug, PartialEq, DeriveModel, DeriveActiveModel'' @ get_eq_needed entity
          @ extra_derive (fo_serde fo) @ fo_model_extra_derives fo @ '')]''] @ fo_model_extra_attributes fo)
      ''Model''
      (map2 (\<lambda>serde (col, ty). serde_field h serde col ty)
        (get_column_serde_attributes entity (fo_skip_deserializing_primary_key fo) (fo_skip_hidden_column fo))
        (zip (cge_columns entity) (get_column_rs_types_with_enum_idents h entity (fo_column fo) idents)))]"

definition gen_expanded_code_blocks ::
  "heck \<Rightarrow> cg_entity \<Rightarrow> format_options \<Rightarrow> rust_item list list run" where
  "gen_expanded_code_blocks h entity fo =
    (let active_enums = gen_import_active_enum h entity;
         imports = gen_import (fo_serde fo) @ ei_imports active_enums
     in run_bind (gen_impl_primary_key h entity (fo_column fo)) (\<lambda>impl_primary_key.
          Ret ([imports, gen_entity_struct, gen_impl_entity_name entity (fo_schema_name fo),
             gen_expanded_model_struct h entity fo (ei_idents active_enums),
             gen_column_enum h entity (fo_column_extra_derives fo), gen_primary_key_enum h entity,
             impl_primary_key, gen_relation_enum h entity,
             gen_impl_column_trait h entity (ei_idents active_enums), gen_impl_relation_trait h entity]
            @ gen_impl_related h entity @ gen_impl_conjunct_related h entity
            @ (if fo_impl_active_model_behavior fo then [impl_active_model_behavior] else [])
            @ (if fo_seaography fo then [gen_related_entity h entity] else []))))"

section \<open>Frontend\<close>

datatype external_type =
    JsonOrJsonBinary | ExtDate | ExtTime | ExtDateTime | ExtTimestamp | ExtTimestampWithTimeZone
  | DecimalOrMoney | ExtUuid | ExtVector | CidrOrInet

fun external_type_of :: "column_type \<Rightarrow> external_type option" where
  "external_type_of CtJson = Some JsonOrJsonBinary"
| "external_type_of CtJsonBinary = Some JsonOrJsonBinary"
| "external_type_of CtDate = Some ExtDate"
| "external_type_of CtTime = Some ExtTime"
| "external_type_of CtDateTime = Some ExtDateTime"
| "external_type_of CtTimestamp = Some ExtTimestamp"
| "external_type_of CtTimestampWithTimeZone = Some ExtTimestampWithTimeZone"
| "external_type_of (CtDecimal _) = Some DecimalOrMoney"
| "external_type_of (CtMoney _) = Some DecimalOrMoney"
| "external_type_of CtUuid = Some ExtUuid"
| "external_type_of (CtVector _) = Some ExtVector"
| "external_type_of CtCidr = Some CidrOrInet"
| "external_type_of CtInet = Some CidrOrInet"
| "external_type_of _ = None"

record frontend_uses =
  fu_date_time :: "rust_use list"
  fu_aliases :: "(string \<times> string) list"
  fu_plain :: "rust_use list"
  fu_encountered :: "external_type list"

definition use_date_time :: "string \<Rightarrow> string \<Rightarrow> frontend_uses \<Rightarrow> frontend_uses" where
  "use_date_time path n s = s\<lparr>fu_date_time := fu_date_time s @ [\<lparr>ru_path = path, ru_name = n\<rparr>]\<rparr>"

definition use_plain :: "string \<Rightarrow> string \<Rightarrow> frontend_uses \<Rightarrow> frontend_uses" where
  "use_plain path n s = s\<lparr>fu_plain := fu_plain s @ [\<lparr>ru_path = path, ru_name = n\<rparr>]\<rparr>"

definition use_alias :: "string \<Rightarrow> string \<Rightarrow> frontend_uses \<Rightarrow> frontend_uses" where
  "use_alias n ty s = s\<lparr>fu_aliases := fu_aliases s @ [(n, ty)]\<rparr>"

definition collect_external :: "column_option \<Rightarrow> column_type \<Rightarrow> frontend_uses \<Rightarrow> frontend_uses" where
  "collect_external opt t s =
    (case external_type_of t of
       None \<Rightarrow> s
     | Some ty \<Rightarrow>
         if ty \<in> set (fu_encountered s) then s
         else (let s = s\<lparr>fu_encountered := ty # fu_encountered s\<rparr>; chrono = (date_time_crate opt = Chrono)
               in case ty of
                    JsonOrJsonBinary \<Rightarrow> use_plain ''serde_json::Value'' ''Json'' s
                  | ExtDate \<Rightarrow> if chrono then use_date_time ''NaiveDate'' ''Date'' s
                      else use_date_time ''Date'' ''TimeDate'' s
                  | ExtTime \<Rightarrow> if chrono then use_date_time ''NaiveTime'' ''Time'' s
                      else use_date_time ''Time'' ''TimeTime'' s
                  | ExtDateTime \<Rightarrow> if chrono then use_date_time ''NaiveDateTime'' ''DateTime'' s
                      else use_date_time ''PrimitiveDateTime'' ''TimeDateTime'' s
                  | ExtTimestamp \<Rightarrow> if chrono then use_alias ''DateTimeUtc'' ''chrono::DateTime<chrono::Utc>'' s
                      else use_date_time ''PrimitiveDateTime'' ''TimeDateTime'' s
                  | ExtTimestampWithTimeZone \<Rightarrow>
                      if chrono then use_alias ''DateTimeWithTimeZone'' ''chrono::DateTime<chrono::FixedOffset>'' s
                      else use_date_time ''OffsetDateTime'' ''TimeDateTimeWithTimeZone'' s
                  | DecimalOrMoney \<Rightarrow> use_plain ''rust_decimal::Decimal'' ''Decimal'' s
                  | ExtUuid \<Rightarrow> use_plain ''uuid::Uuid'' ''Uuid'' s
                  | ExtVector \<Rightarrow> use_plain ''pgvector::Vector'' ''PgVector'' s
                  | CidrOrInet \<Rightarrow> use_plain ''ipnetwork::IpNetwork'' ''IpNetwork'' s))"

fun collect_type :: "column_option \<Rightarrow> column_type \<Rightarrow> frontend_uses \<Rightarrow> frontend_uses" where
  "collect_type opt (CtArray inner) s = collect_type opt inner s"
| "collect_type opt t s = collect_external opt t s"

definition gen_import_frontend :: "cg_entity \<Rightarrow> column_option \<Rightarrow> rust_item list" where
  "gen_import_frontend entity opt =
    (let s = fold (\<lambda>col. collect_type opt (cgc_type col)) (cge_columns entity)
           \<lparr>fu_date_time = [], fu_aliases = [], fu_plain = [], fu_encountered = []\<rparr>;
         crate = (case date_time_crate opt of Chrono \<Rightarrow> ''chrono::'' | TimeCrate \<Rightarrow> ''time::'')
     in map (\<lambda>u. UseItem (u\<lparr>ru_path := crate @ ru_path u\<rparr>)) (fu_date_time s)
        @ map UseItem (fu_plain s) @ map (\<lambda>(n, ty). TypeAlias n ty) (fu_aliases s))"

definition gen_frontend_model_struct ::
  "heck \<Rightarrow> cg_entity \<Rightarrow> format_options \<Rightarrow> (string \<times> string) list \<Rightarrow> rust_item list" where
  "gen_frontend_model_struct h entity fo idents =
    [StructItem
      ([''#[derive(Clone, Debug, PartialEq'' @ get_eq_needed entity
          @ extra_derive (fo_serde fo) @ fo_model_extra_derives fo @ '')]''] @ fo_model_extra_attributes fo)
      ''Model''
      (map2 (\<lambda>col ty. serde_field h
          (get_serde_attribute col (cgc_name col \<in> set (cge_primary_keys entity))
            (fo_skip_deserializing_primary_key fo) (fo_skip_hidden_column fo)) col ty)
        (cge_columns entity) (get_column_rs_types_with_enum_idents h entity (fo_column fo) idents))]"

definition gen_frontend_code_blocks :: "heck \<Rightarrow> cg_entity \<Rightarrow> format_options \<Rightarrow> rust_item list list" where
  "gen_frontend_code_blocks h entity fo =
    (let active_enums = gen_import_active_enum h entity;
         imports = gen_import_serde (fo_serde fo) @ ei_imports active_enums
           @ gen_import_frontend entity (fo_column fo)
     in [imports, gen_frontend_model_struct h entity fo (ei_idents active_enums)])"

section \<open>Dense\<close>

definition relation_column_name :: "heck \<Rightarrow> string \<Rightarrow> string" where
  "relation_column_name h a =
    (let b = to_snake_case h a in if a \<noteq> to_upper_camel_case h b then a else b)"

definition foreign_key_action_attr :: "string \<Rightarrow> fk_action option \<Rightarrow> string" where
  "foreign_key_action_attr attr action =
    (case action of Some a \<Rightarrow> '', '' @ attr @ '' = '' @ quoted (get_foreign_key_action a) | None \<Rightarrow> [])"

definition dense_field_target ::
  "heck \<Rightarrow> (string \<Rightarrow> string) \<Rightarrow> cg_entity \<Rightarrow> string list \<Rightarrow> cg_relation \<Rightarrow> (string \<times> string) option" where
  "dense_field_target h pluralize entity via_entities rel =
    (let suffix = (if cgr_num_suffix rel > 0 then ''_'' @ show_nat (cgr_num_suffix rel) else [])
     in if cgr_self_referencing rel
        then Some (entity_snake_case_ident h entity @ suffix, ''Entity'')
        else if \<not> cgr_impl_related rel then None
        else (case relation_module_name h rel of
                None \<Rightarrow> None
              | Some to_entity \<Rightarrow>
                  if to_entity \<in> set via_entities then None
                  else Some ((case cgr_rel_type rel of CgHasMany \<Rightarrow> pluralize to_entity | _ \<Rightarrow> to_entity) @ suffix,
                             ''super::'' @ to_entity @ ''::Entity'')))"

definition dense_field_type :: "cg_entity \<Rightarrow> cg_relation \<Rightarrow> string \<Rightarrow> string" where
  "dense_field_type entity rel target =
    (case cgr_rel_type rel of
       CgBelongsTo \<Rightarrow>
         if cgr_columns rel \<noteq> []
            \<and> list_all (\<lambda>n. case find (\<lambda>c. cgc_name c = n) (cge_columns entity) of
                 Some c \<Rightarrow> cgc_not_null c | None \<Rightarrow> False) (cgr_columns rel)
         then ''BelongsTo<'' @ target @ ''>'' else ''BelongsTo<Option<'' @ target @ ''>>''
     | CgHasOne \<Rightarrow> ''HasOne<'' @ target @ ''>''
     | CgHasMany \<Rightarrow> ''HasMany<'' @ target @ ''>'')"

definition dense_field_attr :: "heck \<Rightarrow> cg_relation \<Rightarrow> string" where
  "dense_field_attr h rel =
    (let (from, to) = get_src_ref_columns h (relation_column_name h) (relation_column_name h) column_tuple rel;
         actions = foreign_key_action_attr ''on_update'' (cgr_on_update rel)
           @ foreign_key_action_attr ''on_delete'' (cgr_on_delete rel);
         columns = ''from = '' @ quoted from @ '', to = '' @ quoted to @ actions;
         relation_enum = ''relation_enum = '' @ quoted (relation_enum_name h rel) @ '', ''
     in if cgr_self_referencing rel then ''#[sea_orm(self_ref, '' @ relation_enum @ columns @ '')]''
        else (case cgr_rel_type rel of
                CgHasOne \<Rightarrow> ''#[sea_orm(has_one)]''
              | CgHasMany \<Rightarrow> ''#[sea_orm(has_many)]''
              | CgBelongsTo \<Rightarrow> ''#[sea_orm(belongs_to, ''
                  @ (if cgr_num_suffix rel > 0 then relation_enum else []) @ columns @ '')]''))"

definition dense_relation_field ::
  "heck \<Rightarrow> (string \<Rightarrow> string) \<Rightarrow> cg_entity \<Rightarrow> string list \<Rightarrow> cg_relation \<Rightarrow> rust_field option" where
  "dense_relation_field h pluralize entity via_entities rel =
    map_option (\<lambda>(field, target).
        \<lparr>rf_attrs = [dense_field_attr h rel], rf_name = field, rf_type = dense_field_type entity rel target\<rparr>)
      (dense_field_target h pluralize entity via_entities rel)"

definition dense_compound_fields :: "heck \<Rightarrow> (string \<Rightarrow> string) \<Rightarrow> cg_entity \<Rightarrow> rust_field list" where
  "dense_compound_fields h pluralize entity =
    (let via_entities = map (get_via_snake_case h) (cge_conjunct_relations entity);
         to_entities = map (get_to_snake_case h) (cge_conjunct_relations entity)
     in List.map_filter (dense_relation_field h pluralize entity via_entities) (cge_relations entity)
        @ map2 (\<lambda>to_entity via_entity.
            \<lparr>rf_attrs = [''#[sea_orm(has_many, via = '' @ quoted via_entity @ '')]''],
             rf_name = pluralize to_entity, rf_type = ''HasMany<super::'' @ to_entity @ ''::Entity>''\<rparr>)
          to_entities via_entities)"

definition gen_dense_model_struct ::
  "heck \<Rightarrow> (string \<Rightarrow> string) \<Rightarrow> cg_entity \<Rightarrow> format_options \<Rightarrow> (string \<times> string) list \<Rightarrow> rust_item list" where
  "gen_dense_model_struct h pluralize entity fo idents =
    [StructItem
      ([''#[sea_orm::model]'',
        ''#[derive(Clone, Debug, PartialEq'' @ get_eq_needed entity @ '', DeriveEntityModel''
          @ extra_derive (fo_serde fo) @ fo_model_extra_derives fo @ '')]'',
        table_attr entity (fo_schema_name fo)] @ fo_model_extra_attributes fo)
      ''Model''
      (compact_fields h entity fo idents @ dense_compound_fields h pluralize entity)]"

definition gen_dense_code_blocks ::
  "heck \<Rightarrow> (string \<Rightarrow> string) \<Rightarrow> cg_entity \<Rightarrow> format_options \<Rightarrow> rust_item list list" where
  "gen_dense_code_blocks h pluralize entity fo =
    (let active_enums = gen_import_active_enum h entity;
         imports = gen_import (fo_serde fo) @ ei_imports active_enums
     in [imports, gen_dense_model_struct h pluralize entity fo (ei_idents active_enums)]
        @ (if fo_impl_active_model_behavior fo then [impl_active_model_behavior] else []))"

section \<open>Active enums\<close>

text \<open>A character of more than one byte in UTF-8 is the sequence of its bytes, each at least 128; of the
  white space that \<open>trim\<close> removes, the ASCII part.\<close>

definition is_ascii_space :: "char \<Rightarrow> bool" where
  "is_ascii_space c = (of_char c \<in> {9 :: nat, 10, 11, 12, 13, 32})"

definition trim :: "string \<Rightarrow> string" where
  "trim s = rev (dropWhile is_ascii_space (rev (dropWhile is_ascii_space s)))"

definition is_ascii_digit :: "char \<Rightarrow> bool" where
  "is_ascii_digit c = (of_char c \<ge> (48 :: nat) \<and> of_char c \<le> (57 :: nat))"

definition is_valid_char :: "char \<Rightarrow> bool" where
  "is_valid_char c = (is_ascii_digit c \<or> of_char c \<ge> (65 :: nat) \<and> of_char c \<le> (90 :: nat)
    \<or> of_char c \<ge> (97 :: nat) \<and> of_char c \<le> (122 :: nat) \<or> c = CHR ''_'')"

definition is_passthrough :: "char \<Rightarrow> bool" where
  "is_passthrough c = (c = CHR ''-'' \<or> c = CHR '' '')"

definition hex_digit :: "nat \<Rightarrow> char" where
  "hex_digit d = ''0123456789ABCDEF'' ! d"

text \<open>\<open>U{:04X}\<close> of an ASCII character.\<close>

definition utf8_escape :: "char \<Rightarrow> string" where
  "utf8_escape c = ''U00'' @ [hex_digit (of_char c div 16), hex_digit (of_char c mod 16)]"

definition enum_variant_name :: "heck \<Rightarrow> string \<Rightarrow> string" where
  "enum_variant_name h value =
    (let v = trim value
     in if v = [] then ''__EmptyString''
        else (let is_leading_digit = is_ascii_digit (hd v)
              in if list_ex (\<lambda>c. \<not> is_valid_char c \<and> \<not> is_passthrough c) v
                 then (if is_leading_digit then ''_'' else [])
                   @ concat (map (\<lambda>c. if is_passthrough c then []
                       else if is_valid_char c \<or> of_char c \<ge> (128 :: nat) then [c]
                       else utf8_escape c) v)
                 else if is_leading_digit then ''_'' @ filter is_valid_char v
                 else to_upper_camel_case h v))"

definition impl_active_enum ::
  "heck \<Rightarrow> cg_active_enum \<Rightarrow> with_serde \<Rightarrow> bool \<Rightarrow> string \<Rightarrow> string list \<Rightarrow> entity_format \<Rightarrow> rust_item list" where
  "impl_active_enum h ae serde with_copy_enums extra_derives extra_attributes format =
    (let enum_iden = to_upper_camel_case h (cae_name ae);
         copy_derive = (if with_copy_enums then '', Copy'' else []);
         derives = copy_derive @ extra_derive serde @ extra_derives @ '')]''
     in if format = Frontend
        then [EnumItem ([''#[derive(Debug, Clone, PartialEq, Eq'' @ derives] @ extra_attributes) enum_iden
               (map (\<lambda>v. \<lparr>rv_attrs = [], rv_name = enum_variant_name h v\<rparr>) (cae_values ae))]
        else [EnumItem
               ([''#[derive(Debug, Clone, PartialEq, Eq, EnumIter, DeriveActiveEnum'' @ derives,
                 ''#[sea_orm(rs_type = '' @ quoted ''Enum'' @ '', db_type = '' @ quoted ''Enum''
                   @ '', enum_name = '' @ quoted (cae_name ae) @ '')]''] @ extra_attributes) enum_iden
               (map (\<lambda>v. \<lparr>rv_attrs = [''#[sea_orm(string_value = '' @ quoted v @ '')]''],
                         rv_name = enum_variant_name h v\<rparr>) (cae_values ae))])"

section \<open>Files\<close>

record writer_context =
  wc_format :: entity_format
  wc_prelude :: with_prelude
  wc_copy_enums :: bool
  wc_lib :: bool
  wc_options :: format_options
  wc_enum_extra_derives :: string
  wc_enum_extra_attributes :: "string list"
  wc_banner :: banner_version

record output_file =
  of_name :: string
  of_content :: string

definition newline :: string where
  "newline = [CHR 0x0A]"

fun split_at_dots :: "string \<Rightarrow> string list" where
  "split_at_dots [] = [[]]"
| "split_at_dots (c # cs) =
    (if c = CHR ''.'' then [] # split_at_dots cs
     else (case split_at_dots cs of p # ps \<Rightarrow> (c # p) # ps | [] \<Rightarrow> [[c]]))"

text \<open>\<open>ver\<close> is the version of the package.\<close>

definition doc_comment :: "string \<Rightarrow> banner_version \<Rightarrow> string list" where
  "doc_comment ver banner =
    (let parts = split_at_dots ver;
         version_str = (case banner of
             BannerOff \<Rightarrow> []
           | BannerPatch \<Rightarrow> ver
           | BannerMajor \<Rightarrow> (case parts of p # _ \<Rightarrow> p | [] \<Rightarrow> [])
           | BannerMinor \<Rightarrow> (case parts of p # q # _ \<Rightarrow> p @ ''.'' @ q | _ \<Rightarrow> ver))
     in [''//! `SeaORM` Entity, @generated by sea-orm-codegen '' @ version_str, []])"

definition entity_code_blocks ::
  "heck \<Rightarrow> (string \<Rightarrow> string) \<Rightarrow> writer_context \<Rightarrow> cg_entity \<Rightarrow> rust_item list list run" where
  "entity_code_blocks h pluralize context entity =
    (let serde = fo_serde (wc_options context);
         fo = (wc_options context)
           \<lparr>fo_skip_deserializing_primary_key :=
              (fo_skip_deserializing_primary_key (wc_options context)
               \<and> (serde = SerdeBoth \<or> serde = SerdeDeserialize)),
            fo_skip_hidden_column :=
              (fo_skip_hidden_column (wc_options context)
               \<and> (serde = SerdeBoth \<or> serde = SerdeSerialize \<or> serde = SerdeDeserialize))\<rparr>
     in case wc_format context of
          Frontend \<Rightarrow> Ret (gen_frontend_code_blocks h entity fo)
        | Expanded \<Rightarrow> gen_expanded_code_blocks h entity fo
        | Dense \<Rightarrow> Ret (gen_dense_code_blocks h pluralize entity fo)
        | Compact \<Rightarrow> Ret (gen_compact_code_blocks h entity fo))"

definition write_entities ::
  "heck \<Rightarrow> (string \<Rightarrow> string) \<Rightarrow> (rust_item list \<Rightarrow> string) \<Rightarrow> string \<Rightarrow> writer_context \<Rightarrow> cg_entity list
    \<Rightarrow> output_file list run" where
  "write_entities h pluralize print ver context entities =
    run_map (\<lambda>entity.
      run_bind (entity_code_blocks h pluralize context entity) (\<lambda>code_blocks.
        Ret \<lparr>of_name = entity_snake_case h entity @ ''.rs'',
             of_content = join (newline @ newline)
               (doc_comment ver (wc_banner context) @ map print code_blocks)\<rparr>)) entities"

definition gen_seaography_entity_mod ::
  "heck \<Rightarrow> cg_entity list \<Rightarrow> (string \<times> cg_active_enum) list \<Rightarrow> rust_item list" where
  "gen_seaography_entity_mod h entities enums =
    MacroItem ''seaography::register_entity_modules''
      (map (\<lambda>e. escape_rust_keyword (entity_snake_case_ident h e)) entities)
    # (if enums \<noteq> [] then [MacroItem ''seaography::register_active_enums''
         (map (\<lambda>(_, ae). ''sea_orm_active_enums::'' @ to_upper_camel_case h (cae_name ae)) enums)] else [])"

definition write_index_file ::
  "heck \<Rightarrow> (rust_item list \<Rightarrow> string) \<Rightarrow> string \<Rightarrow> entity_writer \<Rightarrow> bool \<Rightarrow> bool \<Rightarrow> bool \<Rightarrow> banner_version
    \<Rightarrow> output_file" where
  "write_index_file h print ver w lib prelude seaography banner =
    (let lines = doc_comment ver banner
           @ (if prelude then [print [ModItem ''prelude''], []] else [])
           @ map (\<lambda>e. print (gen_mod h e)) (ew_entities w)
           @ (if ew_enums w \<noteq> [] then [print [ModItem ''sea_orm_active_enums'']] else [])
           @ (if seaography then [[], print (gen_seaography_entity_mod h (ew_entities w) (ew_enums w))] else [])
     in \<lparr>of_name = (if lib then ''lib.rs'' else ''mod.rs''), of_content = join newline lines\<rparr>)"

definition write_prelude ::
  "heck \<Rightarrow> (rust_item list \<Rightarrow> string) \<Rightarrow> string \<Rightarrow> entity_writer \<Rightarrow> with_prelude \<Rightarrow> entity_format \<Rightarrow> banner_version
    \<Rightarrow> output_file" where
  "write_prelude h print ver w prelude format banner =
    \<lparr>of_name = ''prelude.rs'',
     of_content = join newline
       (doc_comment ver banner
        @ (if prelude = PreludeAllAllowUnusedImports then [''#![allow(unused_imports)]'', []] else [])
        @ map (\<lambda>e. print (if format = Frontend then gen_prelude_use_model h e else gen_prelude_use h e))
            (ew_entities w))\<rparr>"

definition write_sea_orm_active_enums ::
  "heck \<Rightarrow> (rust_item list \<Rightarrow> string) \<Rightarrow> string \<Rightarrow> entity_writer \<Rightarrow> writer_context \<Rightarrow> output_file" where
  "write_sea_orm_active_enums h print ver w context =
    (let serde = fo_serde (wc_options context)
     in \<lparr>of_name = ''sea_orm_active_enums.rs'',
         of_content = join newline
           (doc_comment ver (wc_banner context)
            @ [print (if wc_format context = Frontend then gen_import_serde serde else gen_import serde), []]
            @ map (\<lambda>(_, ae). print (impl_active_enum h ae serde (wc_copy_enums context)
                (wc_enum_extra_derives context) (wc_enum_extra_attributes context) (wc_format context)))
                (ew_enums w))\<rparr>)"

definition generate ::
  "heck \<Rightarrow> (string \<Rightarrow> string) \<Rightarrow> (rust_item list \<Rightarrow> string) \<Rightarrow> string \<Rightarrow> writer_context \<Rightarrow> entity_writer
    \<Rightarrow> output_file list run" where
  "generate h pluralize print ver context w =
    run_bind (write_entities h pluralize print ver context (ew_entities w)) (\<lambda>entity_files.
      let with_prelude = (wc_prelude context \<noteq> PreludeNone)
      in Ret (entity_files
           @ [write_index_file h print ver w (wc_lib context) with_prelude
                (fo_seaography (wc_options context)) (wc_banner context)]
           @ (if with_prelude then [write_prelude h print ver w (wc_prelude context) (wc_format context)
                (wc_banner context)] else [])
           @ (if ew_enums w \<noteq> [] then [write_sea_orm_active_enums h print ver w context] else [])))"

section \<open>The diagram\<close>

fun col_type_name :: "column_type \<Rightarrow> string" where
  "col_type_name (CtChar _) = ''char''"
| "col_type_name (CtString _) = ''varchar''"
| "col_type_name CtText = ''text''"
| "col_type_name CtTinyInteger = ''tinyint''"
| "col_type_name CtSmallInteger = ''smallint''"
| "col_type_name CtInteger = ''int''"
| "col_type_name CtBigInteger = ''bigint''"
| "col_type_name CtTinyUnsigned = ''tinyint_unsigned''"
| "col_type_name CtSmallUnsigned = ''smallint_unsigned''"
| "col_type_name CtUnsigned = ''int_unsigned''"
| "col_type_name CtBigUnsigned = ''bigint_unsigned''"
| "col_type_name CtFloat = ''float''"
| "col_type_name CtDouble = ''double''"
| "col_type_name (CtDecimal _) = ''decimal''"
| "col_type_name (CtMoney _) = ''money''"
| "col_type_name CtDateTime = ''datetime''"
| "col_type_name CtTimestamp = ''timestamp''"
| "col_type_name CtTimestampWithTimeZone = ''timestamptz''"
| "col_type_name CtTime = ''time''"
| "col_type_name CtDate = ''date''"
| "col_type_name CtYear = ''year''"
| "col_type_name (CtBinary _) = ''blob''"
| "col_type_name (CtVarBinary _) = ''blob''"
| "col_type_name CtBlob = ''blob''"
| "col_type_name CtBoolean = ''bool''"
| "col_type_name CtJson = ''json''"
| "col_type_name CtJsonBinary = ''json''"
| "col_type_name CtUuid = ''uuid''"
| "col_type_name (CtEnum _ _) = ''enum''"
| "col_type_name (CtArray _) = ''array''"
| "col_type_name (CtVector _) = ''vector''"
| "col_type_name (CtBit _) = ''bit''"
| "col_type_name (CtVarBit _) = ''bit''"
| "col_type_name CtCidr = ''cidr''"
| "col_type_name CtInet = ''inet''"
| "col_type_name CtMacAddr = ''macaddr''"
| "col_type_name CtLTree = ''ltree''"
| "col_type_name (CtInterval _ _) = ''interval''"
| "col_type_name (CtCustom _) = ''custom''"

fun key_constraint :: "bool \<Rightarrow> bool \<Rightarrow> bool \<Rightarrow> string" where
  "key_constraint True True _ = '' PK,FK''"
| "key_constraint True False _ = '' PK''"
| "key_constraint False True True = '' FK,UK''"
| "key_constraint False True False = '' FK''"
| "key_constraint False False True = '' UK''"
| "key_constraint False False False = []"

definition fk_set :: "cg_entity \<Rightarrow> string list" where
  "fk_set e = concat (map cgr_columns (filter (\<lambda>r. cgr_rel_type r = CgBelongsTo) (cge_relations e)))"

definition write_entity_block :: "cg_entity \<Rightarrow> string list" where
  "write_entity_block entity =
    [''    '' @ cge_table_name entity @ '' {'']
    @ map (\<lambda>col. ''        '' @ col_type_name (cgc_type col) @ '' '' @ cgc_name col
        @ key_constraint (cgc_name col \<in> set (cge_primary_keys entity)) (cgc_name col \<in> set (fk_set entity))
            (cgc_unique col \<or> cgc_unique_key col \<noteq> None)) (cge_columns entity)
    @ [''    }'']"

text \<open>\<open>if emitted.insert(key) { writeln!(out, "    {key}") }\<close>, on the lines written so far and the keys
  emitted so far.\<close>

definition emit_line :: "string \<Rightarrow> string list \<times> string list \<Rightarrow> string list \<times> string list" where
  "emit_line key s =
    (if key \<in> set (snd s) then s else (fst s @ [''    '' @ key], key # snd s))"

definition relation_line :: "cg_entity \<Rightarrow> cg_relation \<Rightarrow> string option" where
  "relation_line entity rel =
    (case cgr_rel_type rel of
       CgBelongsTo \<Rightarrow> Some (cge_table_name entity @ '' }o--|| '' @ cgr_ref_table rel @ '' : ''
         @ quoted (join '', '' (cgr_columns rel)))
     | CgHasOne \<Rightarrow> None
     | CgHasMany \<Rightarrow> None)"

definition conjunct_line :: "cg_entity \<Rightarrow> conjunct_relation \<Rightarrow> string" where
  "conjunct_line entity cr =
    (let left = cge_table_name entity; right = conj_to cr; label = ''['' @ conj_via cr @ '']''
     in if left \<le> right then left @ '' }o--o{ '' @ right @ '' : '' @ quoted label
        else right @ '' }o--o{ '' @ left @ '' : '' @ quoted label)"

definition write_relations :: "cg_entity \<Rightarrow> string list \<times> string list \<Rightarrow> string list \<times> string list" where
  "write_relations entity s =
    fold (\<lambda>cr. emit_line (conjunct_line entity cr)) (cge_conjunct_relations entity)
      (fold (\<lambda>rel s. case relation_line entity rel of Some key \<Rightarrow> emit_line key s | None \<Rightarrow> s)
        (cge_relations entity) s)"

definition generate_er_diagram :: "entity_writer \<Rightarrow> string list" where
  "generate_er_diagram w =
    ''erDiagram'' # concat (map write_entity_block (ew_entities w))
    @ fst (fold write_relations (ew_entities w) ([], []))"

end
