(* ===== verification/CodegenProps.thy ===== *)
theory CodegenProps
  imports TransformerSpec CodegenFormats
begin

text \<open>
  The properties of the entity generator: the relations it writes are closed under the tables it
  writes, its items do not clash, many-to-many relations come in pairs, and one-to-one relations are
  those of the schema. The lemmas describe the last pass over an entity (\<open>finish_entity\<close>).
\<close>

section \<open>The last pass\<close>

lemma in_duplicated_to:
  "t \<in> set (duplicated_to cs) \<longleftrightarrow> length (filter (\<lambda>c. conj_to c = t) cs) > 1"
proof -
  let ?m = "fold (\<lambda>c. hm_modify (conj_to c) (0 :: nat) Suc) cs []"
  have wf: "hm_wf ?m" by (rule hm.wf_fold_modif) simp
  have count: "fold (\<lambda>_. Suc) xs k = k + length xs" for xs :: "conjunct_relation list" and k :: nat
    by (induction xs arbitrary: k) simp_all
  have get: "hm_get ?m t = (if t \<in> conj_to ` set cs
      then Some (length (filter (\<lambda>c. conj_to c = t) cs)) else None)"
    using hm.get_fold_modif_empty[of conj_to "0 :: nat" "\<lambda>_. Suc" cs t] by (simp add: count)
  have "t \<in> set (duplicated_to cs) \<longleftrightarrow> (\<exists>n > 1. hm_get ?m t = Some n)"
    by (auto simp: duplicated_to_def hm_get_iff[OF wf] image_iff)
  moreover have "length (filter (\<lambda>c. conj_to c = t) cs) > 1 \<Longrightarrow> t \<in> conj_to ` set cs"
    by (auto simp: filter_empty_conv dest!: Suc_lessD simp flip: length_greater_0_conv)
  ultimately show ?thesis using get by auto
qed

definition unique_conjs :: "conjunct_relation list \<Rightarrow> conjunct_relation list" where
  "unique_conjs cs = filter (\<lambda>c. length (filter (\<lambda>d. conj_to d = conj_to c) cs) \<le> 1) cs"

lemma finish_conjs:
  "cge_conjunct_relations (finish_entity v) = sort_key conj_to (unique_conjs (cge_conjunct_relations v))"
  by (auto simp: finish_entity_def Let_def unique_conjs_def in_duplicated_to not_less intro!: arg_cong[of _ _ "sort_key conj_to"])

lemma distinct_if_once: "(\<And>t. length (filter (\<lambda>x. x = t) xs) \<le> 1) \<Longrightarrow> distinct xs"
proof (induction xs)
  case (Cons x xs)
  have "length (filter (\<lambda>y. y = t) xs) \<le> 1" for t
    using Cons.prems[of t] by (auto split: if_splits)
  moreover have "x \<notin> set xs"
    using Cons.prems[of x] by (auto simp: filter_empty_conv)
  ultimately show ?case using Cons.IH by simp
qed simp

lemma unique_conjs_once: "length (filter (\<lambda>c. conj_to c = t) (unique_conjs cs)) \<le> 1"
proof (cases "length (filter (\<lambda>c. conj_to c = t) cs) \<le> 1")
  case True
  have "filter (\<lambda>c. conj_to c = t) (unique_conjs cs) =
      filter (\<lambda>c. length (filter (\<lambda>d. conj_to d = conj_to c) cs) \<le> 1) (filter (\<lambda>c. conj_to c = t) cs)"
    unfolding unique_conjs_def filter_filter by (rule filter_cong) auto
  then have "length (filter (\<lambda>c. conj_to c = t) (unique_conjs cs)) \<le> length (filter (\<lambda>c. conj_to c = t) cs)"
    by (simp only: length_filter_le)
  with True show ?thesis by (rule order_trans[rotated])
next
  case False
  then have "filter (\<lambda>c. conj_to c = t) (unique_conjs cs) = []"
    by (auto simp: unique_conjs_def filter_empty_conv)
  then show ?thesis by simp
qed

lemma distinct_unique_conjs: "distinct (map conj_to (unique_conjs cs))"
  using unique_conjs_once[of _ cs] by (intro distinct_if_once) (simp add: filter_map comp_def)

definition finish_relation :: "conjunct_relation list \<Rightarrow> cg_relation \<Rightarrow> cg_relation" where
  "finish_relation conjs relation =
    (if cgr_ref_table relation \<in> conj_to ` set conjs then relation\<lparr>cgr_impl_related := False\<rparr> else relation)"

lemma finish_relations:
  "cge_relations (finish_entity v) =
    sort_key cgr_ref_table (map (finish_relation (unique_conjs (cge_conjunct_relations v))) (cge_relations v))"
proof -
  have "filter (\<lambda>c. conj_to c \<notin> set (duplicated_to (cge_conjunct_relations v))) (cge_conjunct_relations v) =
      unique_conjs (cge_conjunct_relations v)"
    by (simp add: unique_conjs_def in_duplicated_to not_less)
  moreover have "list_ex (\<lambda>c. conj_to c = t) cs \<longleftrightarrow> t \<in> conj_to ` set cs" for t and cs :: "conjunct_relation list"
    by (induction cs) auto
  ultimately show ?thesis
    unfolding finish_entity_def Let_def finish_relation_def by simp
qed

lemma finish_relation_simps [simp]:
  "cgr_ref_table (finish_relation cs r) = cgr_ref_table r"
  "cgr_num_suffix (finish_relation cs r) = cgr_num_suffix r"
  "cgr_self_referencing (finish_relation cs r) = cgr_self_referencing r"
  "cgr_rel_type (finish_relation cs r) = cgr_rel_type r"
  "cgr_columns (finish_relation cs r) = cgr_columns r"
  "cgr_ref_columns (finish_relation cs r) = cgr_ref_columns r"
  "cgr_on_update (finish_relation cs r) = cgr_on_update r"
  "cgr_on_delete (finish_relation cs r) = cgr_on_delete r"
  by (simp_all add: finish_relation_def)

lemma finish_kept [simp]:
  "cge_table_name (finish_entity v) = cge_table_name v"
  "cge_columns (finish_entity v) = cge_columns v"
  "cge_primary_keys (finish_entity v) = cge_primary_keys v"
  by (simp_all add: finish_entity_def Let_def)

lemma finish_ids:
  "mset (map relation_id (cge_relations (finish_entity v))) = mset (map relation_id (cge_relations v))"
proof -
  have "mset (map relation_id (cge_relations (finish_entity v))) =
      mset (map relation_id (map (finish_relation (unique_conjs (cge_conjunct_relations v))) (cge_relations v)))"
    unfolding finish_relations by (simp only: mset_map mset_sort)
  also have "map relation_id (map (finish_relation (unique_conjs (cge_conjunct_relations v))) (cge_relations v)) =
      map relation_id (cge_relations v)"
    by (simp add: relation_id_def)
  finally show ?thesis .
qed

text \<open>An entity of the output, with the table it was made of.\<close>

lemma output_entity:
  assumes "transform stmts = Ret (Inr w)" "e \<in> set (ew_entities w)"
  obtains M d where "linked M" "(cge_table_name e, d) \<in> set M"
    "e = finish_entity (add_conjs (junctions_of M (cge_table_name e)) d)"
    "ew_entities w = map (\<lambda>(t, d). finish_entity (add_conjs (junctions_of M t) d)) M"
proof -
  from transform_result[OF assms(1)] obtain es where link: "linked (before_junctions es)"
    and w: "ew_entities w = map (\<lambda>(t, e). finish_entity (add_conjs (junctions_of (before_junctions es) t) e))
      (before_junctions es)" by blast
  from assms(2) w obtain t d where td: "(t, d) \<in> set (before_junctions es)"
    "e = finish_entity (add_conjs (junctions_of (before_junctions es) t) d)" by auto
  then have "cge_table_name e = t" using link by (auto simp: linked_def)
  with that[OF link _ _ w] td show ?thesis by simp
qed

lemma linkedD:
  assumes "linked M" "(t, d) \<in> set M"
  shows "cge_table_name d = t" "cge_conjunct_relations d = []" "relations_ok d"
    "r \<in> set (cge_relations d) \<Longrightarrow> cgr_ref_table r \<in> fst ` set M"
  using assms by (auto simp: linked_def)

lemma output_names:
  assumes "linked M" "ew_entities w = map (\<lambda>(t, d). finish_entity (add_conjs (junctions_of M t) d)) M"
  shows "cge_table_name ` set (ew_entities w) = fst ` set M" "distinct (map cge_table_name (ew_entities w))"
proof -
  have "map cge_table_name (ew_entities w) = map fst M"
    using assms by (auto simp: linkedD(1))
  then show "cge_table_name ` set (ew_entities w) = fst ` set M" "distinct (map cge_table_name (ew_entities w))"
    using assms(1) by (auto simp: linked_def simp flip: set_map)
qed

lemma in_junction_of:
  assumes "c \<in> set (junction_of t (j, d))"
  obtains r0 r1 where "is_conjunct_relation d" "cge_relations d = [r0, r1]" "conj_via c = j"
    "cgr_ref_table r0 = t \<and> cgr_ref_table r1 = conj_to c \<or> cgr_ref_table r1 = t \<and> cgr_ref_table r0 = conj_to c"
proof -
  from assms have conj: "is_conjunct_relation d" by (auto simp: junction_of_def split: if_splits)
  then obtain r0 r1 where two: "cge_relations d = [r0, r1]"
    by (auto simp: is_conjunct_relation_def numeral_2_eq_2 length_Suc_conv)
  show ?thesis
    using assms by (intro that[OF conj two]) (auto simp: junction_of_def two Let_def split: if_splits)
qed

lemma in_junctions_of:
  assumes "c \<in> set (junctions_of M t)"
  obtains d r0 r1 where "(conj_via c, d) \<in> set M" "is_conjunct_relation d" "cge_relations d = [r0, r1]"
    "cgr_ref_table r0 = t \<and> cgr_ref_table r1 = conj_to c \<or> cgr_ref_table r1 = t \<and> cgr_ref_table r0 = conj_to c"
proof -
  from assms obtain j d where jd: "(j, d) \<in> set M" "c \<in> set (junction_of t (j, d))"
    by (auto simp: junctions_of_def)
  from in_junction_of[OF jd(2)] jd(1) show ?thesis by (metis that)
qed

section \<open>References\<close>

lemma finished_relations_in:
  assumes "r \<in> set (cge_relations (finish_entity v))"
  obtains r' where "r' \<in> set (cge_relations v)" "r = finish_relation (unique_conjs (cge_conjunct_relations v)) r'"
  using assms by (auto simp: finish_relations)

lemma finished_conjs_in:
  assumes "linked M" "(t, d) \<in> set M"
    and "c \<in> set (cge_conjunct_relations (finish_entity (add_conjs (junctions_of M t) d)))"
  shows "c \<in> set (unique_conjs (junctions_of M t))" "c \<in> set (junctions_of M t)"
  using assms linkedD(2)[OF assms(1,2)] by (auto simp: finish_conjs unique_conjs_def)

definition closed_references :: "string set \<Rightarrow> cg_entity \<Rightarrow> bool" where
  "closed_references names e \<longleftrightarrow>
    cgr_ref_table ` set (cge_relations e) \<subseteq> names
    \<and> conj_via ` set (cge_conjunct_relations e) \<subseteq> names
    \<and> conj_to ` set (cge_conjunct_relations e) \<subseteq> names"

lemma output_closed:
  assumes "linked M" "(t, d) \<in> set M"
  shows "closed_references (fst ` set M) (finish_entity (add_conjs (junctions_of M t) d))"
proof -
  have "cgr_ref_table r \<in> fst ` set M"
    if "r \<in> set (cge_relations (finish_entity (add_conjs (junctions_of M t) d)))" for r
    using that linkedD(4)[OF assms] by (elim finished_relations_in) simp
  moreover have "conj_via c \<in> fst ` set M \<and> conj_to c \<in> fst ` set M"
    if "c \<in> set (cge_conjunct_relations (finish_entity (add_conjs (junctions_of M t) d)))" for c
  proof -
    from finished_conjs_in(2)[OF assms that] obtain j r0 r1 where j: "(conj_via c, j) \<in> set M"
      "cge_relations j = [r0, r1]" "cgr_ref_table r1 = conj_to c \<or> cgr_ref_table r0 = conj_to c"
      by (elim in_junctions_of) auto
    then have "cgr_ref_table r0 \<in> fst ` set M" "cgr_ref_table r1 \<in> fst ` set M"
      using linkedD(4)[OF assms(1) j(1)] by auto
    with j show ?thesis by force
  qed
  ultimately show ?thesis by (auto simp: closed_references_def)
qed

section \<open>Names\<close>

lemma output_ids:
  assumes "linked M" "(t, d) \<in> set M" "e = finish_entity (add_conjs cs d)"
  shows "distinct (map relation_id (cge_relations e))"
    and "\<And>r. r \<in> set (cge_relations e) \<Longrightarrow> cgr_self_referencing r = (cgr_ref_table r = t)"
proof -
  have ok: "relations_ok d" by (rule linkedD(3)[OF assms(1,2)])
  then have "distinct (map relation_id (cge_relations (add_conjs cs d)))" by (simp add: relations_ok_def)
  with mset_eq_imp_distinct_iff[OF finish_ids] assms(3)
  show "distinct (map relation_id (cge_relations e))" by metis
  show "cgr_self_referencing r = (cgr_ref_table r = t)" if "r \<in> set (cge_relations e)" for r
    using that ok linkedD(1)[OF assms(1,2)] by (auto simp: assms(3) relations_ok_def elim!: finished_relations_in)
qed

definition impl_targets :: "rust_item list list \<Rightarrow> string list" where
  "impl_targets blocks = concat (map (\<lambda>i. case i of ImplRelated target _ _ \<Rightarrow> [target] | _ \<Rightarrow> []) (concat blocks))"

definition entity_path :: "heck \<Rightarrow> string \<Rightarrow> string" where
  "entity_path h t = ''super::'' @ escape_rust_keyword (to_snake_case h t) @ ''::Entity''"

definition related_tables :: "cg_entity \<Rightarrow> string list" where
  "related_tables e = map cgr_ref_table (filter (\<lambda>rel. \<not> cgr_self_referencing rel \<and> cgr_num_suffix rel = 0
     \<and> cgr_impl_related rel) (cge_relations e)) @ map conj_to (cge_conjunct_relations e)"

lemma impl_targets_map: "impl_targets (map (\<lambda>x. [ImplRelated (f x) (g x) (k x)]) xs) = map f xs"
  by (induction xs) (simp_all add: impl_targets_def)

lemma impl_targets_append: "impl_targets (xs @ ys) = impl_targets xs @ impl_targets ys"
  by (simp add: impl_targets_def)

lemma impl_targets_eq:
  "impl_targets (gen_impl_related h e @ gen_impl_conjunct_related h e) = map (entity_path h) (related_tables e)"
  unfolding impl_targets_append gen_impl_related_def gen_impl_conjunct_related_def impl_targets_map related_tables_def
  by (auto simp: relation_module_name_def entity_path_def get_to_snake_case_def)

lemma distinct_fst_filter:
  "distinct (map relation_id rs) \<Longrightarrow> distinct (map cgr_ref_table (filter (\<lambda>r. P r \<and> cgr_num_suffix r = 0 \<and> Q r) rs))"
  by (induction rs) (auto simp: relation_id_def image_iff)

lemma related_tables_distinct:
  assumes "linked M" "(t, d) \<in> set M" "e = finish_entity (add_conjs (junctions_of M t) d)"
  shows "distinct (related_tables e)"
proof -
  have conjs: "cge_conjunct_relations e = sort_key conj_to (unique_conjs (junctions_of M t))"
    using linkedD(2)[OF assms(1,2)] by (simp add: assms(3) finish_conjs)
  have "distinct (map cgr_ref_table (filter (\<lambda>rel. \<not> cgr_self_referencing rel \<and> cgr_num_suffix rel = 0
      \<and> cgr_impl_related rel) (cge_relations e)))"
    by (rule distinct_fst_filter[OF output_ids(1)[OF assms]])
  moreover have "distinct (map conj_to (cge_conjunct_relations e))"
    unfolding conjs using mset_eq_imp_distinct_iff[of "map conj_to (sort_key conj_to (unique_conjs (junctions_of M t)))"
        "map conj_to (unique_conjs (junctions_of M t))"] distinct_unique_conjs
    by (metis mset_map mset_sort)
  moreover have "\<not> cgr_impl_related r" if "r \<in> set (cge_relations e)"
      "cgr_ref_table r \<in> conj_to ` set (cge_conjunct_relations e)" for r
    using that linkedD(2)[OF assms(1,2)]
    by (auto simp: assms(3) finish_conjs finish_relation_def elim!: finished_relations_in split: if_splits)
  ultimately show ?thesis by (auto simp: related_tables_def)
qed

section \<open>Junctions\<close>

lemma junction_of_symmetric:
  assumes "a \<noteq> b"
  shows "length (filter (\<lambda>c. conj_to c = b) (junction_of a (j, d))) =
    length (filter (\<lambda>c. conj_to c = a) (junction_of b (j, d)))"
    and "\<lparr>conj_via = v, conj_to = b\<rparr> \<in> set (junction_of a (j, d)) \<Longrightarrow>
      \<lparr>conj_via = v, conj_to = a\<rparr> \<in> set (junction_of b (j, d))"
  using assms by (auto simp: junction_of_def Let_def)

lemma junctions_of_symmetric:
  assumes "a \<noteq> b"
  shows "length (filter (\<lambda>c. conj_to c = b) (junctions_of M a)) =
    length (filter (\<lambda>c. conj_to c = a) (junctions_of M b))"
  unfolding junctions_of_def
  by (induction M) (auto simp: junction_of_symmetric(1)[OF assms])

text \<open>A table is never taken to be in a many-to-many relation with itself: such a junction gives two
  relations to the same table, which the last pass drops.\<close>

lemma no_conj_to_self: "c \<in> set (unique_conjs (junctions_of M t)) \<Longrightarrow> conj_to c \<noteq> t"
proof
  assume c: "c \<in> set (unique_conjs (junctions_of M t))" and self: "conj_to c = t"
  then have once: "length (filter (\<lambda>d. conj_to d = t) (junctions_of M t)) \<le> 1"
    and "c \<in> set (junctions_of M t)" by (auto simp: unique_conjs_def)
  then obtain j d where jd: "(j, d) \<in> set M" "c \<in> set (junction_of t (j, d))"
    by (auto simp: junctions_of_def)
  then have "2 \<le> length (filter (\<lambda>d. conj_to d = t) (junction_of t (j, d)))"
    using self by (auto simp: junction_of_def Let_def split: if_splits)
  also have "\<dots> \<le> length (filter (\<lambda>d. conj_to d = t) (junctions_of M t))"
    using jd(1) by (auto simp: junctions_of_def filter_concat length_concat comp_def
      intro!: member_le_sum_list)
  finally show False using once by simp
qed

lemma unique_conjs_symmetric:
  assumes "\<lparr>conj_via = v, conj_to = b\<rparr> \<in> set (unique_conjs (junctions_of M a))"
  shows "\<lparr>conj_via = v, conj_to = a\<rparr> \<in> set (unique_conjs (junctions_of M b))"
proof -
  have "a \<noteq> b" using no_conj_to_self[OF assms] by simp
  from assms obtain j d where "(j, d) \<in> set M" "\<lparr>conj_via = v, conj_to = b\<rparr> \<in> set (junction_of a (j, d))"
    by (auto simp: unique_conjs_def junctions_of_def)
  then have "\<lparr>conj_via = v, conj_to = a\<rparr> \<in> set (junctions_of M b)"
    using junction_of_symmetric(2)[OF \<open>a \<noteq> b\<close>] by (auto simp: junctions_of_def)
  then show ?thesis
    using assms junctions_of_symmetric[OF \<open>a \<noteq> b\<close>, of M] by (simp add: unique_conjs_def)
qed

section \<open>Variant names\<close>

definition ends_in_digit :: "string \<Rightarrow> bool" where
  "ends_in_digit s = (s \<noteq> [] \<and> is_ascii_digit (last s))"

lemma show_nat_digits: "c \<in> set (show_nat n) \<Longrightarrow> is_ascii_digit c"
proof (induction n rule: show_nat.induct)
  case (1 n)
  show ?case
  proof (cases "n < 10")
    case True
    with 1(2) show ?thesis by (subst (asm) show_nat.simps) (simp add: is_ascii_digit_def)
  next
    case False
    with 1 show ?thesis by (subst (asm) show_nat.simps) (auto simp: is_ascii_digit_def)
  qed
qed

lemma digits_suffix:
  assumes "\<not> ends_in_digit a" "\<forall>c\<in>set x. is_ascii_digit c"
  shows "takeWhile is_ascii_digit (rev (a @ x)) = rev x" "dropWhile is_ascii_digit (rev (a @ x)) = rev a"
  using assms by (auto simp: ends_in_digit_def takeWhile_append dropWhile_append takeWhile_eq_Nil_iff hd_rev
    dropWhile_eq_self_iff)

lemma name_suffix_inj:
  assumes "\<not> ends_in_digit a" "\<not> ends_in_digit b"
    and "a @ (if m > 0 then show_nat m else []) = b @ (if n > 0 then show_nat n else [])"
  shows "a = b \<and> m = n"
proof -
  have digits: "\<forall>c\<in>set (if k > 0 then show_nat k else []). is_ascii_digit c" for k
    using show_nat_digits by auto
  have "rev a = rev b" "rev (if m > 0 then show_nat m else []) = rev (if n > 0 then show_nat n else [])"
    using digits_suffix[OF assms(1) digits[of m]] digits_suffix[OF assms(2) digits[of n]] assms(3) by metis+
  moreover have "show_nat k \<noteq> []" "[] \<noteq> show_nat k" for k by (subst show_nat.simps, simp)+
  ultimately show ?thesis by (auto split: if_splits)
qed

definition variant_base :: "heck \<Rightarrow> string \<Rightarrow> string \<Rightarrow> string" where
  "variant_base h t ref = (if ref = t then ''SelfRef'' else to_upper_camel_case h ref)"

lemma relation_enum_name_eq:
  assumes "cgr_self_referencing r = (cgr_ref_table r = t)"
  shows "relation_enum_name h r = variant_base h t (cgr_ref_table r)
    @ (if cgr_num_suffix r > 0 then show_nat (cgr_num_suffix r) else [])"
  using assms by (simp add: relation_enum_name_def variant_base_def Let_def)

text \<open>The table names for which distinct relations have distinct variants.\<close>

definition plain_names :: "heck \<Rightarrow> string set \<Rightarrow> bool" where
  "plain_names h names \<longleftrightarrow> inj_on (to_upper_camel_case h) names
    \<and> (\<forall>n\<in>names. \<not> ends_in_digit (to_upper_camel_case h n) \<and> to_upper_camel_case h n \<noteq> ''SelfRef'')"

lemma variants_distinct:
  assumes "linked M" "(t, d) \<in> set M" "e = finish_entity (add_conjs cs d)" "plain_names h (fst ` set M)"
  shows "distinct (get_relation_enum_name h e)"
proof -
  have refs: "cgr_ref_table r \<in> fst ` set M" if "r \<in> set (cge_relations e)" for r
    using that linkedD(4)[OF assms(1,2)] by (auto simp: assms(3) elim!: finished_relations_in)
  have base: "\<not> ends_in_digit (variant_base h t n)" if "n \<in> fst ` set M" for n
    using that assms(4) by (auto simp: plain_names_def variant_base_def ends_in_digit_def is_ascii_digit_def)
  have base_inj: "m = n" if "variant_base h t m = variant_base h t n" "m \<in> fst ` set M" "n \<in> fst ` set M" for m n
    using that assms(4) by (auto simp: plain_names_def variant_base_def split: if_splits dest: inj_onD)
  have "inj_on (relation_enum_name h) (set (cge_relations e))" if "inj_on relation_id (set (cge_relations e))"
  proof (rule inj_onI)
    fix r s assume rs: "r \<in> set (cge_relations e)" "s \<in> set (cge_relations e)"
      "relation_enum_name h r = relation_enum_name h s"
    note eqs = relation_enum_name_eq[OF output_ids(2)[OF assms(1-3) rs(1)], of h]
      relation_enum_name_eq[OF output_ids(2)[OF assms(1-3) rs(2)], of h]
    from name_suffix_inj[OF base[OF refs[OF rs(1)]] base[OF refs[OF rs(2)]]] rs(3)
    have "variant_base h t (cgr_ref_table r) = variant_base h t (cgr_ref_table s)"
      "cgr_num_suffix r = cgr_num_suffix s" unfolding eqs by blast+
    then have "relation_id r = relation_id s"
      using base_inj refs rs(1,2) by (simp add: relation_id_def)
    then show "r = s" by (rule inj_onD[OF that _ rs(1,2)])
  qed
  with output_ids(1)[OF assms(1-3)] show ?thesis
    by (auto simp: get_relation_enum_name_def distinct_map)
qed

lemma junction_variants:
  assumes "linked M" "(j, d) \<in> set M" "e = finish_entity (add_conjs cs d)"
    and "cge_relations d = [r0, r1]" "cgr_ref_table r0 \<noteq> cgr_ref_table r1"
    and "r \<in> {r0, r1}" "cgr_ref_table r \<noteq> j"
  shows "to_upper_camel_case h (cgr_ref_table r) \<in> set (get_relation_enum_name h e)"
proof -
  have ok: "relations_ok d" by (rule linkedD(3)[OF assms(1,2)])
  have r: "r \<in> set (cge_relations d)" using assms(4,6) by auto
  have "length (refs_to (cgr_ref_table r) (cge_relations d)) < 2" using assms(4-6) by auto
  then have "cgr_num_suffix r = 0" using ok r by (auto simp: relations_ok_def)
  moreover have "\<not> cgr_self_referencing r"
    using ok r assms(7) linkedD(1)[OF assms(1,2)] by (auto simp: relations_ok_def)
  ultimately have "relation_enum_name h (finish_relation (unique_conjs (cge_conjunct_relations (add_conjs cs d))) r)
      = to_upper_camel_case h (cgr_ref_table r)"
    by (simp add: relation_enum_name_def Let_def)
  moreover have "finish_relation (unique_conjs (cge_conjunct_relations (add_conjs cs d))) r \<in> set (cge_relations e)"
    using r by (simp add: assms(3) finish_relations)
  ultimately show ?thesis unfolding get_relation_enum_name_def by (metis image_eqI list.set_map)
qed

section \<open>A schema for the witnesses\<close>

definition sample_column :: "bool \<Rightarrow> string \<Rightarrow> stmt_column" where
  "sample_column pk n = \<lparr>sc_name = n, sc_type = Some CtInteger, sc_auto_increment = False,
     sc_nullable = Some False, sc_unique = False, sc_primary_key = pk\<rparr>"

definition sample_fk :: "string \<Rightarrow> string \<Rightarrow> foreign_key" where
  "sample_fk col ref = \<lparr>fk_key_name = None, fk_from_tbl = None,
     fk_ref_tbl = Some (TableRef (TableName None ref) None), fk_columns = [col], fk_ref_columns = [''id''],
     fk_on_delete = None, fk_on_update = None\<rparr>"

definition sample_table :: "string \<Rightarrow> string list \<Rightarrow> string list \<Rightarrow> (string \<times> string) list \<Rightarrow> table_create" where
  "sample_table n pks cols fks =
    \<lparr>tc_table = Some (TableRef (TableName None n) None),
     tc_columns = map (sample_column True) pks @ map (sample_column False) cols,
     tc_indexes = [], tc_foreign_keys = map (\<lambda>(c, r). sample_fk c r) fks\<rparr>"

text \<open>Bills, users with a profile each, and the votes of users on bills.\<close>

definition vote_schema :: "table_create list" where
  "vote_schema =
    [sample_table ''bill'' [''id''] [''owner'', ''payer''] [(''owner'', ''user''), (''payer'', ''user'')],
     sample_table ''user'' [''id''] [''boss''] [(''boss'', ''user'')],
     sample_table ''profile'' [''id''] [] [(''id'', ''user'')],
     sample_table ''vote'' [''user_id'', ''bill_id''] [] [(''user_id'', ''user''), (''bill_id'', ''bill'')]]"

text \<open>Names of one word: the snake case is the name, the camel case has its first letter raised.\<close>

definition raise_char :: "char \<Rightarrow> char" where
  "raise_char c = (if of_char c \<ge> (97 :: nat) \<and> of_char c \<le> (122 :: nat) then char_of ((of_char c :: nat) - 32) else c)"

definition word_heck :: heck where
  "word_heck = \<lparr>to_snake_case = (\<lambda>s. s),
     to_upper_camel_case = (\<lambda>s. case s of [] \<Rightarrow> [] | c # cs \<Rightarrow> raise_char c # cs)\<rparr>"

definition vote_writer :: entity_writer where
  "vote_writer = (case transform vote_schema of Ret (Inr w) \<Rightarrow> w | _ \<Rightarrow> \<lparr>ew_entities = [], ew_enums = []\<rparr>)"

lemma vote_transform: "transform vote_schema = Ret (Inr vote_writer)"
proof -
  have "(case transform vote_schema of Ret (Inr w) \<Rightarrow> True | _ \<Rightarrow> False)" by code_simp
  then show ?thesis by (auto simp: vote_writer_def split: run.splits sum.splits)
qed

section \<open>One-to-one relations\<close>

text \<open>A row gives each column a value or null. A key holds of the rows of a table when no two rows
  without nulls in its columns agree on them; the constraints of a statement are its unique columns,
  its unique indexes and its primary key.\<close>

definition key_respected :: "string list \<Rightarrow> (string \<Rightarrow> 'v option) list \<Rightarrow> bool" where
  "key_respected key rows =
    distinct (map (\<lambda>row. map row key) (filter (\<lambda>row. list_all (\<lambda>c. row c \<noteq> None) key) rows))"

definition table_constraints :: "table_create \<Rightarrow> (string \<Rightarrow> 'v option) list \<Rightarrow> bool" where
  "table_constraints tc rows =
    (list_all (\<lambda>c. key_respected [sc_name c] rows) (filter sc_unique (tc_columns tc))
     \<and> list_all (\<lambda>i. key_respected (idx_cols i) rows) (filter idx_unique (tc_indexes tc))
     \<and> (let pk = inline_primary_keys tc @ index_primary_keys tc in pk \<noteq> [] \<longrightarrow> key_respected pk rows))"

lemma constant_distinct: "distinct (map f xs) \<Longrightarrow> (\<And>x. x \<in> set xs \<Longrightarrow> f x = k) \<Longrightarrow> length xs \<le> 1"
proof (cases xs)
  case (Cons x ys)
  assume d: "distinct (map f xs)" and k: "\<And>x. x \<in> set xs \<Longrightarrow> f x = k"
  have "ys = []"
  proof (cases ys)
    case (Cons y zs)
    with d k[of x] k[of y] \<open>xs = x # ys\<close> show ?thesis by simp
  qed simp
  with Cons show ?thesis by simp
qed simp

lemma distinct_map_filter_mono:
  "distinct (map f (filter P xs)) \<Longrightarrow> (\<And>x. Q x \<Longrightarrow> P x) \<Longrightarrow> distinct (map f (filter Q xs))"
  by (induction xs) (auto split: if_splits)

lemma key_determines:
  assumes "key_respected key rows" "set key \<subseteq> set cols"
  shows "length (filter (\<lambda>row. map row cols = map Some vs) rows) \<le> 1"
proof -
  let ?rows = "filter (\<lambda>row. map row cols = map Some vs) rows"
  have same: "row c = row' c" if "map row cols = map Some vs" "map row' cols = map Some vs" "c \<in> set cols"
    for row row' :: "string \<Rightarrow> 'a option" and c
    using that map_eq_conv[of row cols row'] by simp
  have some: "row c \<noteq> None" if "map row cols = map Some vs" "c \<in> set cols" for row :: "string \<Rightarrow> 'a option" and c
  proof -
    have "row c \<in> set (map row cols)" using that(2) by simp
    then show ?thesis unfolding that(1) by auto
  qed
  show ?thesis
  proof (rule constant_distinct)
    show "distinct (map (\<lambda>row. map row key) ?rows)"
      using assms(1) unfolding key_respected_def
      by (rule distinct_map_filter_mono) (use some assms(2) in \<open>auto simp: list_all_iff\<close>)
    show "map row key = map (hd ?rows) key" if row: "row \<in> set ?rows" for row
    proof -
      have "?rows \<noteq> []" using row by (metis empty_iff list.set(1))
      then have "hd ?rows \<in> set ?rows" by (rule hd_in_set)
      then show ?thesis using row same[of row "hd ?rows"] assms(2) by auto
    qed
  qed
qed

abbreviation column_key :: "cg_column \<Rightarrow> string \<times> bool" where
  "column_key c \<equiv> (cgc_name c, cgc_unique c)"

lemma set_unique_key_kept: "map column_key (set_unique_key i cols) = map column_key cols"
proof -
  have one: "map column_key (map (\<lambda>c. if cgc_name c = n then c\<lparr>cgc_unique_key := k\<rparr> else c) cols) =
      map column_key cols" for n k cols
    by (induction cols) simp_all
  have "map column_key (fold (\<lambda>n. map (\<lambda>c. if cgc_name c = n then c\<lparr>cgc_unique_key := k\<rparr> else c)) ns cols) =
      map column_key cols" for ns k
  proof (induction ns arbitrary: cols)
    case (Cons n ns)
    show ?case by (simp only: fold_Cons comp_apply Cons.IH one)
  qed simp
  then show ?thesis by (simp add: set_unique_key_def split: option.splits)
qed

lemma fold_set_unique_key_kept: "map column_key (fold set_unique_key is cols) = map column_key cols"
  by (induction "is" arbitrary: cols) (simp_all add: set_unique_key_kept)

lemma list_all2_right: "list_all2 P xs ys \<Longrightarrow> y \<in> set ys \<Longrightarrow> \<exists>x\<in>set xs. P x y"
  by (induction rule: list_all2_induct) auto

lemma unique_column:
  assumes "transform_columns tc = Ret cols" "c \<in> set (fold set_unique_key is cols)" "cgc_unique c"
    and "table_constraints tc rows"
  shows "key_respected [cgc_name c] rows"
proof -
  have "column_key c \<in> set (map column_key (fold set_unique_key is cols))" using assms(2) by simp
  then have "column_key c \<in> column_key ` set cols" unfolding fold_set_unique_key_kept by simp
  then obtain c' where c': "c' \<in> set cols" "cgc_name c' = cgc_name c" "cgc_unique c'"
    using assms(3) by auto
  from list_all2_right[OF assms(1)[unfolded transform_columns_def run_map_Ret_iff] c'(1)]
  obtain sc col where sc: "sc \<in> set (tc_columns tc)" "column_from_def sc = Ret col"
    "c' = mark_unique (tc_indexes tc) col"
    by (auto simp: run_simps)
  from sc(2) have col: "cgc_name col = sc_name sc" "cgc_unique col = sc_unique sc"
    by (auto simp: column_from_def_def run_simps)
  from c'(3) sc(3) consider "sc_unique sc"
    | i where "i \<in> set (tc_indexes tc)" "idx_unique i" "idx_cols i = [sc_name sc]"
    by (auto simp: mark_unique_def col filter_empty_conv length_Suc_conv)
  then show ?thesis
  proof cases
    case 1
    with assms(4) sc c'(2) col(1) show ?thesis by (auto simp: table_constraints_def list_all_iff mark_unique_def)
  next
    case 2
    with assms(4) sc(3) c'(2) col(1) show ?thesis
      by (fastforce simp: table_constraints_def list_all_iff mark_unique_def)
  qed
qed

definition at_most_one_per_key :: "string list \<Rightarrow> (string \<Rightarrow> 'v option) list \<Rightarrow> bool" where
  "at_most_one_per_key cols rows \<longleftrightarrow> (\<forall>vs. length (filter (\<lambda>row. map row cols = map Some vs) rows) \<le> 1)"

lemma fk_unique_sound:
  assumes "statement_entity tc e" "fk_unique e rel" "cgr_columns rel \<noteq> []" "table_constraints tc rows"
  shows "at_most_one_per_key (cgr_columns rel) rows"
proof -
  from assms(1) obtain t cols counts rels where cols: "transform_columns tc = Ret cols"
    and e: "e = table_entity (sea_orm_table t) tc cols counts rels"
    by (auto simp: statement_entity_def)
  let ?pks = "inline_primary_keys tc @ index_primary_keys tc"
  obtain key where "key_respected key rows" "set key \<subseteq> set (cgr_columns rel)"
  proof (cases "length (cgr_columns rel) = length ?pks \<and> length (filter (\<lambda>pk. pk \<in> set (cgr_columns rel)) ?pks) = length ?pks")
    case True
    then have "?pks \<noteq> []" using assms(3) by force
    moreover have "pk \<in> set (cgr_columns rel)" if "pk \<in> set ?pks" for pk
      using True length_filter_less[OF that, of "\<lambda>pk. pk \<in> set (cgr_columns rel)"] by linarith
    then have "set ?pks \<subseteq> set (cgr_columns rel)" by blast
    ultimately show ?thesis using that[of ?pks] assms(4) by (auto simp: table_constraints_def Let_def)
  next
    case False
    then have uniq: "list_all (\<lambda>column. list_ex (\<lambda>col. cgc_name col = column)
        (filter cgc_unique (cge_columns e))) (cgr_columns rel)"
      using assms(2) by (auto simp: fk_unique_def Let_def e table_entity_def)
    obtain c cs where c: "cgr_columns rel = c # cs" using assms(3) by (cases "cgr_columns rel") auto
    with uniq obtain col where "col \<in> set (fold set_unique_key (tc_indexes tc) cols)" "cgc_unique col" "cgc_name col = c"
      by (auto simp: list_ex_iff e table_entity_def)
    from unique_column[OF cols this(1,2) assms(4)] this(3) c show ?thesis by (intro that[of "[c]"]) auto
  qed
  then show ?thesis unfolding at_most_one_per_key_def by (intro allI key_determines)
qed

section \<open>Where relations come from\<close>

lemma fold_push_inverse_from:
  "r \<in> set (cge_relations (fold push_inverse rs e)) \<Longrightarrow> r \<in> set (cge_relations e) \<or> r \<in> set rs"
proof (induction rs arbitrary: e)
  case (Cons x rs)
  from Cons.IH[of "push_inverse x e"] Cons.prems show ?case
    by (auto simp: push_inverse_def split: if_splits)
qed simp

lemma relation_from_statement:
  assumes "statement_entity tc e" "rel \<in> set (cge_relations e)"
  obtains fk tr where "fk \<in> set (tc_foreign_keys tc)" "fk_ref_tbl fk = Some tr"
    "cgr_ref_table rel = sea_orm_table tr" "cgr_columns rel = fk_columns fk"
    "cgr_ref_columns rel = fk_ref_columns fk" "cgr_rel_type rel = CgBelongsTo"
proof -
  from assms obtain t cols counts rels where
    counts: "count_relations (tc_foreign_keys tc) [] = Ret (counts, rels)"
    and rel: "rel \<in> set (number_relations (sea_orm_table t) rels counts)"
    by (auto simp: statement_entity_def table_entity_def)
  from list_all2_right[OF number_relations_shape rel] obtain r n where r: "r \<in> set rels"
    "rel = r\<lparr>cgr_self_referencing := (cgr_ref_table r = sea_orm_table t), cgr_num_suffix := n\<rparr>" by blast
  from list_all2_right[OF count_relations_shape[OF counts] r(1)] obtain fk where
    fk: "fk \<in> set (tc_foreign_keys tc)" "relation_from_fk fk = Ret r" by blast
  then obtain tr where "fk_ref_tbl fk = Some tr" by (auto simp: relation_from_fk_def run_simps)
  with fk r(2) show ?thesis by (intro that[of fk tr]) (auto simp: relation_from_fk_def)
qed

lemma inverse_from_statement:
  assumes "list_all2 statement_entity stmts es" "(t, d) \<in> set (before_junctions es)"
    and "r \<in> set (cge_relations d)" "cgr_rel_type r = CgHasOne"
  obtains tc e rel where "tc \<in> set stmts" "statement_entity tc e" "rel \<in> set (cge_relations e)"
    "has_inverse t rel" "r = inverse_relation e rel" "fk_unique e rel"
proof -
  from assms(2,3) obtain e0 where e0: "(t, e0) \<in> set (tables_of es)"
    and "r \<in> set (cge_relations (fold push_inverse (concat (map (inverses t) es)) e0))"
    by (auto simp: before_junctions_def known_relations_def)
  moreover have "r \<notin> set (cge_relations e0)"
  proof
    assume r: "r \<in> set (cge_relations e0)"
    from list_all2_right[OF assms(1)] in_tables_of[OF e0] obtain tc where "statement_entity tc e0" by blast
    with r assms(4) show False by (auto elim: relation_from_statement)
  qed
  ultimately obtain e rel where "e \<in> set es" "rel \<in> set (cge_relations e)" "has_inverse t rel" "r = inverse_relation e rel"
    by (auto dest!: fold_push_inverse_from simp: inverses_def)
  moreover from this(4) assms(4) have "fk_unique e rel" by (auto simp: inverse_relation_def split: if_splits)
  moreover from list_all2_right[OF assms(1) \<open>e \<in> set es\<close>] obtain tc where "tc \<in> set stmts" "statement_entity tc e" by blast
  ultimately show ?thesis using that by blast
qed

definition statement_name :: "table_create \<Rightarrow> string option" where
  "statement_name tc = map_option sea_orm_table (tc_table tc)"

lemma statement_entity_name: "statement_entity tc e \<Longrightarrow> statement_name tc = Some (cge_table_name e)"
  by (auto simp: statement_entity_def statement_name_def table_entity_def)

lemma has_one_origin:
  assumes "transform stmts = Ret (Inr w)" "e \<in> set (ew_entities w)" "r \<in> set (cge_relations e)"
    and "cgr_rel_type r = CgHasOne"
  obtains tc fk tr where "tc \<in> set stmts" "statement_name tc = Some (cgr_ref_table r)"
    "fk \<in> set (tc_foreign_keys tc)" "fk_ref_tbl fk = Some tr" "sea_orm_table tr = cge_table_name e"
    "\<And>rows :: (string \<Rightarrow> 'v option) list. fk_columns fk \<noteq> [] \<Longrightarrow> table_constraints tc rows \<Longrightarrow>
       at_most_one_per_key (fk_columns fk) rows"
proof -
  from transform_result[OF assms(1)] obtain es where es: "list_all2 statement_entity stmts es"
    and link: "linked (before_junctions es)"
    and w: "ew_entities w = map (\<lambda>(t, e). finish_entity (add_conjs (junctions_of (before_junctions es) t) e))
      (before_junctions es)" by blast
  from assms(2) w obtain t d where td: "(t, d) \<in> set (before_junctions es)"
    and e: "e = finish_entity (add_conjs (junctions_of (before_junctions es) t) d)" by auto
  have name: "cge_table_name e = t" using linkedD(1)[OF link td] by (simp add: e)
  from assms(3) e obtain r' where r': "r' \<in> set (cge_relations d)" "cgr_ref_table r = cgr_ref_table r'"
    "cgr_rel_type r' = CgHasOne" using assms(4) by (auto elim!: finished_relations_in)
  from inverse_from_statement[OF es td r'(1,3)] obtain tc e' rel where tc: "tc \<in> set stmts" "statement_entity tc e'"
    and rel: "rel \<in> set (cge_relations e')" "has_inverse t rel" "r' = inverse_relation e' rel" "fk_unique e' rel"
    by blast
  from relation_from_statement[OF tc(2) rel(1)] obtain fk tr where fk: "fk \<in> set (tc_foreign_keys tc)"
    "fk_ref_tbl fk = Some tr" "cgr_ref_table rel = sea_orm_table tr" "cgr_columns rel = fk_columns fk" by metis
  have "statement_name tc = Some (cgr_ref_table r)"
    using statement_entity_name[OF tc(2)] r'(2) rel(3) by (simp add: inverse_relation_def)
  then show ?thesis
    by (rule that[OF tc(1) _ fk(1,2)])
      (use rel(2) fk(3,4) name fk_unique_sound[OF tc(2) rel(4)] in \<open>auto simp: has_inverse_def\<close>)
qed

section \<open>Both sides of a foreign key\<close>

type_synonym fk_content = "string option \<times> string list \<times> string list \<times> fk_action option \<times> fk_action option"

definition fk_content :: "foreign_key \<Rightarrow> fk_content" where
  "fk_content fk = (map_option sea_orm_table (fk_ref_tbl fk), fk_columns fk, fk_ref_columns fk,
     fk_on_update fk, fk_on_delete fk)"

definition relation_content :: "cg_relation \<Rightarrow> fk_content" where
  "relation_content r = (Some (cgr_ref_table r), cgr_columns r, cgr_ref_columns r, cgr_on_update r, cgr_on_delete r)"

definition belongs_to :: "cg_relation \<Rightarrow> bool" where
  "belongs_to r = (cgr_rel_type r = CgBelongsTo)"

lemma statement_relations:
  assumes "statement_entity tc e"
  shows "map relation_content (cge_relations e) = map fk_content (tc_foreign_keys tc)"
    and "list_all belongs_to (cge_relations e)"
proof -
  from assms obtain t cols counts rels where
    counts: "count_relations (tc_foreign_keys tc) [] = Ret (counts, rels)"
    and e: "cge_relations e = number_relations (sea_orm_table t) rels counts"
    by (auto simp: statement_entity_def table_entity_def)
  have "map relation_content (cge_relations e) = map relation_content rels"
    unfolding e using number_relations_shape[of "sea_orm_table t" rels counts]
    by (induction rule: list_all2_induct) (auto simp: relation_content_def)
  also have "\<dots> = map fk_content (tc_foreign_keys tc)"
    using count_relations_shape[OF counts]
    by (induction rule: list_all2_induct)
      (auto simp: relation_content_def fk_content_def relation_from_fk_def run_simps)
  finally show "map relation_content (cge_relations e) = map fk_content (tc_foreign_keys tc)" .
  show "list_all belongs_to (cge_relations e)"
    unfolding list_all_iff belongs_to_def by (blast elim: relation_from_statement[OF assms])
qed

lemma fold_push_inverse_belongs_to:
  "list_all (\<lambda>r. \<not> belongs_to r) rs \<Longrightarrow>
    filter belongs_to (cge_relations (fold push_inverse rs e)) = filter belongs_to (cge_relations e)"
proof (induction rs arbitrary: e)
  case (Cons r rs)
  with Cons.IH[of "push_inverse r e"] show ?case by (auto simp: push_inverse_def)
qed simp

lemma push_inverse_refs:
  "cgr_ref_table ` set (cge_relations (push_inverse r e)) = insert (cgr_ref_table r) (cgr_ref_table ` set (cge_relations e))"
proof (cases "list_ex (\<lambda>rel. cgr_ref_table rel = cgr_ref_table r) (cge_relations e)")
  case True
  then have "cgr_ref_table r \<in> cgr_ref_table ` set (cge_relations e)" by (auto simp: list_ex_iff) (metis image_eqI)
  with True show ?thesis by (auto simp: push_inverse_def)
qed (simp add: push_inverse_def)

lemma fold_push_inverse_refs:
  "cgr_ref_table ` set (cge_relations (fold push_inverse rs e)) =
    cgr_ref_table ` set (cge_relations e) \<union> cgr_ref_table ` set rs"
  by (induction rs arbitrary: e) (auto simp: push_inverse_refs)

lemma finish_contents:
  "mset (map relation_content (filter belongs_to (cge_relations (finish_entity v)))) =
    mset (map relation_content (filter belongs_to (cge_relations v)))"
proof -
  have "mset (map relation_content (filter belongs_to (cge_relations (finish_entity v)))) =
      image_mset relation_content (filter_mset belongs_to
        (mset (map (finish_relation (unique_conjs (cge_conjunct_relations v))) (cge_relations v))))"
    by (simp only: finish_relations mset_map mset_filter mset_sort)
  also have "\<dots> = mset (map relation_content (filter belongs_to
        (map (finish_relation (unique_conjs (cge_conjunct_relations v))) (cge_relations v))))"
    by (simp only: mset_map mset_filter)
  also have "map relation_content (filter belongs_to
        (map (finish_relation (unique_conjs (cge_conjunct_relations v))) (cge_relations v))) =
      map relation_content (filter belongs_to (cge_relations v))"
    by (induction "cge_relations v") (simp_all add: filter_map comp_def relation_content_def belongs_to_def)
  finally show ?thesis .
qed

lemma inverses_not_belongs_to: "list_all (\<lambda>r. \<not> belongs_to r) (inverses t e)"
  by (auto simp: list_all_iff inverses_def inverse_relation_def belongs_to_def)

text \<open>The output entity of a statement, when no two statements create the same table.\<close>

lemma entity_of_statement:
  assumes "transform stmts = Ret (Inr w)" "distinct (map statement_name stmts)" "tc \<in> set stmts"
    and "e \<in> set (ew_entities w)" "statement_name tc = Some (cge_table_name e)"
  obtains es e0 cs where "list_all2 statement_entity stmts es" "e0 \<in> set es" "statement_entity tc e0"
    "cge_table_name e0 = cge_table_name e" "cge_table_name ` set es = cge_table_name ` set (ew_entities w)"
    "e = finish_entity (add_conjs cs (known_relations (cge_table_name ` set es)
       (fold push_inverse (concat (map (inverses (cge_table_name e)) es)) e0)))"
proof -
  from transform_result[OF assms(1)] obtain es where es: "list_all2 statement_entity stmts es"
    and link: "linked (before_junctions es)"
    and w: "ew_entities w = map (\<lambda>(t, e). finish_entity (add_conjs (junctions_of (before_junctions es) t) e))
      (before_junctions es)" by blast
  have names: "map statement_name stmts = map (\<lambda>e. Some (cge_table_name e)) es"
    using es by (induction rule: list_all2_induct) (auto dest: statement_entity_name)
  from assms(4) w obtain t d where td: "(t, d) \<in> set (before_junctions es)"
    and e: "e = finish_entity (add_conjs (junctions_of (before_junctions es) t) d)" by auto
  have t: "cge_table_name e = t" using linkedD(1)[OF link td] by (simp add: e)
  from td obtain e0 where e0: "(t, e0) \<in> set (tables_of es)"
    and d: "d = known_relations (cge_table_name ` set es) (fold push_inverse (concat (map (inverses t) es)) e0)"
    by (auto simp: before_junctions_def)
  from in_tables_of[OF e0] have e0': "e0 \<in> set es" "cge_table_name e0 = t" by auto
  from es assms(3) obtain e1 where e1: "e1 \<in> set es" "statement_entity tc e1"
    by (induction rule: list_all2_induct) auto
  have "inj_on cge_table_name (set es)"
    using assms(2) unfolding names by (auto simp: distinct_map inj_on_def)
  moreover have "cge_table_name e1 = cge_table_name e0"
    using statement_entity_name[OF e1(2)] assms(5) t e0'(2) by simp
  ultimately have "e1 = e0" using e1(1) e0'(1) by (auto dest: inj_onD)
  moreover have "cge_table_name ` set es = cge_table_name ` set (ew_entities w)"
    using output_names(1)[OF link w] by (simp add: before_junctions_def image_image case_prod_unfold keys_tables_of)
  ultimately show ?thesis
    by (intro that[OF es e0'(1), of "junctions_of (before_junctions es) t"])
      (use e1(2) e0'(2) t e d in simp_all)
qed

lemma foreign_keys_kept_lemma:
  assumes "transform stmts = Ret (Inr w)" "distinct (map statement_name stmts)" "tc \<in> set stmts"
    and "e \<in> set (ew_entities w)" "statement_name tc = Some (cge_table_name e)"
  shows "mset (map relation_content (filter belongs_to (cge_relations e))) =
    mset (filter (\<lambda>c. fst c \<in> Some ` cge_table_name ` set (ew_entities w)) (map fk_content (tc_foreign_keys tc)))"
proof -
  from entity_of_statement[OF assms] obtain es e0 cs where e0: "statement_entity tc e0"
    "cge_table_name e0 = cge_table_name e" "e0 \<in> set es"
    and names: "cge_table_name ` set es = cge_table_name ` set (ew_entities w)"
    and e: "e = finish_entity (add_conjs cs (known_relations (cge_table_name ` set es)
       (fold push_inverse (concat (map (inverses (cge_table_name e)) es)) e0)))" by metis
  let ?names = "cge_table_name ` set (ew_entities w)"
  let ?d = "known_relations ?names (fold push_inverse (concat (map (inverses (cge_table_name e)) es)) e0)"
  have "mset (map relation_content (filter belongs_to (cge_relations e))) =
      mset (map relation_content (filter belongs_to (cge_relations ?d)))"
    by (subst e) (simp only: finish_contents add_conjs_simps names)
  also have "filter belongs_to (cge_relations ?d) = filter (\<lambda>r. cgr_self_referencing r \<or> cgr_ref_table r \<in> ?names)
      (filter belongs_to (cge_relations (fold push_inverse (concat (map (inverses (cge_table_name e)) es)) e0)))"
    by (simp add: known_relations_def conj_commute)
  also have "filter belongs_to (cge_relations (fold push_inverse (concat (map (inverses (cge_table_name e)) es)) e0))
      = cge_relations e0"
    using statement_relations(2)[OF e0(1)] inverses_not_belongs_to
    by (subst fold_push_inverse_belongs_to) (auto simp: list_all_iff filter_id_conv)
  also have "filter (\<lambda>r. cgr_self_referencing r \<or> cgr_ref_table r \<in> ?names) (cge_relations e0) =
      filter (\<lambda>r. fst (relation_content r) \<in> Some ` ?names) (cge_relations e0)"
    using statement_entity_facts(1)[OF e0(1)] e0(2) assms(4)
    by (intro filter_cong) (auto simp: relations_ok_def relation_content_def)
  also have "map relation_content \<dots> = filter (\<lambda>c. fst c \<in> Some ` ?names) (map relation_content (cge_relations e0))"
    by (simp add: filter_map comp_def)
  finally show ?thesis unfolding statement_relations(1)[OF e0(1)] .
qed

lemma finish_refs: "cgr_ref_table ` set (cge_relations (finish_entity v)) = cgr_ref_table ` set (cge_relations v)"
  by (simp add: finish_relations image_image)

lemma statement_entities_unique:
  "list_all2 statement_entity stmts es \<Longrightarrow> list_all2 statement_entity stmts es' \<Longrightarrow> es = es'"
proof (induction stmts arbitrary: es es')
  case (Cons tc stmts)
  have "e = e'" if "statement_entity tc e" "statement_entity tc e'" for e e'
    using that by (auto simp: statement_entity_def)
  with Cons show ?case by (auto simp: list_all2_Cons1)
qed simp

lemma names_of_output:
  assumes "transform stmts = Ret (Inr w)"
  shows "Some ` cge_table_name ` set (ew_entities w) = statement_name ` set stmts"
proof -
  from transform_result[OF assms] obtain es where es: "list_all2 statement_entity stmts es"
    and link: "linked (before_junctions es)"
    and w: "ew_entities w = map (\<lambda>(t, e). finish_entity (add_conjs (junctions_of (before_junctions es) t) e))
      (before_junctions es)" by blast
  have "map statement_name stmts = map (\<lambda>e. Some (cge_table_name e)) es"
    using es by (induction rule: list_all2_induct) (auto dest: statement_entity_name)
  then have "statement_name ` set stmts = (\<lambda>e. Some (cge_table_name e)) ` set es"
    by (metis list.set_map)
  moreover have "cge_table_name ` set es = cge_table_name ` set (ew_entities w)"
    using output_names(1)[OF link w] by (simp add: before_junctions_def image_image case_prod_unfold keys_tables_of)
  ultimately show ?thesis by (simp only: image_image[of Some cge_table_name, symmetric])
qed

lemma inverse_present_lemma:
  assumes "transform stmts = Ret (Inr w)" "distinct (map statement_name stmts)" "tc \<in> set stmts"
    and "e \<in> set (ew_entities w)" "statement_name tc = Some (cge_table_name e)"
    and "target \<in> set (ew_entities w)" "cge_table_name target \<noteq> cge_table_name e"
    and "length (filter (\<lambda>fk. fk_ref_tbl fk \<noteq> None \<and> sea_orm_table (the (fk_ref_tbl fk)) = cge_table_name target)
      (tc_foreign_keys tc)) = 1"
  shows "cge_table_name e \<in> cgr_ref_table ` set (cge_relations target)"
proof -
  from entity_of_statement[OF assms(1-5)] obtain es e0 where e0: "statement_entity tc e0"
    "cge_table_name e0 = cge_table_name e" "e0 \<in> set es" and es: "list_all2 statement_entity stmts es" by metis
  let ?t = "cge_table_name target"
  have once: "length (refs_to ?t (cge_relations e0)) = 1"
  proof -
    have "length (refs_to ?t (cge_relations e0)) =
        length (filter (\<lambda>c. fst c = Some ?t) (map relation_content (cge_relations e0)))"
      by (simp add: filter_map comp_def relation_content_def)
    also have "\<dots> = length (filter (\<lambda>fk. map_option sea_orm_table (fk_ref_tbl fk) = Some ?t) (tc_foreign_keys tc))"
      by (simp add: statement_relations(1)[OF e0(1)] filter_map comp_def fk_content_def)
    also have "(\<lambda>fk. map_option sea_orm_table (fk_ref_tbl fk) = Some ?t) =
        (\<lambda>fk. fk_ref_tbl fk \<noteq> None \<and> sea_orm_table (the (fk_ref_tbl fk)) = ?t)"
      by (auto simp: fun_eq_iff)
    finally show ?thesis using assms(8) by simp
  qed
  then obtain rel where "refs_to ?t (cge_relations e0) = [rel]" by (auto simp: length_Suc_conv)
  then have "rel \<in> set (refs_to ?t (cge_relations e0))" by simp
  then have rel: "rel \<in> set (cge_relations e0)" "cgr_ref_table rel = ?t" by simp_all
  have ok: "relations_ok e0" by (rule statement_entity_facts(1)[OF e0(1)])
  have "has_inverse ?t rel"
    using ok rel once assms(7) e0(2) by (auto simp: has_inverse_def relations_ok_def)
  then have inv: "cge_table_name e \<in> cgr_ref_table ` set (concat (map (inverses ?t) es))"
    using rel(1) e0(2,3) by (force simp: inverses_def inverse_relation_def)
  from assms(6) have "Some ?t \<in> Some ` cge_table_name ` set (ew_entities w)" by (intro imageI)
  then obtain tc' where tc': "tc' \<in> set stmts" "statement_name tc' = Some ?t"
    unfolding names_of_output[OF assms(1)] by auto
  from entity_of_statement[OF assms(1,2) tc'(1) assms(6) tc'(2)] obtain es' e1 cs where
    es': "list_all2 statement_entity stmts es'" and names: "cge_table_name ` set es' = cge_table_name ` set (ew_entities w)"
    and target: "target = finish_entity (add_conjs cs (known_relations (cge_table_name ` set es')
       (fold push_inverse (concat (map (inverses ?t) es')) e1)))" by metis
  have "es' = es" using es es' by (auto intro: statement_entities_unique)
  with inv have "cge_table_name e \<in> cgr_ref_table ` set (cge_relations (fold push_inverse (concat (map (inverses ?t) es')) e1))"
    by (simp add: fold_push_inverse_refs)
  then have "cge_table_name e \<in> cgr_ref_table ` set (cge_relations (known_relations (cge_table_name ` set es')
      (fold push_inverse (concat (map (inverses ?t) es')) e1)))"
    unfolding names using assms(4) by (force simp: known_relations_def)
  then show ?thesis by (subst target) (simp only: finish_refs add_conjs_simps)
qed
end
