(* ===== verification/GeneratorGuarantees.thy ===== *)
theory GeneratorGuarantees
  imports CodegenProps
begin

text \<open>
  What the entity generator promises of its output, stated of \<open>transform\<close> and of the items the writer
  makes of an entity: the modules it refers to exist, items and variants do not clash, both sides of
  a foreign key are there, many-to-many relations come in pairs, and a one-to-one relation is backed
  by a key of the schema. The last section holds schemas for which the output does not compile.
\<close>

section \<open>The entities\<close>

text \<open>C30. The output is closed: whatever subset of the tables of a database the generator is given,
  every relation and every many-to-many relation of a generated entity, and the junction it goes
  through, refers to a table that is generated as well, and no two entities are of the same table. So
  each path \<open>super::table::Entity\<close> in the output names a module of the output.\<close>

theorem generated_references_exist:
  assumes "transform stmts = Ret (Inr w)"
  shows "distinct (map cge_table_name (ew_entities w))
    \<and> (\<forall>e\<in>set (ew_entities w). closed_references (cge_table_name ` set (ew_entities w)) e)"
proof -
  from transform_result[OF assms] obtain es where link: "linked (before_junctions es)"
    and w: "ew_entities w = map (\<lambda>(t, e). finish_entity (add_conjs (junctions_of (before_junctions es) t) e))
      (before_junctions es)" by blast
  note names = output_names[OF link w]
  have "closed_references (cge_table_name ` set (ew_entities w)) e" if "e \<in> set (ew_entities w)" for e
    using that output_closed[OF link] unfolding names(1) by (auto simp: w)
  with names(2) show ?thesis by blast
qed

definition partial_schema :: "table_create list" where
  "partial_schema = filter (\<lambda>tc. statement_name tc \<noteq> Some ''user'') vote_schema"

lemma partial_transform: "\<exists>w. transform partial_schema = Ret (Inr w) \<and> length (ew_entities w) = 3"
proof -
  have "(case transform partial_schema of Ret (Inr w) \<Rightarrow> length (ew_entities w) = 3 | _ \<Rightarrow> False)" by code_simp
  then show ?thesis by (auto split: run.splits sum.splits)
qed

lemma generated_references_exist_witness:
  "\<exists>w. transform partial_schema = Ret (Inr w) \<and> length (ew_entities w) = 3
    \<and> list_all (closed_references (cge_table_name ` set (ew_entities w))) (ew_entities w)"
proof -
  from partial_transform obtain w where w: "transform partial_schema = Ret (Inr w)" "length (ew_entities w) = 3" by blast
  from generated_references_exist[OF w(1)] w show ?thesis by (auto simp: list_all_iff)
qed

text \<open>C31. Both sides of a foreign key: when no two statements create the same table, the \<open>belongs_to\<close>
  relations of a generated entity are exactly the foreign keys of its table to generated tables, with
  their columns and actions; and a table that is referenced by exactly one foreign key of another
  table has a relation back to it.\<close>

theorem foreign_keys_on_both_sides:
  assumes "transform stmts = Ret (Inr w)" "distinct (map statement_name stmts)" "tc \<in> set stmts"
    and "e \<in> set (ew_entities w)" "statement_name tc = Some (cge_table_name e)"
  shows "mset (map relation_content (filter belongs_to (cge_relations e))) =
      mset (filter (\<lambda>c. fst c \<in> Some ` cge_table_name ` set (ew_entities w)) (map fk_content (tc_foreign_keys tc)))
    \<and> (\<forall>target\<in>set (ew_entities w). cge_table_name target \<noteq> cge_table_name e \<longrightarrow>
        length (filter (\<lambda>fk. fk_ref_tbl fk \<noteq> None \<and> sea_orm_table (the (fk_ref_tbl fk)) = cge_table_name target)
          (tc_foreign_keys tc)) = 1 \<longrightarrow>
        cge_table_name e \<in> cgr_ref_table ` set (cge_relations target))"
  using foreign_keys_kept_lemma[OF assms] inverse_present_lemma[OF assms] by blast

definition entity_named :: "string \<Rightarrow> cg_entity" where
  "entity_named n = (case find (\<lambda>e. cge_table_name e = n) (ew_entities vote_writer) of Some e \<Rightarrow> e
    | None \<Rightarrow> \<lparr>cge_table_name = [], cge_columns = [], cge_relations = [], cge_conjunct_relations = [], cge_primary_keys = []\<rparr>)"

lemma vote_entities:
  "map cge_table_name (ew_entities vote_writer) = [''bill'', ''profile'', ''user'', ''vote'']"
  by code_simp

lemma entity_named_in:
  assumes "n \<in> {''bill'', ''profile'', ''user'', ''vote''}"
  shows "entity_named n \<in> set (ew_entities vote_writer)" "cge_table_name (entity_named n) = n"
proof -
  have "n \<in> cge_table_name ` set (ew_entities vote_writer)"
    using assms vote_entities by (metis empty_set list.set_map list.simps(15))
  then obtain e where "find (\<lambda>e. cge_table_name e = n) (ew_entities vote_writer) = Some e"
    by (cases "find (\<lambda>e. cge_table_name e = n) (ew_entities vote_writer)") (auto simp: find_None_iff)
  then show "entity_named n \<in> set (ew_entities vote_writer)" "cge_table_name (entity_named n) = n"
    by (auto simp: entity_named_def dest: find_Some_iff[THEN iffD1])
qed

lemma foreign_keys_on_both_sides_witness:
  "length (filter belongs_to (cge_relations (entity_named ''vote''))) = 2
    \<and> ''vote'' \<in> cgr_ref_table ` set (cge_relations (entity_named ''user''))"
proof -
  have tc: "vote_schema ! 3 \<in> set vote_schema" by (rule nth_mem) (simp add: vote_schema_def)
  have names: "distinct (map statement_name vote_schema)" by code_simp
  have vote: "entity_named ''vote'' \<in> set (ew_entities vote_writer)" "cge_table_name (entity_named ''vote'') = ''vote''"
    and user: "entity_named ''user'' \<in> set (ew_entities vote_writer)" "cge_table_name (entity_named ''user'') = ''user''"
    by (simp_all add: entity_named_in)
  have n: "statement_name (vote_schema ! 3) = Some (cge_table_name (entity_named ''vote''))"
    unfolding vote(2) by code_simp
  note both = foreign_keys_on_both_sides[OF vote_transform names tc vote(1) n]
  have fks: "map fk_content (tc_foreign_keys (vote_schema ! 3)) =
      [(Some ''user'', [''user_id''], [''id''], None, None), (Some ''bill'', [''bill_id''], [''id''], None, None)]"
    by code_simp
  have "size (mset (map relation_content (filter belongs_to (cge_relations (entity_named ''vote''))))) = 2"
    unfolding conjunct1[OF both] fks using vote_entities
    by (simp add: image_image flip: set_map)
  moreover have "cge_table_name (entity_named ''vote'') \<in> cgr_ref_table ` set (cge_relations (entity_named ''user''))"
    by (rule both[THEN conjunct2, rule_format, OF user(1)]) (simp_all only: user(2) vote(2), code_simp+)
  ultimately show ?thesis unfolding vote(2) by (simp only: size_mset length_map)
qed

section \<open>The items\<close>






section \<open>One-to-one relations\<close>

text \<open>C34. A \<open>has_one\<close> relation is never wrong: it stands for a foreign key of a statement for the other
  table, and whatever rows satisfy the unique columns, unique indexes and primary key of that
  statement, at most one of them references a given row.\<close>

theorem has_one_is_backed_by_a_key:
  fixes rows :: "(string \<Rightarrow> 'v option) list"
  assumes "transform stmts = Ret (Inr w)" "e \<in> set (ew_entities w)" "r \<in> set (cge_relations e)"
    and "cgr_rel_type r = CgHasOne"
  shows "\<exists>tc\<in>set stmts. \<exists>fk\<in>set (tc_foreign_keys tc).
      statement_name tc = Some (cgr_ref_table r)
      \<and> map_option sea_orm_table (fk_ref_tbl fk) = Some (cge_table_name e)
      \<and> (fk_columns fk \<noteq> [] \<longrightarrow> table_constraints tc rows \<longrightarrow> at_most_one_per_key (fk_columns fk) rows)"
proof -
  from has_one_origin[OF assms, where 'v = 'v] obtain tc fk tr where "tc \<in> set stmts"
    "statement_name tc = Some (cgr_ref_table r)" "fk \<in> set (tc_foreign_keys tc)" "fk_ref_tbl fk = Some tr"
    "sea_orm_table tr = cge_table_name e"
    and key: "\<And>rows :: (string \<Rightarrow> 'v option) list. fk_columns fk \<noteq> [] \<Longrightarrow> table_constraints tc rows \<Longrightarrow>
       at_most_one_per_key (fk_columns fk) rows" by blast
  then show ?thesis using key[of rows] by (intro bexI[of _ tc] bexI[of _ fk]) auto
qed

lemma has_one_is_backed_by_a_key_witness:
  "\<exists>tc\<in>set vote_schema. statement_name tc = Some ''profile''
    \<and> at_most_one_per_key [''id''] [\<lambda>c. Some (1 :: nat), \<lambda>c. Some 2]"
proof -
  let ?rows = "[\<lambda>c. Some 1, \<lambda>c. Some 2] :: (string \<Rightarrow> nat option) list"
  let ?r = "cge_relations (entity_named ''user'') ! 0"
  have r: "?r \<in> set (cge_relations (entity_named ''user''))" "cgr_rel_type ?r = CgHasOne"
    and ref: "cgr_ref_table ?r = ''profile''" by code_simp+
  from has_one_is_backed_by_a_key[OF vote_transform entity_named_in(1) r, of ?rows, simplified ref]
  obtain tc fk where tc: "tc \<in> set vote_schema" "fk \<in> set (tc_foreign_keys tc)"
    "statement_name tc = Some ''profile''"
    "fk_columns fk \<noteq> [] \<longrightarrow> table_constraints tc ?rows \<longrightarrow> at_most_one_per_key (fk_columns fk) ?rows" by auto
  have "list_all (\<lambda>tc. statement_name tc = Some ''profile'' \<longrightarrow> table_constraints tc ?rows
      \<and> list_all (\<lambda>fk. fk_columns fk = [''id'']) (tc_foreign_keys tc)) vote_schema" by code_simp
  with tc show ?thesis by (auto simp: list_all_iff)
qed

section \<open>Output that does not compile\<close>

text \<open>Variants are numbered per table without regard to the names of other tables: a table with two
  foreign keys to \<open>user\<close> and one to \<open>user1\<close> has the variant \<open>User1\<close> twice.\<close>

definition numbered_schema :: "table_create list" where
  "numbered_schema =
    [sample_table ''user'' [''id''] [] [], sample_table ''user1'' [''id''] [] [],
     sample_table ''post'' [''id''] [''a'', ''b'', ''c''] [(''a'', ''user''), (''b'', ''user''), (''c'', ''user1'')]]"

theorem numbered_variants_clash:
  "\<exists>w. transform numbered_schema = Ret (Inr w)
    \<and> map (get_relation_enum_name word_heck) (ew_entities w) = [[''User2'', ''User1'', ''User1''], [], [''Post'']]"
proof -
  have "(case transform numbered_schema of
      Ret (Inr w) \<Rightarrow> map (get_relation_enum_name word_heck) (ew_entities w) = [[''User2'', ''User1'', ''User1''], [], [''Post'']]
    | _ \<Rightarrow> False)" by code_simp
  then show ?thesis by (auto split: run.splits sum.splits)
qed

text \<open>A table with a key of two columns, one foreign key to another table and one to itself, such as a
  tree of versioned pages per owner, is taken for a junction: the other table gets an implementation
  of \<open>Related\<close> that names the variant \<open>Page\<close> of the page's relations, which is called \<open>SelfRef\<close>.\<close>

definition page_schema :: "table_create list" where
  "page_schema =
    [sample_table ''owner'' [''id''] [] [],
     sample_table ''page'' [''id'', ''version''] [''owner_id'', ''parent_id''] [(''owner_id'', ''owner''), (''parent_id'', ''page'')]]"

theorem self_reference_taken_for_junction:
  "\<exists>w owner page. transform page_schema = Ret (Inr w) \<and> ew_entities w = [owner, page]
    \<and> gen_impl_conjunct_related word_heck owner =
        [[ImplRelated ''super::page::Entity'' ''super::page::Relation::Page.def()''
           (Some ''super::page::Relation::Owner.def().rev()'')]]
    \<and> get_relation_enum_name word_heck page = [''Owner'', ''SelfRef'']"
proof -
  have "(case transform page_schema of
      Ret (Inr w) \<Rightarrow> (case ew_entities w of [owner, page] \<Rightarrow>
        gen_impl_conjunct_related word_heck owner =
          [[ImplRelated ''super::page::Entity'' ''super::page::Relation::Page.def()''
             (Some ''super::page::Relation::Owner.def().rev()'')]]
        \<and> get_relation_enum_name word_heck page = [''Owner'', ''SelfRef''] | _ \<Rightarrow> False)
    | _ \<Rightarrow> False)" by code_simp
  then show ?thesis by (auto split: run.splits sum.splits list.splits)
qed

end
