(* ===== verification/GeneratorImports.thy ===== *)
theory GeneratorImports
  imports GeneratorGuarantees
begin

text \<open>
  The imports the entity generator writes: the local names of active enums are fresh, and in the
  frontend format every type of a column that is neither a type of the language nor an enum is
  imported. Two cases where a generated file does not compile, or has the wrong type, are theorems.
\<close>

section \<open>Active enums\<close>

lemma free_candidate_fresh: "free_candidate used u i \<notin> set used"
proof (induction used u i rule: free_candidate.induct)
  case (1 used u i)
  then show ?case by (subst free_candidate.simps) simp
qed

lemma local_enum_ident_fresh: "local_enum_ident used u \<notin> set used"
  by (auto simp: local_enum_ident_def Let_def free_candidate_fresh)

definition bound_names :: "rust_item list \<Rightarrow> string list" where
  "bound_names items = concat (map (\<lambda>i. case i of UseItem u \<Rightarrow> [ru_name u] | TypeAlias n _ \<Rightarrow> [n] | _ \<Rightarrow> []) items)"

lemma bound_names_append [simp]: "bound_names (xs @ ys) = bound_names xs @ bound_names ys"
  by (simp add: bound_names_def)

text \<open>The enum of a column, under its array if it is one.\<close>

definition column_enum :: "cg_column \<Rightarrow> string option" where
  "column_enum col = (case get_inner_col_type col of CtEnum n _ \<Rightarrow> Some n | _ \<Rightarrow> None)"

definition enum_import :: "heck \<Rightarrow> string \<Rightarrow> string \<Rightarrow> rust_item" where
  "enum_import h enum_name local =
    UseItem \<lparr>ru_path = ''super::sea_orm_active_enums::'' @ to_upper_camel_case h enum_name, ru_name = local\<rparr>"

lemma bound_names_enum_import [simp]: "bound_names [enum_import h n local] = [local]"
  by (simp add: bound_names_def enum_import_def)

definition imports_ok :: "heck \<Rightarrow> cg_column list \<Rightarrow> enum_imports \<Rightarrow> bool" where
  "imports_ok h cols s \<longleftrightarrow>
    distinct (bound_names (ei_imports s))
    \<and> set (ei_used s) = set reserved_idents \<union> set (bound_names (ei_imports s))
    \<and> set (bound_names (ei_imports s)) \<inter> set reserved_idents = {}
    \<and> (\<forall>col\<in>set cols. \<forall>n. column_enum col = Some n \<longrightarrow>
         (\<exists>local. map_of (ei_idents s) n = Some local \<and> enum_import h n local \<in> set (ei_imports s)))
    \<and> (\<forall>n local. map_of (ei_idents s) n = Some local \<longrightarrow> enum_import h n local \<in> set (ei_imports s))"

lemma import_enum_step_ok:
  assumes "imports_ok h cols s"
  shows "imports_ok h (cols @ [col]) (import_enum_step h col s)"
proof (cases "column_enum col")
  case None
  then have "import_enum_step h col s = s"
    by (cases "get_inner_col_type col")
      (simp_all add: import_enum_step_def column_enum_def del: get_inner_col_type.simps)
  with assms None show ?thesis by (auto simp: imports_ok_def)
next
  case (Some n)
  then obtain vs where inner: "get_inner_col_type col = CtEnum n vs"
    by (cases "get_inner_col_type col") (simp_all add: column_enum_def del: get_inner_col_type.simps)
  show ?thesis
  proof (cases "map_of (ei_idents s) n")
    case None
    let ?local = "local_enum_ident (ei_used s) (to_upper_camel_case h n)"
    have step: "import_enum_step h col s =
        \<lparr>ei_imports = ei_imports s @ [enum_import h n ?local], ei_idents = bt_insert n ?local (ei_idents s),
         ei_used = ?local # ei_used s\<rparr>"
      using inner None by (simp add: import_enum_step_def enum_import_def Let_def del: get_inner_col_type.simps)
    have "?local \<notin> set (ei_used s)" by (rule local_enum_ident_fresh)
    moreover have "\<exists>local. map_of (bt_insert n ?local (ei_idents s)) m = Some local
        \<and> enum_import h m local \<in> set (ei_imports s @ [enum_import h n ?local])"
      if "c \<in> set (cols @ [col])" "column_enum c = Some m" for c m
    proof (cases "m = n")
      case False
      with that Some have "c \<in> set cols" by auto
      with assms that(2) obtain local where "map_of (ei_idents s) m = Some local"
        "enum_import h m local \<in> set (ei_imports s)" unfolding imports_ok_def by blast
      with False show ?thesis by (intro exI[of _ local]) (simp add: map_of_bt_insert)
    qed (simp add: map_of_bt_insert)
    ultimately show ?thesis
      using assms unfolding step by (auto simp: imports_ok_def map_of_bt_insert)
  next
    case (Some local)
    then have "import_enum_step h col s = s"
      using inner by (simp add: import_enum_step_def del: get_inner_col_type.simps)
    with assms Some \<open>column_enum col = Some n\<close> show ?thesis by (auto simp: imports_ok_def)
  qed
qed

lemma fold_import_enum_step_ok:
  "imports_ok h cols s \<Longrightarrow> imports_ok h (cols @ cols') (fold (import_enum_step h) cols' s)"
proof (induction cols' arbitrary: cols s)
  case (Cons col cols')
  from Cons.IH[OF import_enum_step_ok[OF Cons.prems]] show ?case by simp
qed simp

lemma gen_import_active_enum_ok: "imports_ok h (cge_columns e) (gen_import_active_enum h e)"
  unfolding gen_import_active_enum_def
  by (rule fold_import_enum_step_ok[where cols = "[]", unfolded append_Nil])
    (simp add: imports_ok_def bound_names_def)

section \<open>The frontend format\<close>

fun innermost :: "column_type \<Rightarrow> column_type" where
  "innermost (CtArray t) = innermost t"
| "innermost t = t"

text \<open>The name a type needs from outside.\<close>

definition external_name :: "heck \<Rightarrow> column_option \<Rightarrow> column_type \<Rightarrow> string option" where
  "external_name h opt t =
    (if external_type_of (innermost t) = None then None else Some (write_rs_type h opt (innermost t)))"

definition frontend_names :: "frontend_uses \<Rightarrow> string list" where
  "frontend_names s = map ru_name (fu_date_time s) @ map ru_name (fu_plain s) @ map fst (fu_aliases s)"

fun external_rust_name :: "column_option \<Rightarrow> external_type \<Rightarrow> string" where
  "external_rust_name opt JsonOrJsonBinary = ''Json''"
| "external_rust_name opt ExtDate = (if date_time_crate opt = Chrono then ''Date'' else ''TimeDate'')"
| "external_rust_name opt ExtTime = (if date_time_crate opt = Chrono then ''Time'' else ''TimeTime'')"
| "external_rust_name opt ExtDateTime = (if date_time_crate opt = Chrono then ''DateTime'' else ''TimeDateTime'')"
| "external_rust_name opt ExtTimestamp = (if date_time_crate opt = Chrono then ''DateTimeUtc'' else ''TimeDateTime'')"
| "external_rust_name opt ExtTimestampWithTimeZone =
    (if date_time_crate opt = Chrono then ''DateTimeWithTimeZone'' else ''TimeDateTimeWithTimeZone'')"
| "external_rust_name opt DecimalOrMoney = ''Decimal''"
| "external_rust_name opt ExtUuid = ''Uuid''"
| "external_rust_name opt ExtVector = ''PgVector''"
| "external_rust_name opt CidrOrInet = ''IpNetwork''"

lemma external_type_innermost: "external_type_of t = Some ty \<Longrightarrow> innermost t = t"
  by (cases t) auto

lemma write_external:
  assumes "external_type_of t = Some ty"
  shows "write_rs_type h opt t = external_rust_name opt ty"
  using assms by (cases t; cases "date_time_crate opt") auto

lemma collect_type_innermost: "collect_type opt t s = collect_external opt (innermost t) s"
proof (induction t rule: innermost.induct)
  case (1 t)
  then show ?case by simp
qed simp_all

definition uses_ok :: "column_option \<Rightarrow> frontend_uses \<Rightarrow> bool" where
  "uses_ok opt s \<longleftrightarrow> mset (frontend_names s) = mset (map (external_rust_name opt) (fu_encountered s))
    \<and> distinct (fu_encountered s)"

lemma collect_external_ok:
  assumes "uses_ok opt s"
  shows "uses_ok opt (collect_external opt t s)"
    and "set (fu_encountered (collect_external opt t s)) = set (fu_encountered s) \<union> set_option (external_type_of t)"
proof -
  have add: "uses_ok opt (u s) \<and> fu_encountered (u s) = ty # fu_encountered s"
    if "ty \<notin> set (fu_encountered s)"
      "mset (frontend_names (u s)) = add_mset (external_rust_name opt ty) (mset (frontend_names s))"
      "fu_encountered (u s) = ty # fu_encountered s" for u ty
    using assms that by (simp add: uses_ok_def)
  show "uses_ok opt (collect_external opt t s)"
    and "set (fu_encountered (collect_external opt t s)) = set (fu_encountered s) \<union> set_option (external_type_of t)"
  proof (atomize (full), cases "external_type_of t")
    case None
    then show "uses_ok opt (collect_external opt t s) \<and> set (fu_encountered (collect_external opt t s)) =
        set (fu_encountered s) \<union> set_option (external_type_of t)"
      using assms by (simp add: collect_external_def)
  next
    case (Some ty)
    show "uses_ok opt (collect_external opt t s) \<and> set (fu_encountered (collect_external opt t s)) =
        set (fu_encountered s) \<union> set_option (external_type_of t)"
    proof (cases "ty \<in> set (fu_encountered s)")
      case True
      with Some assms show ?thesis by (auto simp: collect_external_def)
    next
      case False
      have "mset (frontend_names (collect_external opt t s)) =
          add_mset (external_rust_name opt ty) (mset (frontend_names s))
          \<and> fu_encountered (collect_external opt t s) = ty # fu_encountered s"
        using Some False by (cases ty)
          (simp_all add: collect_external_def Let_def use_plain_def use_date_time_def use_alias_def frontend_names_def)
      with add[OF False, of "collect_external opt t"] Some show ?thesis by auto
    qed
  qed
qed

lemma collect_types_ok:
  "uses_ok opt s \<Longrightarrow> uses_ok opt (fold (\<lambda>col. collect_type opt (cgc_type col)) cols s)
    \<and> set (fu_encountered (fold (\<lambda>col. collect_type opt (cgc_type col)) cols s)) =
      set (fu_encountered s) \<union> (\<Union>col\<in>set cols. set_option (external_type_of (innermost (cgc_type col))))"
proof (induction cols arbitrary: s)
  case (Cons col cols)
  note step = collect_external_ok[OF Cons.prems, of "innermost (cgc_type col)"]
  from Cons.IH[OF step(1)] step(2) show ?case by (simp add: collect_type_innermost Un_assoc)
qed simp

lemma bound_names_uses:
  "bound_names (map (\<lambda>u. UseItem (u\<lparr>ru_path := f (ru_path u)\<rparr>)) us) = map ru_name us"
  "bound_names (map UseItem us) = map ru_name us"
  "bound_names (map (\<lambda>(n, ty). TypeAlias n ty) as) = map fst as"
  by (induction us, simp_all add: bound_names_def) (induction as, auto)

lemma frontend_bound_names:
  "bound_names (gen_import_frontend e opt) = frontend_names
    (fold (\<lambda>col. collect_type opt (cgc_type col)) (cge_columns e)
      \<lparr>fu_date_time = [], fu_aliases = [], fu_plain = [], fu_encountered = []\<rparr>)"
  by (simp add: gen_import_frontend_def Let_def bound_names_uses frontend_names_def)

lemma chrono_names_distinct:
  assumes "date_time_crate opt = Chrono"
  shows "inj (external_rust_name opt)"
proof (rule injI)
  fix x y assume "external_rust_name opt x = external_rust_name opt y"
  with assms show "x = y" by (cases x; cases y) simp_all
qed

section \<open>Properties\<close>

text \<open>C35. The local names of active enums: the imports of a generated entity bind different names, none
  of them the name of an item of the entity, and the type written for an enum column is the name
  under which that very enum is imported, in an \<open>Option\<close> if the column is nullable.\<close>

theorem enum_columns_resolve:
  "distinct (bound_names (ei_imports (gen_import_active_enum h e)))
    \<and> set (bound_names (ei_imports (gen_import_active_enum h e))) \<inter> set reserved_idents = {}
    \<and> (\<forall>i < length (cge_columns e). \<forall>n vs. cgc_type (cge_columns e ! i) = CtEnum n vs \<longrightarrow>
         (\<exists>local. enum_import h n local \<in> set (ei_imports (gen_import_active_enum h e))
            \<and> get_column_rs_types_with_enum_idents h e opt (ei_idents (gen_import_active_enum h e)) ! i
                = optional_type (cgc_not_null (cge_columns e ! i)) local))"
proof (intro conjI allI impI)
  note ok = gen_import_active_enum_ok[of h e, unfolded imports_ok_def]
  show "distinct (bound_names (ei_imports (gen_import_active_enum h e)))"
    "set (bound_names (ei_imports (gen_import_active_enum h e))) \<inter> set reserved_idents = {}"
    using ok by blast+
  fix i n vs assume i: "i < length (cge_columns e)" "cgc_type (cge_columns e ! i) = CtEnum n vs"
  then have "column_enum (cge_columns e ! i) = Some n" by (simp add: column_enum_def)
  with ok i(1) obtain local where local: "map_of (ei_idents (gen_import_active_enum h e)) n = Some local"
    "enum_import h n local \<in> set (ei_imports (gen_import_active_enum h e))"
    by (meson nth_mem)
  with i show "\<exists>local. enum_import h n local \<in> set (ei_imports (gen_import_active_enum h e))
      \<and> get_column_rs_types_with_enum_idents h e opt (ei_idents (gen_import_active_enum h e)) ! i
          = optional_type (cgc_not_null (cge_columns e ! i)) local"
    by (intro exI[of _ local]) (simp add: get_column_rs_types_with_enum_idents_def)
qed

definition plain_column :: "string \<Rightarrow> column_type \<Rightarrow> cg_column" where
  "plain_column n t = \<lparr>cgc_name = n, cgc_type = t, cgc_auto_increment = False, cgc_not_null = True,
     cgc_unique = False, cgc_unique_key = None\<rparr>"

definition columns_entity :: "cg_column list \<Rightarrow> cg_entity" where
  "columns_entity cols = \<lparr>cge_table_name = ''t'', cge_columns = cols, cge_relations = [],
     cge_conjunct_relations = [], cge_primary_keys = []\<rparr>"

definition default_option :: column_option where
  "default_option = \<lparr>date_time_crate = Chrono, big_integer_type = I64\<rparr>"

lemma enum_columns_resolve_witness:
  "\<exists>local. enum_import word_heck ''column'' local
      \<in> set (ei_imports (gen_import_active_enum word_heck (columns_entity [plain_column ''kind'' (CtEnum ''column'' [])])))
    \<and> [local] = get_column_rs_types_with_enum_idents word_heck
        (columns_entity [plain_column ''kind'' (CtEnum ''column'' [])]) default_option
        (ei_idents (gen_import_active_enum word_heck (columns_entity [plain_column ''kind'' (CtEnum ''column'' [])])))"
proof -
  let ?e = "columns_entity [plain_column ''kind'' (CtEnum ''column'' [])]"
  have "0 < length (cge_columns ?e)" "cgc_type (cge_columns ?e ! 0) = CtEnum ''column'' []"
    by (simp_all add: columns_entity_def plain_column_def)
  from enum_columns_resolve[of word_heck ?e default_option, THEN conjunct2, THEN conjunct2, rule_format, OF this]
  obtain local where local: "enum_import word_heck ''column'' local \<in> set (ei_imports (gen_import_active_enum word_heck ?e))"
    "get_column_rs_types_with_enum_idents word_heck ?e default_option
      (ei_idents (gen_import_active_enum word_heck ?e)) ! 0 = optional_type (cgc_not_null (cge_columns ?e ! 0)) local"
    by blast
  moreover have "length (get_column_rs_types_with_enum_idents word_heck ?e default_option
      (ei_idents (gen_import_active_enum word_heck ?e))) = 1"
    by (simp add: get_column_rs_types_with_enum_idents_def columns_entity_def)
  ultimately have "get_column_rs_types_with_enum_idents word_heck ?e default_option
      (ei_idents (gen_import_active_enum word_heck ?e)) = [local]"
    by (simp add: list_eq_iff_nth_eq columns_entity_def plain_column_def optional_type_def)
  with local(1) show ?thesis by auto
qed

text \<open>The frontend format imports what it uses: every column whose type, under its arrays, is
  neither a type of the language nor an enum has that type's name bound by the imports, and with the
  crate \<open>chrono\<close> no name is bound twice.\<close>

theorem frontend_types_imported:
  "(\<forall>col\<in>set (cge_columns e). set_option (external_name h opt (cgc_type col))
       \<subseteq> set (bound_names (gen_import_frontend e opt)))
    \<and> (date_time_crate opt = Chrono \<longrightarrow> distinct (bound_names (gen_import_frontend e opt)))"
proof -
  let ?init = "\<lparr>fu_date_time = [], fu_aliases = [], fu_plain = [], fu_encountered = []\<rparr>"
  let ?s = "fold (\<lambda>col. collect_type opt (cgc_type col)) (cge_columns e) ?init"
  have "uses_ok opt ?init" by (simp add: uses_ok_def frontend_names_def)
  note collected = collect_types_ok[OF this, of "cge_columns e"]
  then have ok: "uses_ok opt ?s" by (rule conjunct1)
  from ok have names: "mset (frontend_names ?s) = mset (map (external_rust_name opt) (fu_encountered ?s))"
    unfolding uses_ok_def by (rule conjunct1)
  from ok have distinct: "distinct (fu_encountered ?s)" unfolding uses_ok_def by (rule conjunct2)
  have "n \<in> set (frontend_names ?s)" if "col \<in> set (cge_columns e)" "external_name h opt (cgc_type col) = Some n" for col n
  proof -
    from that(2) obtain ty where ty: "external_type_of (innermost (cgc_type col)) = Some ty"
      and n: "n = write_rs_type h opt (innermost (cgc_type col))"
      by (auto simp: external_name_def split: if_splits)
    have "ty \<in> set (fu_encountered ?s)" using collected that(1) ty by force
    then have "external_rust_name opt ty \<in> set (frontend_names ?s)"
      using mset_eq_setD[OF names] by simp
    then show ?thesis by (simp add: n write_external[OF ty])
  qed
  moreover have "distinct (frontend_names ?s)" if "date_time_crate opt = Chrono"
    using mset_eq_imp_distinct_iff[OF names] distinct chrono_names_distinct[OF that]
    by (simp add: distinct_map inj_on_def inj_def)
  ultimately show ?thesis unfolding frontend_bound_names by auto
qed

lemma frontend_types_imported_witness:
  "{''Uuid'', ''DateTimeUtc''} \<subseteq> set (bound_names (gen_import_frontend
    (columns_entity [plain_column ''a'' CtUuid, plain_column ''b'' (CtArray CtTimestamp)]) default_option))"
  using frontend_types_imported[of "columns_entity [plain_column ''a'' CtUuid, plain_column ''b'' (CtArray CtTimestamp)]"
      word_heck default_option]
  by (simp add: columns_entity_def plain_column_def external_name_def default_option_def)

section \<open>Output that does not compile\<close>

text \<open>An array of an enum is written with the enum's own name, not with the name it is imported under:
  for an enum called \<open>column\<close> the field has the type \<open>Vec<Column>\<close>, where \<open>Column\<close> is the enum of the
  entity's columns.\<close>

theorem array_of_renamed_enum:
  "get_column_rs_types_with_enum_idents word_heck (columns_entity [plain_column ''kinds'' (CtArray (CtEnum ''column'' []))])
      default_option (ei_idents (gen_import_active_enum word_heck
        (columns_entity [plain_column ''kinds'' (CtArray (CtEnum ''column'' []))]))) = [''Vec<Column>'']
    \<and> bound_names (ei_imports (gen_import_active_enum word_heck
        (columns_entity [plain_column ''kinds'' (CtArray (CtEnum ''column'' []))]))) = [''ColumnEnum'']"
  by code_simp

text \<open>With the crate \<open>time\<close>, a table with a \<open>DATETIME\<close> and a \<open>TIMESTAMP\<close> column imports \<open>TimeDateTime\<close> twice.\<close>

theorem time_crate_imports_twice:
  "bound_names (gen_import_frontend (columns_entity [plain_column ''a'' CtDateTime, plain_column ''b'' CtTimestamp])
    (default_option\<lparr>date_time_crate := TimeCrate\<rparr>)) = [''TimeDateTime'', ''TimeDateTime'']"
  by code_simp

text \<open>An enum value that starts with a hyphen before a digit gives a variant that starts with the digit,
  for which \<open>format_ident!\<close> panics.\<close>

theorem enum_variant_starts_with_digit: "enum_variant_name h ''-1%'' = ''1U0025''"
  by code_simp

end
