(* ===== verification/Select.thy ===== *)
theory Select
  imports Cursor Loader Consolidate
begin

text \<open>
  The select builders: \<open>src/query/select.rs\<close>, \<open>helper.rs\<close>, \<open>combine.rs\<close> and \<open>join.rs\<close>, the
  chains of \<open>src/entity/link.rs\<close>, the finders of \<open>base_entity.rs\<close>, \<open>relation.rs\<close> and \<open>model.rs\<close>.
  A statement is the record of the clauses the calls on sea-query's builder collect: conditions given
  to \<open>cond_where\<close> are joined by AND, joins are kept in call order. An entity carries the methods
  the derives implement for it.
\<close>

section \<open>Expressions\<close>

text \<open>A value: null, an enum value, or any other.\<close>

datatype 'v sea_value = NullValue | PlainValue 'v | EnumValue 'v

datatype column_ref = ColumnRef "string option" string | Asterisk "string option"

fun col_ref_column :: "column_ref \<Rightarrow> string option" where
  "col_ref_column (ColumnRef t c) = Some c"
| "col_ref_column (Asterisk t) = None"

datatype ('v, 'u) expr =
    ExprColumn column_ref
  | ExprAsEnum string "('v, 'u) expr"
  | ExprCast "('v, 'u) expr" string
  | ExprValue "'v sea_value"
  | ExprCust string
  | ExprOther 'u

text \<open>Conditions of the library on a column, and those of the caller.\<close>

datatype ('v, 'u) test =
    TestEq "string \<times> string" "('v, 'u) expr"
  | TestNull "string \<times> string"
  | TestUser 'u

record ('v, 'u) select_expr =
  se_expr :: "('v, 'u) expr"
  se_alias :: "string option"

datatype null_ordering = NullsFirst | NullsLast

datatype distinct_clause = DistinctRows | DistinctOn "column_ref list"

datatype lock_type = LockUpdate | LockNoKeyUpdate | LockShare | LockKeyShare

datatype lock_behavior = LockNowait | LockSkipLocked

datatype join_type = JoinPlain | CrossJoin | InnerJoin | LeftJoin | RightJoin | FullOuterJoin | StraightJoin

record ('v, 'u) join_expr =
  je_type :: join_type
  je_table :: table_ref
  je_on :: "('v, 'u) test cond"

record ('v, 'u) select_query =
  sq_distinct :: "distinct_clause option"
  sq_selects :: "('v, 'u) select_expr list"
  sq_from :: "table_ref list"
  sq_joins :: "('v, 'u) join_expr list"
  sq_where :: "('v, 'u) test cond list"
  sq_groups :: "('v, 'u) expr list"
  sq_having :: "('v, 'u) test cond list"
  sq_orders :: "(('v, 'u) expr \<times> sort_order \<times> null_ordering option) list"
  sq_limit :: "64 word option"
  sq_offset :: "64 word option"
  sq_lock :: "(lock_type \<times> lock_behavior option) option"

definition empty_select :: "('v, 'u) select_query" where
  "empty_select = \<lparr>sq_distinct = None, sq_selects = [], sq_from = [], sq_joins = [], sq_where = [],
     sq_groups = [], sq_having = [], sq_orders = [], sq_limit = None, sq_offset = None, sq_lock = None\<rparr>"

section \<open>Entities and columns\<close>

datatype column_kind = EnumKind string | ArrayKind column_kind | OtherKind

record select_column =
  sc_name :: string
  sc_kind :: column_kind
  sc_optional :: bool
  sc_select_cast :: "string option"
  sc_save_cast :: "string option"

text \<open>A row of a result: its columns in order with their values. The errors of decoding one.\<close>

type_synonym 'v result_row = "(string \<times> 'v option) list"

datatype try_get_error = TryGetDbErr db_err | TryGetNull string

record ('m, 'v) select_entity =
  en_schema :: "string option"
  en_table :: string
  en_columns :: "select_column list"
  en_primary_key :: "select_column list"
  en_pk_arity :: nat
  en_get :: "'m \<Rightarrow> string \<Rightarrow> 'v sea_value"
  en_from_row :: "'v result_row \<Rightarrow> string \<Rightarrow> ('m, try_get_error) result"

definition en_table_ref :: "('m, 'v) select_entity \<Rightarrow> table_ref" where
  "en_table_ref e =
    (case en_schema e of
       Some schema \<Rightarrow> TableRef (TableName (Some schema) (en_table e)) None
     | None \<Rightarrow> TableRef (TableName None (en_table e)) None)"

text \<open>\<open>as_column_ref\<close> and the expression of a column.\<close>

definition as_column_ref :: "('m, 'v) select_entity \<Rightarrow> select_column \<Rightarrow> string \<times> string" where
  "as_column_ref e col = (en_table e, sc_name col)"

definition expr_col :: "string \<times> string \<Rightarrow> ('v, 'u) expr" where
  "expr_col c = ExprColumn (ColumnRef (Some (fst c)) (snd c))"

fun enum_name :: "column_kind \<Rightarrow> string option" where
  "enum_name (EnumKind name) = Some name"
| "enum_name (ArrayKind col_type) = enum_name col_type"
| "enum_name OtherKind = None"

definition select_enum_as :: "('v, 'u) expr \<Rightarrow> string \<Rightarrow> column_kind \<Rightarrow> ('v, 'u) expr" where
  "select_enum_as col _ col_type =
    (let type_name = (case col_type of ArrayKind _ \<Rightarrow> ''text[]'' | _ \<Rightarrow> ''text'')
     in ExprAsEnum type_name col)"

definition save_enum_as :: "('v, 'u) expr \<Rightarrow> string \<Rightarrow> column_kind \<Rightarrow> ('v, 'u) expr" where
  "save_enum_as col name col_type =
    (case col of
       ExprValue (EnumValue v) \<Rightarrow> col
     | _ \<Rightarrow>
       (let type_name = (case col_type of ArrayKind _ \<Rightarrow> name @ ''[]'' | _ \<Rightarrow> name)
        in ExprAsEnum type_name col))"

definition cast_enum_as ::
  "('v, 'u) expr \<Rightarrow> select_column \<Rightarrow> (('v, 'u) expr \<Rightarrow> string \<Rightarrow> column_kind \<Rightarrow> ('v, 'u) expr) \<Rightarrow> ('v, 'u) expr" where
  "cast_enum_as expr col f =
    (case enum_name (sc_kind col) of
       Some name \<Rightarrow> f expr name (sc_kind col)
     | None \<Rightarrow> expr)"

text \<open>The default methods, or the casts of the \<open>select_as\<close> and \<open>save_as\<close> attributes.\<close>

definition select_as :: "select_column \<Rightarrow> ('v, 'u) expr \<Rightarrow> ('v, 'u) expr" where
  "select_as col expr =
    (case sc_select_cast col of
       Some ty \<Rightarrow> ExprCast expr ty
     | None \<Rightarrow> cast_enum_as expr col select_enum_as)"

definition save_as :: "select_column \<Rightarrow> ('v, 'u) expr \<Rightarrow> ('v, 'u) expr" where
  "save_as col val =
    (case sc_save_cast col of
       Some ty \<Rightarrow> ExprCast val ty
     | None \<Rightarrow> cast_enum_as val col save_enum_as)"

definition column_eq :: "('m, 'v) select_entity \<Rightarrow> select_column \<Rightarrow> 'v sea_value \<Rightarrow> ('v, 'u) test" where
  "column_eq e col v =
    (if v = NullValue then TestNull (as_column_ref e col)
     else TestEq (as_column_ref e col) (save_as col (ExprValue v)))"

definition into_select_expr :: "('m, 'v) select_entity \<Rightarrow> select_column \<Rightarrow> ('v, 'u) select_expr" where
  "into_select_expr e col =
    (let column = expr_col (as_column_ref e col);
         expr = select_as col column;
         alias = (case expr of
             ExprColumn c \<Rightarrow> if expr = column then None else Some (sc_name col)
           | ExprAsEnum t inner \<Rightarrow> if inner = column then None else Some (sc_name col)
           | _ \<Rightarrow> Some (sc_name col))
     in \<lparr>se_expr = expr, se_alias = alias\<rparr>)"

definition into_column_as_expr :: "('m, 'v) select_entity \<Rightarrow> select_column \<Rightarrow> ('v, 'u) expr" where
  "into_column_as_expr e col = select_as col (expr_col (as_column_ref e col))"

section \<open>The clauses of a query\<close>

text \<open>\<open>QuerySelect\<close>: each method changes the statement under the builder.\<close>

definition select_only :: "('v, 'u) select_query \<Rightarrow> ('v, 'u) select_query" where
  "select_only q = q\<lparr>sq_selects := []\<rparr>"

definition query_expr :: "('v, 'u) select_expr \<Rightarrow> ('v, 'u) select_query \<Rightarrow> ('v, 'u) select_query" where
  "query_expr e q = q\<lparr>sq_selects := sq_selects q @ [e]\<rparr>"

definition query_exprs :: "('v, 'u) select_expr list \<Rightarrow> ('v, 'u) select_query \<Rightarrow> ('v, 'u) select_query" where
  "query_exprs es q = q\<lparr>sq_selects := sq_selects q @ es\<rparr>"

definition query_column :: "('m, 'v) select_entity \<Rightarrow> select_column \<Rightarrow> ('v, 'u) select_query \<Rightarrow> ('v, 'u) select_query" where
  "query_column e col q = query_expr (into_select_expr e col) q"

definition query_columns ::
  "(('m, 'v) select_entity \<times> select_column) list \<Rightarrow> ('v, 'u) select_query \<Rightarrow> ('v, 'u) select_query" where
  "query_columns cols q = fold (\<lambda>(e, col). query_column e col) cols q"

definition column_as :: "('v, 'u) expr \<Rightarrow> identity \<Rightarrow> ('v, 'u) select_query \<Rightarrow> ('v, 'u) select_query" where
  "column_as col alias q = query_expr \<lparr>se_expr = col, se_alias = Some (identity_quoted alias)\<rparr> q"

definition expr_as :: "('v, 'u) expr \<Rightarrow> identity \<Rightarrow> ('v, 'u) select_query \<Rightarrow> ('v, 'u) select_query" where
  "expr_as expr alias q = query_expr \<lparr>se_expr = expr, se_alias = Some (identity_quoted alias)\<rparr> q"

definition tbl_col_as :: "string \<times> string \<Rightarrow> identity \<Rightarrow> ('v, 'u) select_query \<Rightarrow> ('v, 'u) select_query" where
  "tbl_col_as c alias q = query_expr \<lparr>se_expr = expr_col c, se_alias = Some (identity_quoted alias)\<rparr> q"

definition query_offset :: "64 word option \<Rightarrow> ('v, 'u) select_query \<Rightarrow> ('v, 'u) select_query" where
  "query_offset n q = (case n of Some k \<Rightarrow> q\<lparr>sq_offset := Some k\<rparr> | None \<Rightarrow> q\<lparr>sq_offset := None\<rparr>)"

definition query_limit :: "64 word option \<Rightarrow> ('v, 'u) select_query \<Rightarrow> ('v, 'u) select_query" where
  "query_limit n q = (case n of Some k \<Rightarrow> q\<lparr>sq_limit := Some k\<rparr> | None \<Rightarrow> q\<lparr>sq_limit := None\<rparr>)"

definition group_by :: "('v, 'u) expr \<Rightarrow> ('v, 'u) select_query \<Rightarrow> ('v, 'u) select_query" where
  "group_by col q = q\<lparr>sq_groups := sq_groups q @ [col]\<rparr>"

definition having :: "('v, 'u) test cond \<Rightarrow> ('v, 'u) select_query \<Rightarrow> ('v, 'u) select_query" where
  "having cond q = q\<lparr>sq_having := sq_having q @ [cond]\<rparr>"

definition query_distinct :: "('v, 'u) select_query \<Rightarrow> ('v, 'u) select_query" where
  "query_distinct q = q\<lparr>sq_distinct := Some DistinctRows\<rparr>"

definition distinct_on :: "column_ref list \<Rightarrow> ('v, 'u) select_query \<Rightarrow> ('v, 'u) select_query" where
  "distinct_on cols q = q\<lparr>sq_distinct := Some (DistinctOn cols)\<rparr>"

definition lock :: "lock_type \<Rightarrow> ('v, 'u) select_query \<Rightarrow> ('v, 'u) select_query" where
  "lock t q = q\<lparr>sq_lock := Some (t, None)\<rparr>"

definition lock_shared :: "('v, 'u) select_query \<Rightarrow> ('v, 'u) select_query" where
  "lock_shared q = q\<lparr>sq_lock := Some (LockShare, None)\<rparr>"

definition lock_exclusive :: "('v, 'u) select_query \<Rightarrow> ('v, 'u) select_query" where
  "lock_exclusive q = q\<lparr>sq_lock := Some (LockUpdate, None)\<rparr>"

definition lock_with_behavior :: "lock_type \<Rightarrow> lock_behavior \<Rightarrow> ('v, 'u) select_query \<Rightarrow> ('v, 'u) select_query" where
  "lock_with_behavior t b q = q\<lparr>sq_lock := Some (t, Some b)\<rparr>"

text \<open>A call of the statement's \<open>join\<close>, then the joins of a relation.\<close>

definition push_join ::
  "join_type \<Rightarrow> table_ref \<Rightarrow> ('v, 'u) test cond \<Rightarrow> ('v, 'u) select_query \<Rightarrow> ('v, 'u) select_query" where
  "push_join t tbl on q = q\<lparr>sq_joins := sq_joins q @ [\<lparr>je_type = t, je_table = tbl, je_on = on\<rparr>]\<rparr>"

definition query_join ::
  "join_type \<Rightarrow> ('v, 'u) test relation_def \<Rightarrow> ('v, 'u) select_query \<Rightarrow> ('v, 'u) select_query" where
  "query_join jt rel q = push_join jt (to_tbl rel) (relation_condition rel) q"

definition join_rev ::
  "join_type \<Rightarrow> ('v, 'u) test relation_def \<Rightarrow> ('v, 'u) select_query \<Rightarrow> ('v, 'u) select_query" where
  "join_rev jt rel q = push_join jt (from_tbl rel) (relation_condition rel) q"

definition join_as ::
  "join_type \<Rightarrow> ('v, 'u) test relation_def \<Rightarrow> string \<Rightarrow> ('v, 'u) select_query \<Rightarrow> ('v, 'u) select_query" where
  "join_as jt rel alias q =
    (let rel = rel\<lparr>to_tbl := table_ref_alias (to_tbl rel) alias\<rparr>
     in push_join jt (to_tbl rel) (relation_condition rel) q)"

definition join_as_rev ::
  "join_type \<Rightarrow> ('v, 'u) test relation_def \<Rightarrow> string \<Rightarrow> ('v, 'u) select_query \<Rightarrow> ('v, 'u) select_query" where
  "join_as_rev jt rel alias q =
    (let rel = rel\<lparr>from_tbl := table_ref_alias (from_tbl rel) alias\<rparr>
     in push_join jt (from_tbl rel) (relation_condition rel) q)"

definition join_join ::
  "join_type \<Rightarrow> ('v, 'u) test relation_def \<Rightarrow> ('v, 'u) test relation_def option \<Rightarrow>
    ('v, 'u) select_query \<Rightarrow> ('v, 'u) select_query" where
  "join_join jt rel via q =
    query_join jt rel (case via of Some via \<Rightarrow> query_join jt via q | None \<Rightarrow> q)"

definition join_join_rev ::
  "join_type \<Rightarrow> ('v, 'u) test relation_def \<Rightarrow> ('v, 'u) test relation_def option \<Rightarrow>
    ('v, 'u) select_query \<Rightarrow> ('v, 'u) select_query" where
  "join_join_rev jt rel via q =
    (let q = join_rev jt rel q
     in case via of Some via \<Rightarrow> join_rev jt via q | None \<Rightarrow> q)"

text \<open>\<open>QueryOrder\<close> and \<open>QueryFilter\<close>.\<close>

definition query_order_by :: "('v, 'u) expr \<Rightarrow> sort_order \<Rightarrow> ('v, 'u) select_query \<Rightarrow> ('v, 'u) select_query" where
  "query_order_by col ord q = q\<lparr>sq_orders := sq_orders q @ [(col, ord, None)]\<rparr>"

definition order_by_asc :: "('v, 'u) expr \<Rightarrow> ('v, 'u) select_query \<Rightarrow> ('v, 'u) select_query" where
  "order_by_asc col q = q\<lparr>sq_orders := sq_orders q @ [(col, Asc, None)]\<rparr>"

definition order_by_desc :: "('v, 'u) expr \<Rightarrow> ('v, 'u) select_query \<Rightarrow> ('v, 'u) select_query" where
  "order_by_desc col q = q\<lparr>sq_orders := sq_orders q @ [(col, Desc, None)]\<rparr>"

definition order_by_with_nulls ::
  "('v, 'u) expr \<Rightarrow> sort_order \<Rightarrow> null_ordering \<Rightarrow> ('v, 'u) select_query \<Rightarrow> ('v, 'u) select_query" where
  "order_by_with_nulls col ord nulls q = q\<lparr>sq_orders := sq_orders q @ [(col, ord, Some nulls)]\<rparr>"

definition query_filter :: "('v, 'u) test cond \<Rightarrow> ('v, 'u) select_query \<Rightarrow> ('v, 'u) select_query" where
  "query_filter cond q = q\<lparr>sq_where := sq_where q @ [cond]\<rparr>"

definition belongs_to_model ::
  "('m, 'v) select_entity \<Rightarrow> 'm \<Rightarrow> ('v, 'u) select_query \<Rightarrow> ('v, 'u) select_query" where
  "belongs_to_model e model q =
    fold (\<lambda>col. query_filter (UserCond (column_eq e col (en_get e model (sc_name col))))) (en_primary_key e) q"

definition belongs_to_active_model ::
  "('m, 'v) select_entity \<Rightarrow> (string \<Rightarrow> 'v sea_value run) \<Rightarrow> ('v, 'u) select_query \<Rightarrow> ('v, 'u) select_query run" where
  "belongs_to_active_model e get_unwrap q =
    fold (\<lambda>col r. run_bind r (\<lambda>q. run_bind (get_unwrap (sc_name col)) (\<lambda>v.
        Ret (query_filter (UserCond (column_eq e col v)) q))))
      (en_primary_key e) (Ret q)"

definition belongs_to_tbl_alias ::
  "('m, 'v) select_entity \<Rightarrow> 'm \<Rightarrow> string \<Rightarrow> ('v, 'u) select_query \<Rightarrow> ('v, 'u) select_query" where
  "belongs_to_tbl_alias e model tbl_alias q =
    fold (\<lambda>col. query_filter (UserCond (TestEq (tbl_alias, sc_name col) (ExprValue (en_get e model (sc_name col))))))
      (en_primary_key e) q"

end
