(* ===== verification/SelectJoins.thy ===== *)
theory SelectJoins
  imports Select
begin

text \<open>
  The typed selects: \<open>Select\<close> with its counter of link aliases, the aliasing of \<open>combine.rs\<close>, the joins of
  \<open>join.rs\<close>, the chains of \<open>link.rs\<close>, the finders of entities and models, and the execution of
  \<open>executor/select.rs\<close> with its variants for three to six entities. A select of several entities is its
  statement; which entities it is about is an argument.
\<close>

section \<open>A select of one entity\<close>

record ('v, 'u) select =
  sel_query :: "('v, 'u) select_query"
  sel_linked_index :: nat

definition on_query ::
  "(('v, 'u) select_query \<Rightarrow> ('v, 'u) select_query) \<Rightarrow> ('v, 'u) select \<Rightarrow> ('v, 'u) select" where
  "on_query f s = s\<lparr>sel_query := f (sel_query s)\<rparr>"

definition column_list :: "('m, 'v) select_entity \<Rightarrow> ('v, 'u) select_expr list" where
  "column_list e = map (into_select_expr e) (en_columns e)"

definition prepare_select :: "('m, 'v) select_entity \<Rightarrow> ('v, 'u) select \<Rightarrow> ('v, 'u) select" where
  "prepare_select e s = on_query (query_exprs (column_list e)) s"

definition prepare_from :: "('m, 'v) select_entity \<Rightarrow> ('v, 'u) select \<Rightarrow> ('v, 'u) select" where
  "prepare_from e s = on_query (\<lambda>q. q\<lparr>sq_from := sq_from q @ [en_table_ref e]\<rparr>) s"

definition select_new :: "('m, 'v) select_entity \<Rightarrow> ('v, 'u) select" where
  "select_new e = prepare_from e (prepare_select e \<lparr>sel_query = empty_select, sel_linked_index = 0\<rparr>)"

definition entity_find :: "('m, 'v) select_entity \<Rightarrow> ('v, 'u) select" where
  "entity_find e = select_new e"

definition order_by_id :: "('m, 'v) select_entity \<Rightarrow> sort_order \<Rightarrow> ('v, 'u) select \<Rightarrow> ('v, 'u) select" where
  "order_by_id e ord s =
    fold (\<lambda>col. on_query (query_order_by (expr_col (as_column_ref e col)) ord)) (en_primary_key e) s"

definition order_by_id_asc :: "('m, 'v) select_entity \<Rightarrow> ('v, 'u) select \<Rightarrow> ('v, 'u) select" where
  "order_by_id_asc e s = order_by_id e Asc s"

definition order_by_id_desc :: "('m, 'v) select_entity \<Rightarrow> ('v, 'u) select \<Rightarrow> ('v, 'u) select" where
  "order_by_id_desc e s = order_by_id e Desc s"

text \<open>\<open>find_by_id\<close>: the values of the key against the primary key columns, one by one.\<close>

fun filter_keys ::
  "('m, 'v) select_entity \<Rightarrow> 'v sea_value list \<Rightarrow> select_column list \<Rightarrow> ('v, 'u) select \<Rightarrow> ('v, 'u) select run" where
  "filter_keys e [] keys s = Ret s"
| "filter_keys e (v # vs) [] s =
     Panic ''internal error: entered unreachable code: primary key arity mismatch''"
| "filter_keys e (v # vs) (col # keys) s =
     filter_keys e vs keys (on_query (query_filter (UserCond (column_eq e col v))) s)"

definition find_by_id :: "('m, 'v) select_entity \<Rightarrow> 'v sea_value value_tuple \<Rightarrow> ('v, 'u) select run" where
  "find_by_id e v = filter_keys e (vt_values v) (en_primary_key e) (entity_find e)"

fun next_key :: "'c list \<Rightarrow> ('c \<times> 'c list) run" where
  "next_key [] = Panic ''Already checked arity''"
| "next_key (c # cs) = Ret (c, cs)"

fun next_keys :: "nat \<Rightarrow> 'c list \<Rightarrow> 'c list run" where
  "next_keys 0 cs = Ret []"
| "next_keys (Suc n) cs =
     run_bind (next_key cs) (\<lambda>(c, cs). run_bind (next_keys n cs) (\<lambda>rest. Ret (c # rest)))"

definition primary_key_identity :: "('m, 'v) select_entity \<Rightarrow> identity run" where
  "primary_key_identity e =
    run_bind (next_keys (en_pk_arity e) (map sc_name (en_primary_key e))) (\<lambda>cols. Ret
      (if en_pk_arity e = 1 then Unary (cols ! 0)
       else if en_pk_arity e = 2 then Binary (cols ! 0) (cols ! 1)
       else if en_pk_arity e = 3 then Ternary (cols ! 0) (cols ! 1) (cols ! 2)
       else Many cols))"

definition model_primary_key_value :: "('m, 'v) select_entity \<Rightarrow> 'm \<Rightarrow> 'v sea_value value_tuple run" where
  "model_primary_key_value e model =
    run_bind (next_keys (en_pk_arity e) (map (\<lambda>col. en_get e model (sc_name col)) (en_primary_key e))) (\<lambda>vs. Ret
      (if en_pk_arity e = 1 then VOne (vs ! 0)
       else if en_pk_arity e = 2 then VTwo (vs ! 0) (vs ! 1)
       else if en_pk_arity e = 3 then VThree (vs ! 0) (vs ! 1) (vs ! 2)
       else VMany vs))"

section \<open>Selects of two entities (combine.rs)\<close>

definition alias_of_expr :: "('v, 'u) expr \<Rightarrow> string run" where
  "alias_of_expr e =
    (case e of
       ExprColumn col_ref \<Rightarrow>
         (case col_ref_column col_ref of
            Some col \<Rightarrow> Ret col
          | None \<Rightarrow> Panic ''cannot apply alias for Column with asterisk'')
     | ExprAsEnum _ simple_expr \<Rightarrow>
         (case simple_expr of
            ExprColumn col_ref \<Rightarrow>
              (case col_ref_column col_ref of
                 Some col \<Rightarrow> Ret col
               | None \<Rightarrow> Panic ''cannot apply alias for AsEnum with asterisk'')
          | _ \<Rightarrow> Panic ''cannot apply alias for AsEnum with expr other than Column'')
     | _ \<Rightarrow> Panic ''cannot apply alias for expr other than Column or AsEnum'')"

definition alias_select :: "string \<Rightarrow> ('v, 'u) select_expr \<Rightarrow> ('v, 'u) select_expr run" where
  "alias_select pre sel =
    (case se_alias sel of
       Some alias \<Rightarrow> Ret (sel\<lparr>se_alias := Some (pre @ alias)\<rparr>)
     | None \<Rightarrow> run_bind (alias_of_expr (se_expr sel)) (\<lambda>col. Ret (sel\<lparr>se_alias := Some (pre @ col)\<rparr>)))"

definition apply_alias :: "string \<Rightarrow> ('v, 'u) select \<Rightarrow> ('v, 'u) select run" where
  "apply_alias pre s =
    run_bind (run_map (alias_select pre) (sq_selects (sel_query s))) (\<lambda>es.
      Ret (on_query (\<lambda>q. q\<lparr>sq_selects := es\<rparr>) s))"

definition prepare_select_col ::
  "('n, 'v) select_entity \<Rightarrow> string \<Rightarrow> ('v, 'u) select_query \<Rightarrow> ('v, 'u) select_query" where
  "prepare_select_col f alias q =
    fold (\<lambda>col. query_expr \<lparr>se_expr = select_as col (expr_col (as_column_ref f col)),
        se_alias = Some (alias @ sc_name col)\<rparr>) (en_columns f) q"

definition select_two_new :: "('n, 'v) select_entity \<Rightarrow> ('v, 'u) select_query \<Rightarrow> ('v, 'u) select_query" where
  "select_two_new f query = prepare_select_col f ''B_'' query"

definition prepare_order_by :: "('m, 'v) select_entity \<Rightarrow> ('v, 'u) select_query \<Rightarrow> ('v, 'u) select_query" where
  "prepare_order_by e q = fold (\<lambda>col. query_order_by (expr_col (en_table e, sc_name col)) Asc) (en_primary_key e) q"

definition select_two_many_new ::
  "('m, 'v) select_entity \<Rightarrow> ('n, 'v) select_entity \<Rightarrow> ('v, 'u) select_query \<Rightarrow> ('v, 'u) select_query" where
  "select_two_many_new e f query = prepare_order_by e (prepare_select_col f ''B_'' query)"

definition select_also :: "('n, 'v) select_entity \<Rightarrow> ('v, 'u) select \<Rightarrow> ('v, 'u) select_query run" where
  "select_also f s = run_bind (apply_alias ''A_'' s) (\<lambda>s. Ret (select_two_new f (sel_query s)))"

definition select_also_fake :: "('v, 'u) select \<Rightarrow> ('v, 'u) select_query run" where
  "select_also_fake s = run_bind (apply_alias ''A_'' s) (\<lambda>s. Ret (sel_query s))"

definition select_with ::
  "('m, 'v) select_entity \<Rightarrow> ('n, 'v) select_entity \<Rightarrow> ('v, 'u) select \<Rightarrow> ('v, 'u) select_query run" where
  "select_with e f s = run_bind (apply_alias ''A_'' s) (\<lambda>s. Ret (select_two_many_new e f (sel_query s)))"

definition select_two_required :: "('n, 'v) select_entity \<Rightarrow> ('v, 'u) select \<Rightarrow> ('v, 'u) select_query run" where
  "select_two_required f s = run_bind (apply_alias ''A_'' s) (\<lambda>s. Ret (select_two_new f (sel_query s)))"

section \<open>Joins along relations (join.rs, relation.rs)\<close>

type_synonym ('v, 'u) relation = "('v, 'u) test related"

definition left_join :: "('v, 'u) relation \<Rightarrow> ('v, 'u) select \<Rightarrow> ('v, 'u) select" where
  "left_join r s = on_query (join_join LeftJoin (rl_to r) (rl_via r)) s"

definition right_join :: "('v, 'u) relation \<Rightarrow> ('v, 'u) select \<Rightarrow> ('v, 'u) select" where
  "right_join r s = on_query (join_join RightJoin (rl_to r) (rl_via r)) s"

definition select_inner_join :: "('v, 'u) relation \<Rightarrow> ('v, 'u) select \<Rightarrow> ('v, 'u) select" where
  "select_inner_join r s = on_query (join_join InnerJoin (rl_to r) (rl_via r)) s"

definition reverse_join :: "('v, 'u) relation \<Rightarrow> ('v, 'u) select \<Rightarrow> ('v, 'u) select" where
  "reverse_join r s = on_query (join_rev InnerJoin (rl_to r)) s"

definition find_also_related ::
  "('n, 'v) select_entity \<Rightarrow> ('v, 'u) relation \<Rightarrow> ('v, 'u) select \<Rightarrow> ('v, 'u) select_query run" where
  "find_also_related f r s = select_also f (left_join r s)"

definition find_both_related ::
  "('n, 'v) select_entity \<Rightarrow> ('v, 'u) relation \<Rightarrow> ('v, 'u) select \<Rightarrow> ('v, 'u) select_query run" where
  "find_both_related f r s = select_two_required f (select_inner_join r s)"

definition find_with_related ::
  "('m, 'v) select_entity \<Rightarrow> ('n, 'v) select_entity \<Rightarrow> ('v, 'u) relation \<Rightarrow> ('v, 'u) select \<Rightarrow> ('v, 'u) select_query run" where
  "find_with_related e f r s = select_with e f (left_join r s)"

text \<open>\<open>Related::find_related\<close>, \<open>EntityTrait::find_related_rev\<close> and \<open>ModelTrait::find_related\<close>.\<close>

definition related_find :: "('n, 'v) select_entity \<Rightarrow> ('v, 'u) relation \<Rightarrow> ('v, 'u) select" where
  "related_find f r = on_query (join_join_rev InnerJoin (rl_to r) (rl_via r)) (select_new f)"

definition self_via_find ::
  "('n, 'v) select_entity \<Rightarrow> ('v, 'u) test relation_def \<Rightarrow> ('v, 'u) test relation_def \<Rightarrow> ('v, 'u) select" where
  "self_via_find f to via = on_query (join_join_rev InnerJoin to (Some via)) (select_new f)"

definition find_related_rev :: "('n, 'v) select_entity \<Rightarrow> ('v, 'u) relation \<Rightarrow> ('v, 'u) select" where
  "find_related_rev f r = on_query (join_join InnerJoin (rl_to r) (rl_via r)) (select_new f)"

definition model_find_related ::
  "('m, 'v) select_entity \<Rightarrow> ('n, 'v) select_entity \<Rightarrow> ('v, 'u) relation \<Rightarrow> 'm \<Rightarrow> ('v, 'u) select" where
  "model_find_related e f r model = on_query (belongs_to_model e model) (related_find f r)"

text \<open>
  \<open>has_related\<close> adds an EXISTS test: the conditions of the enlarged statement are over \<open>exists_test\<close>, so
  that the test can hold the subquery.
\<close>

datatype ('v, 'u) exists_test = Exists "('v, 'u) select_query" | NoSubquery 'u

definition exists_subquery ::
  "('n, 'v) select_entity \<Rightarrow> ('v, 'u) relation \<Rightarrow> ('v, 'u) test cond \<Rightarrow> ('v, 'u) select_query" where
  "exists_subquery f r condition =
    (let (to, on) = (case rl_via r of
           Some via \<Rightarrow> (Some (rl_to r), relation_condition via)
         | None \<Rightarrow> (None, relation_condition (rl_to r)));
         condition = cond_add (cond_add (CondAll []) condition) on;
         subquery = query_filter condition
           (query_expr \<lparr>se_expr = ExprCust ''1'', se_alias = None\<rparr> (select_only (sel_query (entity_find f))))
     in case to of
          Some to \<Rightarrow> push_join InnerJoin (from_tbl to) (relation_condition to) subquery
        | None \<Rightarrow> subquery)"

definition has_related ::
  "('n, 'v) select_entity \<Rightarrow> ('v, 'u) relation \<Rightarrow> ('v, 'u) test cond \<Rightarrow>
    ('v, ('v, 'u) exists_test) select \<Rightarrow> ('v, ('v, 'u) exists_test) select" where
  "has_related f r condition s =
    on_query (query_filter (UserCond (TestUser (Exists (exists_subquery f r condition))))) s"

section \<open>Chains of relations (link.rs, join.rs, model.rs)\<close>

definition link_alias :: "nat \<Rightarrow> string" where
  "link_alias i = CHR ''r'' # show_nat i"

definition linked_condition ::
  "string \<Rightarrow> string \<Rightarrow> ('v, 'u) test relation_def \<Rightarrow> ('v, 'u) test cond" where
  "linked_condition from to rel =
    (let condition = cond_add (CondAll []) (join_tbl_on_condition from to (from_col rel) (to_col rel))
     in case on_condition rel of Some f \<Rightarrow> cond_add condition (f from to) | None \<Rightarrow> condition)"

text \<open>\<open>find_linked\<close> of the chain from the far end back; \<open>i\<close> counts the hops.\<close>

fun find_linked_from ::
  "nat \<Rightarrow> ('v, 'u) test relation_def list \<Rightarrow> join_type \<Rightarrow> ('v, 'u) select_query \<Rightarrow> ('v, 'u) select_query" where
  "find_linked_from i [] jt q = q"
| "find_linked_from i (rel # links) jt q =
    (let from = link_alias i;
         to = (if i > 0 then link_alias (i - 1) else sea_orm_table (to_tbl rel))
     in find_linked_from (Suc i) links jt
          (push_join jt (table_ref_alias (from_tbl rel) from) (linked_condition from to rel) q))"

definition find_linked ::
  "('n, 'v) select_entity \<Rightarrow> ('v, 'u) test relation_def list \<Rightarrow> join_type \<Rightarrow> ('v, 'u) select" where
  "find_linked f links jt = on_query (find_linked_from 0 links jt) (select_new f)"

definition linked_find :: "('n, 'v) select_entity \<Rightarrow> ('v, 'u) test relation_def list \<Rightarrow> ('v, 'u) select" where
  "linked_find f link = find_linked f (rev link) InnerJoin"

text \<open>\<open>usize\<close> subtraction; \<open>checks\<close> is the build's overflow check.\<close>

definition usize_pred :: "bool \<Rightarrow> nat \<Rightarrow> nat run" where
  "usize_pred checks n =
    (if n = 0 then (if checks then Panic ''attempt to subtract with overflow'' else Ret (2 ^ 64 - 1))
     else Ret (n - 1))"

definition model_find_linked ::
  "bool \<Rightarrow> ('m, 'v) select_entity \<Rightarrow> ('n, 'v) select_entity \<Rightarrow> ('v, 'u) test relation_def list \<Rightarrow> 'm \<Rightarrow>
    ('v, 'u) select run" where
  "model_find_linked checks e f link model =
    run_bind (usize_pred checks (length link)) (\<lambda>n.
      Ret (on_query (belongs_to_tbl_alias e model (link_alias n)) (linked_find f link)))"

text \<open>The loop of \<open>left_join_linked\<close>: \<open>first\<close> is the test \<open>i = 0\<close> on the loop's own counter.\<close>

fun left_join_links ::
  "bool \<Rightarrow> ('v, 'u) test relation_def list \<Rightarrow> ('v, 'u) select \<Rightarrow> ('v, 'u) select" where
  "left_join_links first [] s = s"
| "left_join_links first (rel # links) s =
    (let r = sel_linked_index s;
         s = s\<lparr>sel_linked_index := Suc (sel_linked_index s)\<rparr>;
         to = link_alias r;
         from = (if \<not> first then link_alias (r - 1) else sea_orm_table (from_tbl rel))
     in left_join_links False links
          (on_query (push_join LeftJoin (table_ref_alias (to_tbl rel) to) (linked_condition from to rel)) s))"

definition left_join_linked ::
  "bool \<Rightarrow> ('n, 'v) select_entity \<Rightarrow> ('v, 'u) test relation_def list \<Rightarrow> ('v, 'u) select \<Rightarrow> ('v, 'u) select run" where
  "left_join_linked checks f link s =
    run_bind (apply_alias ''A_'' (left_join_links True link s)) (\<lambda>s.
      if en_columns f = [] then Ret s
      else run_bind (usize_pred checks (sel_linked_index s)) (\<lambda>n. Ret
        (on_query (query_exprs (map (\<lambda>col.
            \<lparr>se_expr = select_as col (expr_col (link_alias n, sc_name col)), se_alias = Some (''B_'' @ sc_name col)\<rparr>)
          (en_columns f))) s)))"

definition find_also_linked ::
  "bool \<Rightarrow> ('n, 'v) select_entity \<Rightarrow> ('v, 'u) test relation_def list \<Rightarrow> ('v, 'u) select \<Rightarrow> ('v, 'u) select_query run" where
  "find_also_linked checks f link s =
    run_bind (left_join_linked checks f link s) (\<lambda>s. Ret (sel_query s))"

definition find_with_linked ::
  "bool \<Rightarrow> ('n, 'v) select_entity \<Rightarrow> ('v, 'u) test relation_def list \<Rightarrow> ('v, 'u) select \<Rightarrow> ('v, 'u) select_query run" where
  "find_with_linked checks f link s =
    run_bind (left_join_linked checks f link s) (\<lambda>s. Ret (sel_query s))"

text \<open>
  \<open>find_linked_recursive\<close>: the statement with one common table expression, the union of an initial and a
  recursive part, both plain statements.
\<close>

datatype ('v, 'u) recursive_query =
    InitialOnly "('v, 'u) select"
  | WithCte string "('v, 'u) select_query" "('v, 'u) select_query" "('v, 'u) select"

definition find_linked_recursive ::
  "('m, 'v) select_entity \<Rightarrow> ('v, 'u) select \<Rightarrow> ('v, 'u) test relation_def list \<Rightarrow> ('v, 'u) recursive_query" where
  "find_linked_recursive e initial link =
    (case link of
       [] \<Rightarrow> InitialOnly initial
     | first # rest \<Rightarrow>
       (let cte_name = ''cte'';
            first = first\<lparr>from_tbl := TableRef (TableName None cte_name) None\<rparr>;
            recursive = query_exprs (sq_selects (sel_query initial))
              (select_only (sel_query (find_linked e (rev (first # rest)) InnerJoin)));
            select = on_query (query_exprs (sq_selects (sel_query initial))) (on_query select_only (entity_find e));
            select = on_query (\<lambda>q. q\<lparr>sq_from := [TableRef (TableName None cte_name) (Some (en_table e))]\<rparr>) select
        in WithCte cte_name (sel_query initial) recursive select))"

definition find_with_linked_recursive ::
  "('m, 'v) select_entity \<Rightarrow> ('v, 'u) test relation_def list \<Rightarrow> ('v, 'u) select \<Rightarrow> ('v, 'u) recursive_query" where
  "find_with_linked_recursive e link s = find_linked_recursive e s link"

definition model_find_linked_recursive ::
  "bool \<Rightarrow> ('m, 'v) select_entity \<Rightarrow> ('v, 'u) test relation_def list \<Rightarrow> 'm \<Rightarrow> ('v, 'u) recursive_query run" where
  "model_find_linked_recursive checks e link model =
    run_bind (model_find_linked checks e e link model) (\<lambda>initial. Ret (find_linked_recursive e initial link))"

end
