(* ===== verification/SelectExec.thy ===== *)
theory SelectExec
  imports SelectJoins
begin

text \<open>
  Running a select: the decoding of rows the derive of \<open>sea-orm-macros/src/derives/model.rs\<close> writes for a
  model, the selectors of \<open>src/executor/select.rs\<close> and the selects of three to six entities of
  \<open>src/executor/select/\<close>. The database is an argument that runs a statement.
\<close>

section \<open>Decoding\<close>

definition try_get_nullable ::
  "(string \<Rightarrow> db_err) \<Rightarrow> 'v result_row \<Rightarrow> string \<Rightarrow> string \<Rightarrow> ('v option, try_get_error) result" where
  "try_get_nullable missing row pre col =
    (let index = (if pre = [] then col else pre @ col)
     in case map_of row index of
          Some v \<Rightarrow> Inr v
        | None \<Rightarrow> Inl (TryGetDbErr (missing index)))"

fun try_get_db_err :: "try_get_error \<Rightarrow> db_err" where
  "try_get_db_err (TryGetDbErr e) = e"
| "try_get_db_err (TryGetNull s) = Type (''A null value was encountered while decoding '' @ s)"

text \<open>
  The derived \<open>from_query_result_nullable\<close>: every field is read as an \<open>Option\<close>, a row of nulls is the
  error \<open>Null\<close>, and a null in a field that is no \<open>Option\<close> an error of its own. A model is the list of the
  values of its fields.
\<close>

type_synonym 'v model = "'v option list"

definition field_value :: "select_column \<times> 'v option \<Rightarrow> ('v option, try_get_error) result" where
  "field_value cv =
    (if snd cv = None \<and> \<not> sc_optional (fst cv)
     then Inl (TryGetDbErr (Type (''Missing value for column '' @ [CHR 0x27] @ sc_name (fst cv) @ [CHR 0x27])))
     else Inr (snd cv))"

definition derived_from_row ::
  "(string \<Rightarrow> db_err) \<Rightarrow> select_column list \<Rightarrow> 'v result_row \<Rightarrow> string \<Rightarrow> ('v model, try_get_error) result" where
  "derived_from_row missing cols row pre =
    res_bind (try_map (\<lambda>col. try_get_nullable missing row pre (sc_name col)) cols) (\<lambda>vs.
      if list_all (\<lambda>v. v = None) vs then Inl (TryGetNull ''All fields of nested model are null'')
      else try_map field_value (zip cols vs))"

text \<open>The derived \<open>ModelTrait::get\<close>, a match on the column.\<close>

fun derived_get :: "select_column list \<Rightarrow> 'v model \<Rightarrow> string \<Rightarrow> 'v sea_value" where
  "derived_get (col # cols) (v # m) c =
    (if sc_name col = c then
       (case v of
          None \<Rightarrow> NullValue
        | Some x \<Rightarrow> if enum_name (sc_kind col) = None then PlainValue x else EnumValue x)
     else derived_get cols m c)"
| "derived_get _ _ c = NullValue"

definition derived_entity ::
  "(string \<Rightarrow> db_err) \<Rightarrow> string option \<Rightarrow> string \<Rightarrow> select_column list \<Rightarrow> select_column list \<Rightarrow> ('v model, 'v) select_entity" where
  "derived_entity missing schema table cols pk =
    \<lparr>en_schema = schema, en_table = table, en_columns = cols, en_primary_key = pk, en_pk_arity = length pk,
     en_get = derived_get cols, en_from_row = derived_from_row missing cols\<rparr>"

definition from_query_result :: "('m, 'v) select_entity \<Rightarrow> 'v result_row \<Rightarrow> string \<Rightarrow> ('m, db_err) result" where
  "from_query_result e row pre = map_err try_get_db_err (en_from_row e row pre)"

definition from_query_result_optional ::
  "('m, 'v) select_entity \<Rightarrow> 'v result_row \<Rightarrow> string \<Rightarrow> ('m option, db_err) result" where
  "from_query_result_optional e row pre =
    Inr (case from_query_result e row pre of Inr m \<Rightarrow> Some m | Inl _ \<Rightarrow> None)"

text \<open>The implementation for \<open>Option\<close>: only \<open>Null\<close> becomes \<open>None\<close>.\<close>

definition option_from_row ::
  "('m, 'v) select_entity \<Rightarrow> 'v result_row \<Rightarrow> string \<Rightarrow> ('m option, try_get_error) result" where
  "option_from_row e row pre =
    (case en_from_row e row pre of
       Inr v \<Rightarrow> Inr (Some v)
     | Inl (TryGetNull s) \<Rightarrow> Inr None
     | Inl (TryGetDbErr err) \<Rightarrow> Inl (TryGetDbErr err))"

section \<open>Selectors\<close>

text \<open>The implementations of \<open>SelectorTrait::from_raw_query_result\<close>.\<close>

definition select_model :: "('m, 'v) select_entity \<Rightarrow> 'v result_row \<Rightarrow> ('m, db_err) result" where
  "select_model e res = from_query_result e res []"

definition select_two_model ::
  "('m, 'v) select_entity \<Rightarrow> ('n, 'v) select_entity \<Rightarrow> 'v result_row \<Rightarrow> ('m \<times> 'n option, db_err) result" where
  "select_two_model e f res =
    res_bind (from_query_result e res ''A_'') (\<lambda>m.
    res_bind (from_query_result_optional f res ''B_'') (\<lambda>n. Inr (m, n)))"

definition select_two_required_model ::
  "('m, 'v) select_entity \<Rightarrow> ('n, 'v) select_entity \<Rightarrow> 'v result_row \<Rightarrow> ('m \<times> 'n, db_err) result" where
  "select_two_required_model e f res =
    res_bind (from_query_result e res ''A_'') (\<lambda>m.
    res_bind (from_query_result f res ''B_'') (\<lambda>n. Inr (m, n)))"

definition select_three_model ::
  "('m, 'v) select_entity \<Rightarrow> ('n, 'v) select_entity \<Rightarrow> ('p, 'v) select_entity \<Rightarrow> 'v result_row \<Rightarrow>
    ('m \<times> 'n option \<times> 'p option, db_err) result" where
  "select_three_model e f g res =
    res_bind (from_query_result e res ''A_'') (\<lambda>m.
    res_bind (from_query_result_optional f res ''B_'') (\<lambda>n.
    res_bind (from_query_result_optional g res ''C_'') (\<lambda>p. Inr (m, n, p))))"

definition select_four_model ::
  "('m, 'v) select_entity \<Rightarrow> ('n, 'v) select_entity \<Rightarrow> ('p, 'v) select_entity \<Rightarrow> ('q, 'v) select_entity \<Rightarrow>
    'v result_row \<Rightarrow> ('m \<times> 'n option \<times> 'p option \<times> 'q option, db_err) result" where
  "select_four_model e f g h res =
    res_bind (from_query_result e res ''A_'') (\<lambda>m.
    res_bind (from_query_result_optional f res ''B_'') (\<lambda>n.
    res_bind (from_query_result_optional g res ''C_'') (\<lambda>p.
    res_bind (from_query_result_optional h res ''D_'') (\<lambda>q. Inr (m, n, p, q)))))"

definition select_five_model ::
  "('m, 'v) select_entity \<Rightarrow> ('n, 'v) select_entity \<Rightarrow> ('p, 'v) select_entity \<Rightarrow> ('q, 'v) select_entity \<Rightarrow>
    ('r, 'v) select_entity \<Rightarrow> 'v result_row \<Rightarrow>
    ('m \<times> 'n option \<times> 'p option \<times> 'q option \<times> 'r option, db_err) result" where
  "select_five_model e f g h i res =
    res_bind (from_query_result e res ''A_'') (\<lambda>m.
    res_bind (from_query_result_optional f res ''B_'') (\<lambda>n.
    res_bind (from_query_result_optional g res ''C_'') (\<lambda>p.
    res_bind (from_query_result_optional h res ''D_'') (\<lambda>q.
    res_bind (from_query_result_optional i res ''E_'') (\<lambda>r. Inr (m, n, p, q, r))))))"

definition select_six_model ::
  "('m, 'v) select_entity \<Rightarrow> ('n, 'v) select_entity \<Rightarrow> ('p, 'v) select_entity \<Rightarrow> ('q, 'v) select_entity \<Rightarrow>
    ('r, 'v) select_entity \<Rightarrow> ('s, 'v) select_entity \<Rightarrow> 'v result_row \<Rightarrow>
    ('m \<times> 'n option \<times> 'p option \<times> 'q option \<times> 'r option \<times> 's option, db_err) result" where
  "select_six_model e f g h i j res =
    res_bind (from_query_result e res ''A_'') (\<lambda>m.
    res_bind (from_query_result_optional f res ''B_'') (\<lambda>n.
    res_bind (from_query_result_optional g res ''C_'') (\<lambda>p.
    res_bind (from_query_result_optional h res ''D_'') (\<lambda>q.
    res_bind (from_query_result_optional i res ''E_'') (\<lambda>r.
    res_bind (from_query_result_optional j res ''F_'') (\<lambda>s. Inr (m, n, p, q, r, s)))))))"

record ('v, 'u, 'w) select_db =
  sd_query_one :: "('v, 'u) select_query \<Rightarrow> ('v result_row option, 'w) io"
  sd_query_all :: "('v, 'u) select_query \<Rightarrow> ('v result_row list, 'w) io"

definition record_not_found :: db_err where
  "record_not_found = RecordNotFound ''None of the models match the query''"

definition read_one :: "('v result_row \<Rightarrow> ('i, db_err) result) \<Rightarrow> 'v result_row option \<Rightarrow> ('i option, 'w) act" where
  "read_one conv row =
    (case row of
       Some row \<Rightarrow> act_bind (act_res (conv row)) (\<lambda>item. act_ret (Some item))
     | None \<Rightarrow> act_ret None)"

definition selector_one ::
  "('v, 'u, 'w) select_db \<Rightarrow> ('v result_row \<Rightarrow> ('i, db_err) result) \<Rightarrow> ('v, 'u) select_query \<Rightarrow> ('i option, 'w) act" where
  "selector_one db conv q =
    (let q = q\<lparr>sq_limit := Some 1\<rparr> in act_bind (act_io (sd_query_one db q)) (read_one conv))"

definition selector_require_one ::
  "('v, 'u, 'w) select_db \<Rightarrow> ('v result_row \<Rightarrow> ('i, db_err) result) \<Rightarrow> ('v, 'u) select_query \<Rightarrow> ('i, 'w) act" where
  "selector_require_one db conv q =
    act_bind (selector_one db conv q) (\<lambda>item. act_res (ok_or item record_not_found))"

definition selector_all ::
  "('v, 'u, 'w) select_db \<Rightarrow> ('v result_row \<Rightarrow> ('i, db_err) result) \<Rightarrow> ('v, 'u) select_query \<Rightarrow> ('i list, 'w) act" where
  "selector_all db conv q =
    act_bind (act_io (sd_query_all db q)) (\<lambda>rows. act_res (try_map conv rows))"

text \<open>\<open>SelectorRaw\<close>: the statement is given by the caller and runs as it is.\<close>

definition raw_one ::
  "('st \<Rightarrow> ('v result_row option, 'w) io) \<Rightarrow> ('v result_row \<Rightarrow> ('i, db_err) result) \<Rightarrow> 'st \<Rightarrow> ('i option, 'w) act" where
  "raw_one query_one_raw conv stmt = act_bind (act_io (query_one_raw stmt)) (read_one conv)"

definition raw_require_one ::
  "('st \<Rightarrow> ('v result_row option, 'w) io) \<Rightarrow> ('v result_row \<Rightarrow> ('i, db_err) result) \<Rightarrow> 'st \<Rightarrow> ('i, 'w) act" where
  "raw_require_one query_one_raw conv stmt =
    act_bind (raw_one query_one_raw conv stmt) (\<lambda>item. act_res (ok_or item record_not_found))"

definition raw_all ::
  "('st \<Rightarrow> ('v result_row list, 'w) io) \<Rightarrow> ('v result_row \<Rightarrow> ('i, db_err) result) \<Rightarrow> 'st \<Rightarrow> ('i list, 'w) act" where
  "raw_all query_all_raw conv stmt =
    act_bind (act_io (query_all_raw stmt)) (\<lambda>rows. act_res (try_map conv rows))"

text \<open>What the consolidation uses of an entity.\<close>

definition row_entity :: "('m, 'v) select_entity \<Rightarrow> ('m, string, 'v sea_value) entity" where
  "row_entity e = \<lparr>primary_key = map sc_name (en_primary_key e), pk_arity = en_pk_arity e,
     model_get = en_get e, entity_name = en_table e\<rparr>"

definition select_one ::
  "('v, 'u, 'w) select_db \<Rightarrow> ('m, 'v) select_entity \<Rightarrow> ('v, 'u) select \<Rightarrow> ('m option, 'w) act" where
  "select_one db e s = selector_one db (select_model e) (sel_query s)"

definition select_require_one ::
  "('v, 'u, 'w) select_db \<Rightarrow> ('m, 'v) select_entity \<Rightarrow> ('v, 'u) select \<Rightarrow> ('m, 'w) act" where
  "select_require_one db e s = selector_require_one db (select_model e) (sel_query s)"

definition select_all ::
  "('v, 'u, 'w) select_db \<Rightarrow> ('m, 'v) select_entity \<Rightarrow> ('v, 'u) select \<Rightarrow> ('m list, 'w) act" where
  "select_all db e s = selector_all db (select_model e) (sel_query s)"

definition two_one ::
  "('v, 'u, 'w) select_db \<Rightarrow> ('m, 'v) select_entity \<Rightarrow> ('n, 'v) select_entity \<Rightarrow> 
    ('v, 'u) select_query \<Rightarrow> (('m \<times> 'n option) option, 'w) act" where
  "two_one db e f q = selector_one db (select_two_model e f) q"

definition two_require_one ::
  "('v, 'u, 'w) select_db \<Rightarrow> ('m, 'v) select_entity \<Rightarrow> ('n, 'v) select_entity \<Rightarrow> 
    ('v, 'u) select_query \<Rightarrow> ('m \<times> 'n option, 'w) act" where
  "two_require_one db e f q = selector_require_one db (select_two_model e f) q"

definition two_all ::
  "('v, 'u, 'w) select_db \<Rightarrow> ('m, 'v) select_entity \<Rightarrow> ('n, 'v) select_entity \<Rightarrow> 
    ('v, 'u) select_query \<Rightarrow> (('m \<times> 'n option) list, 'w) act" where
  "two_all db e f q = selector_all db (select_two_model e f) q"

definition two_required_one ::
  "('v, 'u, 'w) select_db \<Rightarrow> ('m, 'v) select_entity \<Rightarrow> ('n, 'v) select_entity \<Rightarrow> 
    ('v, 'u) select_query \<Rightarrow> (('m \<times> 'n) option, 'w) act" where
  "two_required_one db e f q = selector_one db (select_two_required_model e f) q"

definition two_required_require_one ::
  "('v, 'u, 'w) select_db \<Rightarrow> ('m, 'v) select_entity \<Rightarrow> ('n, 'v) select_entity \<Rightarrow> 
    ('v, 'u) select_query \<Rightarrow> ('m \<times> 'n, 'w) act" where
  "two_required_require_one db e f q = selector_require_one db (select_two_required_model e f) q"

definition two_required_all ::
  "('v, 'u, 'w) select_db \<Rightarrow> ('m, 'v) select_entity \<Rightarrow> ('n, 'v) select_entity \<Rightarrow> 
    ('v, 'u) select_query \<Rightarrow> (('m \<times> 'n) list, 'w) act" where
  "two_required_all db e f q = selector_all db (select_two_required_model e f) q"

definition two_many_all ::
  "('v, 'u, 'w) select_db \<Rightarrow> ('m, 'v) select_entity \<Rightarrow> ('n, 'v) select_entity \<Rightarrow> ('v, 'u) select_query \<Rightarrow>
    (('m \<times> 'n list) list, 'w) act" where
  "two_many_all db e f q =
    act_bind (selector_all db (select_two_model e f) q) (\<lambda>rows.
      act_run (consolidate_query_result (row_entity e) rows))"

section \<open>Three to six entities\<close>

text \<open>
  Each further entity is joined along its relation and selected under the next prefix: the third is
  \<open>C_\<close>, then \<open>D_\<close>, \<open>E_\<close> and \<open>F_\<close>. \<open>find_also_related\<close> and \<open>and_also_related\<close> of a select of two
  entities differ in the entity the relation belongs to.
\<close>

definition select_three_new :: "('p, 'v) select_entity \<Rightarrow> ('v, 'u) select_query \<Rightarrow> ('v, 'u) select_query" where
  "select_three_new g query = prepare_select_col g ''C_'' query"

definition select_four_new :: "('p, 'v) select_entity \<Rightarrow> ('v, 'u) select_query \<Rightarrow> ('v, 'u) select_query" where
  "select_four_new h query = prepare_select_col h ''D_'' query"

definition select_five_new :: "('p, 'v) select_entity \<Rightarrow> ('v, 'u) select_query \<Rightarrow> ('v, 'u) select_query" where
  "select_five_new i query = prepare_select_col i ''E_'' query"

definition select_six_new :: "('p, 'v) select_entity \<Rightarrow> ('v, 'u) select_query \<Rightarrow> ('v, 'u) select_query" where
  "select_six_new j query = prepare_select_col j ''F_'' query"

definition two_find_also ::
  "('p, 'v) select_entity \<Rightarrow> ('v, 'u) relation \<Rightarrow> ('v, 'u) select_query \<Rightarrow> ('v, 'u) select_query" where
  "two_find_also g rel q = select_three_new g (join_join LeftJoin (rl_to rel) (rl_via rel) q)"

definition two_find_also_related ::
  "('p, 'v) select_entity \<Rightarrow> ('v, 'u) relation \<Rightarrow> ('v, 'u) select_query \<Rightarrow> ('v, 'u) select_query" where
  "two_find_also_related g rel_of_first q =
    select_three_new g (join_join LeftJoin (rl_to rel_of_first) (rl_via rel_of_first) q)"

definition two_and_also_related ::
  "('p, 'v) select_entity \<Rightarrow> ('v, 'u) relation \<Rightarrow> ('v, 'u) select_query \<Rightarrow> ('v, 'u) select_query" where
  "two_and_also_related g rel_of_second q =
    select_three_new g (join_join LeftJoin (rl_to rel_of_second) (rl_via rel_of_second) q)"

definition three_find_also ::
  "('p, 'v) select_entity \<Rightarrow> ('v, 'u) relation \<Rightarrow> ('v, 'u) select_query \<Rightarrow> ('v, 'u) select_query" where
  "three_find_also h rel q = select_four_new h (join_join LeftJoin (rl_to rel) (rl_via rel) q)"

definition four_find_also ::
  "('p, 'v) select_entity \<Rightarrow> ('v, 'u) relation \<Rightarrow> ('v, 'u) select_query \<Rightarrow> ('v, 'u) select_query" where
  "four_find_also i rel q = select_five_new i (join_join LeftJoin (rl_to rel) (rl_via rel) q)"

definition five_find_also ::
  "('p, 'v) select_entity \<Rightarrow> ('v, 'u) relation \<Rightarrow> ('v, 'u) select_query \<Rightarrow> ('v, 'u) select_query" where
  "five_find_also j rel q = select_six_new j (join_join LeftJoin (rl_to rel) (rl_via rel) q)"

definition three_one ::
  "('v, 'u, 'w) select_db \<Rightarrow> ('m, 'v) select_entity \<Rightarrow> ('n, 'v) select_entity \<Rightarrow> ('p, 'v) select_entity \<Rightarrow> 
    ('v, 'u) select_query \<Rightarrow> (('m \<times> 'n option \<times> 'p option) option, 'w) act" where
  "three_one db e f g q = selector_one db (select_three_model e f g) q"

definition three_all ::
  "('v, 'u, 'w) select_db \<Rightarrow> ('m, 'v) select_entity \<Rightarrow> ('n, 'v) select_entity \<Rightarrow> ('p, 'v) select_entity \<Rightarrow> 
    ('v, 'u) select_query \<Rightarrow> (('m \<times> 'n option \<times> 'p option) list, 'w) act" where
  "three_all db e f g q = selector_all db (select_three_model e f g) q"

definition four_one ::
  "('v, 'u, 'w) select_db \<Rightarrow> ('m, 'v) select_entity \<Rightarrow> ('n, 'v) select_entity \<Rightarrow> ('p, 'v) select_entity \<Rightarrow> ('q, 'v) select_entity \<Rightarrow> 
    ('v, 'u) select_query \<Rightarrow> (('m \<times> 'n option \<times> 'p option \<times> 'q option) option, 'w) act" where
  "four_one db e f g h q = selector_one db (select_four_model e f g h) q"

definition four_all ::
  "('v, 'u, 'w) select_db \<Rightarrow> ('m, 'v) select_entity \<Rightarrow> ('n, 'v) select_entity \<Rightarrow> ('p, 'v) select_entity \<Rightarrow> ('q, 'v) select_entity \<Rightarrow> 
    ('v, 'u) select_query \<Rightarrow> (('m \<times> 'n option \<times> 'p option \<times> 'q option) list, 'w) act" where
  "four_all db e f g h q = selector_all db (select_four_model e f g h) q"

definition five_one ::
  "('v, 'u, 'w) select_db \<Rightarrow> ('m, 'v) select_entity \<Rightarrow> ('n, 'v) select_entity \<Rightarrow> ('p, 'v) select_entity \<Rightarrow> ('q, 'v) select_entity \<Rightarrow> ('r, 'v) select_entity \<Rightarrow> 
    ('v, 'u) select_query \<Rightarrow> (('m \<times> 'n option \<times> 'p option \<times> 'q option \<times> 'r option) option, 'w) act" where
  "five_one db e f g h i q = selector_one db (select_five_model e f g h i) q"

definition five_all ::
  "('v, 'u, 'w) select_db \<Rightarrow> ('m, 'v) select_entity \<Rightarrow> ('n, 'v) select_entity \<Rightarrow> ('p, 'v) select_entity \<Rightarrow> ('q, 'v) select_entity \<Rightarrow> ('r, 'v) select_entity \<Rightarrow> 
    ('v, 'u) select_query \<Rightarrow> (('m \<times> 'n option \<times> 'p option \<times> 'q option \<times> 'r option) list, 'w) act" where
  "five_all db e f g h i q = selector_all db (select_five_model e f g h i) q"

definition six_one ::
  "('v, 'u, 'w) select_db \<Rightarrow> ('m, 'v) select_entity \<Rightarrow> ('n, 'v) select_entity \<Rightarrow> ('p, 'v) select_entity \<Rightarrow> ('q, 'v) select_entity \<Rightarrow> ('r, 'v) select_entity \<Rightarrow> ('s, 'v) select_entity \<Rightarrow> 
    ('v, 'u) select_query \<Rightarrow> (('m \<times> 'n option \<times> 'p option \<times> 'q option \<times> 'r option \<times> 's option) option, 'w) act" where
  "six_one db e f g h i j q = selector_one db (select_six_model e f g h i j) q"

definition six_all ::
  "('v, 'u, 'w) select_db \<Rightarrow> ('m, 'v) select_entity \<Rightarrow> ('n, 'v) select_entity \<Rightarrow> ('p, 'v) select_entity \<Rightarrow> ('q, 'v) select_entity \<Rightarrow> ('r, 'v) select_entity \<Rightarrow> ('s, 'v) select_entity \<Rightarrow> 
    ('v, 'u) select_query \<Rightarrow> (('m \<times> 'n option \<times> 'p option \<times> 'q option \<times> 'r option \<times> 's option) list, 'w) act" where
  "six_all db e f g h i j q = selector_all db (select_six_model e f g h i j) q"

definition three_many_star_all ::
  "('v, 'u, 'w) select_db \<Rightarrow> ('m, 'v) select_entity \<Rightarrow> ('n, 'v) select_entity \<Rightarrow> ('p, 'v) select_entity \<Rightarrow>
    ('v, 'u) select_query \<Rightarrow> (('m \<times> 'n list \<times> 'p list) list, 'w) act" where
  "three_many_star_all db e f g q =
    act_bind (selector_all db (select_three_model e f g) q) (\<lambda>rows.
      act_run (consolidate_query_result_tee (row_entity e) (row_entity f) (row_entity g) rows))"

definition three_many_chain_all ::
  "('v, 'u, 'w) select_db \<Rightarrow> ('m, 'v) select_entity \<Rightarrow> ('n, 'v) select_entity \<Rightarrow> ('p, 'v) select_entity \<Rightarrow>
    ('v, 'u) select_query \<Rightarrow> (('m \<times> ('n \<times> 'p list) list) list, 'w) act" where
  "three_many_chain_all db e f g q =
    act_bind (selector_all db (select_three_model e f g) q) (\<lambda>rows.
      act_run (consolidate_query_result_chain (row_entity e) (row_entity f) (row_entity g) rows))"

definition four_many_star_all ::
  "('v, 'u, 'w) select_db \<Rightarrow> ('m, 'v) select_entity \<Rightarrow> ('n, 'v) select_entity \<Rightarrow> ('p, 'v) select_entity \<Rightarrow>
    ('q, 'v) select_entity \<Rightarrow> ('v, 'u) select_query \<Rightarrow> (('m \<times> 'n list \<times> 'p list \<times> 'q list) list, 'w) act" where
  "four_many_star_all db e f g h q =
    act_bind (selector_all db (select_four_model e f g h) q) (\<lambda>rows.
      act_run (consolidate_query_result_quad_star (row_entity e) (row_entity f) (row_entity g) (row_entity h) rows))"

end
