(* ===== verification/SqlRows.thy ===== *)
theory SqlRows
  imports SelectExec ConsolidateSpec
begin

text \<open>
  What a database answers to a select: the reference semantics the properties of the select builders are
  stated with. A row of a table gives each column's value, \<open>None\<close> for NULL. A statement is evaluated
  in an environment of the columns in scope, by nested loops over its joins; a comparison with NULL does
  not hold; a cast denotes the value it is given. The clauses the builders do not produce (grouping, having, distinct,
  limits and locks) are not evaluated, and an ORDER BY does not change which rows are answered:
  the properties compare results as multisets. The second part relates chains of joins, whichever way they
  are followed, to \<open>follow\<close>.
\<close>

section \<open>Evaluating a select\<close>

type_synonym 'v table_row = "string \<Rightarrow> 'v option"

type_synonym 'v scope = "string \<times> string \<Rightarrow> 'v option"

record ('v, 'u) sql =
  sql_tables :: "table_name \<Rightarrow> 'v table_row list"
  sql_user :: "'u \<Rightarrow> 'v scope \<Rightarrow> 'v option"
  sql_test :: "'u \<Rightarrow> 'v scope \<Rightarrow> bool"
  sql_cust :: "string \<Rightarrow> 'v option"

fun value_of :: "'v sea_value \<Rightarrow> 'v option" where
  "value_of NullValue = None"
| "value_of (PlainValue v) = Some v"
| "value_of (EnumValue v) = Some v"

fun eval_expr :: "('v, 'u) sql \<Rightarrow> 'v scope \<Rightarrow> ('v, 'u) expr \<Rightarrow> 'v option" where
  "eval_expr sql env (ExprColumn (ColumnRef (Some t) c)) = env (t, c)"
| "eval_expr sql env (ExprColumn (ColumnRef None c)) = env ([], c)"
| "eval_expr sql env (ExprColumn (Asterisk t)) = None"
| "eval_expr sql env (ExprAsEnum ty e) = eval_expr sql env e"
| "eval_expr sql env (ExprCast e ty) = eval_expr sql env e"
| "eval_expr sql env (ExprValue v) = value_of v"
| "eval_expr sql env (ExprCust s) = sql_cust sql s"
| "eval_expr sql env (ExprOther u) = sql_user sql u env"

fun test_holds :: "('v, 'u) sql \<Rightarrow> 'v scope \<Rightarrow> ('v, 'u) test \<Rightarrow> bool" where
  "test_holds sql env (TestEq c e) \<longleftrightarrow> env c \<noteq> None \<and> env c = eval_expr sql env e"
| "test_holds sql env (TestNull c) \<longleftrightarrow> env c = None"
| "test_holds sql env (TestUser u) \<longleftrightarrow> sql_test sql u env"

fun cond_holds :: "('v, 'u) sql \<Rightarrow> 'v scope \<Rightarrow> ('v, 'u) test cond \<Rightarrow> bool" where
  "cond_holds sql env (CondAll cs) \<longleftrightarrow> list_all (cond_holds sql env) cs"
| "cond_holds sql env (CondAny cs) \<longleftrightarrow> list_ex (cond_holds sql env) cs"
| "cond_holds sql env (ColsEqual a b) \<longleftrightarrow> env a \<noteq> None \<and> env a = env b"
| "cond_holds sql env (UserCond t) \<longleftrightarrow> test_holds sql env t"

fun ref_table :: "table_ref \<Rightarrow> table_name" where
  "ref_table (TableRef n a) = n"

definition bind_row :: "string \<Rightarrow> 'v table_row \<Rightarrow> 'v scope \<Rightarrow> 'v scope" where
  "bind_row t r env = (\<lambda>(t', c). if t' = t then r c else env (t', c))"

definition alias_row :: "'v scope \<Rightarrow> string \<Rightarrow> 'v table_row" where
  "alias_row env t = (\<lambda>c. env (t, c))"

definition null_row :: "'v table_row" where
  "null_row = (\<lambda>_. None)"

text \<open>The rows a table gives to one environment, and those of them that meet the condition.\<close>

definition bound_rows :: "('v, 'u) sql \<Rightarrow> table_ref \<Rightarrow> 'v scope \<Rightarrow> 'v scope list" where
  "bound_rows sql t env = map (\<lambda>r. bind_row (ref_name t) r env) (sql_tables sql (ref_table t))"

definition matches :: "('v, 'u) sql \<Rightarrow> ('v, 'u) join_expr \<Rightarrow> 'v scope \<Rightarrow> 'v scope list" where
  "matches sql j env = filter (\<lambda>e. cond_holds sql e (je_on j)) (bound_rows sql (je_table j) env)"

definition left_rows :: "('v, 'u) sql \<Rightarrow> ('v, 'u) join_expr \<Rightarrow> 'v scope \<Rightarrow> 'v scope list" where
  "left_rows sql j env =
    (if matches sql j env = [] then [bind_row (ref_name (je_table j)) null_row env] else matches sql j env)"

text \<open>The rows of a table that match no environment, with nulls for the tables before it.\<close>

definition unmatched_rows ::
  "('v, 'u) sql \<Rightarrow> ('v, 'u) join_expr \<Rightarrow> 'v scope \<Rightarrow> string list \<Rightarrow> 'v scope list \<Rightarrow> 'v scope list" where
  "unmatched_rows sql j outer names envs =
    map (\<lambda>r. bind_row (ref_name (je_table j)) r (fold (\<lambda>t. bind_row t null_row) names outer))
      (filter (\<lambda>r. \<not> list_ex (\<lambda>env. cond_holds sql (bind_row (ref_name (je_table j)) r env) (je_on j)) envs)
        (sql_tables sql (ref_table (je_table j))))"

definition join_rows ::
  "('v, 'u) sql \<Rightarrow> 'v scope \<Rightarrow> ('v, 'u) join_expr \<Rightarrow> string list \<times> 'v scope list \<Rightarrow> string list \<times> 'v scope list" where
  "join_rows sql outer j st =
    (fst st @ [ref_name (je_table j)],
     (case je_type j of
        LeftJoin \<Rightarrow> concat (map (left_rows sql j) (snd st))
      | RightJoin \<Rightarrow> concat (map (matches sql j) (snd st)) @ unmatched_rows sql j outer (fst st) (snd st)
      | FullOuterJoin \<Rightarrow> concat (map (left_rows sql j) (snd st)) @ unmatched_rows sql j outer (fst st) (snd st)
      | _ \<Rightarrow> concat (map (matches sql j) (snd st))))"

definition from_rows :: "('v, 'u) sql \<Rightarrow> 'v scope \<Rightarrow> table_ref list \<Rightarrow> 'v scope list" where
  "from_rows sql outer ts = fold (\<lambda>t envs. concat (map (bound_rows sql t) envs)) ts [outer]"

definition select_scopes :: "('v, 'u) sql \<Rightarrow> 'v scope \<Rightarrow> ('v, 'u) select_query \<Rightarrow> 'v scope list" where
  "select_scopes sql outer q =
    filter (\<lambda>env. list_all (cond_holds sql env) (sq_where q))
      (snd (fold (join_rows sql outer) (sq_joins q) (map ref_name (sq_from q), from_rows sql outer (sq_from q))))"

text \<open>The name of a result column: its alias, else that of the column selected.\<close>

definition result_name :: "('v, 'u) select_expr \<Rightarrow> string" where
  "result_name se =
    (case se_alias se of
       Some a \<Rightarrow> a
     | None \<Rightarrow> (case alias_of_expr (se_expr se) of Ret c \<Rightarrow> c | _ \<Rightarrow> []))"

definition result_row :: "('v, 'u) sql \<Rightarrow> ('v, 'u) select_expr list \<Rightarrow> 'v scope \<Rightarrow> 'v result_row" where
  "result_row sql es env = map (\<lambda>se. (result_name se, eval_expr sql env (se_expr se))) es"

definition sql_rows :: "('v, 'u) sql \<Rightarrow> ('v, 'u) select_query \<Rightarrow> 'v result_row list" where
  "sql_rows sql q = map (result_row sql (sq_selects q)) (select_scopes sql (\<lambda>_. None) q)"

section \<open>Chains of joins\<close>

text \<open>
  A hop leads from a row to the rows of a table it is related to; a chain of hops to the rows at its far
  end, as often as there are ways to reach them.
\<close>

type_synonym 'r hop = "'r list \<times> ('r \<Rightarrow> 'r \<Rightarrow> bool)"

fun follow :: "'r hop list \<Rightarrow> 'r \<Rightarrow> 'r list" where
  "follow [] r = [r]"
| "follow ((rows, P) # hs) r = concat (map (follow hs) (filter (P r) rows))"

fun far_rows :: "'r list \<Rightarrow> 'r hop list \<Rightarrow> 'r list" where
  "far_rows A [] = A"
| "far_rows A ((B, P) # hs) = far_rows B hs"

fun reverse_hops :: "'r list \<Rightarrow> 'r hop list \<Rightarrow> 'r hop list" where
  "reverse_hops A [] = []"
| "reverse_hops A ((B, P) # hs) = reverse_hops B hs @ [(A, \<lambda>y x. P x y)]"

lemma concat_map_concat: "concat (map f (concat (map g xs))) = concat (map (\<lambda>x. concat (map f (g x))) xs)"
  by (induction xs) simp_all

lemma follow_append: "follow (hs @ gs) x = concat (map (follow gs) (follow hs x))"
proof (induction hs x rule: follow.induct)
  case (2 rows P hs r)
  then have "map (follow (hs @ gs)) (filter (P r) rows) = map (\<lambda>x. concat (map (follow gs) (follow hs x))) (filter (P r) rows)"
    by simp
  then show ?case by (simp only: append_Cons follow.simps concat_map_concat)
qed simp

lemma set_follow_far: "x \<in> set A \<Longrightarrow> set (follow hs x) \<subseteq> set (far_rows A hs)"
  by (induction A hs arbitrary: x rule: far_rows.induct) auto

lemma sum_list_concat_map:
  "(\<Sum>y\<leftarrow>concat (map g xs). f y :: 'a :: monoid_add) = (\<Sum>x\<leftarrow>xs. \<Sum>y\<leftarrow>g x. f y)"
  by (induction xs) simp_all

lemma sum_list_swap:
  "(\<Sum>x\<leftarrow>xs. \<Sum>y\<leftarrow>ys. f x y :: 'a :: comm_monoid_add) = (\<Sum>y\<leftarrow>ys. \<Sum>x\<leftarrow>xs. f x y)"
  by (induction xs) (simp_all add: sum_list_addf)

lemma sum_list_filter: "(\<Sum>x\<leftarrow>filter P xs. f x :: 'a :: monoid_add) = (\<Sum>x\<leftarrow>xs. if P x then f x else 0)"
  by (induction xs) simp_all

lemma sum_list_swap_filter:
  "(\<Sum>x\<leftarrow>xs. \<Sum>y\<leftarrow>filter (P x) ys. f x y :: 'a :: comm_monoid_add) =
    (\<Sum>y\<leftarrow>ys. \<Sum>x\<leftarrow>filter (\<lambda>x. P x y) xs. f x y)"
  unfolding sum_list_filter by (rule sum_list_swap)

text \<open>Following a chain forwards from every row of one end and backwards from every row of the other meet
  the same pairs of ends, equally often.\<close>

lemma follow_reverse:
  "(\<Sum>a\<leftarrow>A. \<Sum>b\<leftarrow>follow hs a. f a b :: 'b :: comm_monoid_add) =
    (\<Sum>b\<leftarrow>far_rows A hs. \<Sum>a\<leftarrow>follow (reverse_hops A hs) b. f a b)"
proof (induction A hs arbitrary: f rule: far_rows.induct)
  case (2 A B P hs)
  have "(\<Sum>a\<leftarrow>A. \<Sum>b\<leftarrow>follow ((B, P) # hs) a. f a b) = (\<Sum>a\<leftarrow>A. \<Sum>x\<leftarrow>filter (P a) B. \<Sum>b\<leftarrow>follow hs x. f a b)"
    by (simp only: follow.simps sum_list_concat_map)
  also have "\<dots> = (\<Sum>x\<leftarrow>B. \<Sum>a\<leftarrow>filter (\<lambda>a. P a x) A. \<Sum>b\<leftarrow>follow hs x. f a b)"
    by (rule sum_list_swap_filter)
  also have "\<dots> = (\<Sum>x\<leftarrow>B. \<Sum>b\<leftarrow>follow hs x. \<Sum>a\<leftarrow>filter (\<lambda>a. P a x) A. f a b)"
    by (intro arg_cong[of _ _ sum_list] map_cong refl sum_list_swap)
  also have "\<dots> = (\<Sum>b\<leftarrow>far_rows B hs. \<Sum>x\<leftarrow>follow (reverse_hops B hs) b. \<Sum>a\<leftarrow>filter (\<lambda>a. P a x) A. f a b)"
    by (rule 2)
  finally show ?case by (simp add: follow_append sum_list_concat_map)
qed simp

lemma sum_list_mset_single: "(\<Sum>x\<leftarrow>xs. {#f x#}) = mset (map f xs)"
  by (induction xs) simp_all

lemma sum_list_only:
  assumes "distinct xs" "x0 \<in> set xs" "\<And>x. x \<in> set xs \<Longrightarrow> x \<noteq> x0 \<Longrightarrow> f x = 0"
  shows "(\<Sum>x\<leftarrow>xs. f x :: 'a :: comm_monoid_add) = f x0"
proof -
  have "(\<Sum>x\<leftarrow>xs. f x) = (\<Sum>x\<in>set xs. f x)" using assms(1) by (simp add: sum_list_distinct_conv_sum_set)
  also have "\<dots> = (\<Sum>x\<in>{x0}. f x)" using assms by (intro sum.mono_neutral_right) auto
  finally show ?thesis by simp
qed

text \<open>From the far end, the rows whose other end is one given row.\<close>

lemma follow_back_to:
  assumes "distinct A" "x0 \<in> set A" "\<And>x. x \<in> set A \<Longrightarrow> sel x \<longleftrightarrow> x = x0"
  shows "(\<Sum>a\<leftarrow>A. \<Sum>b\<leftarrow>follow hs a. if sel a then {#g b#} else {#}) = mset (map g (follow hs x0))"
  using assms by (subst sum_list_only[OF assms(1,2)]) (simp_all add: assms(3) sum_list_mset_single)

section \<open>Joins that follow a chain\<close>

lemma alias_bind [simp]: "alias_row (bind_row a r env) b = (if a = b then r else alias_row env b)"
  by (simp add: alias_row_def bind_row_def fun_eq_iff)

lemma bind_row_app [simp]: "bind_row a r env (b, c) = (if b = a then r c else env (b, c))"
  by (simp add: bind_row_def)

fun run_joins :: "('v, 'u) sql \<Rightarrow> ('v, 'u) join_expr list \<Rightarrow> 'v scope \<Rightarrow> 'v scope list" where
  "run_joins sql [] env = [env]"
| "run_joins sql (j # js) env =
    concat (map (run_joins sql js) (if je_type j = LeftJoin then left_rows sql j env else matches sql j env))"

lemma fold_join_rows:
  "list_all (\<lambda>j. je_type j = InnerJoin \<or> je_type j = LeftJoin) js \<Longrightarrow>
    snd (fold (join_rows sql outer) js st) = concat (map (run_joins sql js) (snd st))"
proof (induction js arbitrary: st)
  case Nil
  have "concat (map (run_joins sql []) xs) = xs" for xs by (induction xs) simp_all
  then show ?case by simp
next
  case (Cons j js)
  then have "snd (fold (join_rows sql outer) (j # js) st)
    = concat (map (run_joins sql js) (snd (join_rows sql outer j st)))" by simp
  also have "snd (join_rows sql outer j st)
    = concat (map (if je_type j = LeftJoin then left_rows sql j else matches sql j) (snd st))"
    using Cons.prems by (auto simp: join_rows_def)
  finally show ?case by (simp add: concat_map_concat)
qed

abbreviation join_alias :: "('v, 'u) join_expr \<Rightarrow> string" where
  "join_alias j \<equiv> ref_name (je_table j)"

text \<open>Joins whose conditions relate each table to the one before, by the predicates of the hops.\<close>

fun joins_follow :: "('v, 'u) sql \<Rightarrow> string \<Rightarrow> ('v, 'u) join_expr list \<Rightarrow> 'v table_row hop list \<Rightarrow> bool" where
  "joins_follow sql prev [] [] \<longleftrightarrow> True"
| "joins_follow sql prev (j # js) ((rows, P) # hs) \<longleftrightarrow>
    sql_tables sql (ref_table (je_table j)) = rows \<and> join_alias j \<noteq> prev \<and>
    (\<forall>env. cond_holds sql env (je_on j) = P (alias_row env prev) (alias_row env (join_alias j))) \<and>
    joins_follow sql (join_alias j) js hs"
| "joins_follow sql prev _ _ \<longleftrightarrow> False"

fun last_alias :: "string \<Rightarrow> ('v, 'u) join_expr list \<Rightarrow> string" where
  "last_alias prev [] = prev"
| "last_alias prev (j # js) = last_alias (join_alias j) js"

lemma last_alias_append [simp]: "last_alias prev (js @ [j]) = join_alias j"
  by (induction js arbitrary: prev) simp_all

lemma matches_chain:
  assumes "join_alias j \<noteq> prev"
    and "\<forall>env. cond_holds sql env (je_on j) = P (alias_row env prev) (alias_row env (join_alias j))"
  shows "matches sql j env = map (\<lambda>r. bind_row (join_alias j) r env)
    (filter (P (alias_row env prev)) (sql_tables sql (ref_table (je_table j))))"
  using assms by (auto simp: matches_def bound_rows_def filter_map comp_def intro!: arg_cong[of _ _ "map _"])

lemma run_inner_chain:
  assumes "joins_follow sql prev js hs" "list_all (\<lambda>j. je_type j \<noteq> LeftJoin) js" "t \<notin> join_alias ` set js"
  shows "map (\<lambda>e. (alias_row e t, alias_row e (last_alias prev js))) (run_joins sql js env)
    = map (Pair (alias_row env t)) (follow hs (alias_row env prev))"
  using assms
proof (induction sql prev js hs arbitrary: env rule: joins_follow.induct)
  case (2 sql prev j js rows P hs)
  have "matches sql j env = map (\<lambda>r. bind_row (join_alias j) r env) (filter (P (alias_row env prev)) rows)"
    using matches_chain[of j prev sql P env] "2.prems"(1) by simp
  moreover have "map (\<lambda>e. (alias_row e t, alias_row e (last_alias (join_alias j) js)))
      (run_joins sql js (bind_row (join_alias j) r env)) = map (Pair (alias_row env t)) (follow hs r)" for r
    using "2.IH"[of "bind_row (join_alias j) r env"] "2.prems" by auto
  ultimately show ?case using "2.prems"(2) by (simp add: map_concat comp_def)
qed simp_all

lemma follow_null:
  "list_all (\<lambda>(rows, P). list_all (\<lambda>r. \<not> P null_row r) rows) hs \<Longrightarrow>
    follow hs null_row = (if hs = [] then [null_row] else [])"
  by (cases hs) (auto simp: list_all_iff filter_empty_conv)

lemma run_left_chain:
  assumes "joins_follow sql prev js hs" "list_all (\<lambda>j. je_type j = LeftJoin) js" "t \<notin> join_alias ` set js"
    and "list_all (\<lambda>(rows, P). list_all (\<lambda>r. \<not> P null_row r) rows) (tl hs)"
    and "\<And>x. k x null_row = (0 :: 'a :: comm_monoid_add)"
  shows "(\<Sum>e\<leftarrow>run_joins sql js env. k (alias_row e t) (alias_row e (last_alias prev js)))
    = (\<Sum>y\<leftarrow>follow hs (alias_row env prev). k (alias_row env t) y)"
  using assms(1-4)
proof (induction sql prev js hs arbitrary: env rule: joins_follow.induct)
  case (2 sql prev j js rows P hs)
  let ?rs = "filter (P (alias_row env prev)) rows"
  have ms: "matches sql j env = map (\<lambda>r. bind_row (join_alias j) r env) ?rs"
    using matches_chain[of j prev sql P env] "2.prems"(1) by simp
  have step: "(\<Sum>e\<leftarrow>run_joins sql js (bind_row (join_alias j) r env).
      k (alias_row e t) (alias_row e (last_alias (join_alias j) js))) = (\<Sum>y\<leftarrow>follow hs r. k (alias_row env t) y)" for r
    using "2.IH"[of "bind_row (join_alias j) r env"] "2.prems" by (cases hs) auto
  show ?case
  proof (cases "?rs = []")
    case True
    have "(\<Sum>y\<leftarrow>follow hs null_row. k (alias_row env t) y) = 0"
      using follow_null[of hs] "2.prems"(4) assms(5) by (cases hs) auto
    then show ?thesis using True "2.prems"(2) step[of null_row] by (simp add: left_rows_def ms)
  next
    case False
    then have "left_rows sql j env = map (\<lambda>r. bind_row (join_alias j) r env) ?rs" by (simp add: left_rows_def ms)
    then show ?thesis using "2.prems"(2) step by (simp add: sum_list_concat_map comp_def)
  qed
qed simp_all

lemma run_left_neq_Nil: "list_all (\<lambda>j. je_type j = LeftJoin) js \<Longrightarrow> run_joins sql js env \<noteq> []"
  by (induction js arbitrary: env) (auto simp: left_rows_def)

lemma run_joins_keep:
  "t \<notin> join_alias ` set js \<Longrightarrow> e \<in> set (run_joins sql js env) \<Longrightarrow> alias_row e t = alias_row env t"
proof (induction js arbitrary: env)
  case (Cons j js)
  then obtain e1 where "e1 \<in> set (if je_type j = LeftJoin then left_rows sql j env else matches sql j env)"
    "e \<in> set (run_joins sql js e1)" by auto
  moreover from this(1) have "alias_row e1 t = alias_row env t"
    using Cons.prems(1) by (auto simp: left_rows_def matches_def bound_rows_def split: if_splits)
  ultimately show ?case using Cons by auto
qed simp

end
