(* ===== verification/SelectSpec.thy ===== *)
theory SelectSpec
  imports SqlRows
begin

text \<open>
  What the selects mean: the queries built for a chain of relations, evaluated by \<open>sql_rows\<close>, against \<open>follow\<close>;
  the forward queries that join everything at once against the queries of the single models.
\<close>

section \<open>Rows and models\<close>

text \<open>An entity whose methods the derives wrote.\<close>

definition derived :: "(string \<Rightarrow> db_err) \<Rightarrow> ('v model, 'v) select_entity \<Rightarrow> bool" where
  "derived missing e \<longleftrightarrow>
    e = derived_entity missing (en_schema e) (en_table e) (en_columns e) (en_primary_key e) \<and>
    distinct (map sc_name (en_columns e)) \<and> set (en_primary_key e) \<subseteq> set (en_columns e)"

definition row_model :: "('m, 'v) select_entity \<Rightarrow> 'v table_row \<Rightarrow> 'v model" where
  "row_model e y = map (\<lambda>col. y (sc_name col)) (en_columns e)"

definition key_of :: "('m, 'v) select_entity \<Rightarrow> 'v table_row \<Rightarrow> 'v option list" where
  "key_of e y = map (\<lambda>col. y (sc_name col)) (en_primary_key e)"

text \<open>A row the derived decoding accepts: nulls in optional fields only, and not everywhere.\<close>

definition readable :: "('m, 'v) select_entity \<Rightarrow> 'v table_row \<Rightarrow> bool" where
  "readable e y \<longleftrightarrow> list_ex (\<lambda>col. y (sc_name col) \<noteq> None) (en_columns e) \<and>
    list_all (\<lambda>col. sc_optional col \<or> y (sc_name col) \<noteq> None) (en_columns e)"

definition entity_rows :: "('v, 'u) sql \<Rightarrow> ('m, 'v) select_entity \<Rightarrow> 'v table_row list" where
  "entity_rows sql e = sql_tables sql (ref_table (en_table_ref e))"

text \<open>The table of an entity holds what its columns allow, and its primary key identifies the rows.\<close>

definition stored :: "('v, 'u) sql \<Rightarrow> (string \<Rightarrow> db_err) \<Rightarrow> ('v model, 'v) select_entity \<Rightarrow> bool" where
  "stored sql missing e \<longleftrightarrow> derived missing e \<and> list_all (readable e) (entity_rows sql e) \<and>
    distinct (map (key_of e) (entity_rows sql e)) \<and>
    list_all (\<lambda>y. None \<notin> set (key_of e y)) (entity_rows sql e)"

lemma derived_fields:
  assumes "derived missing e"
  shows "en_get e = derived_get (en_columns e)" "en_from_row e = derived_from_row missing (en_columns e)"
    "en_pk_arity e = length (en_primary_key e)" "distinct (map sc_name (en_columns e))"
    "set (en_primary_key e) \<subseteq> set (en_columns e)"
  using assms unfolding derived_def derived_entity_def by (metis select_entity.simps)+

definition sea_value :: "select_column \<Rightarrow> 'v option \<Rightarrow> 'v sea_value" where
  "sea_value col v =
    (case v of None \<Rightarrow> NullValue | Some x \<Rightarrow> if enum_name (sc_kind col) = None then PlainValue x else EnumValue x)"

lemma value_of_sea_value [simp]: "value_of (sea_value col v) = v" "sea_value col v = NullValue \<longleftrightarrow> v = None"
  by (simp_all add: sea_value_def split: option.splits)

lemma derived_get_row:
  "distinct (map sc_name cols) \<Longrightarrow> col \<in> set cols \<Longrightarrow>
    derived_get cols (map (\<lambda>col. y (sc_name col)) cols) (sc_name col) = sea_value col (y (sc_name col))"
  by (induction cols) (auto simp: sea_value_def split: option.splits)

lemma get_row_model:
  assumes "derived missing e" "col \<in> set (en_primary_key e)"
  shows "en_get e (row_model e y) (sc_name col) = sea_value col (y (sc_name col))"
  using assms derived_get_row[of "en_columns e" col y] derived_fields[OF assms(1)] by (auto simp: row_model_def)

lemma pk_values_row_model:
  assumes "derived missing e"
  shows "pk_values (row_entity e) (row_model e y) = map (\<lambda>col. sea_value col (y (sc_name col))) (en_primary_key e)"
  using get_row_model[OF assms] by (simp add: pk_values_def row_entity_def)

lemma sea_value_inject [simp]: "sea_value col v = sea_value col w \<longleftrightarrow> v = w"
  by (metis value_of_sea_value(1))

lemma pk_values_iff:
  assumes "derived missing e"
  shows "pk_values (row_entity e) (row_model e x) = pk_values (row_entity e) (row_model e y) \<longleftrightarrow> key_of e x = key_of e y"
  by (simp add: pk_values_row_model[OF assms] key_of_def)

lemma arity_ok_derived: "derived missing e \<Longrightarrow> arity_ok (row_entity e)"
  by (simp add: arity_ok_def row_entity_def derived_fields)

text \<open>The cells a query selects for one entity, and what the lookups under a prefix find.\<close>

definition cells :: "string \<Rightarrow> select_column list \<Rightarrow> 'v table_row \<Rightarrow> 'v result_row" where
  "cells pre cols y = map (\<lambda>col. (pre @ sc_name col, y (sc_name col))) cols"

definition found :: "'v result_row \<Rightarrow> string \<Rightarrow> select_column list \<Rightarrow> 'v table_row \<Rightarrow> bool" where
  "found row pre cols y \<longleftrightarrow> (\<forall>col\<in>set cols. map_of row (pre @ sc_name col) = Some (y (sc_name col)))"

lemma map_of_cells:
  "distinct (map sc_name cols) \<Longrightarrow> col \<in> set cols \<Longrightarrow> map_of (cells pre cols y) (pre @ sc_name col) = Some (y (sc_name col))"
  by (induction cols) (auto simp: cells_def)

lemma found_cells: "distinct (map sc_name cols) \<Longrightarrow> found (cells pre cols y) pre cols y"
  by (simp add: found_def map_of_cells)

lemma found_two:
  assumes "distinct (map sc_name cs)" "distinct (map sc_name ds)"
  shows "found (cells ''A_'' cs x @ cells ''B_'' ds y) ''A_'' cs x"
    "found (cells ''A_'' cs x @ cells ''B_'' ds y) ''B_'' ds y"
proof -
  have "map_of (cells ''A_'' cs x) (''B_'' @ c) = None" for c
    by (induction cs) (auto simp: cells_def)
  then show "found (cells ''A_'' cs x @ cells ''B_'' ds y) ''B_'' ds y"
    using assms(2) map_of_cells[of ds _ "''B_''" y] by (simp add: found_def map_add_def)
  have "dom (map_of (cells ''B_'' ds y)) \<subseteq> {''B_'' @ c | c. True}"
    by (auto simp: cells_def dom_map_of_conv_image_fst)
  then show "found (cells ''A_'' cs x @ cells ''B_'' ds y) ''A_'' cs x"
    using assms(1) map_of_cells[of cs _ "''A_''" x] by (auto simp: found_def map_add_Some_iff)
qed

lemma try_get_found: "found row pre cols y \<Longrightarrow> col \<in> set cols \<Longrightarrow>
    try_get_nullable missing row pre (sc_name col) = Inr (y (sc_name col))"
  by (cases pre) (simp_all add: try_get_nullable_def found_def)

lemma try_map_Inr: "(\<And>x. x \<in> set xs \<Longrightarrow> f x = Inr (g x)) \<Longrightarrow> try_map f xs = Inr (map g xs)"
  by (induction xs) simp_all

lemma read_cells:
  assumes "derived missing e" "found row pre (en_columns e) y"
  shows "readable e y \<Longrightarrow> from_query_result e row pre = Inr (row_model e y)"
    and "y = null_row \<Longrightarrow> from_query_result_optional e row pre = Inr None"
proof -
  have "try_map (\<lambda>col. try_get_nullable missing row pre (sc_name col)) (en_columns e) = Inr (row_model e y)"
    unfolding row_model_def by (rule try_map_Inr) (rule try_get_found[OF assms(2)])
  then have eq: "en_from_row e row pre =
      (if list_all (\<lambda>v. v = None) (row_model e y) then Inl (TryGetNull ''All fields of nested model are null'')
       else try_map field_value (zip (en_columns e) (row_model e y)))"
    by (simp add: derived_fields(2)[OF assms(1)] derived_from_row_def)
  show "from_query_result_optional e row pre = Inr None" if "y = null_row"
    using that by (simp add: from_query_result_optional_def from_query_result_def eq row_model_def null_row_def list_all_iff)
  assume r: "readable e y"
  have "try_map field_value (zip (en_columns e) (row_model e y)) = Inr (map snd (zip (en_columns e) (row_model e y)))"
    using r by (intro try_map_Inr) (auto simp: field_value_def readable_def row_model_def list_all_iff zip_map2 zip_same_conv_map)
  moreover have "\<not> list_all (\<lambda>v. v = None) (row_model e y)"
    using r by (auto simp: readable_def row_model_def list_all_iff list_ex_iff)
  ultimately show "from_query_result e row pre = Inr (row_model e y)"
    by (simp add: from_query_result_def eq row_model_def)
qed

section \<open>The queries as joins\<close>

lemma eval_expr_col [simp]: "eval_expr sql env (expr_col c) = env c"
  by (cases c) (simp add: expr_col_def)

lemma eval_select_as [simp]: "eval_expr sql env (select_as col x) = eval_expr sql env x"
  by (simp add: select_as_def cast_enum_as_def select_enum_as_def Let_def split: option.splits column_kind.splits)

lemma eval_save_as [simp]: "eval_expr sql env (save_as col x) = eval_expr sql env x"
  by (simp add: save_as_def cast_enum_as_def save_enum_as_def Let_def
      split: option.splits column_kind.splits expr.splits sea_value.splits)

text \<open>The columns of an entity selected under a prefix, from the table named \<open>t\<close>.\<close>

definition prefixed :: "string \<Rightarrow> string \<Rightarrow> select_column list \<Rightarrow> ('v, 'u) select_expr list" where
  "prefixed pre t cols =
    map (\<lambda>col. \<lparr>se_expr = select_as col (expr_col (t, sc_name col)), se_alias = Some (pre @ sc_name col)\<rparr>) cols"

lemma result_prefixed: "result_row sql (prefixed pre t cols) env = cells pre cols (alias_row env t)"
  by (simp add: result_row_def prefixed_def cells_def result_name_def alias_row_def comp_def)

lemma result_row_append: "result_row sql (es @ fs) env = result_row sql es env @ result_row sql fs env"
  by (simp add: result_row_def)

lemma select_as_cases:
  "select_as col x = x \<or> (\<exists>ty. select_as col x = ExprAsEnum ty x) \<or> (\<exists>ty. select_as col x = ExprCast x ty)"
  by (simp add: select_as_def cast_enum_as_def select_enum_as_def Let_def split: option.splits)

lemma expr_into_select: "se_expr (into_select_expr e col) = select_as col (expr_col (as_column_ref e col))"
  by (simp add: into_select_expr_def Let_def)

lemma into_select:
  fixes se :: "('v, 'u) select_expr"
  assumes "into_select_expr e col = se"
  shows "se_expr se = select_as col (expr_col (as_column_ref e col)) \<and>
    (se_alias se = Some (sc_name col) \<or> se_alias se = None \<and> alias_of_expr (se_expr se) = Ret (sc_name col))"
  using select_as_cases[of col "expr_col (as_column_ref e col) :: ('v, 'u) expr"] unfolding assms[symmetric]
  by (elim disjE exE) (simp_all add: into_select_expr_def Let_def alias_of_expr_def expr_col_def as_column_ref_def)

lemma into_select_name:
  "into_select_expr e col = se \<Longrightarrow> result_name se = sc_name col"
  "into_select_expr e col = se \<Longrightarrow> alias_select pre se =
    Ret \<lparr>se_expr = select_as col (expr_col (en_table e, sc_name col)), se_alias = Some (pre @ sc_name col)\<rparr>"
  using into_select[of e col se]
  by (cases se; auto simp: result_name_def alias_select_def as_column_ref_def)+

lemmas result_name_into = into_select_name(1)[OF refl]

lemmas alias_select_column = into_select_name(2)[OF refl]

lemma result_column_list: "result_row sql (column_list e) env = cells [] (en_columns e) (alias_row env (en_table e))"
  by (simp add: result_row_def column_list_def cells_def expr_into_select alias_row_def as_column_ref_def
      comp_def result_name_into)

text \<open>Aliasing the columns \<open>find\<close> selects never panics.\<close>

lemma apply_alias_columns:
  fixes s :: "('v, 'u) select"
  assumes "sq_selects (sel_query s) = column_list e"
  shows "apply_alias pre s = Ret (on_query (\<lambda>q. q\<lparr>sq_selects := prefixed pre (en_table e) (en_columns e)\<rparr>) s)"
proof -
  have "run_map (alias_select pre) (column_list e) = Ret (prefixed pre (en_table e) (en_columns e) :: ('v, 'u) select_expr list)"
    unfolding column_list_def prefixed_def
    by (simp add: run_map_Ret_iff list_all2_conv_all_nth alias_select_column)
  then show ?thesis by (simp add: apply_alias_def assms)
qed

end
