(* ===== verification/SelectChains.thy ===== *)
theory SelectChains
  imports SelectSpec
begin

text \<open>
  The two shapes of query over a chain of joins. Backwards from the far table to one row of the first,
  as \<open>find_linked\<close> and \<open>find_related\<close> of a model build it; forwards from the first table by left joins, with both
  ends selected, as \<open>find_with_linked\<close> and \<open>find_with_related\<close> do. Both are stated for any joins that
  follow a chain, then used for the joins the code builds.
\<close>

section \<open>The database\<close>

text \<open>A query without the clauses the evaluation leaves out, and a database that answers such queries with
  their rows, in some order.\<close>

definition plain_query :: "('v, 'u) select_query \<Rightarrow> bool" where
  "plain_query q \<longleftrightarrow> sq_distinct q = None \<and> sq_groups q = [] \<and> sq_having q = [] \<and> sq_limit q = None \<and> sq_offset q = None"

definition answers :: "('v, 'u, 'w) select_db \<Rightarrow> ('v, 'u) sql \<Rightarrow> bool" where
  "answers db sql \<longleftrightarrow> (\<forall>q w. plain_query q \<longrightarrow>
    (\<exists>rows. sd_query_all db q w = (Inr rows, w) \<and> mset rows = mset (sql_rows sql q)))"

lemma ref_en_table [simp]: "ref_name (en_table_ref e) = en_table e"
  by (simp add: ref_name_def en_table_ref_def split: option.splits)

lemma bound_en_rows:
  "bound_rows sql (en_table_ref e) env = map (\<lambda>r. bind_row (en_table e) r env) (entity_rows sql e)"
  by (simp add: bound_rows_def entity_rows_def)

lemma scopes_of_joins:
  assumes "sq_from q = [en_table_ref e]" "list_all (\<lambda>j. je_type j = InnerJoin \<or> je_type j = LeftJoin) (sq_joins q)"
  shows "select_scopes sql outer q = filter (\<lambda>env. list_all (cond_holds sql env) (sq_where q))
    (concat (map (\<lambda>r. run_joins sql (sq_joins q) (bind_row (en_table e) r outer)) (entity_rows sql e)))"
  by (simp add: select_scopes_def fold_join_rows[OF assms(2)] from_rows_def bound_en_rows assms(1) comp_def)

section \<open>Backwards\<close>

lemma mset_map_filter: "mset (map g (filter P xs)) = (\<Sum>x\<leftarrow>xs. if P x then {#g x#} else {#})"
  by (induction xs) simp_all

lemma back_query_sum:
  assumes from_f: "sq_from q = [en_table_ref f]" and cols: "sq_selects q = column_list f"
    and inner: "list_all (\<lambda>j. je_type j = InnerJoin) (sq_joins q)"
    and chain: "joins_follow sql (en_table f) (sq_joins q) (reverse_hops A hs)"
    and names: "en_table f \<notin> join_alias ` set (sq_joins q)" and far: "far_rows A hs = entity_rows sql f"
    and cond: "\<And>env. list_all (cond_holds sql env) (sq_where q) \<longleftrightarrow> sel (alias_row env (last_alias (en_table f) (sq_joins q)))"
  shows "mset (sql_rows sql q) =
    (\<Sum>a\<leftarrow>A. \<Sum>b\<leftarrow>follow hs a. if sel a then {#cells [] (en_columns f) b#} else {#})"
proof -
  let ?js = "sq_joins q" and ?g = "cells [] (en_columns f)"
  let ?last = "last_alias (en_table f) ?js" and ?t = "en_table f"
  have both: "list_all (\<lambda>j. je_type j = InnerJoin \<or> je_type j = LeftJoin) ?js"
    and noleft: "list_all (\<lambda>j. je_type j \<noteq> LeftJoin) ?js"
    using inner by (auto simp: list_all_iff)
  have run: "(\<Sum>env\<leftarrow>run_joins sql ?js (bind_row ?t b env0). if sel (alias_row env ?last) then {#?g (alias_row env ?t)#} else {#})
      = (\<Sum>a\<leftarrow>follow (reverse_hops A hs) b. if sel a then {#?g b#} else {#})" for b env0
  proof -
    let ?k = "\<lambda>(y, a). if sel a then {#?g y#} else {#}"
    have "map ?k (map (\<lambda>e. (alias_row e ?t, alias_row e ?last)) (run_joins sql ?js (bind_row ?t b env0)))
      = map ?k (map (Pair b) (follow (reverse_hops A hs) b))"
      by (subst run_inner_chain[OF chain noleft names]) simp
    then show ?thesis by (simp add: comp_def)
  qed
  have "mset (sql_rows sql q) = (\<Sum>b\<leftarrow>entity_rows sql f. \<Sum>env\<leftarrow>run_joins sql ?js (bind_row ?t b (\<lambda>_. None)).
      if sel (alias_row env ?last) then {#?g (alias_row env ?t)#} else {#})"
    by (simp add: sql_rows_def cols scopes_of_joins[OF from_f both] result_column_list[abs_def] mset_map_filter
        sum_list_concat_map cond del: mset_map)
  then show ?thesis by (subst follow_reverse) (simp add: run far del: mset_map)
qed

lemmas back_query = trans[OF back_query_sum follow_back_to]

lemma map_snd_cells [simp]: "map snd (cells pre cols y) = map (\<lambda>col. y (sc_name col)) cols"
  by (simp add: cells_def comp_def)

lemma select_model_cells:
  assumes "derived missing f" "readable f y"
  shows "select_model f (cells [] (en_columns f) y) = Inr (map snd (cells [] (en_columns f) y))"
  using read_cells(1)[OF assms(1) found_cells[OF derived_fields(4)[OF assms(1)]] assms(2)]
  by (simp add: select_model_def row_model_def)

lemma select_all_back:
  assumes db: "answers db sql" "plain_query (sel_query s)"
    and rows: "mset (sql_rows sql (sel_query s)) = mset (map (cells [] (en_columns f)) ys)"
    and f: "derived missing f" "\<And>y. y \<in> set ys \<Longrightarrow> readable f y"
  shows "\<exists>ms. select_all db f s w = Ret (Inr ms, w) \<and> mset ms = mset (map (row_model f) ys)"
proof -
  obtain rs where rs: "sd_query_all db (sel_query s) w = (Inr rs, w)" "mset rs = mset (map (cells [] (en_columns f)) ys)"
    using db unfolding answers_def rows[symmetric] by blast
  have "set rs = cells [] (en_columns f) ` set ys" using mset_eq_setD[OF rs(2)] by simp
  then have "try_map (select_model f) rs = Inr (map (map snd) rs)"
    using select_model_cells[OF f(1)] f(2) by (intro try_map_Inr) auto
  then have "select_all db f s w = Ret (Inr (map (map snd) rs), w)"
    by (simp add: select_all_def selector_all_def act_bind_io(1)[of "sd_query_all db _", OF rs(1)] act_res_def)
  moreover have "mset (map (map snd) rs) = mset (map (row_model f) ys)"
    using rs(2) by (simp add: row_model_def[abs_def] image_mset.compositionality comp_def)
  ultimately show ?thesis by blast
qed

section \<open>Forwards\<close>

lemma run_left_last:
  assumes "joins_follow sql prev js hs" "list_all (\<lambda>j. je_type j = LeftJoin) js"
    "e \<in> set (run_joins sql js env)" "alias_row env prev \<in> insert null_row (set A)"
  shows "alias_row e (last_alias prev js) \<in> insert null_row (set (far_rows A hs))"
  using assms
proof (induction sql prev js hs arbitrary: env A rule: joins_follow.induct)
  case (2 sql prev j js rows P hs)
  then obtain e1 where e1: "e1 \<in> set (left_rows sql j env)" "e \<in> set (run_joins sql js e1)" by auto
  have "alias_row e1 (join_alias j) \<in> insert null_row (set rows)"
    using e1(1) "2.prems"(1) by (auto simp: left_rows_def matches_def bound_rows_def split: if_splits)
  then show ?case using "2.IH"[OF _ _ e1(2), of rows] "2.prems" by simp
qed auto

text \<open>The pair of models of a result row, \<open>n\<close> columns of it the first one's.\<close>

definition pair_of :: "nat \<Rightarrow> 'v result_row \<Rightarrow> 'v model \<times> 'v model option" where
  "pair_of n row =
    (take n (map snd row), if list_all (\<lambda>v. v = None) (drop n (map snd row)) then None else Some (drop n (map snd row)))"

definition model_opt :: "('m, 'v) select_entity \<Rightarrow> 'v table_row \<Rightarrow> 'v model option" where
  "model_opt f y = (if y = null_row then None else Some (row_model f y))"

lemma readable_not_null: "readable f y \<Longrightarrow> y \<noteq> null_row \<and> \<not> list_all (\<lambda>v. v = None) (row_model f y)"
  by (auto simp: readable_def null_row_def row_model_def list_all_iff list_ex_iff)

lemma select_two_cells:
  assumes e: "derived missing e" "readable e x" and f: "derived missing f" "y = null_row \<or> readable f y"
  shows "select_two_model e f (cells ''A_'' (en_columns e) x @ cells ''B_'' (en_columns f) y)
      = Inr (pair_of (length (en_columns e)) (cells ''A_'' (en_columns e) x @ cells ''B_'' (en_columns f) y))"
    and "pair_of (length (en_columns e)) (cells ''A_'' (en_columns e) x @ cells ''B_'' (en_columns f) y)
      = (row_model e x, model_opt f y)"
proof -
  let ?row = "cells ''A_'' (en_columns e) x @ cells ''B_'' (en_columns f) y"
  note finds = found_two[OF derived_fields(4)[OF e(1)] derived_fields(4)[OF f(1)], of x y]
  have "from_query_result e ?row ''A_'' = Inr (row_model e x)" by (rule read_cells(1)[OF e(1) finds(1) e(2)])
  moreover have "from_query_result_optional f ?row ''B_'' = Inr (model_opt f y)"
    using f(2) read_cells[OF f(1) finds(2)] readable_not_null[of f y]
    by (auto simp: model_opt_def from_query_result_optional_def)
  ultimately have "select_two_model e f ?row = Inr (row_model e x, model_opt f y)"
    by (simp add: select_two_model_def)
  moreover show pair: "pair_of (length (en_columns e)) ?row = (row_model e x, model_opt f y)"
    using f(2) readable_not_null[of f y]
    by (auto simp: pair_of_def row_model_def model_opt_def null_row_def list_all_iff)
  ultimately show "select_two_model e f ?row = Inr (pair_of (length (en_columns e)) ?row)" by simp
qed


text \<open>The related models of one entry, as a sum over the rows, and the entries of the consolidation.\<close>

lemma mset_somes_rows:
  "mset (somes (rows_with key l ps)) =
    (\<Sum>p\<leftarrow>ps. if key (fst p) = key l then (case snd p of Some m \<Rightarrow> {#m#} | None \<Rightarrow> {#}) else {#})"
  by (induction ps) (auto simp: rows_with_def split: option.splits)

lemma sum_list_mset_cong: "mset xs = mset ys \<Longrightarrow> (\<Sum>x\<leftarrow>xs. f x :: 'a :: comm_monoid_add) = (\<Sum>x\<leftarrow>ys. f x)"
  by (metis mset_map sum_mset_sum_list)

lemma first_by_mset:
  assumes "distinct (map key ms)" "set xs = set ms"
  shows "mset (first_by key xs) = mset ms"
proof -
  have "set (first_by key xs) = set ms"
  proof (intro equalityI subsetI)
    fix m assume "m \<in> set ms"
    then obtain m' where "m' \<in> set (first_by key xs)" "key m' = key m"
      using first_by_keys[of key xs] assms(2) by (metis image_iff)
    moreover from this have "m' = m"
      using \<open>m \<in> set ms\<close> assms set_first_by_subset[of key xs] by (auto simp: distinct_map inj_on_def)
    ultimately show "m \<in> set (first_by key xs)" by simp
  qed (use set_first_by_subset[of key xs] assms(2) in auto)
  moreover have "distinct (first_by key xs)" using first_by_distinct[of key xs] by (simp add: distinct_map)
  moreover have "distinct ms" using assms(1) by (simp add: distinct_map)
  ultimately show ?thesis by (simp add: set_eq_iff_mset_eq_distinct)
qed

lemma forward_rows:
  assumes db: "answers db sql" "plain_query q" and from_e: "sq_from q = [en_table_ref e]" and wh: "sq_where q = []"
    and cols: "sq_selects q = prefixed ''A_'' (en_table e) (en_columns e)
      @ prefixed ''B_'' (last_alias (en_table e) (sq_joins q)) (en_columns f)"
    and left: "list_all (\<lambda>j. je_type j = LeftJoin) (sq_joins q)" and ne: "sq_joins q \<noteq> []"
    and chain: "joins_follow sql (en_table e) (sq_joins q) hs" and names: "en_table e \<notin> join_alias ` set (sq_joins q)"
    and e: "stored sql missing e" and f: "derived missing f"
    and far: "list_all (readable f) (far_rows (entity_rows sql e) hs)"
  shows "\<exists>ps. selector_all db (select_two_model e f) q w = Ret (Inr ps, w) \<and>
    mset ps = mset (concat (map (\<lambda>x. map (\<lambda>env. (row_model e x, model_opt f (alias_row env (last_alias (en_table e) (sq_joins q)))))
      (run_joins sql (sq_joins q) (bind_row (en_table e) x (\<lambda>_. None)))) (entity_rows sql e)))"
proof -
  let ?js = "sq_joins q" and ?last = "last_alias (en_table e) (sq_joins q)" and ?n = "length (en_columns e)"
  let ?A = "entity_rows sql e" and ?run = "\<lambda>x. run_joins sql (sq_joins q) (bind_row (en_table e) x (\<lambda>_. None))"
  let ?row = "\<lambda>env. cells ''A_'' (en_columns e) (alias_row env (en_table e)) @ cells ''B_'' (en_columns f) (alias_row env ?last)"
  have both: "list_all (\<lambda>j. je_type j = InnerJoin \<or> je_type j = LeftJoin) ?js" using left by (auto simp: list_all_iff)
  have sql_eq: "sql_rows sql q = map ?row (concat (map ?run ?A))"
    by (simp add: sql_rows_def scopes_of_joins[OF from_e both] wh cols result_row_append result_prefixed)
  have conv: "select_two_model e f (?row env) = Inr (pair_of ?n (?row env)) \<and>
      pair_of ?n (?row env) = (row_model e x, model_opt f (alias_row env ?last))"
    if x: "x \<in> set ?A" and env: "env \<in> set (?run x)" for x env
  proof -
    have eq: "alias_row env (en_table e) = x" using run_joins_keep[OF names env] by simp
    have "alias_row env ?last \<in> insert null_row (set (far_rows ?A hs))"
      by (rule run_left_last[OF chain left env]) (simp add: x)
    then have "alias_row env ?last = null_row \<or> readable f (alias_row env ?last)" using far by (auto simp: list_all_iff)
    moreover have "derived missing e" "readable e x" using e x by (auto simp: stored_def list_all_iff)
    ultimately show ?thesis using select_two_cells[of missing e x f] f unfolding eq by blast
  qed
  obtain rs where rs: "sd_query_all db q w = (Inr rs, w)" "mset rs = mset (map ?row (concat (map ?run ?A)))"
    using db unfolding answers_def sql_eq[symmetric] by blast
  have "set rs = ?row ` set (concat (map ?run ?A))" using mset_eq_setD[OF rs(2)] by simp
  then have "try_map (select_two_model e f) rs = Inr (map (pair_of ?n) rs)"
    using conv by (intro try_map_Inr) auto
  then have all: "selector_all db (select_two_model e f) q w = Ret (Inr (map (pair_of ?n) rs), w)"
    by (simp add: selector_all_def act_bind_io(1)[of "sd_query_all db _", OF rs(1)] act_res_def)
  have same: "mset (map (pair_of ?n) rs) = mset (map (pair_of ?n) (map ?row (concat (map ?run ?A))))"
    using rs(2) by (metis mset_map)
  have "map (pair_of ?n) (map ?row (concat (map ?run ?A)))
      = concat (map (\<lambda>x. map (\<lambda>env. (row_model e x, model_opt f (alias_row env ?last))) (?run x)) ?A)"
    using conv by (simp add: map_concat comp_def cong: map_cong)
  from same[unfolded this] show ?thesis by (intro exI conjI) (rule all)
qed

lemma forward_groups:
  assumes db: "answers db sql" "plain_query q" and from_e: "sq_from q = [en_table_ref e]" and wh: "sq_where q = []"
    and cols: "sq_selects q = prefixed ''A_'' (en_table e) (en_columns e)
      @ prefixed ''B_'' (last_alias (en_table e) (sq_joins q)) (en_columns f)"
    and left: "list_all (\<lambda>j. je_type j = LeftJoin) (sq_joins q)" and ne: "sq_joins q \<noteq> []"
    and chain: "joins_follow sql (en_table e) (sq_joins q) hs" and names: "en_table e \<notin> join_alias ` set (sq_joins q)"
    and e: "stored sql missing e" and f: "derived missing f"
    and far: "list_all (readable f) (far_rows (entity_rows sql e) hs)"
    and safe: "list_all (\<lambda>(rows, P). list_all (\<lambda>r. \<not> P null_row r) rows) (tl hs)"
  shows "\<exists>res. two_many_all db e f q w = Ret (Inr res, w) \<and>
    mset (map fst res) = mset (map (row_model e) (entity_rows sql e)) \<and>
    (\<forall>x\<in>set (entity_rows sql e). \<forall>ns. (row_model e x, ns) \<in> set res \<longrightarrow>
      mset ns = mset (map (row_model f) (follow hs x)))"
proof -
  let ?A = "entity_rows sql e" and ?run = "\<lambda>x. run_joins sql (sq_joins q) (bind_row (en_table e) x (\<lambda>_. None))"
  let ?last = "last_alias (en_table e) (sq_joins q)" and ?key = "pk_values (row_entity e)"
  let ?pairs = "concat (map (\<lambda>x. map (\<lambda>env. (row_model e x, model_opt f (alias_row env ?last))) (?run x)) ?A)"
  obtain ps where ps: "selector_all db (select_two_model e f) q w = Ret (Inr ps, w)" "mset ps = mset ?pairs"
    using forward_rows[OF assms(1-12), of w] by blast
  let ?res = "map (\<lambda>l. (l, somes (rows_with ?key l ps))) (first_by ?key (map fst ps))"
  have e': "derived missing e" "distinct (map (key_of e) ?A)" using e by (simp_all add: stored_def)
  have key: "?key (row_model e x) = ?key (row_model e y) \<longleftrightarrow> x = y" if "x \<in> set ?A" "y \<in> set ?A" for x y
    using that e'(2) by (auto simp: pk_values_iff[OF e'(1)] distinct_map inj_on_def)
  have "two_many_all db e f q w = Ret (Inr ?res, w)"
    by (simp add: two_many_all_def act_bind_step(1)[of "selector_all db _ q", OF ps(1)]
        consolidate_grouped[OF arity_ok_derived[OF e'(1)]] act_run_def)
  moreover have "mset (map fst ?res) = mset (map (row_model e) ?A)"
  proof -
    have "set (map fst ps) = set (map fst ?pairs)" using mset_eq_setD[OF ps(2)] by simp
    also have "\<dots> = row_model e ` set ?A" 
      by (simp add: image_UN image_image image_constant_conv run_left_neq_Nil[OF left] UNION_singleton_eq_range)
    finally have "set (map fst ps) = set (map (row_model e) ?A)" by simp
    moreover have "distinct (map ?key (map (row_model e) ?A))"
      using e'(2) key by (auto simp: distinct_map inj_on_def)
    ultimately have "mset (first_by ?key (map fst ps)) = mset (map (row_model e) ?A)" by (intro first_by_mset)
    then show ?thesis by (simp add: comp_def)
  qed
  moreover have "mset (somes (rows_with ?key (row_model e x) ps)) = mset (map (row_model f) (follow hs x))"
    if x: "x \<in> set ?A" for x
  proof -
    let ?k = "\<lambda>y. case model_opt f y of Some m \<Rightarrow> {#m#} | None \<Rightarrow> {#}"
    have "mset (somes (rows_with ?key (row_model e x) ps))
      = (\<Sum>a\<leftarrow>?A. \<Sum>env\<leftarrow>?run a. if ?key (row_model e a) = ?key (row_model e x) then ?k (alias_row env ?last) else {#})"
      unfolding mset_somes_rows sum_list_mset_cong[OF ps(2)] sum_list_concat_map by (simp only: map_map comp_def fst_conv snd_conv)
    also have "\<dots> = (\<Sum>env\<leftarrow>?run x. ?k (alias_row env ?last))"
      using e'(2) by (subst sum_list_only[of _ x]) (auto simp: x key distinct_map)
    also have "\<dots> = (\<Sum>y\<leftarrow>follow hs x. ?k y)"
      using run_left_chain[OF chain left names safe, where k = "\<lambda>_. ?k"] by (simp add: model_opt_def)
    also have "\<dots> = (\<Sum>y\<leftarrow>follow hs x. {#row_model f y#})"
      using set_follow_far[OF x, of hs] far readable_not_null[of f]
      by (intro arg_cong[of _ _ sum_list] map_cong refl) (auto simp: model_opt_def list_all_iff)
    finally show ?thesis by (simp only: sum_list_mset_single)
  qed
  ultimately show ?thesis by (intro exI[of _ ?res]) auto
qed

end
