(* ===== verification/SelectExt.thy ===== *)
theory SelectExt
  imports SelectChains Paginator
begin

text \<open>
  \<open>SelectExt\<close> of \<open>src/executor/select_ext.rs\<close>: the test whether a select finds anything. The statement is
  cut down to \<open>SELECT 1\<close> without order, limit and offset, and asked for one row.
\<close>

definition into_exists_query :: "('v, 'u) select_query \<Rightarrow> ('v, 'u) select_query" where
  "into_exists_query stmt =
    (let stmt = stmt\<lparr>sq_selects := []\<rparr>;
         stmt = query_expr \<lparr>se_expr = ExprCust ''1'', se_alias = None\<rparr> stmt;
         stmt = stmt\<lparr>sq_limit := None\<rparr>;
         stmt = stmt\<lparr>sq_offset := None\<rparr>
     in stmt\<lparr>sq_orders := []\<rparr>)"

definition select_exists :: "('v, 'u, 'w) select_db \<Rightarrow> ('v, 'u) select_query \<Rightarrow> (bool, 'w) act" where
  "select_exists db q =
    act_bind (act_io (sd_query_one db (into_exists_query q))) (\<lambda>row. act_ret (row \<noteq> None))"

text \<open>The expression of a raw statement, with the statement as a subquery.\<close>

definition raw_exists_sql :: "string \<Rightarrow> string" where
  "raw_exists_sql sql =
    (let sub_query_sql = trim (rev (dropWhile (\<lambda>c. c = CHR '';'') (rev (trim sql))))
     in ''1 FROM ('' @ sub_query_sql @ '') AS sub_query LIMIT 1'')"

text \<open>A database that answers a query for one row with one of its rows, if there is any.\<close>

definition answers_one :: "('v, 'u, 'w) select_db \<Rightarrow> ('v, 'u) sql \<Rightarrow> bool" where
  "answers_one db sql \<longleftrightarrow> (\<forall>q w. plain_query q \<longrightarrow>
    (\<exists>row. sd_query_one db q w = (Inr row, w) \<and> (row = None \<longleftrightarrow> sql_rows sql q = []) \<and>
      (\<forall>r. row = Some r \<longrightarrow> r \<in> set (sql_rows sql q))))"

lemma into_exists_query_parts [simp]:
  "sq_where (into_exists_query q) = sq_where q" "sq_joins (into_exists_query q) = sq_joins q"
  "sq_from (into_exists_query q) = sq_from q" "sq_limit (into_exists_query q) = None"
  "sq_offset (into_exists_query q) = None" "sq_distinct (into_exists_query q) = sq_distinct q"
  "sq_groups (into_exists_query q) = sq_groups q" "sq_having (into_exists_query q) = sq_having q"
  by (simp_all add: into_exists_query_def query_expr_def)

text \<open>The test agrees with the rows the query would answer, read or not: columns that do not decode do not matter.
  The query's own limit and offset are ignored.\<close>

lemma select_exists_agrees:
  assumes db: "answers_one db sql" and q: "plain_query (q\<lparr>sq_limit := None, sq_offset := None\<rparr>)"
  shows "select_exists db q w = Ret (Inr (sql_rows sql q \<noteq> []), w)"
proof -
  have "plain_query (into_exists_query q)" using q by (simp add: plain_query_def)
  then obtain row where row: "sd_query_one db (into_exists_query q) w = (Inr row, w)"
    "row = None \<longleftrightarrow> sql_rows sql (into_exists_query q) = []" using db unfolding answers_one_def by blast
  moreover have "sql_rows sql (into_exists_query q) = [] \<longleftrightarrow> sql_rows sql q = []"
    by (simp add: sql_rows_def select_scopes_def)
  ultimately show ?thesis
    by (cases row) (simp_all add: select_exists_def act_bind_io(1)[of "sd_query_one db _", OF row(1)] act_ret_def)
qed

text \<open>With an offset beyond the rows, \<open>one\<close> finds nothing where \<open>exists\<close> says there is something.\<close>

lemma exists_ignores_offset:
  "select_exists db (query_offset n q) w = select_exists db q w"
  by (simp add: select_exists_def into_exists_query_def query_offset_def query_expr_def Let_def split: option.splits)

end
