(* ===== verification/SelectProps.thy ===== *)
theory SelectProps
  imports SelectChains
begin

text \<open>
  The properties of the select builders: what the queries along a chain of relations answer, for linked
  entities (\<open>Linked\<close>) and for related ones (\<open>Related\<close>, direct or through a junction table), and the
  tests that show where the two differ.
\<close>

section \<open>Chains of relations\<close>

fun table_part :: "table_name \<Rightarrow> string" where
  "table_part (TableName s t) = t"

fun chain_between :: "table_name \<Rightarrow> 'u relation_def list \<Rightarrow> table_name \<Rightarrow> bool" where
  "chain_between a [] b \<longleftrightarrow> a = b"
| "chain_between a (rel # rels) b \<longleftrightarrow> ref_table (from_tbl rel) = a \<and> chain_between (ref_table (to_tbl rel)) rels b"

text \<open>The rows two related rows are: equal keys, and the relation's own condition, which must not depend on
  the names the tables go by.\<close>

definition pair_scope :: "'v table_row \<Rightarrow> 'v table_row \<Rightarrow> 'v scope" where
  "pair_scope x y = bind_row ''to'' y (bind_row ''from'' x (\<lambda>_. None))"

definition uniform :: "('v, 'u) sql \<Rightarrow> ('v, 'u) test relation_def \<Rightarrow> bool" where
  "uniform sql rel \<longleftrightarrow> (\<forall>f. on_condition rel = Some f \<longrightarrow> (\<forall>a b env. a \<noteq> b \<longrightarrow>
    cond_holds sql env (f a b) = cond_holds sql (pair_scope (alias_row env a) (alias_row env b)) (f ''from'' ''to'')))"

definition keys_equal :: "'u relation_def \<Rightarrow> 'v table_row \<Rightarrow> 'v table_row \<Rightarrow> bool" where
  "keys_equal rel x y \<longleftrightarrow>
    list_all (\<lambda>(k, c). x k \<noteq> None \<and> x k = y c) (zip (columns (from_col rel)) (columns (to_col rel)))"

definition extra_holds :: "('v, 'u) sql \<Rightarrow> ('v, 'u) test relation_def \<Rightarrow> 'v table_row \<Rightarrow> 'v table_row \<Rightarrow> bool" where
  "extra_holds sql rel x y \<longleftrightarrow>
    (case on_condition rel of None \<Rightarrow> True | Some f \<Rightarrow> cond_holds sql (pair_scope x y) (f ''from'' ''to''))"

definition link_holds :: "('v, 'u) sql \<Rightarrow> ('v, 'u) test relation_def \<Rightarrow> 'v table_row \<Rightarrow> 'v table_row \<Rightarrow> bool" where
  "link_holds sql rel x y \<longleftrightarrow> keys_equal rel x y \<and> extra_holds sql rel x y"

definition related_holds :: "('v, 'u) sql \<Rightarrow> ('v, 'u) test relation_def \<Rightarrow> 'v table_row \<Rightarrow> 'v table_row \<Rightarrow> bool" where
  "related_holds sql rel x y \<longleftrightarrow>
    (if condition_type rel = AnyType \<and> on_condition rel \<noteq> None then keys_equal rel x y \<or> extra_holds sql rel x y
     else keys_equal rel x y \<and> extra_holds sql rel x y)"

text \<open>The hops of a chain of relations, each with its meaning.\<close>

definition hops ::
  "('v, 'u) sql \<Rightarrow> (('v, 'u) sql \<Rightarrow> ('v, 'u) test relation_def \<Rightarrow> 'v table_row \<Rightarrow> 'v table_row \<Rightarrow> bool) \<Rightarrow>
    ('v, 'u) test relation_def list \<Rightarrow> 'v table_row hop list" where
  "hops sql holds rels = map (\<lambda>rel. (sql_tables sql (ref_table (to_tbl rel)), holds sql rel)) rels"

definition has_keys :: "'u relation_def \<Rightarrow> bool" where
  "has_keys rel \<longleftrightarrow> zip (columns (from_col rel)) (columns (to_col rel)) \<noteq> []"

lemma keys_equal_holds:
  "cond_holds sql env (join_tbl_on_condition a b (from_col rel) (to_col rel)) \<longleftrightarrow>
    keys_equal rel (alias_row env a) (alias_row env b)"
  by (simp add: join_cond_all keys_equal_def list.pred_map comp_def alias_row_def split_def)

lemma uniformD:
  "uniform sql rel \<Longrightarrow> on_condition rel = Some f \<Longrightarrow> a \<noteq> b \<Longrightarrow>
    cond_holds sql env (f a b) = cond_holds sql (pair_scope (alias_row env a) (alias_row env b)) (f ''from'' ''to'')"
  unfolding uniform_def by blast

lemma linked_condition_holds:
  assumes "uniform sql rel" "a \<noteq> b"
  shows "cond_holds sql env (linked_condition a b rel) \<longleftrightarrow> link_holds sql rel (alias_row env a) (alias_row env b)"
  using uniformD[OF assms(1) _ assms(2)]
  by (cases "on_condition rel") (simp_all add: linked_condition_def link_holds_def extra_holds_def keys_equal_holds)

lemma relation_condition_holds:
  assumes "uniform sql rel" "ref_name (from_tbl rel) \<noteq> ref_name (to_tbl rel)"
  shows "cond_holds sql env (relation_condition rel) \<longleftrightarrow>
    related_holds sql rel (alias_row env (ref_name (from_tbl rel))) (alias_row env (ref_name (to_tbl rel)))"
proof -
  have eq: "relation_condition rel = (let from = ref_name (from_tbl rel); to = ref_name (to_tbl rel);
      c0 = (case condition_type rel of AllType \<Rightarrow> CondAll [] | AnyType \<Rightarrow> CondAny []);
      c1 = cond_add c0 (join_tbl_on_condition from to (from_col rel) (to_col rel))
    in case on_condition rel of Some f \<Rightarrow> cond_add c1 (f from to) | None \<Rightarrow> c1)"
    by (simp add: relation_condition_def ref_name_def Let_def)
  show ?thesis
    unfolding eq using uniformD[OF assms(1) _ assms(2)]
    by (cases "on_condition rel"; cases "condition_type rel")
      (simp_all add: related_holds_def extra_holds_def keys_equal_holds Let_def)
qed

lemma far_hops: "chain_between a rels b \<Longrightarrow> far_rows (sql_tables sql a) (hops sql holds rels) = sql_tables sql b"
  by (induction a rels b rule: chain_between.induct) (simp_all add: hops_def)

lemma keys_equal_null: "has_keys rel \<Longrightarrow> \<not> keys_equal rel null_row y"
  by (cases "zip (columns (from_col rel)) (columns (to_col rel))") (auto simp: has_keys_def keys_equal_def null_row_def)

lemma joins_follow_snoc:
  "joins_follow sql prev js hs \<Longrightarrow> sql_tables sql (ref_table (je_table j)) = rows \<Longrightarrow> join_alias j \<noteq> last_alias prev js \<Longrightarrow>
    (\<And>env. cond_holds sql env (je_on j) = P (alias_row env (last_alias prev js)) (alias_row env (join_alias j))) \<Longrightarrow>
    joins_follow sql prev (js @ [j]) (hs @ [(rows, P)])"
  by (induction sql prev js hs rule: joins_follow.induct) simp_all

lemma ref_table_alias [simp]: "ref_table (table_ref_alias t a) = ref_table t" "ref_name (table_ref_alias t a) = a"
  by (cases t; simp add: ref_name_def)+

lemma sea_orm_table_bare: "sea_orm_table t = table_part (ref_table t)"
  by (cases t rule: sea_orm_table.cases) simp

lemma link_alias_inject [simp]: "link_alias i = link_alias j \<longleftrightarrow> i = j"
  by (simp add: link_alias_def)

section \<open>The joins of a linked query\<close>

fun left_links :: "string \<Rightarrow> nat \<Rightarrow> ('v, 'u) test relation_def list \<Rightarrow> ('v, 'u) join_expr list" where
  "left_links prev r [] = []"
| "left_links prev r (rel # rels) =
    \<lparr>je_type = LeftJoin, je_table = table_ref_alias (to_tbl rel) (link_alias r),
     je_on = linked_condition prev (link_alias r) rel\<rparr> # left_links (link_alias r) (Suc r) rels"

fun back_links :: "string \<Rightarrow> nat \<Rightarrow> ('v, 'u) test relation_def list \<Rightarrow> ('v, 'u) join_expr list" where
  "back_links prev i [] = []"
| "back_links prev i (rel # rels) =
    \<lparr>je_type = InnerJoin, je_table = table_ref_alias (from_tbl rel) (link_alias i),
     je_on = linked_condition (link_alias i) prev rel\<rparr> # back_links (link_alias i) (Suc i) rels"

lemma left_join_links_rest:
  "sel_linked_index s = Suc r \<Longrightarrow> left_join_links False rels s =
    s\<lparr>sel_query := (sel_query s)\<lparr>sq_joins := sq_joins (sel_query s) @ left_links (link_alias r) (Suc r) rels\<rparr>,
      sel_linked_index := Suc r + length rels\<rparr>"
  by (induction rels arbitrary: s r) (simp_all add: Let_def on_query_def push_join_def)

lemma left_join_links_all:
  "left_join_links True (rel # rels) s =
    s\<lparr>sel_query := (sel_query s)\<lparr>sq_joins := sq_joins (sel_query s)
        @ left_links (sea_orm_table (from_tbl rel)) (sel_linked_index s) (rel # rels)\<rparr>,
      sel_linked_index := sel_linked_index s + length (rel # rels)\<rparr>"
  by (simp add: Let_def on_query_def push_join_def left_join_links_rest)

lemma find_linked_from_rest:
  "find_linked_from (Suc i) rels InnerJoin q = q\<lparr>sq_joins := sq_joins q @ back_links (link_alias i) (Suc i) rels\<rparr>"
  by (induction rels arbitrary: i q) (simp_all add: Let_def push_join_def)

lemma find_linked_from_all:
  "find_linked_from 0 (rel # rels) InnerJoin q =
    q\<lparr>sq_joins := sq_joins q @ back_links (sea_orm_table (to_tbl rel)) 0 (rel # rels)\<rparr>"
  by (simp add: Let_def push_join_def find_linked_from_rest)

lemma left_links_chain:
  "list_all (uniform sql) rels \<Longrightarrow> prev \<notin> link_alias ` {r..<r + length rels} \<Longrightarrow>
    joins_follow sql prev (left_links prev r rels) (hops sql link_holds rels)"
proof (induction prev r rels rule: left_links.induct)
  case (2 prev r rel rels)
  then have "prev \<noteq> link_alias r" by auto
  moreover have "joins_follow sql (link_alias r) (left_links (link_alias r) (Suc r) rels) (hops sql link_holds rels)"
    using 2 by (intro "2.IH") auto
  ultimately show ?case using 2(2) by (simp add: hops_def linked_condition_holds eq_commute)
qed (simp add: hops_def)

lemma left_links_facts:
  "join_alias ` set (left_links prev r rels) = link_alias ` {r..<r + length rels}"
  "list_all (\<lambda>j. je_type j = LeftJoin) (left_links prev r rels)"
  "last_alias prev (left_links prev r rels) = (if rels = [] then prev else link_alias (r + length rels - 1))"
proof (induction prev r rels rule: left_links.induct)
  case (2 prev r rel rels)
  {
    case 1
    have "{r..<r + length (rel # rels)} = insert r {Suc r..<Suc r + length rels}" by auto
    then show ?case using "2.IH"(1) by simp
  next
    case 2
    then show ?case using "2.IH"(2) by simp
  next
    case 3
    then show ?case using "2.IH"(3) by (cases rels) simp_all
  }
qed simp_all


lemma back_links_snoc:
  "back_links prev i (rels @ [rel]) = back_links prev i rels
    @ [\<lparr>je_type = InnerJoin, je_table = table_ref_alias (from_tbl rel) (link_alias (i + length rels)),
        je_on = linked_condition (link_alias (i + length rels))
          (if rels = [] then prev else link_alias (i + length rels - 1)) rel\<rparr>]"
  by (induction prev i rels rule: back_links.induct) (simp_all split: if_splits)

lemma back_links_facts:
  "join_alias ` set (back_links prev i rels) = link_alias ` {i..<i + length rels}"
  "list_all (\<lambda>j. je_type j = InnerJoin) (back_links prev i rels)"
  "last_alias prev (back_links prev i rels) = (if rels = [] then prev else link_alias (i + length rels - 1))"
proof (induction prev i rels rule: back_links.induct)
  case (2 prev i rel rels)
  {
    case 1
    have "{i..<i + length (rel # rels)} = insert i {Suc i..<Suc i + length rels}" by auto
    then show ?case using "2.IH"(1) by simp
  next
    case 2
    then show ?case using "2.IH"(2) by simp
  next
    case 3
    then show ?case using "2.IH"(3) by (cases rels) simp_all
  }
qed simp_all

lemma back_links_chain:
  "chain_between a rels b \<Longrightarrow> list_all (uniform sql) rels \<Longrightarrow> prev \<notin> link_alias ` {..<length rels} \<Longrightarrow>
    joins_follow sql prev (back_links prev 0 (rev rels)) (reverse_hops (sql_tables sql a) (hops sql link_holds rels))"
proof (induction rels arbitrary: a)
  case (Cons rel rels)
  let ?js = "back_links prev 0 (rev rels)" and ?n = "length rels"
  let ?last = "if rels = [] then prev else link_alias (?n - 1)"
  have IH: "joins_follow sql prev ?js (reverse_hops (sql_tables sql (ref_table (to_tbl rel))) (hops sql link_holds rels))"
    using Cons.prems by (intro Cons.IH) auto
  have last: "last_alias prev ?js = ?last" by (simp add: back_links_facts)
  have neq: "link_alias ?n \<noteq> ?last" using Cons.prems(3) by (cases rels) auto
  have "joins_follow sql prev (?js @ [\<lparr>je_type = InnerJoin, je_table = table_ref_alias (from_tbl rel) (link_alias ?n),
        je_on = linked_condition (link_alias ?n) ?last rel\<rparr>])
      (reverse_hops (sql_tables sql (ref_table (to_tbl rel))) (hops sql link_holds rels)
        @ [(sql_tables sql a, \<lambda>y x. link_holds sql rel x y)])"
  proof (intro joins_follow_snoc[OF IH], unfold last)
    show "cond_holds sql env (je_on \<lparr>je_type = InnerJoin, je_table = table_ref_alias (from_tbl rel) (link_alias ?n),
        je_on = linked_condition (link_alias ?n) ?last rel\<rparr>) = link_holds sql rel
        (alias_row env (join_alias \<lparr>je_type = InnerJoin, je_table = table_ref_alias (from_tbl rel) (link_alias ?n),
          je_on = linked_condition (link_alias ?n) ?last rel\<rparr>)) (alias_row env ?last)" for env
      using linked_condition_holds[OF _ neq, of sql rel env] Cons.prems(2) by simp
  qed (use Cons.prems neq in simp_all)
  then show ?case by (cases "rels = []") (simp_all add: hops_def back_links_snoc)
qed (simp add: hops_def)

section \<open>The joins of a related query\<close>

definition related_links :: "'u related \<Rightarrow> 'u relation_def list" where
  "related_links r = (case rl_via r of Some via \<Rightarrow> [via, rl_to r] | None \<Rightarrow> [rl_to r])"

definition unaliased :: "'u relation_def \<Rightarrow> bool" where
  "unaliased rel \<longleftrightarrow> sea_orm_table_alias (from_tbl rel) = None \<and> sea_orm_table_alias (to_tbl rel) = None"

lemma ref_name_unaliased:
  "unaliased rel \<Longrightarrow> ref_name (from_tbl rel) = table_part (ref_table (from_tbl rel))
    \<and> ref_name (to_tbl rel) = table_part (ref_table (to_tbl rel))"
  by (simp add: unaliased_def ref_name_def sea_orm_table_bare)

definition join_of :: "join_type \<Rightarrow> ('v, 'u) test relation_def \<Rightarrow> ('v, 'u) join_expr" where
  "join_of jt rel = \<lparr>je_type = jt, je_table = to_tbl rel, je_on = relation_condition rel\<rparr>"

definition join_of_rev :: "('v, 'u) test relation_def \<Rightarrow> ('v, 'u) join_expr" where
  "join_of_rev rel = \<lparr>je_type = InnerJoin, je_table = from_tbl rel, je_on = relation_condition rel\<rparr>"

lemma join_of_fields [simp]:
  "je_type (join_of jt rel) = jt" "je_table (join_of jt rel) = to_tbl rel" "je_on (join_of jt rel) = relation_condition rel"
  "je_type (join_of_rev rel) = InnerJoin" "je_table (join_of_rev rel) = from_tbl rel"
  "je_on (join_of_rev rel) = relation_condition rel"
  by (simp_all add: join_of_def join_of_rev_def)

lemma join_join_joins:
  "join_join jt (rl_to r) (rl_via r) q = q\<lparr>sq_joins := sq_joins q @ map (join_of jt) (related_links r)\<rparr>"
  "join_join_rev InnerJoin (rl_to r) (rl_via r) q = q\<lparr>sq_joins := sq_joins q @ map join_of_rev (rev (related_links r))\<rparr>"
  by (simp_all add: join_join_def join_join_rev_def query_join_def join_rev_def push_join_def related_links_def
      join_of_def join_of_rev_def Let_def split: option.splits)

definition chain_names :: "table_name \<Rightarrow> 'u relation_def list \<Rightarrow> string list" where
  "chain_names a rels = table_part a # map (\<lambda>rel. table_part (ref_table (to_tbl rel))) rels"

lemma related_left_chain:
  "chain_between a rels b \<Longrightarrow> list_all (uniform sql) rels \<Longrightarrow> list_all unaliased rels \<Longrightarrow> distinct (chain_names a rels) \<Longrightarrow>
    joins_follow sql (table_part a) (map (join_of jt) rels) (hops sql related_holds rels)"
proof (induction a rels b rule: chain_between.induct)
  case (2 a rel rels b)
  let ?to = "ref_table (to_tbl rel)"
  have names: "ref_name (from_tbl rel) = table_part a" "ref_name (to_tbl rel) = table_part ?to"
    using "2.prems"(1,3) ref_name_unaliased[of rel] by auto
  have "table_part a \<noteq> table_part ?to" using "2.prems"(4) by (simp add: chain_names_def)
  moreover have "joins_follow sql (table_part ?to) (map (join_of jt) rels) (hops sql related_holds rels)"
    using "2.prems" by (intro "2.IH") (simp_all add: chain_names_def)
  ultimately show ?case
    using "2.prems"(2) relation_condition_holds[of sql rel]
    by (simp add: hops_def names eq_commute)
qed (simp add: hops_def)

lemma join_of_facts:
  "list_all unaliased rels \<Longrightarrow> join_alias ` set (map (join_of jt) rels) = set (tl (chain_names a rels))"
  "list_all (\<lambda>j. je_type j = jt) (map (join_of jt) rels)"
  by (induction rels) (auto simp: chain_names_def ref_name_unaliased)

lemma last_join_of:
  "chain_between a rels b \<Longrightarrow> list_all unaliased rels \<Longrightarrow> last_alias (table_part a) (map (join_of jt) rels) = table_part b"
  by (induction a rels b rule: chain_between.induct) (auto simp: ref_name_unaliased)

lemma related_back_chain:
  "chain_between a rels b \<Longrightarrow> list_all (uniform sql) rels \<Longrightarrow> list_all unaliased rels \<Longrightarrow> distinct (chain_names a rels) \<Longrightarrow>
    joins_follow sql (table_part b) (map join_of_rev (rev rels)) (reverse_hops (sql_tables sql a) (hops sql related_holds rels))
    \<and> last_alias (table_part b) (map join_of_rev (rev rels)) = table_part a"
proof (induction a rels b rule: chain_between.induct)
  case (2 a rel rels b)
  let ?to = "ref_table (to_tbl rel)" and ?js = "map join_of_rev (rev rels)"
  have names: "ref_name (from_tbl rel) = table_part a" "ref_name (to_tbl rel) = table_part ?to"
    using "2.prems"(1,3) ref_name_unaliased[of rel] by auto
  have neq: "table_part a \<noteq> table_part ?to" using "2.prems"(4) by (simp add: chain_names_def)
  have IH: "joins_follow sql (table_part b) ?js (reverse_hops (sql_tables sql ?to) (hops sql related_holds rels))"
    "last_alias (table_part b) ?js = table_part ?to"
    using "2.IH" "2.prems" by (simp_all add: chain_names_def)
  have "joins_follow sql (table_part b) (?js @ [join_of_rev rel])
      (reverse_hops (sql_tables sql ?to) (hops sql related_holds rels) @ [(sql_tables sql a, \<lambda>y x. related_holds sql rel x y)])"
    using "2.prems" neq relation_condition_holds[of sql rel]
    by (intro joins_follow_snoc[OF IH(1)]) (simp_all add: IH(2) names)
  then show ?case by (simp add: hops_def names)
qed (simp add: hops_def)

lemma join_of_rev_facts:
  "list_all (\<lambda>j. je_type j = InnerJoin) (map join_of_rev rels)"
  "chain_between a rels b \<Longrightarrow> list_all unaliased rels \<Longrightarrow> distinct (chain_names a rels) \<Longrightarrow>
    \<forall>rel\<in>set rels. ref_name (from_tbl rel) \<in> set (butlast (chain_names a rels))"
proof (induction a rels b rule: chain_between.induct)
  case (2 a rel rels b)
  {
    case 1
    then show ?case using "2.IH"(1) by simp
  next
    case 2
    then show ?case using "2.IH"(2) ref_name_unaliased[of rel] by (auto simp: chain_names_def split: if_splits)
  }
qed simp_all

end
