(* ===== verification/SelectAnswers.thy ===== *)
theory SelectAnswers
  imports SelectProps
begin

text \<open>
  What the selects along relations answer, as theorems over the builders of \<open>SelectJoins\<close> and the selectors of
  \<open>SelectExec\<close>, with examples.
\<close>

section \<open>The queries the builders make\<close>

lemmas builder_simps = entity_find_def select_new_def prepare_from_def prepare_select_def on_query_def query_exprs_def
  empty_select_def

lemma entity_find_fields:
  "sq_selects (sel_query (entity_find e)) = column_list e" "sq_from (sel_query (entity_find e)) = [en_table_ref e]"
  "sq_joins (sel_query (entity_find e)) = []" "sq_where (sel_query (entity_find e)) = []"
  "plain_query (sel_query (entity_find e))" "sel_linked_index (entity_find e) = 0" "sq_orders (sel_query (entity_find e)) = []"
  by (simp_all add: builder_simps plain_query_def)

lemma bare_en_table [simp]: "table_part (ref_table (en_table_ref e)) = en_table e"
  by (simp add: en_table_ref_def split: option.splits)

text \<open>Filtering on a model's primary key adds one condition per key column, and nothing else.\<close>

lemma fold_query_filter:
  "fold (\<lambda>col. query_filter (g col)) cols q = q\<lparr>sq_where := sq_where q @ map g cols\<rparr>"
  by (induction cols arbitrary: q) (simp_all add: query_filter_def)

lemma fold_query_expr: "fold (\<lambda>col. query_expr (g col)) cols q = q\<lparr>sq_selects := sq_selects q @ map g cols\<rparr>"
  by (induction cols arbitrary: q) (simp_all add: query_expr_def)

lemma fold_query_order: "fold (\<lambda>col. query_order_by (g col) ord) cols q =
    q\<lparr>sq_orders := sq_orders q @ map (\<lambda>col. (g col, ord, None)) cols\<rparr>"
  by (induction cols arbitrary: q) (simp_all add: query_order_by_def)

lemma key_of_iff: "key_of e y = key_of e x \<longleftrightarrow> list_all (\<lambda>col. y (sc_name col) = x (sc_name col)) (en_primary_key e)"
  by (simp add: key_of_def list_all_iff)

lemma belongs_to_holds:
  assumes "derived missing e" "t = en_table e"
  shows "list_all (cond_holds sql env)
      (map (\<lambda>col. UserCond (column_eq e col (en_get e (row_model e x) (sc_name col)))) (en_primary_key e)) \<longleftrightarrow>
    key_of e (alias_row env t) = key_of e x"
  using assms(2) get_row_model[OF assms(1), of _ x]
  by (auto simp: key_of_iff list_all_iff column_eq_def as_column_ref_def alias_row_def)

lemma belongs_to_alias_holds:
  assumes "derived missing e" "None \<notin> set (key_of e x)"
  shows "list_all (cond_holds sql env)
      (map (\<lambda>col. UserCond (TestEq (t, sc_name col) (ExprValue (en_get e (row_model e x) (sc_name col))))) (en_primary_key e)) \<longleftrightarrow>
    key_of e (alias_row env t) = key_of e x"
  using assms(2) get_row_model[OF assms(1), of _ x]
  by (force simp: key_of_iff list_all_iff alias_row_def key_of_def)

lemma stored_row:
  assumes "stored sql missing e" "x \<in> set (entity_rows sql e)"
  shows "distinct (entity_rows sql e)" "readable e x" "None \<notin> set (key_of e x)"
    "\<And>y. y \<in> set (entity_rows sql e) \<Longrightarrow> key_of e y = key_of e x \<longleftrightarrow> y = x"
  using assms by (auto simp: stored_def list_all_iff distinct_map inj_on_def)

section \<open>Linked entities\<close>

text \<open>The chain of a \<open>Linked\<close> from one entity to another: the relations fit together, their own conditions do
  not depend on table names, the later ones have key columns, and no table has the name of a link alias.\<close>

definition linked_chain ::
  "('v, 'u) sql \<Rightarrow> ('m, 'v) select_entity \<Rightarrow> ('n, 'v) select_entity \<Rightarrow> ('v, 'u) test relation_def list \<Rightarrow> bool" where
  "linked_chain sql e f link \<longleftrightarrow> link \<noteq> [] \<and>
    chain_between (ref_table (en_table_ref e)) link (ref_table (en_table_ref f)) \<and>
    list_all (uniform sql) link \<and> list_all has_keys (tl link) \<and>
    en_table e \<notin> link_alias ` {..<length link} \<and> en_table f \<notin> link_alias ` {..<length link}"

lemma linked_find_query:
  assumes "linked_chain sql e f link"
  shows "sel_query (linked_find f link) =
    (sel_query (entity_find f))\<lparr>sq_joins := back_links (en_table f) 0 (rev link)\<rparr>"
proof -
  obtain rel rels where rev: "rev link = rel # rels" using assms by (cases "rev link") (auto simp: linked_chain_def)
  then have link: "link = rev rels @ [rel]" by (metis rev.simps(2) rev_rev_ident)
  have "chain_between a (rels @ [rel]) b \<Longrightarrow> ref_table (to_tbl rel) = b" for a rels b
    by (induction rels arbitrary: a) simp_all
  then have "sea_orm_table (to_tbl rel) = en_table f"
    using assms link by (auto simp: linked_chain_def sea_orm_table_bare)
  then show ?thesis
    by (simp add: linked_find_def find_linked_def rev find_linked_from_all builder_simps del: find_linked_from.simps back_links.simps)
qed

lemma model_find_linked_query:
  assumes "linked_chain sql e f link"
  obtains s where "model_find_linked checks e f link m = Ret s"
    "sel_query s = (sel_query (entity_find f))\<lparr>sq_joins := back_links (en_table f) 0 (rev link),
      sq_where := map (\<lambda>col. UserCond (TestEq (link_alias (length link - 1), sc_name col)
        (ExprValue (en_get e m (sc_name col))))) (en_primary_key e)\<rparr>"
  using assms that
  by (auto simp: model_find_linked_def usize_pred_def linked_chain_def on_query_def belongs_to_tbl_alias_def
      fold_query_filter linked_find_query[OF assms] entity_find_fields)

lemma find_linked_rows:
  assumes link: "linked_chain sql e f link" and e: "stored sql missing e" and x: "x \<in> set (entity_rows sql e)"
  obtains s where "model_find_linked checks e f link (row_model e x) = Ret s"
    "mset (sql_rows sql (sel_query s)) = mset (map (cells [] (en_columns f)) (follow (hops sql link_holds link) x))"
    "sq_selects (sel_query s) = column_list f" "plain_query (sel_query s)"
proof -
  let ?hs = "hops sql link_holds link" and ?js = "back_links (en_table f) 0 (rev link)"
  obtain s where s: "model_find_linked checks e f link (row_model e x) = Ret s"
    and q: "sel_query s = (sel_query (entity_find f))\<lparr>sq_joins := ?js,
      sq_where := map (\<lambda>col. UserCond (TestEq (link_alias (length link - 1), sc_name col)
        (ExprValue (en_get e (row_model e x) (sc_name col))))) (en_primary_key e)\<rparr>"
    by (rule model_find_linked_query[OF link])
  note lk = link[unfolded linked_chain_def]
  have far: "far_rows (entity_rows sql e) ?hs = entity_rows sql f"
    using lk by (simp add: entity_rows_def far_hops)
  have "mset (sql_rows sql (sel_query s)) = mset (map (cells [] (en_columns f)) (follow ?hs x))"
  proof (rule back_query[where sel = "\<lambda>y. key_of e y = key_of e x" and A = "entity_rows sql e"])
    show "joins_follow sql (en_table f) (sq_joins (sel_query s)) (reverse_hops (entity_rows sql e) ?hs)"
      using back_links_chain[of _ link _ sql "en_table f"] lk by (simp add: q entity_rows_def) blast
    show "en_table f \<notin> join_alias ` set (sq_joins (sel_query s))"
      using lk by (simp add: q back_links_facts lessThan_atLeast0)
    show "list_all (cond_holds sql env) (sq_where (sel_query s)) \<longleftrightarrow>
        key_of e (alias_row env (last_alias (en_table f) (sq_joins (sel_query s)))) = key_of e x" for env
      using lk e stored_row(3)[OF e x] by (simp add: q back_links_facts stored_def belongs_to_alias_holds[of missing])
  qed (use stored_row[OF e x] x far in \<open>simp_all add: q entity_find_fields back_links_facts\<close>)
  moreover have "plain_query (sel_query s)" using entity_find_fields(5)[of f] by (simp add: q plain_query_def)
  ultimately show ?thesis using that[OF s] by (simp add: q entity_find_fields)
qed

lemma find_linked_answers:
  assumes link: "linked_chain sql e f link" and e: "stored sql missing e" and f: "stored sql missing f"
    and db: "answers db sql" and x: "x \<in> set (entity_rows sql e)"
  shows "\<exists>s ms. model_find_linked checks e f link (row_model e x) = Ret s \<and> select_all db f s w = Ret (Inr ms, w) \<and>
    mset ms = mset (map (row_model f) (follow (hops sql link_holds link) x))"
proof -
  let ?hs = "hops sql link_holds link"
  obtain s where s: "model_find_linked checks e f link (row_model e x) = Ret s"
    "mset (sql_rows sql (sel_query s)) = mset (map (cells [] (en_columns f)) (follow ?hs x))"
    "plain_query (sel_query s)"
    by (rule find_linked_rows[OF link e x])
  have "far_rows (entity_rows sql e) ?hs = entity_rows sql f"
    using link by (simp add: entity_rows_def far_hops linked_chain_def)
  then have "derived missing f" "readable f y" if "y \<in> set (follow ?hs x)" for y
    using that set_follow_far[OF x, of ?hs] f by (auto simp: stored_def list_all_iff)
  then show ?thesis using s select_all_back[OF db s(3,2), of missing w] f by (auto simp: stored_def)
qed

lemma left_join_linked_query:
  assumes "linked_chain sql e f link" "en_columns f \<noteq> []"
  obtains s where "left_join_linked checks f link (entity_find e) = Ret s"
    "sel_query s = (sel_query (entity_find e))\<lparr>sq_joins := left_links (en_table e) 0 link,
      sq_selects := prefixed ''A_'' (en_table e) (en_columns e) @ prefixed ''B_'' (link_alias (length link - 1)) (en_columns f)\<rparr>"
proof -
  obtain rel rels where link: "link = rel # rels" using assms by (cases link) (auto simp: linked_chain_def)
  have "sea_orm_table (from_tbl rel) = en_table e" using assms link by (auto simp: linked_chain_def sea_orm_table_bare)
  then have joined: "left_join_links True link (entity_find e) =
      (entity_find e)\<lparr>sel_query := (sel_query (entity_find e))\<lparr>sq_joins := left_links (en_table e) 0 link\<rparr>,
        sel_linked_index := length link\<rparr>"
    unfolding link left_join_links_all by (simp add: entity_find_fields)
  have aliased: "apply_alias ''A_'' (left_join_links True link (entity_find e)) =
      Ret (on_query (\<lambda>q. q\<lparr>sq_selects := prefixed ''A_'' (en_table e) (en_columns e)\<rparr>) (left_join_links True link (entity_find e)))"
    by (rule apply_alias_columns) (simp add: joined entity_find_fields)
  have "length link \<noteq> 0" by (simp add: link)
  then show ?thesis
    using that assms(2) by (simp add: left_join_linked_def aliased[unfolded joined] joined on_query_def usize_pred_def query_exprs_def prefixed_def)
qed

lemma left_links_safe: "list_all has_keys rels \<Longrightarrow> list_all (\<lambda>(rows, P). list_all (\<lambda>r. \<not> P null_row r) rows) (hops sql link_holds rels)"
  by (induction rels) (simp_all add: hops_def link_holds_def keys_equal_null list_all_iff)

lemma tl_hops: "tl (hops sql holds rels) = hops sql holds (tl rels)"
  by (simp add: hops_def map_tl)

lemma find_with_linked_answers:
  assumes link: "linked_chain sql e f link" and e: "stored sql missing e" and f: "stored sql missing f"
    and ne: "en_columns f \<noteq> []" and db: "answers db sql"
  shows "\<exists>q res. find_with_linked checks f link (entity_find e) = Ret q \<and> two_many_all db e f q w = Ret (Inr res, w) \<and>
    mset (map fst res) = mset (map (row_model e) (entity_rows sql e)) \<and>
    (\<forall>x\<in>set (entity_rows sql e). \<forall>ns. (row_model e x, ns) \<in> set res \<longrightarrow>
      mset ns = mset (map (row_model f) (follow (hops sql link_holds link) x)))"
proof -
  obtain s where s: "left_join_linked checks f link (entity_find e) = Ret s"
    and q: "sel_query s = (sel_query (entity_find e))\<lparr>sq_joins := left_links (en_table e) 0 link,
      sq_selects := prefixed ''A_'' (en_table e) (en_columns e) @ prefixed ''B_'' (link_alias (length link - 1)) (en_columns f)\<rparr>"
    by (rule left_join_linked_query[OF link ne])
  note lk = link[unfolded linked_chain_def]
  have far: "far_rows (entity_rows sql e) (hops sql link_holds link) = entity_rows sql f"
    using lk by (simp add: entity_rows_def far_hops)
  have "find_with_linked checks f link (entity_find e) = Ret (sel_query s)" by (simp add: find_with_linked_def s)
  moreover have "left_links (en_table e) 0 link \<noteq> []" using lk by (cases link) auto
  moreover have "plain_query (sel_query s)" using entity_find_fields(5)[of e] by (simp add: q plain_query_def)
  ultimately show ?thesis
    using lk f forward_groups[OF db _ _ _ _ _ _ _ _ e, where q = "sel_query s" and f = f and w = w
        and hs = "hops sql link_holds link"]
    by (simp add: q entity_find_fields left_links_facts left_links_chain lessThan_atLeast0 stored_def far
        tl_hops left_links_safe)
qed


section \<open>Related entities\<close>

text \<open>The relation of one entity to another, direct or through a junction: the relations fit together and name
  plain tables, all different; a junction row of nulls meets nothing.\<close>

definition null_safe :: "'u relation_def \<Rightarrow> bool" where
  "null_safe rel \<longleftrightarrow> has_keys rel \<and> (condition_type rel = AnyType \<longrightarrow> on_condition rel = None)"

definition related_chain ::
  "('v, 'u) sql \<Rightarrow> ('m, 'v) select_entity \<Rightarrow> ('n, 'v) select_entity \<Rightarrow> ('v, 'u) relation \<Rightarrow> bool" where
  "related_chain sql e f r \<longleftrightarrow>
    chain_between (ref_table (en_table_ref e)) (related_links r) (ref_table (en_table_ref f)) \<and>
    list_all (uniform sql) (related_links r) \<and> list_all unaliased (related_links r) \<and>
    distinct (chain_names (ref_table (en_table_ref e)) (related_links r)) \<and>
    list_all null_safe (tl (related_links r))"

lemma last_chain_names: "chain_between a rels b \<Longrightarrow> last (chain_names a rels) = table_part b"
  by (induction a rels b rule: chain_between.induct) (auto simp: chain_names_def)

lemma chain_names_neq: "chain_names a rels \<noteq> []"
  by (simp add: chain_names_def)

lemma null_safe_hops:
  "list_all null_safe rels \<Longrightarrow> list_all (\<lambda>(rows, P). list_all (\<lambda>r. \<not> P null_row r) rows) (hops sql related_holds rels)"
  by (induction rels) (auto simp: hops_def related_holds_def keys_equal_null null_safe_def list_all_iff)

lemma related_far_alias:
  assumes "related_chain sql e f r"
  shows "en_table f \<notin> join_alias ` set (map join_of_rev (rev (related_links r)))"
proof -
  have "en_table f \<notin> set (butlast (chain_names (ref_table (en_table_ref e)) (related_links r)))"
    using assms last_chain_names[of "ref_table (en_table_ref e)" "related_links r"] chain_names_neq
    unfolding related_chain_def by (metis append_butlast_last_id bare_en_table distinct_butlast not_distinct_conv_prefix)
  then show ?thesis
    using assms join_of_rev_facts(2)[of "ref_table (en_table_ref e)" "related_links r"] by (force simp: related_chain_def)
qed

lemma model_find_related_query:
  "sel_query (model_find_related e f r m) = (sel_query (entity_find f))\<lparr>sq_joins := map join_of_rev (rev (related_links r)),
    sq_where := map (\<lambda>col. UserCond (column_eq e col (en_get e m (sc_name col)))) (en_primary_key e)\<rparr>"
  by (simp add: model_find_related_def related_find_def on_query_def join_join_joins belongs_to_model_def
      fold_query_filter entity_find_fields flip: entity_find_def)

lemma find_related_answers:
  assumes rel: "related_chain sql e f r" and e: "stored sql missing e" and f: "stored sql missing f"
    and db: "answers db sql" and x: "x \<in> set (entity_rows sql e)"
  shows "\<exists>ms. select_all db f (model_find_related e f r (row_model e x)) w = Ret (Inr ms, w) \<and>
    mset ms = mset (map (row_model f) (follow (hops sql related_holds (related_links r)) x))"
proof -
  let ?hs = "hops sql related_holds (related_links r)" and ?s = "model_find_related e f r (row_model e x)"
  note rl = rel[unfolded related_chain_def] and q = model_find_related_query[of e f r "row_model e x"]
  have bk: "joins_follow sql (en_table f) (map join_of_rev (rev (related_links r))) (reverse_hops (entity_rows sql e) ?hs)"
    "last_alias (en_table f) (map join_of_rev (rev (related_links r))) = en_table e"
    using related_back_chain[of "ref_table (en_table_ref e)" "related_links r" "ref_table (en_table_ref f)" sql] rl
    by (simp_all add: entity_rows_def)
  have far: "far_rows (entity_rows sql e) ?hs = entity_rows sql f"
    using rl by (simp add: entity_rows_def far_hops)
  have rows: "mset (sql_rows sql (sel_query ?s)) = mset (map (cells [] (en_columns f)) (follow ?hs x))"
  proof (rule back_query[where sel = "\<lambda>y. key_of e y = key_of e x" and A = "entity_rows sql e"])
    show "joins_follow sql (en_table f) (sq_joins (sel_query ?s)) (reverse_hops (entity_rows sql e) ?hs)"
      using bk by (simp add: q)
    show "en_table f \<notin> join_alias ` set (sq_joins (sel_query ?s))"
      using related_far_alias[OF rel] by (simp add: q)
    show "list_all (cond_holds sql env) (sq_where (sel_query ?s)) \<longleftrightarrow>
        key_of e (alias_row env (last_alias (en_table f) (sq_joins (sel_query ?s)))) = key_of e x" for env
      using e bk(2) belongs_to_holds[of missing e "en_table e" sql env x] by (simp add: q stored_def)
  qed (use stored_row[OF e x] x far join_of_rev_facts(1) in \<open>simp_all add: q entity_find_fields\<close>)
  have "plain_query (sel_query ?s)" using entity_find_fields(5)[of f] by (simp add: q plain_query_def)
  moreover have "derived missing f" "readable f y" if "y \<in> set (follow ?hs x)" for y
    using that set_follow_far[OF x, of ?hs] f by (auto simp: stored_def far list_all_iff)
  ultimately show ?thesis using select_all_back[OF db _ rows, of missing w] f by (auto simp: stored_def)
qed

lemma find_with_related_query:
  obtains q where "find_with_related e f r (entity_find e) = Ret q"
    "q = (sel_query (entity_find e))\<lparr>sq_joins := map (join_of LeftJoin) (related_links r),
      sq_selects := prefixed ''A_'' (en_table e) (en_columns e) @ prefixed ''B_'' (en_table f) (en_columns f),
      sq_orders := map (\<lambda>col. (expr_col (en_table e, sc_name col), Asc, None)) (en_primary_key e)\<rparr>"
proof -
  have joined: "left_join r (entity_find e) =
      (entity_find e)\<lparr>sel_query := (sel_query (entity_find e))\<lparr>sq_joins := map (join_of LeftJoin) (related_links r)\<rparr>\<rparr>"
    by (simp add: left_join_def on_query_def join_join_joins entity_find_fields)
  have aliased: "apply_alias ''A_'' (left_join r (entity_find e)) =
      Ret (on_query (\<lambda>q. q\<lparr>sq_selects := prefixed ''A_'' (en_table e) (en_columns e)\<rparr>) (left_join r (entity_find e)))"
    by (rule apply_alias_columns) (simp add: joined entity_find_fields)
  then show ?thesis
    using that
    by (simp add: entity_find_fields find_with_related_def select_with_def aliased[unfolded joined] joined on_query_def select_two_many_new_def
        prepare_select_col_def prepare_order_by_def fold_query_expr fold_query_order prefixed_def as_column_ref_def)
qed

lemma find_with_related_answers:
  assumes rel: "related_chain sql e f r" and e: "stored sql missing e" and f: "stored sql missing f" and db: "answers db sql"
  shows "\<exists>q res. find_with_related e f r (entity_find e) = Ret q \<and> two_many_all db e f q w = Ret (Inr res, w) \<and>
    mset (map fst res) = mset (map (row_model e) (entity_rows sql e)) \<and>
    (\<forall>x\<in>set (entity_rows sql e). \<forall>ns. (row_model e x, ns) \<in> set res \<longrightarrow>
      mset ns = mset (map (row_model f) (follow (hops sql related_holds (related_links r)) x)))"
proof -
  let ?hs = "hops sql related_holds (related_links r)" and ?js = "map (join_of LeftJoin) (related_links r)"
  obtain q where s: "find_with_related e f r (entity_find e) = Ret q"
    and q: "q = (sel_query (entity_find e))\<lparr>sq_joins := ?js,
      sq_selects := prefixed ''A_'' (en_table e) (en_columns e) @ prefixed ''B_'' (en_table f) (en_columns f),
      sq_orders := map (\<lambda>col. (expr_col (en_table e, sc_name col), Asc, None)) (en_primary_key e)\<rparr>"
    by (rule find_with_related_query)
  note rl = rel[unfolded related_chain_def]
  have far: "far_rows (entity_rows sql e) ?hs = entity_rows sql f"
    using rl by (simp add: entity_rows_def far_hops)
  have "plain_query q" using entity_find_fields(5)[of e] by (simp add: q plain_query_def)
  moreover have "joins_follow sql (en_table e) ?js ?hs" "last_alias (en_table e) ?js = en_table f"
    using related_left_chain[of "ref_table (en_table_ref e)" "related_links r" "ref_table (en_table_ref f)" sql LeftJoin]
      last_join_of[of "ref_table (en_table_ref e)" "related_links r" "ref_table (en_table_ref f)" LeftJoin] rl by simp_all
  moreover have "en_table e \<notin> join_alias ` set ?js"
    using rl join_of_facts(1)[of "related_links r" LeftJoin "ref_table (en_table_ref e)"] by (simp add: chain_names_def)
  moreover have "related_links r \<noteq> []" by (simp add: related_links_def split: option.splits)
  ultimately show ?thesis
    using rl f s forward_groups[OF db _ _ _ _ _ _ _ _ e, where q = q and f = f and w = w and hs = ?hs]
    by (simp add: q list.pred_map comp_def list.pred_True entity_find_fields stored_def far tl_hops null_safe_hops)
qed

end
