(* ===== verification/SelectGuarantees.thy ===== *)
theory SelectGuarantees
  imports SelectAnswers
begin

text \<open>
  The properties of the selects along relations: everything joined at once agrees with a query per model,
  and \<open>has_related\<close> keeps the models that have a related row meeting its condition.
\<close>

section \<open>EXISTS\<close>

text \<open>A subquery is evaluated where the outer row is in scope.\<close>

definition with_exists :: "('v, 'u) sql \<Rightarrow> ('v, ('v, 'u) exists_test) sql" where
  "with_exists sql = \<lparr>sql_tables = sql_tables sql,
     sql_user = (\<lambda>t env. case t of NoSubquery u \<Rightarrow> sql_user sql u env | Exists q \<Rightarrow> None),
     sql_test = (\<lambda>t env. case t of NoSubquery u \<Rightarrow> sql_test sql u env | Exists q \<Rightarrow> select_scopes sql env q \<noteq> []),
     sql_cust = sql_cust sql\<rparr>"

definition far_condition ::
  "('v, 'u) sql \<Rightarrow> ('n, 'v) select_entity \<Rightarrow> ('v, 'u) test cond \<Rightarrow> ('v table_row \<Rightarrow> bool) \<Rightarrow> bool" where
  "far_condition sql f condition P \<longleftrightarrow> (\<forall>env. cond_holds sql env condition = P (alias_row env (en_table f)))"

definition junction_joins :: "('v, 'u) relation \<Rightarrow> ('v, 'u) join_expr list" where
  "junction_joins r = (case rl_via r of Some via \<Rightarrow> [join_of_rev (rl_to r)] | None \<Rightarrow> [])"

definition outer_relation :: "('v, 'u) relation \<Rightarrow> ('v, 'u) test relation_def" where
  "outer_relation r = (case rl_via r of Some via \<Rightarrow> via | None \<Rightarrow> rl_to r)"

lemma exists_subquery_fields:
  "sq_from (exists_subquery f r c) = [en_table_ref f]" "sq_joins (exists_subquery f r c) = junction_joins r"
  "sq_where (exists_subquery f r c) = [CondAll [c, relation_condition (outer_relation r)]]"
  by (simp_all add: exists_subquery_def query_filter_def query_expr_def select_only_def push_join_def Let_def
      entity_find_fields junction_joins_def outer_relation_def join_of_rev_def split: option.splits)

lemma exists_scopes:
  assumes rel: "related_chain sql e f r" and c: "far_condition sql f c P"
  shows "select_scopes sql env (exists_subquery f r c) \<noteq> [] \<longleftrightarrow>
    list_ex P (follow (hops sql related_holds (related_links r)) (alias_row env (en_table e)))"
proof -
  note rl = rel[unfolded related_chain_def]
  have inner: "list_all (\<lambda>j. je_type j = InnerJoin \<or> je_type j = LeftJoin) (sq_joins (exists_subquery f r c))"
    by (simp add: exists_subquery_fields junction_joins_def split: option.splits)
  have scopes: "select_scopes sql env (exists_subquery f r c) \<noteq> [] \<longleftrightarrow>
      (\<exists>y\<in>set (entity_rows sql f). \<exists>e'\<in>set (run_joins sql (junction_joins r) (bind_row (en_table f) y env)).
        P (alias_row e' (en_table f)) \<and> cond_holds sql e' (relation_condition (outer_relation r)))"
    using c by (simp add: scopes_of_joins[OF exists_subquery_fields(1) inner] exists_subquery_fields(2,3)
        filter_empty_conv far_condition_def)
  show ?thesis
  proof (cases "rl_via r")
    case None
    let ?to = "rl_to r"
    have links: "related_links r = [?to]" by (simp add: related_links_def None)
    have names: "ref_name (from_tbl ?to) = en_table e" "ref_name (to_tbl ?to) = en_table f" "en_table e \<noteq> en_table f"
      "sql_tables sql (ref_table (to_tbl ?to)) = entity_rows sql f"
      using rl ref_name_unaliased[of ?to] by (auto simp: links chain_names_def entity_rows_def)
    have "cond_holds sql env' (relation_condition ?to) \<longleftrightarrow>
        related_holds sql ?to (alias_row env' (en_table e)) (alias_row env' (en_table f))" for env'
      using relation_condition_holds[of sql ?to env'] rl names by (simp add: links)
    then show ?thesis
      unfolding scopes using names
      by (auto simp: junction_joins_def outer_relation_def None links hops_def list_ex_iff)
  next
    case (Some via)
    let ?to = "rl_to r" and ?j = "table_part (ref_table (to_tbl via))"
    have links: "related_links r = [via, ?to]" by (simp add: related_links_def Some)
    have names: "ref_name (from_tbl via) = en_table e" "ref_name (to_tbl via) = ?j"
      "ref_name (from_tbl ?to) = ?j" "ref_name (to_tbl ?to) = en_table f"
      "en_table e \<noteq> ?j" "en_table f \<noteq> ?j" "en_table e \<noteq> en_table f" "ref_table (from_tbl ?to) = ref_table (to_tbl via)"
      "sql_tables sql (ref_table (to_tbl ?to)) = entity_rows sql f"
      using rl ref_name_unaliased[of ?to] ref_name_unaliased[of via] by (auto simp: links chain_names_def entity_rows_def)
    have via: "cond_holds sql env' (relation_condition via) \<longleftrightarrow>
        related_holds sql via (alias_row env' (en_table e)) (alias_row env' ?j)" for env'
      using relation_condition_holds[of sql via env'] rl names by (simp add: links)
    have to: "cond_holds sql env' (relation_condition ?to) \<longleftrightarrow>
        related_holds sql ?to (alias_row env' ?j) (alias_row env' (en_table f))" for env'
      using relation_condition_holds[of sql ?to env'] rl names by (simp add: links eq_commute)
    have "run_joins sql (junction_joins r) (bind_row (en_table f) y env) =
        map (\<lambda>j. bind_row ?j j (bind_row (en_table f) y env))
          (filter (\<lambda>j. related_holds sql ?to j y) (sql_tables sql (ref_table (to_tbl via))))" for y
      using names by (simp add: junction_joins_def Some matches_def bound_rows_def filter_map comp_def to)
    then show ?thesis
      unfolding scopes using names
      by (auto simp: outer_relation_def Some via links hops_def list_ex_iff)
  qed
qed

text \<open>C38. \<open>has_related\<close> keeps the models of the entity for which some related row, reached directly or through the
  junction table, meets the condition, each once however many such rows there are.\<close>

theorem has_related_filters:
  assumes rel: "related_chain sql e f r" and c: "far_condition sql f c P" and e: "stored sql missing e"
    and db: "answers db (with_exists sql)"
  shows "\<exists>ms. select_all db e (has_related f r c (entity_find e)) w = Ret (Inr ms, w) \<and>
    mset ms = mset (map (row_model e)
      (filter (\<lambda>x. list_ex P (follow (hops sql related_holds (related_links r)) x)) (entity_rows sql e)))"
proof -
  let ?s = "has_related f r c (entity_find e)" and ?sql = "with_exists sql"
  let ?keep = "\<lambda>x. list_ex P (follow (hops sql related_holds (related_links r)) x)"
  have rows_eq: "entity_rows ?sql e = entity_rows sql e" by (simp add: entity_rows_def with_exists_def)
  have q: "sel_query ?s = (sel_query (entity_find e))\<lparr>sq_where := [UserCond (TestUser (Exists (exists_subquery f r c)))]\<rparr>"
    by (simp add: has_related_def on_query_def query_filter_def entity_find_fields)
  have test: "sql_test ?sql (Exists (exists_subquery f r c)) env \<longleftrightarrow> ?keep (alias_row env (en_table e))" for env
    using exists_scopes[OF rel c, of env] by (simp add: with_exists_def)
  have "sql_rows ?sql (sel_query ?s) = map (cells [] (en_columns e)) (filter ?keep (entity_rows sql e))"
    by (simp add: sql_rows_def scopes_of_joins[of _ e] q entity_find_fields result_column_list[abs_def] rows_eq test
        filter_map comp_def concat_map_singleton)
  moreover have "plain_query (sel_query ?s)" using entity_find_fields(5)[of e] by (simp add: q plain_query_def)
  ultimately show ?thesis
    using e by (intro select_all_back[OF db]) (auto simp: stored_def list_all_iff)
qed


section \<open>Everything at once against a query per model\<close>

text \<open>C36. \<open>find_with_linked\<close> answers every model of the first entity once, with exactly the models that \<open>find_linked\<close>
  of that model finds (as often), for every chain of relations, also through rows that lead nowhere.\<close>

theorem find_with_linked_agrees:
  assumes "linked_chain sql e f link" and "stored sql missing e" and "stored sql missing f"
    and "en_columns f \<noteq> []" and "answers db sql"
  shows "\<exists>q res. find_with_linked checks f link (entity_find e) = Ret q \<and> two_many_all db e f q w = Ret (Inr res, w) \<and>
    mset (map fst res) = mset (map (row_model e) (entity_rows sql e)) \<and>
    list_all (\<lambda>(m, ns). \<exists>s ms. model_find_linked checks e f link m = Ret s \<and>
      select_all db f s w = Ret (Inr ms, w) \<and> mset ns = mset ms) res"
proof -
  obtain q res where q: "find_with_linked checks f link (entity_find e) = Ret q"
    and res: "two_many_all db e f q w = Ret (Inr res, w)"
      "mset (map fst res) = mset (map (row_model e) (entity_rows sql e))"
      "\<forall>x\<in>set (entity_rows sql e). \<forall>ns. (row_model e x, ns) \<in> set res \<longrightarrow>
        mset ns = mset (map (row_model f) (follow (hops sql link_holds link) x))"
    using find_with_linked_answers[OF assms] by blast
  have "\<exists>s ms. model_find_linked checks e f link m = Ret s \<and> select_all db f s w = Ret (Inr ms, w) \<and> mset ns = mset ms"
    if "(m, ns) \<in> set res" for m ns
  proof -
    have "m \<in> set (map fst res)" using that by force
    then obtain x where x: "x \<in> set (entity_rows sql e)" "m = row_model e x" using mset_eq_setD[OF res(2)] by auto
    then show ?thesis
      using find_linked_answers[OF assms(1-3,5) x(1), of checks w] res(3) that by metis
  qed
  then have "list_all (\<lambda>(m, ns). \<exists>s ms. model_find_linked checks e f link m = Ret s \<and>
      select_all db f s w = Ret (Inr ms, w) \<and> mset ns = mset ms) res" by (auto simp: list_all_iff)
  with q res(1,2) show ?thesis by blast
qed

text \<open>C37. \<open>find_with_related\<close> answers every model of the entity once, with exactly the models \<open>find_related\<close> of that model
  finds (as often), for a direct relation and for one through a junction table.\<close>

theorem find_with_related_agrees:
  assumes "related_chain sql e f r" and "stored sql missing e" and "stored sql missing f" and "answers db sql"
  shows "\<exists>q res. find_with_related e f r (entity_find e) = Ret q \<and> two_many_all db e f q w = Ret (Inr res, w) \<and>
    mset (map fst res) = mset (map (row_model e) (entity_rows sql e)) \<and>
    list_all (\<lambda>(m, ns). \<exists>ms. select_all db f (model_find_related e f r m) w = Ret (Inr ms, w) \<and> mset ns = mset ms) res"
proof -
  obtain q res where q: "find_with_related e f r (entity_find e) = Ret q"
    and res: "two_many_all db e f q w = Ret (Inr res, w)"
      "mset (map fst res) = mset (map (row_model e) (entity_rows sql e))"
      "\<forall>x\<in>set (entity_rows sql e). \<forall>ns. (row_model e x, ns) \<in> set res \<longrightarrow>
        mset ns = mset (map (row_model f) (follow (hops sql related_holds (related_links r)) x))"
    using find_with_related_answers[OF assms] by blast
  have "\<exists>ms. select_all db f (model_find_related e f r m) w = Ret (Inr ms, w) \<and> mset ns = mset ms"
    if "(m, ns) \<in> set res" for m ns
  proof -
    have "m \<in> set (map fst res)" using that by force
    then obtain x where x: "x \<in> set (entity_rows sql e)" "m = row_model e x" using mset_eq_setD[OF res(2)] by auto
    then show ?thesis using find_related_answers[OF assms x(1), of w] res(3) that by metis
  qed
  then have "list_all (\<lambda>(m, ns). \<exists>ms. select_all db f (model_find_related e f r m) w = Ret (Inr ms, w) \<and> mset ns = mset ms) res"
    by (auto simp: list_all_iff)
  with q res(1,2) show ?thesis by blast
qed

text \<open>C39. \<open>find_linked\<close> of a model answers the rows at the far end of the chain from the model's row, once for every way
  that leads there.\<close>

theorem find_linked_follows_chain:
  assumes "linked_chain sql e f link" and "stored sql missing e" and "stored sql missing f"
    and "answers db sql" and "x \<in> set (entity_rows sql e)"
  shows "\<exists>s ms. model_find_linked checks e f link (row_model e x) = Ret s \<and> select_all db f s w = Ret (Inr ms, w) \<and>
    mset ms = mset (map (row_model f) (follow (hops sql link_holds link) x))"
  by (rule find_linked_answers[OF assms])

section \<open>Examples\<close>

text \<open>Cakes and fillings through a junction table; cake 3 has a junction row that leads to no filling, and the
  junction's relation to fillings has a condition of its own.\<close>

definition int_column :: "string \<Rightarrow> bool \<Rightarrow> select_column" where
  "int_column n opt = \<lparr>sc_name = n, sc_kind = OtherKind, sc_optional = opt, sc_select_cast = None, sc_save_cast = None\<rparr>"

definition no_column :: "string \<Rightarrow> db_err" where
  "no_column index = Custom index"

definition cake_entity :: "(nat model, nat) select_entity" where
  "cake_entity = derived_entity no_column None ''cake'' [int_column ''id'' False] [int_column ''id'' False]"

definition filling_entity :: "(nat model, nat) select_entity" where
  "filling_entity = derived_entity no_column None ''filling'' [int_column ''id'' False, int_column ''spice'' True]
     [int_column ''id'' False]"

definition plain_ref :: "string \<Rightarrow> table_ref" where
  "plain_ref t = TableRef (TableName None t) None"

definition key_relation :: "string \<Rightarrow> string \<Rightarrow> string \<Rightarrow> string \<Rightarrow> (nat, unit) test relation_def" where
  "key_relation t c t' c' = \<lparr>rel_type = HasMany, from_tbl = plain_ref t, to_tbl = plain_ref t', from_col = Unary c, to_col = Unary c',
     is_owner = False, skip_fk = False, on_delete = None, on_update = None, on_condition = None, fk_name = None,
     condition_type = AllType\<rparr>"

definition cake_junction :: "(nat, unit) test relation_def" where
  "cake_junction = key_relation ''cake'' ''id'' ''cake_filling'' ''cake_id''"

definition junction_filling :: "(nat, unit) test relation_def" where
  "junction_filling = relation_on_condition (\<lambda>from to. UserCond (TestEq (from, ''shown'') (ExprValue (PlainValue 1))))
     (key_relation ''cake_filling'' ''filling_id'' ''filling'' ''id'')"

definition junction_row :: "nat \<Rightarrow> nat \<Rightarrow> nat \<Rightarrow> nat table_row" where
  "junction_row c f s = [''cake_id'' \<mapsto> c, ''filling_id'' \<mapsto> f, ''shown'' \<mapsto> s]"

definition bakery :: "(nat, unit) sql" where
  "bakery = \<lparr>sql_tables = (\<lambda>t. if table_part t = ''cake'' then [[''id'' \<mapsto> 1], [''id'' \<mapsto> 2], [''id'' \<mapsto> 3]]
       else if table_part t = ''filling'' then [[''id'' \<mapsto> 10], [''id'' \<mapsto> 11, ''spice'' \<mapsto> 5]]
       else [junction_row 1 10 1, junction_row 1 11 1, junction_row 2 10 0, junction_row 2 11 1, junction_row 3 12 1]),
     sql_user = (\<lambda>_ _. None), sql_test = (\<lambda>_ _. True), sql_cust = (\<lambda>_. None)\<rparr>"

definition honest_db :: "('v, 'u) sql \<Rightarrow> ('v, 'u, unit) select_db" where
  "honest_db sql = \<lparr>sd_query_one = (\<lambda>q w. (Inr (case sql_rows sql q of [] \<Rightarrow> None | r # rs \<Rightarrow> Some r), w)),
     sd_query_all = (\<lambda>q w. (Inr (sql_rows sql q), w))\<rparr>"

lemma honest_answers: "answers (honest_db sql) sql"
  by (simp add: answers_def honest_db_def)

lemmas bakery_simps = cake_entity_def filling_entity_def int_column_def key_relation_def plain_ref_def cake_junction_def
  junction_filling_def junction_row_def bakery_def relation_on_condition_def

lemma bakery_derived: "derived no_column cake_entity" "derived no_column filling_entity"
  by (simp_all add: derived_def bakery_simps derived_entity_def)

lemma bakery_entities [simp]:
  "en_table cake_entity = ''cake''" "en_table filling_entity = ''filling''"
  "en_table_ref cake_entity = plain_ref ''cake''" "en_table_ref filling_entity = plain_ref ''filling''"
  by (simp_all add: bakery_simps derived_entity_def en_table_ref_def)

lemma bakery_stored: "stored bakery no_column cake_entity" "stored bakery no_column filling_entity"
  unfolding stored_def entity_rows_def
  by (simp_all add: bakery_derived)
    (simp_all add: bakery_simps derived_entity_def key_of_def readable_def)

lemma bakery_uniform: "uniform bakery cake_junction" "uniform bakery junction_filling"
  by (simp_all add: uniform_def bakery_simps pair_scope_def alias_row_def)

lemma bakery_chain: "linked_chain bakery cake_entity filling_entity [cake_junction, junction_filling]"
  using bakery_uniform
  by (simp add: linked_chain_def) (simp add: bakery_simps has_keys_def lessThan_Suc link_alias_def)


lemma bakery_rows:
  "map (row_model cake_entity) (entity_rows bakery cake_entity) = [[Some 1], [Some 2], [Some 3]]"
  "[''id'' \<mapsto> 1] \<in> set (entity_rows bakery cake_entity)"
  "row_model cake_entity [''id'' \<mapsto> 1] = [Some 1]"
  "map (row_model filling_entity) (follow (hops bakery link_holds [cake_junction, junction_filling]) [''id'' \<mapsto> 1])
    = [[Some 10, None], [Some 11, Some 5]]"
  by (simp_all add: entity_rows_def row_model_def hops_def)
    (simp_all add: bakery_simps derived_entity_def row_model_def link_holds_def keys_equal_def extra_holds_def pair_scope_def)

theorem find_with_linked_agrees_witness:
  "\<exists>q res. find_with_linked True filling_entity [cake_junction, junction_filling] (entity_find cake_entity) = Ret q \<and>
    two_many_all (honest_db bakery) cake_entity filling_entity q () = Ret (Inr res, ()) \<and>
    mset (map fst res) = {#[Some 1], [Some 2], [Some 3]#}"
proof -
  have "en_columns filling_entity \<noteq> []" by (simp add: filling_entity_def derived_entity_def)
  then show ?thesis
    using find_with_linked_agrees[OF bakery_chain bakery_stored _ honest_answers, of True "()"]
    unfolding bakery_rows(1) by force
qed

theorem find_linked_follows_chain_witness:
  "\<exists>s ms. model_find_linked True cake_entity filling_entity [cake_junction, junction_filling] [Some 1] = Ret s \<and>
    select_all (honest_db bakery) filling_entity s () = Ret (Inr ms, ()) \<and> mset ms = {#[Some 10, None], [Some 11, Some 5]#}"
  using find_linked_follows_chain[OF bakery_chain bakery_stored honest_answers bakery_rows(2), of True "()"]
  unfolding bakery_rows by simp

definition bakery_fillings :: "(nat, unit) relation" where
  "bakery_fillings = \<lparr>rl_to = junction_filling, rl_via = Some cake_junction\<rparr>"

lemma bakery_related: "related_chain bakery cake_entity filling_entity bakery_fillings"
  using bakery_uniform
  by (simp add: related_chain_def bakery_fillings_def related_links_def)
    (simp add: bakery_simps null_safe_def has_keys_def unaliased_def chain_names_def)

theorem find_with_related_agrees_witness:
  "\<exists>q res. find_with_related cake_entity filling_entity bakery_fillings (entity_find cake_entity) = Ret q \<and>
    two_many_all (honest_db bakery) cake_entity filling_entity q () = Ret (Inr res, ()) \<and>
    mset (map fst res) = {#[Some 1], [Some 2], [Some 3]#}"
  using find_with_related_agrees[OF bakery_related bakery_stored honest_answers, of "()"]
  unfolding bakery_rows(1) by force

theorem has_related_filters_witness:
  "\<exists>ms. select_all (honest_db (with_exists bakery)) cake_entity
      (has_related filling_entity bakery_fillings (UserCond (TestEq (''filling'', ''spice'') (ExprValue (PlainValue 5))))
        (entity_find cake_entity)) () = Ret (Inr ms, ()) \<and>
    mset ms = {#[Some 1], [Some 2]#}"
proof -
  let ?c = "UserCond (TestEq (''filling'', ''spice'') (ExprValue (PlainValue 5)))"
  have c: "far_condition bakery filling_entity ?c (\<lambda>y. y ''spice'' = Some 5)"
    by (auto simp: far_condition_def alias_row_def)
  have "map (row_model cake_entity) (filter (\<lambda>x. list_ex (\<lambda>y. y ''spice'' = Some 5)
      (follow (hops bakery related_holds (related_links bakery_fillings)) x)) (entity_rows bakery cake_entity)) = [[Some 1], [Some 2]]"
    by (simp add: entity_rows_def hops_def bakery_fillings_def related_links_def)
      (simp add: bakery_simps derived_entity_def row_model_def related_holds_def keys_equal_def extra_holds_def pair_scope_def)
  then show ?thesis
    using has_related_filters[OF bakery_related c bakery_stored(1) honest_answers, of "()"] by simp
qed

section \<open>Linked and related queries differ\<close>

text \<open>A relation of condition type \<open>Any\<close> joins rows with equal keys or that meet its condition. A linked query over the
  same relation ignores the type and asks for both.\<close>

lemma linked_ignores_condition_type:
  "linked_condition a b (relation_condition_type t rel) = linked_condition a b rel \<and>
   relation_condition (relation_condition_type AnyType junction_filling) \<noteq>
     relation_condition (relation_condition_type AllType junction_filling) \<and>
   related_holds bakery (relation_condition_type AnyType junction_filling) (junction_row 3 12 1) [''id'' \<mapsto> 10] \<and>
   \<not> link_holds bakery (relation_condition_type AnyType junction_filling) (junction_row 3 12 1) [''id'' \<mapsto> 10]"
  by (simp add: linked_condition_def relation_condition_type_def)
    (simp add: bakery_simps relation_condition_def related_holds_def link_holds_def keys_equal_def extra_holds_def pair_scope_def Let_def)

text \<open>A second \<open>left_join_linked\<close> prefixes the columns of the first again: the model's columns are then selected as
  \<open>A_A_id\<close> and no longer decoded.\<close>

lemma second_left_join_linked_hides_columns:
  "\<exists>s s'. left_join_linked True filling_entity [cake_junction, junction_filling] (entity_find cake_entity) = Ret s \<and>
    left_join_linked True filling_entity [cake_junction, junction_filling] s = Ret s' \<and>
    map se_alias (sq_selects (sel_query s')) =
      [Some ''A_A_id'', Some ''A_B_id'', Some ''A_B_spice'', Some ''B_id'', Some ''B_spice'']"
  by (simp add: left_join_linked_def cake_entity_def filling_entity_def derived_entity_def entity_find_def select_new_def
      prepare_from_def prepare_select_def on_query_def query_exprs_def empty_select_def column_list_def into_select_expr_def
      Let_def apply_alias_def alias_select_def alias_of_expr_def push_join_def usize_pred_def int_column_def
      select_as_def cast_enum_as_def expr_col_def as_column_ref_def)

end
