(* ===== verification/SelectRecursive.thy ===== *)
theory SelectRecursive
  imports SelectGuarantees
begin

text \<open>
  \<open>find_linked_recursive\<close>: a link from an entity to itself, followed again and again by a common table
  expression. The expression is evaluated as SQL's recursive queries are: the initial rows, then
  the recursive part over the rows of the step before, until a step adds none; \<open>n\<close> bounds the steps.
\<close>

section \<open>Evaluating a recursive query\<close>

fun levels :: "nat \<Rightarrow> ('r list \<Rightarrow> 'r list) \<Rightarrow> 'r list \<Rightarrow> 'r list option" where
  "levels 0 step rows = (if rows = [] then Some [] else None)"
| "levels (Suc n) step rows = (if rows = [] then Some [] else map_option ((@) rows) (levels n step (step rows)))"

definition cte_row :: "'v result_row \<Rightarrow> 'v table_row" where
  "cte_row row = (\<lambda>c. case map_of row c of Some v \<Rightarrow> v | None \<Rightarrow> None)"

definition with_table :: "('v, 'u) sql \<Rightarrow> string \<Rightarrow> 'v table_row list \<Rightarrow> ('v, 'u) sql" where
  "with_table sql name rows = sql\<lparr>sql_tables := (sql_tables sql)(TableName None name := rows)\<rparr>"

definition recursive_rows :: "('v, 'u) sql \<Rightarrow> nat \<Rightarrow> ('v, 'u) recursive_query \<Rightarrow> 'v result_row list option" where
  "recursive_rows sql n rq =
    (case rq of
       InitialOnly s \<Rightarrow> Some (sql_rows sql (sel_query s))
     | WithCte name initial recursive select \<Rightarrow>
         map_option (\<lambda>rows. sql_rows (with_table sql name rows) (sel_query select))
           (levels n (\<lambda>rows. map cte_row (sql_rows (with_table sql name rows) recursive))
             (map cte_row (sql_rows sql initial))))"

lemma levels_rel:
  assumes "\<And>a b. mset a = mset b \<Longrightarrow> set b \<subseteq> S \<Longrightarrow> mset (f a) = mset (g b) \<and> set (g b) \<subseteq> S"
  shows "mset a = mset b \<Longrightarrow> set b \<subseteq> S \<Longrightarrow> rel_option (\<lambda>x y. mset x = mset y \<and> set y \<subseteq> S) (levels n f a) (levels n g b)"
proof (induction n arbitrary: a b)
  case (Suc n)
  have "a = [] \<longleftrightarrow> b = []" using Suc.prems(1) by auto
  moreover have "rel_option (\<lambda>x y. mset x = mset y \<and> set y \<subseteq> S) (levels n f (f a)) (levels n g (g b))"
    using assms[OF Suc.prems] by (intro Suc.IH) auto
  ultimately show ?case
    using Suc.prems by (cases "levels n f (f a)"; cases "levels n g (g b)") auto
qed auto

section \<open>The recursive part\<close>

lemma eval_with_table [simp]: "eval_expr (with_table sql name rows) env e = eval_expr sql env e"
proof (induction e)
  case (ExprColumn c)
  then show ?case by (cases c rule: column_ref.exhaust) (metis eval_expr.simps(1,2) not_Some_eq, simp)
qed (simp_all add: with_table_def)

lemma test_with_table [simp]: "test_holds (with_table sql name rows) env t = test_holds sql env t"
  by (cases t) (simp_all, simp add: with_table_def)

lemma cond_with_table [simp]: "cond_holds (with_table sql name rows) env c = cond_holds sql env c"
  by (induction c) (auto simp: list_all_iff list_ex_iff)

lemma link_with_table [simp]: "link_holds (with_table sql name rows) = link_holds sql"
  by (simp add: fun_eq_iff link_holds_def extra_holds_def split: option.splits)

lemma uniform_with_table [simp]: "uniform (with_table sql name rows) = uniform sql"
  by (simp add: fun_eq_iff uniform_def)

lemma tables_with_table:
  "sql_tables (with_table sql name rows) t = (if t = TableName None name then rows else sql_tables sql t)"
  by (simp add: with_table_def)

text \<open>The entity read from the common table expression.\<close>

definition cte_entity :: "('m, 'v) select_entity \<Rightarrow> ('m, 'v) select_entity" where
  "cte_entity e = e\<lparr>en_schema := None, en_table := ''cte''\<rparr>"

definition cte_first :: "'u relation_def list \<Rightarrow> 'u relation_def list" where
  "cte_first link = (case link of [] \<Rightarrow> [] | first # rest \<Rightarrow> first\<lparr>from_tbl := TableRef (TableName None ''cte'') None\<rparr> # rest)"

text \<open>A chain from an entity to itself over tables none of which is named like the expression.\<close>

definition recursive_chain :: "('v, 'u) sql \<Rightarrow> ('m, 'v) select_entity \<Rightarrow> ('v, 'u) test relation_def list \<Rightarrow> bool" where
  "recursive_chain sql e link \<longleftrightarrow> linked_chain sql e e link \<and>
    list_all (\<lambda>rel. ref_table (to_tbl rel) \<noteq> TableName None ''cte'') link"

lemma chain_between_far: "chain_between a rels b \<Longrightarrow> b = (if rels = [] then a else ref_table (to_tbl (last rels)))"
  by (induction a rels b rule: chain_between.induct) auto

lemma relation_from_tbl [simp]:
  "uniform sql (rel\<lparr>from_tbl := t\<rparr>) = uniform sql rel" "link_holds sql (rel\<lparr>from_tbl := t\<rparr>) = link_holds sql rel"
  by (simp_all add: uniform_def fun_eq_iff link_holds_def keys_equal_def extra_holds_def)

lemma cte_chain:
  assumes "recursive_chain sql e link"
  shows "linked_chain (with_table sql ''cte'' rows) (cte_entity e) e (cte_first link)"
    "ref_table (en_table_ref e) \<noteq> TableName None ''cte''"
    "hops (with_table sql ''cte'' rows) link_holds (cte_first link) = hops sql link_holds link"
proof -
  obtain first rest where link: "link = first # rest" using assms by (cases link) (auto simp: recursive_chain_def linked_chain_def)
  have "''cte'' \<notin> link_alias ` A" for A by (auto simp: link_alias_def)
  then show "linked_chain (with_table sql ''cte'' rows) (cte_entity e) e (cte_first link)"
    using assms by (simp add: recursive_chain_def linked_chain_def link cte_first_def cte_entity_def en_table_ref_def)
  show "ref_table (en_table_ref e) \<noteq> TableName None ''cte''"
    using assms chain_between_far[of "ref_table (en_table_ref e)" link "ref_table (en_table_ref e)"] last_in_set[of link]
    by (simp add: recursive_chain_def linked_chain_def list_all_iff)
  show "hops (with_table sql ''cte'' rows) link_holds (cte_first link) = hops sql link_holds link"
    using assms by (simp add: hops_def link cte_first_def tables_with_table recursive_chain_def list_all_iff)
qed

lemma recursive_rows_closure:
  assumes "recursive_chain sql e link" "sq_selects (sel_query initial) = column_list e"
  shows "find_linked_recursive e initial link = WithCte ''cte'' (sel_query initial) (sel_query (linked_find e (cte_first link)))
    ((entity_find e)\<lparr>sel_query := (sel_query (entity_find e))\<lparr>sq_from := [TableRef (TableName None ''cte'') (Some (en_table e))]\<rparr>\<rparr>)"
proof -
  obtain first rest where link: "link = first # rest"
    using assms by (cases link) (auto simp: recursive_chain_def linked_chain_def)
  have "sel_query (linked_find e (cte_first link)) = (sel_query (entity_find e))\<lparr>sq_joins := back_links (en_table e) 0 (rev (cte_first link))\<rparr>"
    by (rule linked_find_query[OF cte_chain(1)[OF assms(1)]])
  moreover from this have "sq_selects (sel_query (linked_find e (cte_first link))) = column_list e" by (simp add: entity_find_fields)
  ultimately show ?thesis
    using assms(2)
    by (simp add: find_linked_recursive_def link cte_first_def linked_find_def Let_def query_exprs_def select_only_def
        on_query_def entity_find_fields)
qed


section \<open>What it answers\<close>

text \<open>Rows without columns the entity does not have, so that the expression keeps them whole.\<close>

definition exact_row :: "('m, 'v) select_entity \<Rightarrow> 'v table_row \<Rightarrow> bool" where
  "exact_row e y \<longleftrightarrow> dom y \<subseteq> sc_name ` set (en_columns e)"

lemma cte_row_cells:
  assumes "exact_row e y" "distinct (map sc_name (en_columns e))"
  shows "cte_row (cells [] (en_columns e) y) = y"
proof (rule ext)
  fix c
  show "cte_row (cells [] (en_columns e) y) c = y c"
  proof (cases "c \<in> sc_name ` set (en_columns e)")
    case True
    then show ?thesis using map_of_cells[OF assms(2), of _ "[]" y] by (auto simp: cte_row_def)
  next
    case False
    then have "map_of (cells [] (en_columns e) y) c = None" by (force simp: map_of_eq_None_iff cells_def)
    moreover have "y c = None" using False assms(1) by (auto simp: exact_row_def)
    ultimately show ?thesis by (simp add: cte_row_def)
  qed
qed

lemma recursive_part_rows:
  assumes "recursive_chain sql e link"
  shows "mset (sql_rows (with_table sql ''cte'' rows) (sel_query (linked_find e (cte_first link)))) =
    mset (map (cells [] (en_columns e)) (concat (map (follow (hops sql link_holds link)) rows)))"
proof -
  let ?sql = "with_table sql ''cte'' rows" and ?rels = "cte_first link" and ?q = "sel_query (linked_find e (cte_first link))"
  note chain = cte_chain(1,3)[OF assms, of rows]
  note lk = chain(1)[unfolded linked_chain_def]
  have q: "?q = (sel_query (entity_find e))\<lparr>sq_joins := back_links (en_table e) 0 (rev ?rels)\<rparr>"
    by (rule linked_find_query[OF chain(1)])
  have from_cte: "chain_between (TableName None ''cte'') ?rels (ref_table (en_table_ref e))"
    using lk by (simp add: cte_entity_def en_table_ref_def)
  have far: "far_rows rows (hops ?sql link_holds ?rels) = entity_rows ?sql e"
    using far_hops[OF from_cte, of ?sql link_holds] by (simp add: entity_rows_def tables_with_table)
  have "mset (sql_rows ?sql ?q) =
      (\<Sum>a\<leftarrow>rows. \<Sum>b\<leftarrow>follow (hops ?sql link_holds ?rels) a. if True then {#cells [] (en_columns e) b#} else {#})"
  proof (rule back_query_sum[where sel = "\<lambda>_. True"])
    show "joins_follow ?sql (en_table e) (sq_joins ?q) (reverse_hops rows (hops ?sql link_holds ?rels))"
      using back_links_chain[OF from_cte, of ?sql "en_table e"] lk by (simp add: q tables_with_table)
    show "en_table e \<notin> join_alias ` set (sq_joins ?q)"
      using lk by (simp add: q back_links_facts lessThan_atLeast0)
  qed (use far in \<open>simp_all add: q entity_find_fields back_links_facts\<close>)
  then show ?thesis
    by (simp only: chain(2) if_True sum_list_mset_single) (simp add: sum_list_mset_single mset_concat map_concat comp_def)
qed

lemma final_rows:
  "sql_rows (with_table sql ''cte'' rows)
      ((sel_query (entity_find e))\<lparr>sq_from := [TableRef (TableName None ''cte'') (Some (en_table e))]\<rparr>) =
    map (cells [] (en_columns e)) rows"
  by (simp add: sql_rows_def select_scopes_def from_rows_def bound_rows_def entity_find_fields result_column_list[abs_def]
      tables_with_table ref_name_def comp_def)

lemma linked_rows_stay:
  assumes "linked_chain sql e e link" and "y \<in> set (entity_rows sql e)"
  shows "set (follow (hops sql link_holds link) y) \<subseteq> set (entity_rows sql e)"
  using set_follow_far[OF assms(2), of "hops sql link_holds link"] assms(1)
    far_hops[of "ref_table (en_table_ref e)" link "ref_table (en_table_ref e)" sql link_holds]
  by (simp add: linked_chain_def entity_rows_def)

text \<open>For every bound on the steps the query and the walk along the link are both done, with the same rows, or neither is.\<close>

lemma linked_recursive_levels:
  assumes chain: "recursive_chain sql e link" and e: "stored sql missing e" and x: "x \<in> set (entity_rows sql e)"
    and exact: "list_all (exact_row e) (entity_rows sql e)"
  shows "\<exists>rq. model_find_linked_recursive checks e link (row_model e x) = Ret rq \<and>
    rel_option (\<lambda>rs ys. mset rs = mset (map (cells [] (en_columns e)) ys)) (recursive_rows sql n rq)
      (levels n (\<lambda>ys. concat (map (follow (hops sql link_holds link)) ys)) (follow (hops sql link_holds link) x))"
proof -
  let ?F = "follow (hops sql link_holds link)" and ?A = "set (entity_rows sql e)" and ?cells = "cells [] (en_columns e)"
  have linked: "linked_chain sql e e link" using chain by (simp add: recursive_chain_def)
  obtain s where s: "model_find_linked checks e e link (row_model e x) = Ret s"
    "mset (sql_rows sql (sel_query s)) = mset (map ?cells (?F x))" "sq_selects (sel_query s) = column_list e"
    by (rule find_linked_rows[OF linked e x])
  have far: "set (?F y) \<subseteq> ?A" if "y \<in> ?A" for y by (rule linked_rows_stay[OF linked that])
  have keep: "cte_row (?cells y) = y" if "y \<in> ?A" for y
    using that exact e by (intro cte_row_cells) (auto simp: list_all_iff stored_def dest: derived_fields(4))
  have rows: "mset (map cte_row rs) = mset ys" if "mset rs = mset (map ?cells ys)" "set ys \<subseteq> ?A" for rs ys
  proof -
    have "mset (map cte_row rs) = mset (map cte_row (map ?cells ys))" using that(1) by (metis mset_map)
    also have "map cte_row (map ?cells ys) = ys" using keep that(2) unfolding map_map by (intro map_idI) (auto simp: subset_iff)
    finally show ?thesis .
  qed
  let ?f = "\<lambda>rows. map cte_row (sql_rows (with_table sql ''cte'' rows) (sel_query (linked_find e (cte_first link))))"
  let ?g = "\<lambda>ys. concat (map ?F ys)"
  have "mset (?f a) = mset (?g b) \<and> set (?g b) \<subseteq> ?A" if ab: "mset a = mset b" "set b \<subseteq> ?A" for a b
  proof
    show sub: "set (?g b) \<subseteq> ?A" using ab(2) far by auto
    have "mset (map (mset \<circ> ?F) a) = mset (map (mset \<circ> ?F) b)" using ab(1) by (simp only: mset_map)
    then have "mset (?g a) = mset (?g b)" unfolding mset_concat map_map by (metis sum_mset_sum_list)
    moreover have "set (?g a) = set (?g b)" using mset_eq_setD[OF ab(1)] by simp
    ultimately show "mset (?f a) = mset (?g b)"
      using rows[OF recursive_part_rows[OF chain, of a]] sub by simp
  qed
  then have "rel_option (\<lambda>x y. mset x = mset y \<and> set y \<subseteq> ?A) (levels n ?f (map cte_row (sql_rows sql (sel_query s)))) (levels n ?g (?F x))"
    by (rule levels_rel) (use rows[OF s(2)] far[OF x] in auto)
  then have "rel_option (\<lambda>rs ys. mset rs = mset (map ?cells ys)) (recursive_rows sql n (find_linked_recursive e s link)) (levels n ?g (?F x))"
    by (simp add: recursive_rows_closure[OF chain s(3)] recursive_rows_def final_rows option.rel_map)
      (erule option.rel_mono_strong, simp)
  then show ?thesis by (simp add: model_find_linked_recursive_def s(1))
qed


text \<open>The walk is done within some number of steps exactly when it runs dry; with a cycle in the rows it never is.\<close>

lemma levels_done_iff: "(\<exists>n. levels n step rows \<noteq> None) \<longleftrightarrow> (\<exists>k. (step ^^ k) rows = [])"
proof
  have "levels n step rows \<noteq> None \<Longrightarrow> \<exists>k. (step ^^ k) rows = []" for n
  proof (induction n arbitrary: rows)
    case 0
    then show ?case by (intro exI[of _ 0]) (simp split: if_splits)
  next
    case (Suc n)
    show ?case
    proof (cases "rows = []")
      case True
      then show ?thesis by (intro exI[of _ 0]) simp
    next
      case False
      then obtain k where "(step ^^ k) (step rows) = []" using Suc by auto
      then show ?thesis by (intro exI[of _ "Suc k"]) (simp add: funpow_swap1)
    qed
  qed
  then show "\<exists>n. levels n step rows \<noteq> None \<Longrightarrow> \<exists>k. (step ^^ k) rows = []" by blast
  have "(step ^^ k) rows = [] \<Longrightarrow> levels k step rows \<noteq> None" for k
    by (induction k arbitrary: rows) (simp_all add: funpow_swap1)
  then show "\<exists>k. (step ^^ k) rows = [] \<Longrightarrow> \<exists>n. levels n step rows \<noteq> None" by blast
qed

section \<open>Reachable rows\<close>

text \<open>The rows one row leads to, as a relation; the walk collects what can be reached over it.\<close>

definition leads_to :: "('r \<Rightarrow> 'r list) \<Rightarrow> ('r \<times> 'r) set" where
  "leads_to F = {(y, z). z \<in> set (F y)}"

lemma set_concat_leads_to: "set (concat (map F ys)) = leads_to F `` set ys"
  by (auto simp: leads_to_def)

lemma rtrancl_Image_step: "R\<^sup>* `` A = A \<union> R\<^sup>* `` (R `` A)"
proof -
  have "R\<^sup>* = Id \<union> R O R\<^sup>*" using rtrancl_trancl_reflcl[of R] trancl_unfold_left[of R] by (auto simp: Un_commute)
  then have "R\<^sup>* `` A = (Id \<union> R O R\<^sup>*) `` A" by simp
  then show ?thesis by (auto simp: relcomp_Image)
qed

lemma levels_reach:
  "levels n (\<lambda>ys. concat (map F ys)) ys = Some res \<Longrightarrow> set res = (leads_to F)\<^sup>* `` set ys"
proof (induction n arbitrary: ys res)
  case (Suc n)
  show ?case
  proof (cases "ys = []")
    case False
    then obtain rs where "res = ys @ rs" "levels n (\<lambda>ys. concat (map F ys)) (concat (map F ys)) = Some rs"
      using Suc.prems by auto
    then show ?thesis using Suc.IH[of "concat (map F ys)" rs] rtrancl_Image_step[of "leads_to F" "set ys"]
      by (simp only: set_append set_concat_leads_to)
  qed (use Suc.prems in simp)
qed (simp split: if_splits)

lemma set_funpow_leads_to: "set (((\<lambda>ys. concat (map F ys)) ^^ k) ys) = (leads_to F ^^ k) `` set ys"
  by (induction k) (simp_all only: funpow.simps comp_apply id_apply relpow.simps relcomp_Image set_concat_leads_to Image_Id)

lemma relpow_empty_later:
  fixes R :: "('r \<times> 'r) set"
  shows "(R ^^ k) `` A = {} \<Longrightarrow> k \<le> m \<Longrightarrow> (R ^^ m) `` A = {}"
  using relpow_add[of k "m - k" R] by (simp add: relcomp_Image)

lemma cycle_never_dry:
  assumes "(x, y) \<in> R\<^sup>*" and "(y, y) \<in> R\<^sup>+"
  shows "(R ^^ k) `` {x} \<noteq> {}"
proof -
  obtain m p where m: "(x, y) \<in> R ^^ m" and p: "0 < p" "(y, y) \<in> R ^^ p"
    using assms by (auto simp: rtrancl_power trancl_power)
  have "(y, y) \<in> R ^^ (p * j)" for j by (induction j) (use p(2) in \<open>auto simp: relpow_add intro: relcompI\<close>)
  then have "(x, y) \<in> R ^^ (m + p * k)" using m by (auto simp: relpow_add)
  moreover have "k \<le> m + p * k" using p(1) by (cases p) simp_all
  ultimately show ?thesis using relpow_empty_later[where R = R and k = k and m = "m + p * k" and A = "{x}"] by blast
qed

lemma dry_from_successors:
  fixes R :: "('r \<times> 'r) set"
  assumes fin: "finite (R `` {y})" and "\<forall>z\<in>R `` {y}. \<exists>k. (R ^^ k) `` {z} = {}"
  shows "\<exists>k. (R ^^ k) `` {y} = {}"
proof -
  obtain d where d: "\<And>z. z \<in> R `` {y} \<Longrightarrow> (R ^^ d z) `` {z} = {}" using assms(2) by metis
  let ?m = "Max (d ` (R `` {y}))"
  have "(R ^^ ?m) `` {z} = {}" if "z \<in> R `` {y}" for z
    using relpow_empty_later[OF d[OF that]] that fin by simp
  then have "(R ^^ ?m) `` (R `` {y}) = {}" by blast
  then have "(R ^^ Suc ?m) `` {y} = {}" by (simp only: relpow.simps(2) relpow_commute[symmetric] relcomp_Image)
  then show ?thesis by blast
qed

lemma acyclic_runs_dry:
  assumes fin: "finite (R\<^sup>* `` {x})" and none: "\<And>y. (x, y) \<in> R\<^sup>* \<Longrightarrow> (y, y) \<notin> R\<^sup>+"
  shows "\<exists>k. (R ^^ k) `` {x} = {}"
proof -
  define S where "S = R\<^sup>* `` {x}"
  define Q where "Q = R \<inter> S \<times> S"
  have "acyclic Q"
  proof (rule acyclicI, intro allI notI)
    fix y assume c: "(y, y) \<in> Q\<^sup>+"
    then have "y \<in> S" using trancl_subset_Sigma[of Q S] by (auto simp: Q_def)
    then show False using none[of y] trancl_mono[OF c, of R] by (auto simp: S_def Q_def)
  qed
  then have wf: "wf (Q\<inverse>)" using fin by (intro finite_acyclic_wf_converse) (auto simp: Q_def S_def)
  have "y \<in> S \<longrightarrow> (\<exists>k. (R ^^ k) `` {y} = {})" for y
    using wf
  proof (induction y rule: wf_induct_rule)
    case (less y)
    have sub: "R `` {y} \<subseteq> S" if "y \<in> S" using that by (auto simp: S_def intro: rtrancl_into_rtrancl)
    show ?case
    proof
      assume y: "y \<in> S"
      show "\<exists>k. (R ^^ k) `` {y} = {}"
      proof (rule dry_from_successors)
        show "finite (R `` {y})" using fin sub[OF y] unfolding S_def by (rule rev_finite_subset)
        show "\<forall>z\<in>R `` {y}. \<exists>k. (R ^^ k) `` {z} = {}" using less sub[OF y] y by (auto simp: Q_def)
      qed
    qed
  qed
  then show ?thesis by (simp add: S_def)
qed

text \<open>C40. \<open>find_linked_recursive\<close> of a model answers exactly the rows the link leads to from it in one or more steps. As a
  recursive query it is done after some number of steps if and only if no row on the way leads back to itself.\<close>

theorem linked_recursive_reaches:
  assumes chain: "recursive_chain sql e link" and e: "stored sql missing e" and x: "x \<in> set (entity_rows sql e)"
    and exact: "list_all (exact_row e) (entity_rows sql e)"
    and R: "R = leads_to (follow (hops sql link_holds link))"
  shows "\<exists>rq. model_find_linked_recursive checks e link (row_model e x) = Ret rq \<and>
    (\<forall>n. pred_option (\<lambda>rows. set rows = cells [] (en_columns e) ` (R\<^sup>+ `` {x})) (recursive_rows sql n rq)) \<and>
    ((\<exists>n. recursive_rows sql n rq \<noteq> None) \<longleftrightarrow> \<not> (\<exists>y. (x, y) \<in> R\<^sup>* \<and> (y, y) \<in> R\<^sup>+))"
proof -
  let ?F = "follow (hops sql link_holds link)" and ?cells = "cells [] (en_columns e)"
  let ?g = "\<lambda>ys. concat (map ?F ys)"
  have linked: "linked_chain sql e e link" using chain by (simp add: recursive_chain_def)
  obtain rq where rq: "model_find_linked_recursive checks e link (row_model e x) = Ret rq"
    using linked_recursive_levels[OF chain e x exact, of checks] by blast
  have lv: "rel_option (\<lambda>rs ys. mset rs = mset (map ?cells ys)) (recursive_rows sql n rq) (levels n ?g (?F x))" for n
    using linked_recursive_levels[OF chain e x exact, of checks n] rq by auto
  have "set (?F y) \<subseteq> set (entity_rows sql e)" if "y \<in> set (entity_rows sql e)" for y
    by (rule linked_rows_stay[OF linked that])
  then have stay: "R `` set (entity_rows sql e) \<subseteq> set (entity_rows sql e)" by (auto simp: R leads_to_def)
  have reach: "R\<^sup>* `` {x} \<subseteq> set (entity_rows sql e)"
    using Image_closed_trancl[OF stay] x by blast
  have start: "set (?F x) = R `` {x}" by (auto simp: R leads_to_def)
  have "pred_option (\<lambda>rows. set rows = ?cells ` (R\<^sup>+ `` {x})) (recursive_rows sql n rq)" for n
  proof (cases "recursive_rows sql n rq")
    case (Some rows)
    then obtain ys where "levels n ?g (?F x) = Some ys" "mset rows = mset (map ?cells ys)"
      using lv[of n] by (auto simp: option_rel_Some1)
    then show ?thesis
      using Some levels_reach[of n ?F "?F x" ys] mset_eq_setD[of rows "map ?cells ys"]
      by (simp add: start R[symmetric] trancl_unfold_left relcomp_Image)
  qed simp
  moreover have "(\<exists>n. recursive_rows sql n rq \<noteq> None) \<longleftrightarrow> (\<exists>k. (R ^^ k) `` {x} = {})"
  proof -
    have "recursive_rows sql n rq \<noteq> None \<longleftrightarrow> levels n ?g (?F x) \<noteq> None" for n
      using lv[of n] by (auto simp: option.rel_sel)
    moreover have "(R ^^ Suc k) `` {x} = (R ^^ k) `` (R `` {x})" for k
      by (simp only: relpow.simps(2) relpow_commute[symmetric] relcomp_Image)
    then have "(?g ^^ k) (?F x) = [] \<longleftrightarrow> (R ^^ Suc k) `` {x} = {}" for k
      using set_funpow_leads_to[of k ?F "?F x"] unfolding start R[symmetric] by (metis set_empty)
    moreover have "(\<exists>k. (R ^^ Suc k) `` {x} = {}) \<longleftrightarrow> (\<exists>k. (R ^^ k) `` {x} = {})"
      using relpow_empty_later[where R = R and A = "{x}"] by (metis le_SucI order_refl)
    ultimately show ?thesis using levels_done_iff[of ?g "?F x"] by (simp only:)
  qed
  moreover have "finite (R\<^sup>* `` {x})" using reach by (rule finite_subset) simp
  ultimately show ?thesis using rq acyclic_runs_dry[of R x] cycle_never_dry[of x _ R] by blast
qed

section \<open>An example\<close>

text \<open>People and the people they lead: 1 leads 2 and 3, 2 leads 4.\<close>

definition person_entity :: "(nat model, nat) select_entity" where
  "person_entity = derived_entity no_column None ''person'' [int_column ''id'' False, int_column ''lead_id'' True]
     [int_column ''id'' False]"

definition leads :: "(nat, unit) test relation_def" where
  "leads = key_relation ''person'' ''id'' ''person'' ''lead_id''"

definition company :: "(nat, unit) sql" where
  "company = \<lparr>sql_tables = (\<lambda>t. if table_part t = ''person'' then
        [[''id'' \<mapsto> 1], [''id'' \<mapsto> 2, ''lead_id'' \<mapsto> 1], [''id'' \<mapsto> 3, ''lead_id'' \<mapsto> 1], [''id'' \<mapsto> 4, ''lead_id'' \<mapsto> 2]]
       else []),
     sql_user = (\<lambda>_ _. None), sql_test = (\<lambda>_ _. True), sql_cust = (\<lambda>_. None)\<rparr>"

lemmas company_simps = person_entity_def int_column_def key_relation_def plain_ref_def leads_def company_def derived_entity_def

lemma company_rows: "entity_rows company person_entity =
    [[''id'' \<mapsto> 1], [''id'' \<mapsto> 2, ''lead_id'' \<mapsto> 1], [''id'' \<mapsto> 3, ''lead_id'' \<mapsto> 1], [''id'' \<mapsto> 4, ''lead_id'' \<mapsto> 2]]"
  by (simp add: entity_rows_def en_table_ref_def company_simps)

lemma company_facts:
  "recursive_chain company person_entity [leads]" "stored company no_column person_entity"
  "list_all (exact_row person_entity) (entity_rows company person_entity)"
proof -
  show "recursive_chain company person_entity [leads]"
    by (simp add: recursive_chain_def linked_chain_def en_table_ref_def uniform_def company_simps link_alias_def lessThan_Suc)
  show "stored company no_column person_entity"
    unfolding stored_def company_rows by (simp add: derived_def company_simps key_of_def readable_def)
  show "list_all (exact_row person_entity) (entity_rows company person_entity)"
    unfolding company_rows by (simp add: exact_row_def company_simps)
qed

lemma company_hops: "hops company link_holds [leads] =
    [(entity_rows company person_entity, \<lambda>x y. x ''id'' \<noteq> None \<and> x ''id'' = y ''lead_id'')]"
  unfolding company_rows
  by (simp add: hops_def fun_eq_iff link_holds_def keys_equal_def extra_holds_def company_simps)

lemma company_reached: "(leads_to (follow (hops company link_holds [leads])))\<^sup>+ `` {[''id'' \<mapsto> 1]} =
    {[''id'' \<mapsto> 2, ''lead_id'' \<mapsto> 1], [''id'' \<mapsto> 3, ''lead_id'' \<mapsto> 1], [''id'' \<mapsto> 4, ''lead_id'' \<mapsto> 2]}"
proof -
  have "levels 3 (\<lambda>ys. concat (map (follow (hops company link_holds [leads])) ys))
      (follow (hops company link_holds [leads]) [''id'' \<mapsto> 1]) =
    Some [[''id'' \<mapsto> 2, ''lead_id'' \<mapsto> 1], [''id'' \<mapsto> 3, ''lead_id'' \<mapsto> 1], [''id'' \<mapsto> 4, ''lead_id'' \<mapsto> 2]]"
    unfolding company_hops company_rows by (simp add: numeral_3_eq_3)
  from levels_reach[OF this] show ?thesis
    by (simp add: trancl_unfold_left relcomp_Image) (simp add: leads_to_def Image_def)
qed

lemma company_upwards:
  "(y, z) \<in> (leads_to (follow (hops company link_holds [leads])))\<^sup>+ \<Longrightarrow> the (y ''id'') < the (z ''id'')"
proof -
  have step: "the (y ''id'') < the (z ''id'')" if "(y, z) \<in> leads_to (follow (hops company link_holds [leads]))" for y z
  proof -
    have "z \<in> set (entity_rows company person_entity)" "y ''id'' \<noteq> None" "y ''id'' = z ''lead_id''"
      using that by (auto simp: company_hops leads_to_def dest: sym)
    then show ?thesis unfolding company_rows by auto
  qed
  show "(y, z) \<in> (leads_to (follow (hops company link_holds [leads])))\<^sup>+ \<Longrightarrow> the (y ''id'') < the (z ''id'')"
    by (induction rule: trancl_induct) (auto dest: step)
qed

theorem linked_recursive_reaches_witness:
  "\<exists>rq n rows. model_find_linked_recursive True person_entity [leads] [Some 1, None] = Ret rq \<and>
    recursive_rows company n rq = Some rows \<and>
    set rows = {[(''id'', Some 2), (''lead_id'', Some 1)], [(''id'', Some 3), (''lead_id'', Some 1)],
      [(''id'', Some 4), (''lead_id'', Some 2)]}"
proof -
  have x: "[''id'' \<mapsto> 1] \<in> set (entity_rows company person_entity)" by (simp add: company_rows)
  have "row_model person_entity [''id'' \<mapsto> 1] = [Some 1, None]" by (simp add: row_model_def company_simps)
  moreover have "\<not> (\<exists>y. ([''id'' \<mapsto> 1], y) \<in> (leads_to (follow (hops company link_holds [leads])))\<^sup>* \<and>
      (y, y) \<in> (leads_to (follow (hops company link_holds [leads])))\<^sup>+)"
    using company_upwards by (meson less_irrefl)
  ultimately obtain rq where rq: "model_find_linked_recursive True person_entity [leads] [Some 1, None] = Ret rq"
    "\<forall>n. pred_option (\<lambda>rows. set rows = cells [] (en_columns person_entity) `
      ((leads_to (follow (hops company link_holds [leads])))\<^sup>+ `` {[''id'' \<mapsto> 1]})) (recursive_rows company n rq)"
    "\<exists>n. recursive_rows company n rq \<noteq> None"
    using linked_recursive_reaches[OF company_facts(1,2) x company_facts(3) refl, of True] by auto
  then obtain n rows where rows: "recursive_rows company n rq = Some rows" by auto
  then show ?thesis
    using rq(1) rq(2)[rule_format, of n] unfolding company_reached by (auto simp: company_simps cells_def)
qed

end
