(* ===== verification/Spec2Isabelle.thy ===== *)
theory Spec2Isabelle
  imports RbacMount ConsolidateSpec SchemaSyncSpec DbTransactionSpec MockTransactions Paginator CursorSpec
    MigrationProps LoaderProps MutationSpec LinksSpec GeneratorImports SelectExt SelectRecursive
begin

text \<open>
  A verification library for SeaORM, an object-relational mapper in Rust. The sources are under
  \<open>src/\<close> of the repository (the crates \<open>sea-orm\<close>, in \<open>src\<close>, \<open>sea-orm-migration\<close>, \<open>sea-orm-codegen\<close> and \<open>sea-orm-macros\<close>); file names
  below are relative to the crate.

  \<^bold>\<open>How the code is modelled.\<close> A Rust function that may panic or not return has an outcome \<open>'a run\<close>
  (\<open>Ret\<close>, \<open>Panic\<close>, \<open>Diverge\<close>); \<open>Result<T, E>\<close> is the sum \<open>'e + 't\<close> with \<open>Inl\<close> for \<open>Err\<close>. A struct is
  a record, an enum a datatype, a \<open>u64\<close> a \<open>64 word\<close> where its width matters. A hash map is a list of
  entries in its iteration order; its laws are the locale \<open>hash_map\<close> of \<open>SeaPrelude\<close>, and what must not
  depend on the iteration order is proved not to. Code outside the repository is an argument: a driver
  call is an \<open>io\<close>, from the world to a result and the world after it, and an \<open>async fn\<close> over such
  calls is an \<open>act\<close> (\<open>DbIo\<close>). A theorem about such a function assumes only what the documentation of
  the database says (for example \<open>migration_store\<close>, \<open>updates_rows\<close>, the laws of SQLite's savepoints),
  and its witness discharges the assumptions on a concrete database.

  \<^bold>\<open>The parts and their theories\<close>, in the order in which they build on each other:

  \<^item> \<open>SeaPrelude\<close>, \<open>SeaErrors\<close>, \<open>DbIo\<close>: outcomes, hash maps, printing; \<open>src/error.rs\<close>; actions.
  \<^item> \<open>RbacModel\<close>, \<open>RoleHierarchy\<close>, \<open>RbacEngine\<close>, \<open>RbacPolicy\<close>, \<open>RbacReports\<close>, \<open>RbacMount\<close>
    (\<open>src/rbac\<close>, \<open>src/database/restricted_connection.rs\<close>): the rows of the access tables, the walk over
    the role hierarchy, the engine built from a snapshot and its decision, the policy over the tables
    alone that the decision implements, the reports, and the connection that checks each statement.
    The walk is a partial function whose termination is characterised: it returns iff no role reachable
    from the root lies on a cycle that avoids the root.
  \<^item> \<open>Consolidate\<close>, \<open>ConsolidateSpec\<close> (\<open>src/executor/consolidate.rs\<close>): joined rows grouped per left
    model. The four loops share the locale \<open>row_grouping\<close>, the inverse of the join the locale
    \<open>join_rows\<close>.
  \<^item> \<open>Topology\<close> (\<open>src/schema/topology.rs\<close>), \<open>RelationDef\<close> (\<open>src/entity/identity.rs\<close>, \<open>relation.rs\<close>),
    \<open>SchemaEntity\<close>, \<open>SchemaSync\<close>, \<open>SchemaSyncSpec\<close> (\<open>src/schema/entity.rs\<close>, \<open>builder.rs\<close>): the order of
    tables under their foreign keys, the statements made of entities, and the synchronisation of a
    schema, compared with a plan of statements; a second synchronisation emits nothing.
  \<^item> \<open>MockDatabase\<close>, \<open>DbTransaction\<close>, \<open>DbTransactionSpec\<close>, \<open>MockTransactions\<close> (\<open>src/database/mock.rs\<close>,
    \<open>src/database/transaction.rs\<close>, \<open>src/driver/mock.rs\<close>, the transactions of \<open>src/driver/rusqlite.rs\<close>):
    the handle on a shared connection, with its destructor, refines an atomic block; the locale
    \<open>transaction_driver\<close> is the contract of a driver, interpreted for rusqlite and for the mock.
  \<^item> \<open>Paginator\<close>, \<open>ValueTuples\<close>, \<open>Cursor\<close>, \<open>CursorSpec\<close> (\<open>src/executor/paginator.rs\<close>,
    \<open>src/executor/cursor.rs\<close>, \<open>src/query/util.rs\<close>): pages by offset and by key; the cursor's condition is
    the lexicographic order of its columns, and what it reads a window of the sorted rows.
  \<^item> \<open>Migration\<close>, \<open>MigrationSpec\<close>, \<open>MigrationProps\<close> (\<open>sea-orm-migration/src\<close>): the commands of the
    migrator, their loops and transactions, refine a plan over the data and the recorded versions.
  \<^item> \<open>Loader\<close>, \<open>LoaderSpec\<close>, \<open>LoaderProps\<close> (\<open>src/query/loader.rs\<close>): one query for the related models
    of many models, directly or through a junction, gives what a query per model gives.
  \<^item> \<open>ActiveModels\<close>, \<open>Mutations\<close>, \<open>MutationSpec\<close> (\<open>src/entity/active_value.rs\<close>, \<open>active_model.rs\<close>,
    \<open>src/query/insert.rs\<close>, \<open>update.rs\<close>, \<open>delete.rs\<close> and \<open>src/executor\<close>): the statements made of active
    models, and insert, update, save and delete with and without \<open>RETURNING\<close>, which refine the same
    operation on a table.
  \<^item> \<open>Links\<close>, \<open>LinksSpec\<close> (the junction operations of \<open>src/entity/active_model.rs\<close>): the statements
    that bring the links of a model to a given set refine the replacement of that set.
  \<^item> \<open>CodegenModel\<close>, \<open>Transformer\<close>, \<open>TransformerSpec\<close>, \<open>CodegenWriter\<close>, \<open>CodegenFormats\<close>, \<open>CodegenProps\<close>,
    \<open>GeneratorGuarantees\<close>, \<open>GeneratorImports\<close> (\<open>sea-orm-codegen/src\<close>): the entity generator, from the
    statements of a schema to entities and from these to Rust items, files and a diagram. The relations
    it writes are those of the foreign keys, on both sides; the items refer to each other consistently.
    Schemas for which the output does not compile are theorems as well.

  \<^item> \<open>Select\<close>, \<open>SelectJoins\<close>, \<open>SelectExec\<close>, \<open>SelectExt\<close> (\<open>src/query/select.rs\<close>, \<open>helper.rs\<close>, \<open>combine.rs\<close>,
    \<open>join.rs\<close>, \<open>src/entity/link.rs\<close>, \<open>src/executor/select.rs\<close>, \<open>select/\<close>, \<open>select_ext.rs\<close>): the clauses of a
    select, the joins along relations and links with their aliases, \<open>has_related\<close>, recursive queries, the
    decoding of rows and the selects of up to six entities. A statement of sea-query is a record.
  \<^item> \<open>SqlRows\<close>, \<open>SelectSpec\<close>, \<open>SelectChains\<close>, \<open>SelectProps\<close>, \<open>SelectAnswers\<close>, \<open>SelectGuarantees\<close>,
    \<open>SelectRecursive\<close>: what a database answers to such a statement, by nested loops over the joins with
    SQL's treatment of NULL, and the theorems that rest on it. A query that joins everything at once
    gives what a query per model gives, and a chain of relations is followed hop by hop. They assume that the
    database answers selects with these rows (\<open>answers\<close>), that the relations form a chain whose tables and aliases
    do not clash (\<open>linked_chain\<close>, \<open>related_chain\<close>), and that the tables hold rows of the entities with
    keys (\<open>stored\<close>).

  \<^bold>\<open>Loops and bounds.\<close> A loop over a list is a structural recursion or a fold. The two walks over the
  role hierarchy and nothing else may run for ever; they are \<open>partial_function (option)\<close>, with \<open>None\<close>
  for a walk that does not return. No definition of the code uses fuel; the evaluation of a recursive query counts
  its steps, and \<open>linked_recursive_reaches\<close> says when some number of them is enough. Counters of the paginator, affected rows
  and role ranks keep their width, and overflow is a panic or a wrap as the build profile says
  (the argument \<open>checks\<close>).

  \<^bold>\<open>Not modelled.\<close> The conversion of single column values (macro-generated over the rows of the drivers),
  partial models, tuples, JSON and streams as results of a select, the drivers over sqlx, the procedural
  macros except the derived decoding of a model, the printing of the generator's tokens, the command line
  tools, the Arrow and Rocket integrations, and the synchronous copy \<open>sea-orm-sync\<close>, which the build
  generates from the modelled code. Statements are records of what the components put into them, not
  SQL text, so rendering is out of scope.
\<close>

end
